(* ===== verification/Prelude.thy ===== *)
theory Prelude
  imports Main "HOL-Library.AList" "HOL-Library.Word" "HOL-Library.Code_Target_Nat"
begin

text \<open>
  Shared vocabulary of the development: the collections the component theories
  fill and use, concurrent hash maps (\<open>dashmap::DashMap\<close>) as association
  lists with distinct keys, the interface every such keyed store meets, and a
  few facts about lists and options the components share.

  Time: a \<open>std::time::Duration\<close> and a \<open>std::time::Instant\<close> are a number of
  nanoseconds (an instant counts from an arbitrary origin of the monotonic
  clock).  Rust panics when an instant plus a duration leaves the range of the
  clock; every duration the program adds is at most six hours, so the model uses
  unbounded \<^typ>\<open>nat\<close>.
\<close>

named_theorems store_simps "rewrite rules of the keyed stores"
named_theorems text_simps "rewrite rules of Rust string operations"
named_theorems runtime_defs "definitions of the runtime-state operations"
named_theorems frame_simps "fields an operation leaves alone"

type_synonym instant = nat
type_synonym duration = nat

abbreviation nanos_per_sec :: nat where
  "nanos_per_sec \<equiv> 1000000000"

definition from_secs :: "nat \<Rightarrow> duration" where
  "from_secs s = s * nanos_per_sec"

definition as_secs :: "duration \<Rightarrow> nat" where
  "as_secs d = d div nanos_per_sec"

definition subsec_nanos :: "duration \<Rightarrow> nat" where
  "subsec_nanos d = d mod nanos_per_sec"

lemma as_secs_from_secs [simp]: "as_secs (from_secs s) = s"
  by (simp add: as_secs_def from_secs_def)

lemma subsec_nanos_from_secs [simp]: "subsec_nanos (from_secs s) = 0"
  by (simp add: subsec_nanos_def from_secs_def)

lemma from_secs_le_iff [simp]: "from_secs a \<le> from_secs b \<longleftrightarrow> a \<le> b"
  by (simp add: from_secs_def)

lemma from_secs_less_iff [simp]: "from_secs a < from_secs b \<longleftrightarrow> a < b"
  by (simp add: from_secs_def)

lemma from_secs_inj [simp]: "from_secs a = from_secs b \<longleftrightarrow> a = b"
  by (simp add: from_secs_def)

lemma duration_split: "d = as_secs d * nanos_per_sec + subsec_nanos d"
  by (simp add: as_secs_def subsec_nanos_def)

section \<open>Results\<close>

text \<open>A \<open>Result<T, E>\<close> is \<^typ>\<open>'e + 'a\<close>: \<^const>\<open>Inl\<close> is \<open>Err\<close>, \<^const>\<open>Inr\<close> is \<open>Ok\<close>.\<close>

definition res_bind :: "'e + 'a \<Rightarrow> ('a \<Rightarrow> 'e + 'b) \<Rightarrow> 'e + 'b" where
  "res_bind r f = (case r of Inl e \<Rightarrow> Inl e | Inr a \<Rightarrow> f a)"

lemma res_bind_simps [simp]:
  "res_bind (Inl e) f = Inl e"
  "res_bind (Inr a) f = f a"
  by (simp_all add: res_bind_def)

lemma res_bind_Inr_iff:
  "res_bind r f = Inr b \<longleftrightarrow> (\<exists>a. r = Inr a \<and> f a = Inr b)"
  by (cases r) simp_all

definition is_ok :: "'e + 'a \<Rightarrow> bool" where
  "is_ok r = (case r of Inl e \<Rightarrow> False | Inr a \<Rightarrow> True)"

lemma is_ok_simps [simp]: "\<not> is_ok (Inl e)" "is_ok (Inr a)"
  by (simp_all add: is_ok_def)

definition or_else :: "'a option \<Rightarrow> 'a option \<Rightarrow> 'a option" where
  "or_else a b = (case a of Some v \<Rightarrow> Some v | None \<Rightarrow> b)"

definition unwrap_or :: "'a option \<Rightarrow> 'a \<Rightarrow> 'a" where
  "unwrap_or o' d = (case o' of None \<Rightarrow> d | Some a \<Rightarrow> a)"

lemma unwrap_or_simps [simp]: "unwrap_or None d = d" "unwrap_or (Some a) d = a"
  by (simp_all add: unwrap_or_def)

text \<open>\<open>Option::or\<close>.\<close>

definition opt_or :: "'a option \<Rightarrow> 'a option \<Rightarrow> 'a option" where
  "opt_or a b = (case a of None \<Rightarrow> b | Some x \<Rightarrow> Some x)"

lemma opt_or_simps [simp]: "opt_or None b = b" "opt_or (Some x) b = Some x"
  by (simp_all add: opt_or_def)

text \<open>\<open>Option::filter\<close>.\<close>

definition opt_filter :: "('a \<Rightarrow> bool) \<Rightarrow> 'a option \<Rightarrow> 'a option" where
  "opt_filter P x = (case x of None \<Rightarrow> None | Some a \<Rightarrow> if P a then Some a else None)"

lemma opt_filter_Some_iff [simp]: "opt_filter P x = Some a \<longleftrightarrow> x = Some a \<and> P a"
  by (auto simp: opt_filter_def split: option.splits)

lemma opt_filter_simps [simp]:
  "opt_filter P None = None"
  "opt_filter P (Some a) = (if P a then Some a else None)"
  by (simp_all add: opt_filter_def)

section \<open>Keyed stores\<close>

text \<open>
  What the program relies on of a map it shares between requests
  (\<open>DashMap::get\<close>, \<open>insert\<close>, \<open>remove\<close>, \<open>retain\<close>): a lookup
  sees exactly the last write to its own key.
\<close>

locale keyed_store =
  fixes get :: "'m \<Rightarrow> 'k \<Rightarrow> 'v option"
    and put :: "'k \<Rightarrow> 'v \<Rightarrow> 'm \<Rightarrow> 'm"
    and del :: "'k \<Rightarrow> 'm \<Rightarrow> 'm"
    and keep :: "('k \<Rightarrow> 'v \<Rightarrow> bool) \<Rightarrow> 'm \<Rightarrow> 'm"
    and ok :: "'m \<Rightarrow> bool"
    and fresh :: 'm
  assumes get_fresh: "get fresh k = None"
    and get_put: "ok m \<Longrightarrow> get (put k v m) k' = (if k' = k then Some v else get m k')"
    and get_del: "ok m \<Longrightarrow> get (del k m) k' = (if k' = k then None else get m k')"
    and get_keep: "ok m \<Longrightarrow> get (keep P m) k = opt_filter (P k) (get m k)"
    and ok_fresh: "ok fresh"
    and ok_put: "ok m \<Longrightarrow> ok (put k v m)"
    and ok_del: "ok m \<Longrightarrow> ok (del k m)"
    and ok_keep: "ok m \<Longrightarrow> ok (keep P m)"
begin

text \<open>\<open>map.entry(k).or_default()\<close> followed by an update of the value in place.\<close>

definition upsert :: "'v \<Rightarrow> ('v \<Rightarrow> 'v) \<Rightarrow> 'k \<Rightarrow> 'm \<Rightarrow> 'm" where
  "upsert d f k m = put k (f (unwrap_or (get m k) d)) m"

text \<open>\<open>map.get_mut(k)\<close> or \<open>and_modify\<close>: an absent key stays absent.\<close>

definition modify :: "('v \<Rightarrow> 'v) \<Rightarrow> 'k \<Rightarrow> 'm \<Rightarrow> 'm" where
  "modify f k m = (case get m k of None \<Rightarrow> m | Some v \<Rightarrow> put k (f v) m)"

lemma get_upsert:
  "ok m \<Longrightarrow> get (upsert d f k m) k' = (if k' = k then Some (f (unwrap_or (get m k) d)) else get m k')"
  by (simp add: upsert_def get_put)

lemma get_modify:
  "ok m \<Longrightarrow> get (modify f k m) k' = (if k' = k then map_option f (get m k) else get m k')"
  by (auto simp: modify_def get_put split: option.splits)

lemma ok_upsert: "ok m \<Longrightarrow> ok (upsert d f k m)"
  by (simp add: upsert_def ok_put)

lemma ok_modify: "ok m \<Longrightarrow> ok (modify f k m)"
  by (simp add: modify_def ok_put split: option.splits)

text \<open>A run of writes never touches a key that none of them names.\<close>

lemma get_fold_upsert_frame:
  assumes "ok m" and "k \<notin> fst ` set ws"
  shows "get (fold (\<lambda>(j, f). upsert d f j) ws m) k = get m k"
  using assms
proof (induction ws arbitrary: m)
  case Nil
  then show ?case by simp
next
  case (Cons w ws)
  obtain j f where w: "w = (j, f)" by (cases w)
  with Cons.prems have "k \<noteq> j" and "k \<notin> fst ` set ws" by auto
  moreover from Cons.prems(1) have "ok (upsert d f j m)" by (rule ok_upsert)
  ultimately show ?case using Cons.IH Cons.prems(1) by (simp add: w get_upsert)
qed

end

section \<open>The store: association lists with distinct keys\<close>

type_synonym ('k, 'v) dmap = "('k \<times> 'v) list"

definition dm_get :: "('k, 'v) dmap \<Rightarrow> 'k \<Rightarrow> 'v option" where
  "dm_get m k = map_of m k"

definition dm_put :: "'k \<Rightarrow> 'v \<Rightarrow> ('k, 'v) dmap \<Rightarrow> ('k, 'v) dmap" where
  "dm_put k v m = AList.update k v m"

definition dm_del :: "'k \<Rightarrow> ('k, 'v) dmap \<Rightarrow> ('k, 'v) dmap" where
  "dm_del k m = AList.delete k m"

definition dm_retain :: "('k \<Rightarrow> 'v \<Rightarrow> bool) \<Rightarrow> ('k, 'v) dmap \<Rightarrow> ('k, 'v) dmap" where
  "dm_retain P m = filter (\<lambda>(k, v). P k v) m"

definition dm_ok :: "('k, 'v) dmap \<Rightarrow> bool" where
  "dm_ok m \<longleftrightarrow> distinct (map fst m)"

definition dm_upsert :: "'v \<Rightarrow> ('v \<Rightarrow> 'v) \<Rightarrow> 'k \<Rightarrow> ('k, 'v) dmap \<Rightarrow> ('k, 'v) dmap" where
  "dm_upsert d f k m = dm_put k (f (unwrap_or (dm_get m k) d)) m"

definition dm_modify :: "('v \<Rightarrow> 'v) \<Rightarrow> 'k \<Rightarrow> ('k, 'v) dmap \<Rightarrow> ('k, 'v) dmap" where
  "dm_modify f k m = (case dm_get m k of None \<Rightarrow> m | Some v \<Rightarrow> dm_put k (f v) m)"

text \<open>\<open>for mut entry in map.iter_mut() { if P(key) { f(value) } }\<close>.\<close>

definition dm_map_where :: "('k \<Rightarrow> bool) \<Rightarrow> ('v \<Rightarrow> 'v) \<Rightarrow> ('k, 'v) dmap \<Rightarrow> ('k, 'v) dmap" where
  "dm_map_where P f m = map (\<lambda>(k, v). (k, if P k then f v else v)) m"

lemma dm_get_eq_None: "dm_get m k = None \<longleftrightarrow> k \<notin> fst ` set m"
  by (simp add: dm_get_def map_of_eq_None_iff)

lemma dm_get_retain:
  "dm_ok m \<Longrightarrow> dm_get (dm_retain P m) k = opt_filter (P k) (dm_get m k)"
proof (induction m)
  case Nil
  then show ?case by (simp add: dm_get_def dm_retain_def)
next
  case (Cons e m)
  obtain j v where e: "e = (j, v)" by (cases e)
  from Cons.prems have ok: "dm_ok m" and new: "j \<notin> fst ` set m"
    by (auto simp: dm_ok_def e)
  from new have "map_of m j = None" by (simp add: map_of_eq_None_iff)
  with Cons.IH [OF ok] show ?case
    by (auto simp: dm_get_def dm_retain_def e)
qed

lemma dm_ok_retain: "dm_ok m \<Longrightarrow> dm_ok (dm_retain P m)"
  by (simp add: dm_ok_def dm_retain_def distinct_map_filter)

interpretation dm: keyed_store dm_get dm_put dm_del dm_retain dm_ok "[]"
  rewrites "keyed_store.upsert dm_get dm_put = dm_upsert"
    and "keyed_store.modify dm_get dm_put = dm_modify"
proof -
  show dm: "keyed_store dm_get dm_put dm_del dm_retain dm_ok []"
    by unfold_locales
      (simp_all add: dm_get_retain dm_ok_retain,
       simp_all add: dm_get_def dm_put_def dm_del_def dm_ok_def update_conv' delete_conv'
         distinct_update distinct_delete)
  show "keyed_store.upsert dm_get dm_put = dm_upsert"
    by (intro ext) (simp add: keyed_store.upsert_def [OF dm] dm_upsert_def)
  show "keyed_store.modify dm_get dm_put = dm_modify"
    by (intro ext) (simp add: keyed_store.modify_def [OF dm] dm_modify_def)
qed

lemmas [store_simps] =
  dm.get_fresh dm.get_put dm.get_del dm.get_keep dm.get_upsert dm.get_modify

lemmas dm_ok_intros [simp, intro] =
  dm.ok_fresh dm.ok_put dm.ok_del dm.ok_keep dm.ok_upsert dm.ok_modify

lemma dm_get_map_where [store_simps]:
  "dm_get (dm_map_where P f m) k = (if P k then map_option f (dm_get m k) else dm_get m k)"
  by (induction m) (auto simp: dm_get_def dm_map_where_def)

lemma dm_ok_map_where [simp, intro]: "dm_ok m \<Longrightarrow> dm_ok (dm_map_where P f m)"
  by (simp add: dm_ok_def dm_map_where_def case_prod_beta comp_def)

lemma dm_get_SomeD: "dm_get m k = Some v \<Longrightarrow> (k, v) \<in> set m"
  by (simp add: dm_get_def map_of_SomeD)

lemma dm_get_SomeI: "dm_ok m \<Longrightarrow> (k, v) \<in> set m \<Longrightarrow> dm_get m k = Some v"
  by (simp add: dm_get_def dm_ok_def map_of_is_SomeI)

lemma dm_get_iff: "dm_ok m \<Longrightarrow> dm_get m k = Some v \<longleftrightarrow> (k, v) \<in> set m"
  by (blast intro: dm_get_SomeD dm_get_SomeI)

section \<open>Lists\<close>

lemma find_Some_iff_mem: "find P xs = Some x \<Longrightarrow> x \<in> set xs \<and> P x"
  by (auto simp: find_Some_iff)

lemma find_None_iff_all: "find P xs = None \<longleftrightarrow> (\<forall>x\<in>set xs. \<not> P x)"
  by (auto simp: find_None_iff)

lemma find_unique_key:
  assumes "distinct (map f xs)" and "x \<in> set xs"
  shows "find (\<lambda>y. f y = f x) xs = Some x"
  using assms by (induction xs) auto

lemma set_map_filter_eq: "set (List.map_filter f xs) = {y. \<exists>x\<in>set xs. f x = Some y}"
  by (induction xs) (auto simp: List.map_filter_simps split: option.splits)

end
