(* ===== verification/RustText.thy ===== *)
theory RustText
  imports Prelude "HOL-Library.Sublist" "HOL-Library.List_Lexorder" "HOL-Library.Char_ord"
begin

text \<open>
  Rust's \<open>str\<close> and \<open>String\<close>.  A string is its sequence of UTF-8 bytes, an
  Isabelle \<^typ>\<open>string\<close> (a \<^typ>\<open>char\<close> is a byte), so \<open>len()\<close> is
  \<^const>\<open>length\<close>, and \<open>starts_with\<close>, \<open>split_once\<close>, \<open>contains\<close> and
  \<open>to_ascii_lowercase\<close> are the byte-wise functions below.  \<open>chars()\<close> groups the
  bytes into scalar values: a scalar value is a byte that is no continuation byte
  (10xxxxxx) with the continuation bytes behind it.  On valid UTF-8, which every
  \<open>str\<close> is, that is exactly the decoding; no operation of the program needs a
  scalar value's number.
\<close>

section \<open>Scalar values\<close>

definition byte_of :: "char \<Rightarrow> nat" where
  "byte_of c = of_char c"

definition is_cont :: "char \<Rightarrow> bool" where
  "is_cont c \<longleftrightarrow> 128 \<le> byte_of c \<and> byte_of c < 192"

function chars :: "string \<Rightarrow> string list" where
  "chars [] = []"
| "chars (c # s) = (c # takeWhile is_cont s) # chars (dropWhile is_cont s)"
  by pat_completeness auto
termination
  by (relation "measure length") (auto simp: length_dropWhile_le le_imp_less_Suc)

lemma concat_chars [simp]: "concat (chars s) = s"
  by (induction s rule: chars.induct) simp_all

lemma chars_nonempty: "d \<in> set (chars s) \<Longrightarrow> d \<noteq> []"
  by (induction s rule: chars.induct) auto

lemma chars_eq_Nil [simp]: "chars s = [] \<longleftrightarrow> s = []"
  by (cases s) simp_all

text \<open>A string of ASCII bytes has one byte per scalar value.\<close>

definition is_ascii :: "string \<Rightarrow> bool" where
  "is_ascii s \<longleftrightarrow> list_all (\<lambda>c. byte_of c < 128) s"

lemma is_ascii_simps [simp]:
  "is_ascii []"
  "is_ascii (c # s) \<longleftrightarrow> byte_of c < 128 \<and> is_ascii s"
  by (simp_all add: is_ascii_def)

lemma takeWhile_cont_ascii:
  "is_ascii s \<Longrightarrow> takeWhile is_cont s = [] \<and> dropWhile is_cont s = s"
  by (cases s) (auto simp: is_cont_def)

lemma chars_ascii: "is_ascii s \<Longrightarrow> chars s = map (\<lambda>c. [c]) s"
  by (induction s) (auto simp: takeWhile_cont_ascii)

lemma length_concat_ge:
  "(\<And>d. d \<in> set ds \<Longrightarrow> d \<noteq> []) \<Longrightarrow> length ds \<le> length (concat ds)"
proof (induction ds)
  case Nil
  then show ?case by simp
next
  case (Cons d ds)
  have "Suc 0 \<le> length d" using Cons.prems [of d] by (cases d) auto
  moreover have "length ds \<le> length (concat ds)" using Cons by simp
  ultimately show ?case by simp
qed

lemma length_chars_le: "length (chars s) \<le> length s"
  using length_concat_ge [of "chars s"] chars_nonempty by auto

text \<open>The chunk shape of decoded text; dropping or taking chunks keeps it.\<close>

definition is_chunk :: "string \<Rightarrow> bool" where
  "is_chunk d \<longleftrightarrow> d \<noteq> [] \<and> list_all is_cont (tl d)"

definition is_lead_chunk :: "string \<Rightarrow> bool" where
  "is_lead_chunk d \<longleftrightarrow> is_chunk d \<and> \<not> is_cont (hd d)"

fun chunked :: "string list \<Rightarrow> bool" where
  "chunked [] \<longleftrightarrow> True"
| "chunked (d # ds) \<longleftrightarrow> is_chunk d \<and> list_all is_lead_chunk ds"

lemma is_chunk_Cons [simp]: "is_chunk (c # r) \<longleftrightarrow> list_all is_cont r"
  by (simp add: is_chunk_def)

lemma is_lead_chunk_Cons [simp]: "is_lead_chunk (c # r) \<longleftrightarrow> list_all is_cont r \<and> \<not> is_cont c"
  by (simp add: is_lead_chunk_def)

lemma is_lead_chunkD: "is_lead_chunk d \<Longrightarrow> is_chunk d"
  by (simp add: is_lead_chunk_def)

lemma lead_chunks_chunked: "list_all is_lead_chunk ds \<Longrightarrow> chunked ds"
  by (cases ds) (simp_all add: is_lead_chunkD)

lemma hd_dropWhile_not: "dropWhile P xs \<noteq> [] \<Longrightarrow> \<not> P (hd (dropWhile P xs))"
  by (rule hd_dropWhile)

lemma chars_lead:
  "chunked (chars s) \<and> (s \<noteq> [] \<and> \<not> is_cont (hd s) \<longrightarrow> list_all is_lead_chunk (chars s))"
proof (induction s rule: chars.induct)
  case 1
  show ?case by simp
next
  case (2 c s)
  let ?r = "dropWhile is_cont s"
  have tw: "list_all is_cont (takeWhile is_cont s)"
    by (auto simp: list_all_iff dest: set_takeWhileD)
  have "list_all is_lead_chunk (chars ?r)"
  proof (cases "?r = []")
    case True
    then have e: "chars ?r = []" by (simp only: chars.simps)
    show ?thesis by (simp only: e list.pred_inject)
  next
    case False
    with "2.IH" hd_dropWhile_not [of is_cont s] show ?thesis by blast
  qed
  with tw show ?case by simp
qed

lemma chunked_chars: "chunked (chars s)"
  using chars_lead by simp

lemma takeWhile_all_append:
  "list_all P xs \<Longrightarrow> ys = [] \<or> \<not> P (hd ys) \<Longrightarrow>
     takeWhile P (xs @ ys) = xs \<and> dropWhile P (xs @ ys) = ys"
  by (induction xs) (cases ys; auto)+

lemma chars_concat_chunked: "chunked ds \<Longrightarrow> chars (concat ds) = ds"
proof (induction ds)
  case Nil
  then show ?case by simp
next
  case (Cons d ds)
  from Cons.prems obtain c r where d: "d = c # r" and r: "list_all is_cont r"
    by (cases d) (auto simp: is_chunk_def)
  have "concat ds = [] \<or> \<not> is_cont (hd (concat ds))"
    using Cons.prems by (cases ds) (auto simp: is_lead_chunk_def is_chunk_def)
  from takeWhile_all_append [OF r this] Cons d show ?case
    by (simp add: lead_chunks_chunked)
qed

lemma chunked_prefix: "chunked (ds @ es) \<Longrightarrow> chunked ds"
  by (cases ds) simp_all

lemma chunked_suffix: "chunked (ds @ es) \<Longrightarrow> chunked es"
  by (cases ds) (simp_all add: lead_chunks_chunked)

lemma chunked_take: "chunked ds \<Longrightarrow> chunked (take n ds)"
  by (rule chunked_prefix [where es = "drop n ds"]) simp

text \<open>\<open>s.chars().take(n).collect::<String>()\<close>.\<close>

definition take_chars :: "nat \<Rightarrow> string \<Rightarrow> string" where
  "take_chars n s = concat (take n (chars s))"

lemma chars_take_chars: "chars (take_chars n s) = take n (chars s)"
  by (simp add: take_chars_def chars_concat_chunked chunked_take chunked_chars)

lemma take_chars_idem [simp]: "take_chars n (take_chars n s) = take_chars n s"
proof -
  have "take_chars n (take_chars n s) = concat (take n (chars (take_chars n s)))"
    by (rule take_chars_def)
  also have "\<dots> = take_chars n s"
    by (simp only: chars_take_chars) (simp add: take_chars_def)
  finally show ?thesis .
qed

lemma take_chars_prefix: "prefix (take_chars n s) s"
proof -
  have "s = take_chars n s @ concat (drop n (chars s))"
    by (simp add: take_chars_def flip: concat_append)
  then show ?thesis by (rule prefixI)
qed

lemma take_chars_short: "length (chars s) \<le> n \<Longrightarrow> take_chars n s = s"
  by (simp add: take_chars_def)

section \<open>Whitespace, control characters and trimming\<close>

text \<open>\<open>char::is_whitespace\<close>: Unicode's White_Space property, in UTF-8.\<close>

definition is_whitespace :: "string \<Rightarrow> bool" where
  "is_whitespace d \<longleftrightarrow>
     (case map byte_of d of
        [b] \<Rightarrow> (9 \<le> b \<and> b \<le> 13) \<or> b = 32
      | [a, b] \<Rightarrow> a = 194 \<and> (b = 133 \<or> b = 160)
      | [a, b, c] \<Rightarrow>
          (a = 225 \<and> b = 154 \<and> c = 128)
        \<or> (a = 226 \<and> b = 128 \<and> ((128 \<le> c \<and> c \<le> 138) \<or> c = 168 \<or> c = 169 \<or> c = 175))
        \<or> (a = 226 \<and> b = 129 \<and> c = 159)
        \<or> (a = 227 \<and> b = 128 \<and> c = 128)
      | _ \<Rightarrow> False)"

text \<open>\<open>char::is_control\<close>: U+0000..U+001F and U+007F..U+009F.\<close>

definition is_control :: "string \<Rightarrow> bool" where
  "is_control d \<longleftrightarrow>
     (case map byte_of d of
        [b] \<Rightarrow> b \<le> 31 \<or> b = 127
      | [a, b] \<Rightarrow> a = 194 \<and> 128 \<le> b \<and> b \<le> 159
      | _ \<Rightarrow> False)"

definition strip_list :: "('a \<Rightarrow> bool) \<Rightarrow> 'a list \<Rightarrow> 'a list" where
  "strip_list P xs = rev (dropWhile P (rev (dropWhile P xs)))"

definition trim :: "string \<Rightarrow> string" where
  "trim s = concat (strip_list is_whitespace (chars s))"

text \<open>\<open>split_whitespace().collect::<Vec<_>>().join(" ")\<close> and the splitting it uses.\<close>

fun split_when :: "('a \<Rightarrow> bool) \<Rightarrow> 'a list \<Rightarrow> 'a list list" where
  "split_when P [] = [[]]"
| "split_when P (x # xs) =
     (if P x then [] # split_when P xs
      else case split_when P xs of [] \<Rightarrow> [[x]] | g # gs \<Rightarrow> (x # g) # gs)"

definition split_whitespace :: "string \<Rightarrow> string list" where
  "split_whitespace s = map concat (filter (\<lambda>g. g \<noteq> []) (split_when is_whitespace (chars s)))"

fun join :: "string \<Rightarrow> string list \<Rightarrow> string" where
  "join sep [] = []"
| "join sep [x] = x"
| "join sep (x # y # ys) = x @ sep @ join sep (y # ys)"

lemma split_when_not_Nil [simp]: "split_when P xs \<noteq> []"
  by (induction xs) (auto split: list.splits)

lemma split_when_no_sep: "g \<in> set (split_when P xs) \<Longrightarrow> x \<in> set g \<Longrightarrow> \<not> P x"
proof (induction xs arbitrary: g)
  case Nil
  then show ?case by simp
next
  case (Cons y ys)
  obtain a gs where a: "split_when P ys = a # gs" by (cases "split_when P ys") simp_all
  with Cons.IH [of a] Cons.IH [of g] Cons.prems show ?case by (auto split: if_splits)
qed

lemma dropWhile_all_not: "(\<And>x. x \<in> set xs \<Longrightarrow> \<not> P x) \<Longrightarrow> dropWhile P xs = xs"
  by (cases xs) auto

lemma strip_list_subset: "set (strip_list P xs) \<subseteq> set xs"
  unfolding strip_list_def by (auto dest!: set_dropWhileD)

lemma last_strip_list: "strip_list P xs \<noteq> [] \<Longrightarrow> \<not> P (last (strip_list P xs))"
  unfolding strip_list_def by (simp add: last_rev hd_dropWhile)

lemma rev_dropWhile_rev_prefix: "prefix (rev (dropWhile P (rev xs))) xs"
  by (metis rev_rev_ident suffix_dropWhile suffix_to_prefix)

lemma hd_strip_list: "strip_list P xs \<noteq> [] \<Longrightarrow> \<not> P (hd (strip_list P xs))"
proof -
  assume ne: "strip_list P xs \<noteq> []"
  from rev_dropWhile_rev_prefix [of P "dropWhile P xs"]
  obtain zs where zs: "dropWhile P xs = strip_list P xs @ zs"
    by (auto simp: strip_list_def prefix_def)
  with ne have "hd (strip_list P xs) = hd (dropWhile P xs)" by (metis hd_append2)
  moreover from zs ne have "dropWhile P xs \<noteq> []" by auto
  ultimately show ?thesis by (metis hd_dropWhile)
qed

lemma strip_list_fix: "xs = [] \<or> (\<not> P (hd xs) \<and> \<not> P (last xs)) \<Longrightarrow> strip_list P xs = xs"
proof -
  assume a: "xs = [] \<or> (\<not> P (hd xs) \<and> \<not> P (last xs))"
  then have "dropWhile P xs = xs" by (cases xs) auto
  moreover from a have "dropWhile P (rev xs) = rev xs"
    by (cases xs rule: rev_cases) auto
  ultimately show ?thesis by (simp add: strip_list_def)
qed

lemma strip_list_idem [simp]: "strip_list P (strip_list P xs) = strip_list P xs"
proof (rule strip_list_fix)
  show "strip_list P xs = [] \<or> \<not> P (hd (strip_list P xs)) \<and> \<not> P (last (strip_list P xs))"
    using hd_strip_list [of P xs] last_strip_list [of P xs] by argo
qed

lemma chunked_strip: "chunked ds \<Longrightarrow> chunked (strip_list P ds)"
proof -
  assume "chunked ds"
  then have "chunked (takeWhile P ds @ dropWhile P ds)" by simp
  then have c: "chunked (dropWhile P ds)" by (rule chunked_suffix)
  obtain zs where "dropWhile P ds = strip_list P ds @ zs"
    using rev_dropWhile_rev_prefix [of P "dropWhile P ds"] by (auto simp: strip_list_def prefix_def)
  with c have "chunked (strip_list P ds @ zs)" by (simp only:)
  then show ?thesis by (rule chunked_prefix)
qed

lemma chars_trim: "chars (trim s) = strip_list is_whitespace (chars s)"
  by (simp add: trim_def chars_concat_chunked chunked_strip chunked_chars)

lemma trim_idem [simp]: "trim (trim s) = trim s"
proof -
  have "trim (trim s) = concat (strip_list is_whitespace (chars (trim s)))"
    by (rule trim_def)
  also have "\<dots> = trim s"
    by (simp only: chars_trim strip_list_idem) (simp add: trim_def)
  finally show ?thesis .
qed

section \<open>Prefixes, splitting, searching\<close>

definition starts_with :: "string \<Rightarrow> string \<Rightarrow> bool" where
  "starts_with s p \<longleftrightarrow> take (length p) s = p"

lemma starts_with_iff: "starts_with s p \<longleftrightarrow> prefix p s"
  by (metis starts_with_def append_eq_conv_conj append_take_drop_id prefix_def)

definition ends_with :: "string \<Rightarrow> string \<Rightarrow> bool" where
  "ends_with s p \<longleftrightarrow> length p \<le> length s \<and> drop (length s - length p) s = p"

definition strip_prefix :: "string \<Rightarrow> string \<Rightarrow> string option" where
  "strip_prefix p s = (if starts_with s p then Some (drop (length p) s) else None)"

definition strip_suffix :: "string \<Rightarrow> string \<Rightarrow> string option" where
  "strip_suffix p s = (if ends_with s p then Some (take (length s - length p) s) else None)"

lemma strip_prefix_Some_iff: "strip_prefix p s = Some r \<longleftrightarrow> s = p @ r"
proof
  assume "strip_prefix p s = Some r"
  then have "take (length p) s = p" and "r = drop (length p) s"
    by (auto simp: strip_prefix_def starts_with_def split: if_splits)
  then show "s = p @ r" by (metis append_take_drop_id)
qed (simp add: strip_prefix_def starts_with_def)

text \<open>\<open>str::split_once\<close> on a one-byte separator: at its first occurrence.\<close>

fun split_once :: "char \<Rightarrow> string \<Rightarrow> (string \<times> string) option" where
  "split_once c [] = None"
| "split_once c (x # xs) =
     (if x = c then Some ([], xs)
      else map_option (\<lambda>(a, b). (x # a, b)) (split_once c xs))"

lemma split_once_Some_iff:
  "split_once c s = Some (a, b) \<longleftrightarrow> s = a @ c # b \<and> c \<notin> set a"
proof (induction s arbitrary: a)
  case Nil
  then show ?case by simp
next
  case (Cons x xs)
  then show ?case by (cases a; cases "split_once c xs") (auto, blast?)
qed

lemma split_once_None_iff: "split_once c s = None \<longleftrightarrow> c \<notin> set s"
  by (induction s) auto

text \<open>\<open>str::split\<close> on a one-byte separator.\<close>

definition split_on :: "char \<Rightarrow> string \<Rightarrow> string list" where
  "split_on c s = split_when (\<lambda>x. x = c) s"

fun contains :: "string \<Rightarrow> string \<Rightarrow> bool" where
  "contains [] p \<longleftrightarrow> p = []"
| "contains (c # s) p \<longleftrightarrow> starts_with (c # s) p \<or> contains s p"

lemma contains_iff: "contains s p \<longleftrightarrow> sublist p s"
proof (induction s)
  case Nil
  then show ?case by simp
next
  case (Cons c s)
  then show ?case by (simp add: sublist_Cons_right starts_with_iff)
qed

text \<open>\<open>trim_end_matches(c)\<close>, \<open>trim_start_matches(p)\<close>.\<close>

definition trim_end_char :: "char \<Rightarrow> string \<Rightarrow> string" where
  "trim_end_char c s = rev (dropWhile (\<lambda>x. x = c) (rev s))"

function trim_start_str :: "string \<Rightarrow> string \<Rightarrow> string" where
  "trim_start_str p s =
     (if p \<noteq> [] \<and> starts_with s p then trim_start_str p (drop (length p) s) else s)"
  by pat_completeness auto
termination
proof (relation "measure (\<lambda>(p, s). length s)")
  fix p s :: string
  assume a: "p \<noteq> [] \<and> starts_with s p"
  then have "s \<noteq> []" by (auto simp: starts_with_def)
  with a show "((p, drop (length p) s), (p, s)) \<in> measure (\<lambda>(p, s). length s)" by simp
qed simp

declare trim_start_str.simps [simp del]

text \<open>\<open>str::split\<close> on a separator of more than one byte.\<close>

function split_str :: "string \<Rightarrow> string \<Rightarrow> string list" where
  "split_str sep s =
     (if sep \<noteq> [] \<and> starts_with s sep then [] # split_str sep (drop (length sep) s)
      else (case s of
              [] \<Rightarrow> [[]]
            | c # cs \<Rightarrow> (case split_str sep cs of p # ps \<Rightarrow> (c # p) # ps | [] \<Rightarrow> [[c]])))"
  by pat_completeness auto
termination
proof (relation "measure (\<lambda>(sep, s). length s)")
  fix sep s :: string
  assume a: "sep \<noteq> [] \<and> starts_with s sep"
  then have "s \<noteq> []" by (auto simp: starts_with_def)
  with a show "((sep, drop (length sep) s), sep, s) \<in> measure (\<lambda>(sep, s). length s)" by simp
qed simp_all

declare split_str.simps [simp del]

lemma split_str_piece:
  "x \<notin> set p \<Longrightarrow> split_str (x # ys) (p @ (x # ys) @ rest) = p # split_str (x # ys) rest"
proof (induction p)
  case Nil
  then show ?case by (subst split_str.simps) (auto simp: starts_with_def)
next
  case (Cons c p)
  then show ?case by (subst split_str.simps) (auto simp: starts_with_def)
qed

lemma split_str_whole: "x \<notin> set p \<Longrightarrow> split_str (x # ys) p = [p]"
proof (induction p)
  case Nil
  then show ?case by (subst split_str.simps) (auto simp: starts_with_def)
next
  case (Cons c p)
  then show ?case by (subst split_str.simps) (auto simp: starts_with_def)
qed

lemma split_str_join:
  "\<forall>p\<in>set ps. x \<notin> set p \<Longrightarrow> ps \<noteq> [] \<Longrightarrow> split_str (x # ys) (join (x # ys) ps) = ps"
proof (induction "x # ys" ps rule: join.induct)
  case (3 p q ps)
  then show ?case using split_str_piece [of x p ys] by simp
qed (simp_all add: split_str_whole)

text \<open>\<open>str::find\<close> and \<open>str::replace\<close>.\<close>

fun find_str :: "string \<Rightarrow> string \<Rightarrow> nat option" where
  "find_str [] p = (if p = [] then Some 0 else None)"
| "find_str (c # s) p = (if starts_with (c # s) p then Some 0 else map_option Suc (find_str s p))"

definition replace_str :: "string \<Rightarrow> string \<Rightarrow> string \<Rightarrow> string" where
  "replace_str from_text to_text s = join to_text (split_str from_text s)"

lemma join_Cons_char: "join sep ((x # a) # ps) = x # join sep (a # ps)"
  by (cases ps) simp_all

text \<open>A message part between single quotes.\<close>

definition quoted :: "string \<Rightarrow> string" where
  "quoted s = [CHR 0x27] @ s @ [CHR 0x27]"

section \<open>Case, numbers\<close>

definition ascii_lower :: "char \<Rightarrow> char" where
  "ascii_lower c =
     (if 65 \<le> byte_of c \<and> byte_of c \<le> 90 then char_of (byte_of c + 32) else c)"

definition to_ascii_lowercase :: "string \<Rightarrow> string" where
  "to_ascii_lowercase s = map ascii_lower s"

definition eq_ignore_ascii_case :: "string \<Rightarrow> string \<Rightarrow> bool" where
  "eq_ignore_ascii_case a b \<longleftrightarrow> to_ascii_lowercase a = to_ascii_lowercase b"

lemma byte_of_char_of [simp]: "n < 256 \<Longrightarrow> byte_of (char_of n) = n"
  by (simp add: byte_of_def)

lemma ascii_lower_idem [simp]: "ascii_lower (ascii_lower c) = ascii_lower c"
  by (auto simp: ascii_lower_def)

lemma to_ascii_lowercase_idem [simp]:
  "to_ascii_lowercase (to_ascii_lowercase s) = to_ascii_lowercase s"
  by (simp add: to_ascii_lowercase_def)

lemma length_to_ascii_lowercase [simp]: "length (to_ascii_lowercase s) = length s"
  by (simp add: to_ascii_lowercase_def)

definition is_ascii_digit :: "char \<Rightarrow> bool" where
  "is_ascii_digit c \<longleftrightarrow> 48 \<le> byte_of c \<and> byte_of c \<le> 57"

definition is_ascii_alphanumeric :: "char \<Rightarrow> bool" where
  "is_ascii_alphanumeric c \<longleftrightarrow> is_ascii_digit c
     \<or> (65 \<le> byte_of c \<and> byte_of c \<le> 90) \<or> (97 \<le> byte_of c \<and> byte_of c \<le> 122)"

text \<open>\<open>Display\<close> of an integer.\<close>

fun show_nat :: "nat \<Rightarrow> string" where
  "show_nat n = (if n < 10 then [char_of (48 + n)]
                 else show_nat (n div 10) @ [char_of (48 + n mod 10)])"

declare show_nat.simps [simp del]

definition show_int :: "int \<Rightarrow> string" where
  "show_int i = (if i < 0 then ''-'' @ show_nat (nat (- i)) else show_nat (nat i))"

text \<open>\<open>{:02}\<close>: at least two digits, padded with zeros.\<close>

definition show_nat2 :: "nat \<Rightarrow> string" where
  "show_nat2 n = (if n < 10 then ''0'' @ show_nat n else show_nat n)"

fun digits_value :: "nat \<Rightarrow> string \<Rightarrow> nat option" where
  "digits_value acc [] = Some acc"
| "digits_value acc (c # s) =
     (if is_ascii_digit c then digits_value (10 * acc + (byte_of c - 48)) s else None)"

text \<open>\<open>str::parse::<u64>()\<close>: an optional plus sign, at least one digit, no overflow.\<close>

definition parse_u64 :: "string \<Rightarrow> nat option" where
  "parse_u64 s =
     (let ds = (case s of c # r \<Rightarrow> if c = CHR ''+'' then r else s | [] \<Rightarrow> s)
      in if ds = [] then None
         else opt_filter (\<lambda>n. n < 2 ^ 64) (digits_value 0 ds))"

lemma digits_value_append:
  "digits_value acc (s @ t) = Option.bind (digits_value acc s) (\<lambda>v. digits_value v t)"
  by (induction s arbitrary: acc) auto

lemma show_nat_digits: "c \<in> set (show_nat n) \<Longrightarrow> is_ascii_digit c"
  by (induction n rule: show_nat.induct)
    (subst (asm) (2) show_nat.simps, auto simp: is_ascii_digit_def split: if_splits)

lemma show_nat_not_Nil [simp]: "show_nat n \<noteq> []"
  by (subst show_nat.simps) simp

lemma digits_value_show_nat: "digits_value 0 (show_nat n) = Some n"
proof (induction n rule: show_nat.induct)
  case (1 n)
  show ?case
  proof (cases "n < 10")
    case True
    then show ?thesis by (subst show_nat.simps) (simp add: is_ascii_digit_def)
  next
    case False
    with "1.IH" have "digits_value 0 (show_nat (n div 10)) = Some (n div 10)" by simp
    with False show ?thesis
      by (subst show_nat.simps) (simp add: digits_value_append is_ascii_digit_def)
  qed
qed

lemma parse_u64_show_nat: "n < 2 ^ 64 \<Longrightarrow> parse_u64 (show_nat n) = Some n"
proof -
  assume n: "n < 2 ^ 64"
  obtain c r where cr: "show_nat n = c # r" by (cases "show_nat n") simp_all
  then have "is_ascii_digit c" using show_nat_digits [of c n] by simp
  then have "c \<noteq> CHR ''+''" by (auto simp: is_ascii_digit_def byte_of_def)
  with n cr digits_value_show_nat [of n] show ?thesis by (simp add: parse_u64_def)
qed

lemma show_nat_inj: "show_nat m = show_nat n \<Longrightarrow> m = n"
  by (metis digits_value_show_nat option.inject)

end
