(* ===== verification/Json.thy ===== *)
theory Json
  imports Complex_Main RustText
begin

text \<open>
  \<open>serde_json::Value\<close> and the accessors the program uses.  An object is
  \<open>serde_json\<close>'s default map, a \<open>BTreeMap\<close>: an association list in
  increasing key order.  A number is what \<open>serde_json\<close> stores: a \<open>u64\<close>, a
  negative \<open>i64\<close>, or a finite double, kept as the rational it denotes.
  Text is turned into a value by \<open>serde_json\<close>'s parser, which is not part of
  the repository and is a parameter wherever the program calls it.
\<close>

datatype jnum = PosInt nat | NegInt int | Flt rat

datatype json =
    JNull
  | JBool bool
  | JNum jnum
  | JStr string
  | JArr "json list"
  | JObj "(string \<times> json) list"

section \<open>Accessors\<close>

text \<open>\<open>Value::get(key)\<close> and \<open>value[key]\<close> (which reads a missing key as null).\<close>

fun jget :: "json \<Rightarrow> string \<Rightarrow> json option" where
  "jget (JObj m) k = map_of m k"
| "jget _ k = None"

definition jidx :: "json \<Rightarrow> string \<Rightarrow> json" where
  "jidx v k = unwrap_or (jget v k) JNull"

fun is_null :: "json \<Rightarrow> bool" where
  "is_null JNull = True"
| "is_null _ = False"

fun is_object :: "json \<Rightarrow> bool" where
  "is_object (JObj _) = True"
| "is_object _ = False"

fun as_str :: "json \<Rightarrow> string option" where
  "as_str (JStr s) = Some s"
| "as_str _ = None"

fun as_bool :: "json \<Rightarrow> bool option" where
  "as_bool (JBool b) = Some b"
| "as_bool _ = None"

fun as_array :: "json \<Rightarrow> json list option" where
  "as_array (JArr vs) = Some vs"
| "as_array _ = None"

text \<open>\<open>as_i64\<close>: an unsigned number above \<open>i64::MAX\<close> and a double are no \<open>i64\<close>.\<close>

fun as_i64 :: "json \<Rightarrow> int option" where
  "as_i64 (JNum (PosInt n)) = (if n < 2 ^ 63 then Some (int n) else None)"
| "as_i64 (JNum (NegInt i)) = Some i"
| "as_i64 _ = None"

section \<open>Doubles\<close>

text \<open>
  Rounding a rational to the nearest double, ties to even: \<open>ilog2\<close> is the
  binary exponent of a positive rational, and the significand has 53 bits.
  Exponents stay in the normal range for every number the program computes with.
\<close>

fun bitlen :: "nat \<Rightarrow> nat" where
  "bitlen n = (if n = 0 then 0 else Suc (bitlen (n div 2)))"

declare bitlen.simps [simp del]

definition pow2 :: "int \<Rightarrow> rat" where
  "pow2 e = (if 0 \<le> e then 2 ^ nat e else 1 / 2 ^ nat (- e))"

definition ilog2 :: "rat \<Rightarrow> int" where
  "ilog2 x = (let (p, q) = quotient_of x;
                  k = int (bitlen (nat p)) - int (bitlen (nat q))
              in if pow2 k \<le> x then k else k - 1)"

definition round_half_even :: "rat \<Rightarrow> int" where
  "round_half_even x = (let f = floor x; r = x - of_int f
     in if r < 1 / 2 then f
        else if 1 / 2 < r then f + 1
        else if even f then f else f + 1)"

definition f64_round :: "rat \<Rightarrow> rat" where
  "f64_round x =
     (if x = 0 then 0
      else let s = (if x < 0 then -1 else 1); a = \<bar>x\<bar>; e = ilog2 a - 52
           in s * of_int (round_half_even (a / pow2 e)) * pow2 e)"

text \<open>\<open>as_f64\<close>: integers are converted with the rounding of \<open>as f64\<close>.\<close>

fun as_f64 :: "json \<Rightarrow> rat option" where
  "as_f64 (JNum (PosInt n)) = Some (f64_round (of_nat n))"
| "as_f64 (JNum (NegInt i)) = Some (f64_round (of_int i))"
| "as_f64 (JNum (Flt x)) = Some x"
| "as_f64 _ = None"

section \<open>Updating objects\<close>

fun obj_insert :: "string \<Rightarrow> json \<Rightarrow> (string \<times> json) list \<Rightarrow> (string \<times> json) list" where
  "obj_insert k v [] = [(k, v)]"
| "obj_insert k v ((k', v') # m) =
     (if k = k' then (k, v) # m
      else if k < k' then (k, v) # (k', v') # m
      else (k', v') # obj_insert k v m)"

definition obj_remove :: "string \<Rightarrow> (string \<times> json) list \<Rightarrow> (string \<times> json) list" where
  "obj_remove k m = filter (\<lambda>e. fst e \<noteq> k) m"

definition obj_ok :: "(string \<times> json) list \<Rightarrow> bool" where
  "obj_ok m \<longleftrightarrow> sorted_wrt (<) (map fst m)"

text \<open>\<open>json!({..})\<close>.\<close>

definition jobj :: "(string \<times> json) list \<Rightarrow> json" where
  "jobj kvs = JObj (fold (\<lambda>(k, v). obj_insert k v) kvs [])"

lemma map_of_obj_insert [simp]:
  "map_of (obj_insert k v m) k' = (if k' = k then Some v else map_of m k')"
  by (induction m) auto

lemma map_of_obj_remove [simp]:
  "map_of (obj_remove k m) k' = (if k' = k then None else map_of m k')"
  by (induction m) (auto simp: obj_remove_def)

lemma fst_set_obj_insert: "fst ` set (obj_insert k v m) = insert k (fst ` set m)"
proof (induction m)
  case Nil
  then show ?case by simp
next
  case (Cons e m)
  obtain k' v' where "e = (k', v')" by (cases e)
  with Cons show ?case by (simp add: insert_commute)
qed

lemma obj_ok_insert [simp]: "obj_ok m \<Longrightarrow> obj_ok (obj_insert k v m)"
proof (induction m)
  case Nil
  then show ?case by (simp add: obj_ok_def)
next
  case (Cons e m)
  obtain k' v' where e: "e = (k', v')" by (cases e)
  from Cons.prems have ok: "obj_ok m" and less: "\<forall>x\<in>fst ` set m. k' < x"
    by (auto simp: obj_ok_def e)
  have "\<forall>x\<in>fst ` set (obj_insert k v m). k' < x" if "k' < k"
    using less that by (simp add: fst_set_obj_insert)
  with Cons.IH [OF ok] less ok show ?case
    by (auto simp: obj_ok_def e dest: less_trans)
qed

lemma obj_ok_remove [simp]: "obj_ok m \<Longrightarrow> obj_ok (obj_remove k m)"
  by (induction m) (auto simp: obj_ok_def obj_remove_def)

lemma jget_jobj: "jget (jobj kvs) k = map_of (rev kvs) k"
proof -
  have "map_of (fold (\<lambda>(k, v). obj_insert k v) kvs m) k = (case map_of (rev kvs) k of Some v \<Rightarrow> Some v | None \<Rightarrow> map_of m k)" for m
    by (induction kvs arbitrary: m) (auto simp: map_add_def split: option.splits)
  from this [of "[]"] show ?thesis by (simp add: jobj_def split: option.splits)
qed

lemma jidx_simps [simp]:
  "jidx (JObj m) k = unwrap_or (map_of m k) JNull"
  "jidx JNull k = JNull"
  "jidx (JStr s) k = JNull"
  "jidx (JArr xs) k = JNull"
  "jidx (JBool b) k = JNull"
  "jidx (JNum n) k = JNull"
  by (simp_all add: jidx_def)

end
