(* ===== verification/Model.thy ===== *)
theory Model
  imports Json
begin

text \<open>
  The data model of \<open>src/core/model.rs\<close>, \<open>src/core/reasoning.rs\<close> (effort
  levels) and \<open>src/core/error.rs\<close>: one datatype per enum, one record per
  struct, with the wire names \<open>serde\<close> and \<open>sqlx\<close> give the variants.
  Timestamps (\<open>DateTime<Utc>\<close>) are nanoseconds since the epoch, an \<open>i64\<close> is an
  \<^typ>\<open>int\<close>.
\<close>

type_synonym timestamp = int

section \<open>Enums\<close>

datatype wire_format = OpenAi | Anthropic

datatype pool_wire = PoolOpenAi | PoolAnthropic | PoolAny

fun accepts :: "pool_wire \<Rightarrow> wire_format \<Rightarrow> bool" where
  "accepts PoolAny wire = True"
| "accepts PoolOpenAi wire = (wire = OpenAi)"
| "accepts PoolAnthropic wire = (wire = Anthropic)"

fun pool_wire_of :: "wire_format \<Rightarrow> pool_wire" where
  "pool_wire_of OpenAi = PoolOpenAi"
| "pool_wire_of Anthropic = PoolAnthropic"

datatype provider_kind = Passthrough | OauthCodex | OauthCommandCode

datatype effort_level = Low | Medium | High

datatype pool_strategy = Priority | RoundRobin

datatype modality = Chat | Image

text \<open>The lowercase or snake_case names of the variants, in JSON and in the database.\<close>

fun wire_format_text :: "wire_format \<Rightarrow> string" where
  "wire_format_text OpenAi = ''openai''"
| "wire_format_text Anthropic = ''anthropic''"

fun pool_wire_text :: "pool_wire \<Rightarrow> string" where
  "pool_wire_text PoolOpenAi = ''openai''"
| "pool_wire_text PoolAnthropic = ''anthropic''"
| "pool_wire_text PoolAny = ''any''"

fun modality_text :: "modality \<Rightarrow> string" where
  "modality_text Chat = ''chat''"
| "modality_text Image = ''image''"

text \<open>\<open>{:?}\<close> of the enums that appear in messages.\<close>

fun wire_format_debug :: "wire_format \<Rightarrow> string" where
  "wire_format_debug OpenAi = ''OpenAi''"
| "wire_format_debug Anthropic = ''Anthropic''"

fun provider_kind_debug :: "provider_kind \<Rightarrow> string" where
  "provider_kind_debug Passthrough = ''Passthrough''"
| "provider_kind_debug OauthCodex = ''OauthCodex''"
| "provider_kind_debug OauthCommandCode = ''OauthCommandCode''"

fun effort_level_debug :: "effort_level \<Rightarrow> string" where
  "effort_level_debug Low = ''Low''"
| "effort_level_debug Medium = ''Medium''"
| "effort_level_debug High = ''High''"

lemma accepts_pool_wire_of [simp]: "accepts (pool_wire_of w) w' \<longleftrightarrow> w' = w"
  by (cases w) auto

lemma wire_text_agree: "pool_wire_text (pool_wire_of w) = wire_format_text w"
  by (cases w) simp_all

lemma wire_format_text_inj [simp]: "wire_format_text a = wire_format_text b \<longleftrightarrow> a = b"
  by (cases a; cases b) simp_all

lemma pool_wire_text_inj [simp]: "pool_wire_text a = pool_wire_text b \<longleftrightarrow> a = b"
  by (cases a; cases b) simp_all

text \<open>A pool's column equals a provider's column exactly when the pool is pinned to that format.\<close>

lemma pool_wire_text_eq_wire_text:
  "pool_wire_text p = wire_format_text w \<longleftrightarrow> p = pool_wire_of w"
  by (cases p; cases w) simp_all

section \<open>Rows\<close>

record provider =
  prov_id :: string
  prov_name :: string
  prov_wire_format :: wire_format
  prov_kind :: provider_kind
  prov_base_url :: "string option"
  prov_api_key :: "string option"
  prov_upstream_model :: string
  prov_dataset_logging :: bool
  prov_default_reasoning_effort :: "effort_level option"
  prov_created_at :: timestamp
  prov_updated_at :: timestamp

record pool =
  pool_id :: string
  pool_wire_format :: pool_wire
  pool_created_at :: timestamp
  pool_strategy :: pool_strategy
  pool_sticky_limit :: "int option"
  pool_modality :: modality

record pool_member =
  mem_pool_id :: string
  mem_provider_id :: string
  mem_priority :: int
  mem_model_override :: "string option"
  mem_dataset_logging_override :: "bool option"
  mem_reasoning_effort_override :: "effort_level option"

record pool_with_members =
  pwm_pool :: pool
  pwm_members :: "pool_member list"

record oauth_state =
  os_provider_id :: string
  os_access_token :: "string option"
  os_refresh_token :: "string option"
  os_id_token :: "string option"
  os_access_expires_at :: "timestamp option"
  os_provider_data :: json
  os_pkce_verifier :: "string option"
  os_oauth_state :: "string option"
  os_updated_at :: timestamp

record log_entry =
  le_pool_id :: "string option"
  le_provider_id :: "string option"
  le_status_code :: "int option"
  le_latency_ms :: int
  le_success :: bool
  le_user_id :: "string option"
  le_modality :: "modality option"
  le_units :: "rat option"

text \<open>\<open>core::state::ConfigSnapshot\<close>.\<close>

record config_snapshot =
  snap_providers :: "provider list"
  snap_pools :: "pool_with_members list"

section \<open>Errors\<close>

text \<open>\<open>AppError\<close>; a database error carries the text of the \<open>sqlx\<close> error.\<close>

datatype app_error =
    NotFound
  | BadRequest string
  | Unauthorized
  | Conflict string
  | DbError string
  | Upstream string
  | UpstreamWithStatus nat string
  | Internal string

text \<open>\<open>Display\<close>; \<open>show_status\<close> is the \<open>http\<close> crate's text of a status code.\<close>

fun app_error_text :: "(nat \<Rightarrow> string) \<Rightarrow> app_error \<Rightarrow> string" where
  "app_error_text show_status NotFound = ''not found''"
| "app_error_text show_status (BadRequest m) = ''bad request: '' @ m"
| "app_error_text show_status Unauthorized = ''unauthorized''"
| "app_error_text show_status (Conflict m) = ''conflict: '' @ m"
| "app_error_text show_status (DbError e) = ''db error: '' @ e"
| "app_error_text show_status (Upstream m) = ''upstream error: '' @ m"
| "app_error_text show_status (UpstreamWithStatus s m) =
     ''upstream error ('' @ show_status s @ ''): '' @ m"
| "app_error_text show_status (Internal m) = ''internal error: '' @ m"

text \<open>\<open>IntoResponse\<close>: the status and the message of the JSON body.\<close>

fun app_error_parts :: "app_error \<Rightarrow> nat \<times> string" where
  "app_error_parts NotFound = (404, ''not found'')"
| "app_error_parts (BadRequest m) = (400, m)"
| "app_error_parts Unauthorized = (401, ''unauthorized'')"
| "app_error_parts (Conflict m) = (409, m)"
| "app_error_parts (DbError e) = (500, ''internal database error'')"
| "app_error_parts (Upstream m) = (502, m)"
| "app_error_parts (UpstreamWithStatus s m) = (s, m)"
| "app_error_parts (Internal m) = (500, m)"

definition validate_path_id :: "string \<Rightarrow> app_error + unit" where
  "validate_path_id i =
     (if trim i = [] then Inl (BadRequest ''id must not be empty'')
      else if contains i ''/'' then Inl (BadRequest (''id must not contain '' @ quoted ''/''))
      else Inr ())"

datatype error_class =
    Success
  | Retryable (retry_after: "duration option")
  | NonRetryable
  | AuthExpired

datatype refresh_error = InvalidGrant | Transient string

fun refresh_error_text :: "refresh_error \<Rightarrow> string" where
  "refresh_error_text InvalidGrant = ''invalid_grant''"
| "refresh_error_text (Transient m) = ''transient refresh error: '' @ m"

section \<open>HTTP messages\<close>

text \<open>
  A header map is a list of lowercase names and values; \<open>get\<close> reads the first
  value of a name, \<open>insert\<close> replaces every value of it.
\<close>

type_synonym headers = "(string \<times> string) list"

definition hdr_get :: "headers \<Rightarrow> string \<Rightarrow> string option" where
  "hdr_get h k = map_of h k"

definition hdr_remove :: "string \<Rightarrow> headers \<Rightarrow> headers" where
  "hdr_remove k h = filter (\<lambda>e. fst e \<noteq> k) h"

definition hdr_insert :: "string \<Rightarrow> string \<Rightarrow> headers \<Rightarrow> headers" where
  "hdr_insert k v h = hdr_remove k h @ [(k, v)]"

text \<open>\<open>HeaderValue::to_str().ok()\<close>: visible ASCII and tabs only.\<close>

definition header_text :: "string \<Rightarrow> string option" where
  "header_text v =
     (if list_all (\<lambda>c. byte_of c = 9 \<or> (32 \<le> byte_of c \<and> byte_of c < 127)) v
      then Some v else None)"

definition hdr_text :: "headers \<Rightarrow> string \<Rightarrow> string option" where
  "hdr_text h k = Option.bind (hdr_get h k) header_text"

text \<open>A streamed body is what the stream yields: bytes, or the error it breaks off with.\<close>

datatype body = JsonBody json | RawBody string | StreamBody "(string + string) list"

record response =
  resp_status :: nat
  resp_headers :: headers
  resp_body :: body

lemma hdr_get_remove [simp]:
  "hdr_get (hdr_remove k h) k' = (if k' = k then None else hdr_get h k')"
  by (induction h) (auto simp: hdr_get_def hdr_remove_def)

lemma hdr_get_insert [simp]:
  "hdr_get (hdr_insert k v h) k' = (if k' = k then Some v else hdr_get h k')"
proof (cases "k' = k")
  case True
  have "map_of (hdr_remove k h) k = None"
    using hdr_get_remove [of k h k] by (simp add: hdr_get_def)
  with True show ?thesis by (simp add: hdr_get_def hdr_insert_def map_add_def)
next
  case False
  then show ?thesis
    using hdr_get_remove [of k h k']
    by (simp add: hdr_get_def hdr_insert_def map_add_def split: option.splits)
qed

definition is_success :: "nat \<Rightarrow> bool" where
  "is_success s \<longleftrightarrow> 200 \<le> s \<and> s < 300"

definition is_server_error :: "nat \<Rightarrow> bool" where
  "is_server_error s \<longleftrightarrow> 500 \<le> s \<and> s < 600"

end
