(* ===== verification/Effects.thy ===== *)
theory Effects
  imports Model "HOL-Library.State_Monad"
begin

text \<open>
  Stateful code.  An operation that reads and writes a state \<open>'s\<close> is a
  \<^typ>\<open>('s, 'a) state\<close> of the library's state monad; the \<open>?\<close> operator on a
  \<open>Result\<close> is \<open>attempt\<close>.  Two judgements carry the proofs: \<open>valid P m Q\<close> (a
  Hoare triple) and \<open>state_io_rel R m\<close> of the library (every run relates its
  first and last state by \<open>R\<close>), for which \<open>run_order\<close> gives the rules whenever
  \<open>R\<close> is a preorder.
\<close>

abbreviation ret :: "'a \<Rightarrow> ('s, 'a) state" where
  "ret \<equiv> State_Monad.return"

definition gets :: "('s \<Rightarrow> 'a) \<Rightarrow> ('s, 'a) state" where
  "gets f = State (\<lambda>s. (f s, s))"

definition update_by :: "('s \<Rightarrow> 's) \<Rightarrow> ('s, unit) state" where
  "update_by f = State (\<lambda>s. ((), f s))"

definition attempt ::
  "('s, 'e + 'a) state \<Rightarrow> ('a \<Rightarrow> ('s, 'e + 'b) state) \<Rightarrow> ('s, 'e + 'b) state" where
  "attempt m f = do { r \<leftarrow> m; case r of Inl e \<Rightarrow> ret (Inl e) | Inr a \<Rightarrow> f a }"

definition ok_ret :: "'a \<Rightarrow> ('s, 'e + 'a) state" where
  "ok_ret a = ret (Inr a)"

definition fail_ret :: "'e \<Rightarrow> ('s, 'e + 'a) state" where
  "fail_ret e = ret (Inl e)"

text \<open>A check that needs no state: \<open>check(..)?\<close>.\<close>

definition check :: "'e + 'a \<Rightarrow> ('s, 'e + 'a) state" where
  "check r = ret r"

lemma run_gets [simp]: "run_state (gets f) s = (f s, s)"
  by (simp add: gets_def)

lemma run_update_by [simp]: "run_state (update_by f) s = ((), f s)"
  by (simp add: update_by_def)

lemma run_ok_ret [simp]: "run_state (ok_ret a) s = (Inr a, s)"
  by (simp add: ok_ret_def)

lemma run_fail_ret [simp]: "run_state (fail_ret e) s = (Inl e, s)"
  by (simp add: fail_ret_def)

lemma run_check [simp]: "run_state (check r) s = (r, s)"
  by (simp add: check_def)

lemma run_attempt:
  "run_state (attempt m f) s =
     (case run_state m s of (Inl e, s') \<Rightarrow> (Inl e, s') | (Inr a, s') \<Rightarrow> run_state (f a) s')"
  by (simp add: attempt_def split: sum.splits prod.splits)

lemma run_attempt_Inr_iff:
  "run_state (attempt m f) s = (Inr b, s') \<longleftrightarrow>
     (\<exists>a s''. run_state m s = (Inr a, s'') \<and> run_state (f a) s'' = (Inr b, s'))"
  by (auto simp: run_attempt split: sum.splits prod.splits)

section \<open>Hoare triples\<close>

definition valid :: "('s \<Rightarrow> bool) \<Rightarrow> ('s, 'a) state \<Rightarrow> ('a \<Rightarrow> 's \<Rightarrow> bool) \<Rightarrow> bool" where
  "valid P m Q \<longleftrightarrow> (\<forall>s. P s \<longrightarrow> Q (fst (run_state m s)) (snd (run_state m s)))"

lemma validI: "(\<And>s a s'. P s \<Longrightarrow> run_state m s = (a, s') \<Longrightarrow> Q a s') \<Longrightarrow> valid P m Q"
  by (simp add: valid_def)

lemma validD: "valid P m Q \<Longrightarrow> P s \<Longrightarrow> run_state m s = (a, s') \<Longrightarrow> Q a s'"
  unfolding valid_def by (metis fst_conv snd_conv)

lemma valid_ret [intro]: "(\<And>s. P s \<Longrightarrow> Q a s) \<Longrightarrow> valid P (ret a) Q"
  by (simp add: valid_def)

lemma valid_ok_ret [intro]: "(\<And>s. P s \<Longrightarrow> Q (Inr a) s) \<Longrightarrow> valid P (ok_ret a) Q"
  by (simp add: valid_def)

lemma valid_fail_ret [intro]: "(\<And>s. P s \<Longrightarrow> Q (Inl e) s) \<Longrightarrow> valid P (fail_ret e) Q"
  by (simp add: valid_def)

lemma valid_check [intro]: "(\<And>s. P s \<Longrightarrow> Q r s) \<Longrightarrow> valid P (check r) Q"
  by (simp add: valid_def)

lemma valid_bind: "valid P m R \<Longrightarrow> (\<And>a. valid (R a) (f a) Q) \<Longrightarrow> valid P (State_Monad.bind m f) Q"
  by (auto simp: valid_def split: prod.splits)

lemma valid_attempt:
  "valid P m (\<lambda>r s. case r of Inl e \<Rightarrow> Q (Inl e) s | Inr a \<Rightarrow> R a s) \<Longrightarrow>
     (\<And>a. valid (R a) (f a) Q) \<Longrightarrow> valid P (attempt m f) Q"
  by (fastforce simp: valid_def run_attempt split: prod.splits sum.splits)

lemma valid_pre: "valid P m Q \<Longrightarrow> (\<And>s. P' s \<Longrightarrow> P s) \<Longrightarrow> valid P' m Q"
  by (simp add: valid_def)

lemma valid_post: "valid P m Q \<Longrightarrow> (\<And>a s. Q a s \<Longrightarrow> Q' a s) \<Longrightarrow> valid P m Q'"
  by (simp add: valid_def)

text \<open>An invariant kept by both parts of \<open>attempt\<close> is kept by the whole.\<close>

lemma valid_inv_attempt:
  "valid P m (\<lambda>_. P) \<Longrightarrow> (\<And>a. valid P (f a) (\<lambda>_. P)) \<Longrightarrow> valid P (attempt m f) (\<lambda>_. P)"
  by (rule valid_attempt [where R = "\<lambda>_. P"]) (auto simp: valid_def split: sum.splits)

section \<open>Preorders on states\<close>

locale run_order =
  fixes R :: "'s \<Rightarrow> 's \<Rightarrow> bool"
  assumes refl: "R s s"
    and trans: "R s s' \<Longrightarrow> R s' s'' \<Longrightarrow> R s s''"
begin

lemma rel_ret: "state_io_rel R (ret a)"
  by (simp add: state_io_rel_def refl)

lemma rel_gets: "state_io_rel R (gets f)"
  by (simp add: state_io_rel_def refl)

lemma rel_update: "(\<And>s. R s (f s)) \<Longrightarrow> state_io_rel R (update_by f)"
  by (simp add: state_io_rel_def)

lemma rel_bind:
  assumes "state_io_rel R m" and "\<And>a. state_io_rel R (f a)"
  shows "state_io_rel R (State_Monad.bind m f)"
proof (rule state_io_relI)
  fix a s s'
  assume run: "run_state (State_Monad.bind m f) s = (a, s')"
  obtain b t where m: "run_state m s = (b, t)" by (cases "run_state m s")
  with run have "run_state (f b) t = (a, s')" by simp
  with m assms show "R s s'" by (blast intro: trans)
qed

lemma rel_attempt:
  "state_io_rel R m \<Longrightarrow> (\<And>a. state_io_rel R (f a)) \<Longrightarrow> state_io_rel R (attempt m f)"
  unfolding attempt_def by (rule rel_bind) (auto intro: rel_ret split: sum.split)

lemma rel_case_sum:
  "(\<And>e. state_io_rel R (f e)) \<Longrightarrow> (\<And>a. state_io_rel R (g a)) \<Longrightarrow> state_io_rel R (case_sum f g r)"
  by (simp split: sum.split)

lemma rel_if: "state_io_rel R m \<Longrightarrow> state_io_rel R n \<Longrightarrow> state_io_rel R (if b then m else n)"
  by simp

lemma rel_run: "state_io_rel R m \<Longrightarrow> R s (snd (run_state m s))"
  by (simp add: state_io_rel_def)

lemmas rel_rules = rel_ret rel_gets rel_update rel_bind rel_attempt rel_case_sum rel_if

end

end
