(* ===== verification/Store.thy ===== *)
theory Store
  imports Effects "HOL-Library.Product_Lexorder"
begin

text \<open>
  The SQLite database behind \<open>AppState::db\<close> (\<open>migrations/*.sql\<close>,
  \<open>src/core/db.rs\<close>): one list of rows per table in insertion order, the
  constraints the schema declares (primary keys, unique indexes, foreign keys
  with cascading deletes; \<open>foreign_keys(true)\<close> is set when the pool is opened),
  and the rule that any statement may also fail for a reason of its own (a locked
  or full database), scripted by \<open>db_faults\<close>.
\<close>

section \<open>Rows\<close>

record user_row =
  usr_id :: string
  usr_name :: string
  usr_key_prefix :: string
  usr_key_hash :: string
  usr_created_at :: timestamp
  usr_last_used_at :: "timestamp option"
  usr_revoked_at :: "timestamp option"

record session_row =
  ses_token_hash :: string
  ses_created_at :: timestamp
  ses_expires_at :: timestamp

record admin_row =
  adm_username :: string
  adm_password_hash :: string
  adm_updated_at :: timestamp

record database =
  t_providers :: "provider list"
  t_oauth :: "oauth_state list"
  t_pools :: "pool list"
  t_members :: "pool_member list"
  t_admin :: "admin_row option"
  t_sessions :: "session_row list"
  t_secrets :: "(string, string) dmap"
  t_users :: "user_row list"
  db_faults :: "string option list"

definition empty_db :: database where
  "empty_db = \<lparr>t_providers = [], t_oauth = [], t_pools = [], t_members = [], t_admin = None,
     t_sessions = [], t_secrets = [], t_users = [], db_faults = []\<rparr>"

section \<open>Statements\<close>

datatype sql_error = UniqueViolation | ForeignKeyViolation | OtherError string

fun sql_error_text :: "sql_error \<Rightarrow> string" where
  "sql_error_text UniqueViolation = ''UNIQUE constraint failed''"
| "sql_error_text ForeignKeyViolation = ''FOREIGN KEY constraint failed''"
| "sql_error_text (OtherError e) = e"

text \<open>
  A statement computes its result and the new tables, or violates a constraint
  and changes nothing.  Each one takes the next scripted fault, if any.
\<close>

definition statement ::
  "(database \<Rightarrow> sql_error + 'a \<times> database) \<Rightarrow> (database, sql_error + 'a) state" where
  "statement f = State (\<lambda>db.
     let db' = db\<lparr>db_faults := tl (db_faults db)\<rparr>
     in case db_faults db of
          Some e # _ \<Rightarrow> (Inl (OtherError e), db')
        | _ \<Rightarrow> (case f db' of Inl e \<Rightarrow> (Inl e, db') | Inr (a, db'') \<Rightarrow> (Inr a, db'')))"

text \<open>\<open>.await?\<close> on a statement: \<open>From<sqlx::Error> for AppError\<close>.\<close>

type_synonym 'a query = "(database, app_error + 'a) state"

definition db_error :: "sql_error \<Rightarrow> app_error" where
  "db_error e = DbError (sql_error_text e)"

definition query_stmt :: "(database \<Rightarrow> sql_error + 'a \<times> database) \<Rightarrow> 'a query" where
  "query_stmt f = do { r \<leftarrow> statement f;
     case r of Inl e \<Rightarrow> fail_ret (db_error e) | Inr a \<Rightarrow> ok_ret a }"

definition fetch :: "(database \<Rightarrow> 'a) \<Rightarrow> 'a query" where
  "fetch f = query_stmt (\<lambda>db. Inr (f db, db))"

definition execute_stmt :: "(database \<Rightarrow> database) \<Rightarrow> unit query" where
  "execute_stmt f = query_stmt (\<lambda>db. Inr ((), f db))"

text \<open>
  A write whose unique violation the code reports as an error of its own:
  \<open>Err(Database(e)) if e.is_unique_violation()\<close>.
\<close>

definition unique_write ::
  "app_error \<Rightarrow> (database \<Rightarrow> sql_error + unit \<times> database) \<Rightarrow> 'a \<Rightarrow> 'a query" where
  "unique_write taken f a = do { res \<leftarrow> statement f;
     case res of
       Inr _ \<Rightarrow> ok_ret a
     | Inl UniqueViolation \<Rightarrow> fail_ret taken
     | Inl e \<Rightarrow> fail_ret (db_error e) }"

text \<open>A transaction: on any error everything but the consumed faults is rolled back.\<close>

definition transaction :: "'a query \<Rightarrow> 'a query" where
  "transaction m = State (\<lambda>db.
     case run_state m db of
       (Inl e, db') \<Rightarrow> (Inl e, db\<lparr>db_faults := db_faults db'\<rparr>)
     | (Inr a, db') \<Rightarrow> (Inr a, db'))"

section \<open>Keys\<close>

definition member_identity :: "pool_member \<Rightarrow> string \<times> string \<times> string" where
  "member_identity m =
     (mem_pool_id m, mem_provider_id m, unwrap_or (mem_model_override m) [])"

text \<open>\<open>ORDER BY priority ASC, provider_id ASC, COALESCE(model_override, '') ASC\<close>.\<close>

definition member_order :: "pool_member \<Rightarrow> int \<times> string \<times> string" where
  "member_order m = (mem_priority m, mem_provider_id m, unwrap_or (mem_model_override m) [])"

section \<open>The constraints of the schema\<close>

definition providers_ok :: "provider list \<Rightarrow> bool" where
  "providers_ok ps \<longleftrightarrow> distinct (map prov_id ps) \<and> distinct (map prov_name ps)"

definition refs_ok :: "database \<Rightarrow> bool" where
  "refs_ok db \<longleftrightarrow>
     os_provider_id ` set (t_oauth db) \<subseteq> prov_id ` set (t_providers db)
   \<and> mem_provider_id ` set (t_members db) \<subseteq> prov_id ` set (t_providers db)
   \<and> mem_pool_id ` set (t_members db) \<subseteq> pool_id ` set (t_pools db)"

definition users_ok :: "user_row list \<Rightarrow> bool" where
  "users_ok us \<longleftrightarrow> distinct (map usr_id us) \<and> distinct (map usr_key_hash us)"

definition db_ok :: "database \<Rightarrow> bool" where
  "db_ok db \<longleftrightarrow>
     providers_ok (t_providers db)
   \<and> distinct (map os_provider_id (t_oauth db))
   \<and> distinct (map pool_id (t_pools db))
   \<and> distinct (map member_identity (t_members db))
   \<and> distinct (map ses_token_hash (t_sessions db))
   \<and> dm_ok (t_secrets db)
   \<and> users_ok (t_users db)
   \<and> refs_ok db"

text \<open>
  Written by every writer of \<open>pool_members\<close>, not a constraint of the schema: an
  absent override is never stored as the empty string.
\<close>

definition overrides_ok :: "database \<Rightarrow> bool" where
  "overrides_ok db \<longleftrightarrow> list_all (\<lambda>m. mem_model_override m \<noteq> Some []) (t_members db)"

section \<open>Rules\<close>

lemma run_statement:
  "run_state (statement f) db =
     (let db' = db\<lparr>db_faults := tl (db_faults db)\<rparr>
      in case db_faults db of
           Some e # _ \<Rightarrow> (Inl (OtherError e), db')
         | _ \<Rightarrow> (case f db' of Inl e \<Rightarrow> (Inl e, db') | Inr (a, db'') \<Rightarrow> (Inr a, db'')))"
  by (simp add: statement_def)

lemma run_statement_cases:
  obtains e where "run_state (statement f) db = (Inl e, db\<lparr>db_faults := tl (db_faults db)\<rparr>)"
  | a db'' where "run_state (statement f) db = (Inr a, db'')"
      "f (db\<lparr>db_faults := tl (db_faults db)\<rparr>) = Inr (a, db'')"
proof (cases "\<exists>e fs. db_faults db = Some e # fs")
  case True
  with that(1) show thesis by (auto simp: run_statement)
next
  case False
  let ?db = "db\<lparr>db_faults := tl (db_faults db)\<rparr>"
  from False have run: "run_state (statement f) db =
      (case f ?db of Inl e \<Rightarrow> (Inl e, ?db) | Inr (a, db'') \<Rightarrow> (Inr a, db''))"
    by (auto simp: run_statement Let_def split: list.splits option.splits)
  show thesis
  proof (cases "f ?db")
    case (Inl e)
    with run that(1) show thesis by simp
  next
    case (Inr r)
    with run that(2) show thesis by (cases r) simp
  qed
qed

lemma run_query_stmt_cases:
  obtains e where "run_state (query_stmt f) db = (Inl (DbError e), db\<lparr>db_faults := tl (db_faults db)\<rparr>)"
  | a db'' where "run_state (query_stmt f) db = (Inr a, db'')"
      "f (db\<lparr>db_faults := tl (db_faults db)\<rparr>) = Inr (a, db'')"
  by (rule run_statement_cases [of f db]) (auto simp: query_stmt_def db_error_def)

lemma run_unique_write_cases:
  obtains e where "run_state (unique_write taken f a) db = (Inl e, db\<lparr>db_faults := tl (db_faults db)\<rparr>)"
  | db'' where "run_state (unique_write taken f a) db = (Inr a, db'')"
      "f (db\<lparr>db_faults := tl (db_faults db)\<rparr>) = Inr ((), db'')"
proof (rule run_statement_cases [of f db])
  fix e assume "run_state (statement f) db = (Inl e, db\<lparr>db_faults := tl (db_faults db)\<rparr>)"
  with that(1) show thesis by (cases e) (auto simp: unique_write_def)
next
  fix u db'' assume "run_state (statement f) db = (Inr u, db'')"
    and "f (db\<lparr>db_faults := tl (db_faults db)\<rparr>) = Inr (u, db'')"
  with that(2) show thesis by (auto simp: unique_write_def)
qed

lemma run_unique_write_Inr:
  "run_state (unique_write taken f a) db = (Inr b, db') \<Longrightarrow>
     b = a \<and> f (db\<lparr>db_faults := tl (db_faults db)\<rparr>) = Inr ((), db')"
  by (rule run_unique_write_cases [of taken f a db]) auto

text \<open>An invariant that ignores the fault script survives every statement whose effect keeps it.\<close>

definition fault_blind :: "(database \<Rightarrow> bool) \<Rightarrow> bool" where
  "fault_blind P \<longleftrightarrow> (\<forall>db fs. P (db\<lparr>db_faults := fs\<rparr>) = P db)"

lemma fault_blindD: "fault_blind P \<Longrightarrow> P (db\<lparr>db_faults := fs\<rparr>) = P db"
  by (simp add: fault_blind_def)

lemma valid_statement:
  assumes "fault_blind P" and "\<And>db a db'. P db \<Longrightarrow> f db = Inr (a, db') \<Longrightarrow> P db'"
  shows "valid P (statement f) (\<lambda>_. P)"
proof (rule validI)
  fix db r db'
  assume "P db" and run: "run_state (statement f) db = (r, db')"
  then have P: "P (db\<lparr>db_faults := tl (db_faults db)\<rparr>)" using assms(1) by (simp add: fault_blindD)
  show "P db'"
    by (rule run_statement_cases [of f db]) (use run P assms(2) in auto)
qed

lemma valid_query_stmt:
  assumes "fault_blind P" and "\<And>db a db'. P db \<Longrightarrow> f db = Inr (a, db') \<Longrightarrow> P db'"
  shows "valid P (query_stmt f) (\<lambda>_. P)"
  unfolding query_stmt_def
  by (rule valid_bind [OF valid_statement [OF assms]]) (auto simp: valid_def split: sum.splits)

lemma valid_unique_write:
  assumes "fault_blind P" and "\<And>db db'. P db \<Longrightarrow> f db = Inr ((), db') \<Longrightarrow> Q db'"
    and "\<And>db. P db \<Longrightarrow> Q db"
  shows "valid P (unique_write taken f a) (\<lambda>_. Q)"
proof (rule validI)
  fix db r db'
  assume P: "P db" and run: "run_state (unique_write taken f a) db = (r, db')"
  then have P': "P (db\<lparr>db_faults := tl (db_faults db)\<rparr>)" using assms(1) by (simp add: fault_blindD)
  show "Q db'"
    by (rule run_unique_write_cases [of taken f a db]) (use run P' assms(2,3) in auto)
qed

lemma valid_fetch: "fault_blind P \<Longrightarrow> valid P (fetch f) (\<lambda>_. P)"
  unfolding fetch_def by (rule valid_query_stmt) auto

text \<open>What a query returns is what the tables hold when it returns.\<close>

lemma valid_fetch_result:
  assumes "fault_blind P"
  shows "valid P (fetch f) (\<lambda>r db. P db \<and> (\<forall>a. r = Inr a \<longrightarrow> a = f db))"
proof (rule validI)
  fix db r db'
  assume "P db" and run: "run_state (fetch f) db = (r, db')"
  then have P: "P (db\<lparr>db_faults := tl (db_faults db)\<rparr>)" using assms by (simp add: fault_blindD)
  show "P db' \<and> (\<forall>a. r = Inr a \<longrightarrow> a = f db')"
    by (rule run_query_stmt_cases [of "\<lambda>db. Inr (f db, db)" db])
      (use run P in \<open>auto simp: fetch_def\<close>)
qed

lemma valid_execute:
  "fault_blind P \<Longrightarrow> (\<And>db. P db \<Longrightarrow> P (f db)) \<Longrightarrow> valid P (execute_stmt f) (\<lambda>_. P)"
  unfolding execute_stmt_def by (rule valid_query_stmt) auto

lemma valid_transaction:
  assumes "fault_blind P" and "valid P m (\<lambda>_. P)"
  shows "valid P (transaction m) (\<lambda>_. P)"
proof (rule validI)
  fix db r db'
  assume P: "P db" and run: "run_state (transaction m) db = (r, db')"
  obtain a t where m: "run_state m db = (a, t)" by (cases "run_state m db")
  with assms(2) P have "P t" by (rule validD)
  with run m P assms(1) show "P db'"
    by (cases a) (auto simp: transaction_def fault_blindD)
qed

lemma transaction_error:
  "run_state (transaction m) db = (Inl e, db') \<Longrightarrow> db' = db\<lparr>db_faults := db_faults db'\<rparr>"
  by (auto simp: transaction_def split: prod.splits sum.splits)

lemma fault_blind_conj: "fault_blind P \<Longrightarrow> fault_blind Q \<Longrightarrow> fault_blind (\<lambda>db. P db \<and> Q db)"
  by (simp add: fault_blind_def)

lemma fault_blind_db_ok: "fault_blind db_ok"
  by (simp add: fault_blind_def db_ok_def refs_ok_def)

lemma fault_blind_overrides: "fault_blind overrides_ok"
  by (simp add: fault_blind_def overrides_ok_def)

text \<open>Without faults a statement does exactly what it says.\<close>

lemma no_faults_id [simp]: "db_faults db = [] \<Longrightarrow> db\<lparr>db_faults := []\<rparr> = db"
  by (cases db) simp

lemma run_fetch_ok [simp]: "db_faults db = [] \<Longrightarrow> run_state (fetch f) db = (Inr (f db), db)"
  by (simp add: fetch_def query_stmt_def run_statement Let_def)

lemma run_execute_ok [simp]:
  "db_faults db = [] \<Longrightarrow> run_state (execute_stmt f) db = (Inr (), f db)"
  by (simp add: execute_stmt_def query_stmt_def run_statement Let_def)

lemma run_statement_ok:
  "db_faults db = [] \<Longrightarrow> run_state (statement f) db =
     (case f db of Inl e \<Rightarrow> (Inl e, db) | Inr (a, db') \<Rightarrow> (Inr a, db'))"
  by (simp add: run_statement Let_def)

lemma run_query_stmt_ok:
  "db_faults db = [] \<Longrightarrow> run_state (query_stmt f) db =
     (case f db of Inl e \<Rightarrow> (Inl (db_error e), db) | Inr (a, db') \<Rightarrow> (Inr a, db'))"
  by (simp add: query_stmt_def run_statement_ok split: sum.split prod.split)

section \<open>Rows with a key\<close>

lemma distinct_map_append1:
  "distinct (map f xs) \<Longrightarrow> f x \<notin> f ` set xs \<Longrightarrow> distinct (map f (xs @ [x]))"
  by auto

lemma distinct_map_filter_rows: "distinct (map f xs) \<Longrightarrow> distinct (map f (filter P xs))"
  by (rule distinct_map_filter)

text \<open>\<open>UPDATE .. WHERE key = k\<close>: the rows that match are rewritten in place.\<close>

definition update_where :: "('r \<Rightarrow> bool) \<Rightarrow> ('r \<Rightarrow> 'r) \<Rightarrow> 'r list \<Rightarrow> 'r list" where
  "update_where P g rs = map (\<lambda>r. if P r then g r else r) rs"

definition row_with :: "('r \<Rightarrow> 'k) \<Rightarrow> 'k \<Rightarrow> 'r list \<Rightarrow> 'r option" where
  "row_with f k rs = find (\<lambda>r. f r = k) rs"

lemma map_update_where: "(\<And>r. P r \<Longrightarrow> f (g r) = f r) \<Longrightarrow> map f (update_where P g rs) = map f rs"
  by (simp add: update_where_def)

lemma set_update_where: "set (update_where P g rs) = {r'. \<exists>r\<in>set rs. r' = (if P r then g r else r)}"
  by (auto simp: update_where_def)

lemma row_with_None: "row_with f k rs = None \<longleftrightarrow> k \<notin> f ` set rs"
  by (auto simp: row_with_def find_None_iff)

lemma row_with_SomeD: "row_with f k rs = Some r \<Longrightarrow> r \<in> set rs \<and> f r = k"
  unfolding row_with_def by (rule find_Some_iff_mem)

lemma row_with_mem:
  "distinct (map f rs) \<Longrightarrow> r \<in> set rs \<Longrightarrow> row_with f (f r) rs = Some r"
  unfolding row_with_def by (rule find_unique_key)

lemma row_with_iff:
  "distinct (map f rs) \<Longrightarrow> row_with f k rs = Some r \<longleftrightarrow> r \<in> set rs \<and> f r = k"
  by (auto dest: row_with_SomeD row_with_mem)

lemma row_with_append:
  "row_with f k (xs @ [x]) = opt_or (row_with f k xs) (if f x = k then Some x else None)"
  by (induction xs) (auto simp: row_with_def)

lemma row_with_update_where:
  "(\<And>r. P r \<Longrightarrow> f (g r) = f r) \<Longrightarrow>
     row_with f k (update_where P g rs) = map_option (\<lambda>r. if P r then g r else r) (row_with f k rs)"
  by (induction rs) (auto simp: row_with_def update_where_def)

lemma row_with_filter_key:
  "row_with f k (filter (\<lambda>r. f r \<noteq> j) rs) = (if k = j then None else row_with f k rs)"
  by (induction rs) (auto simp: row_with_def)

text \<open>A cascading delete leaves no dangling reference.\<close>

lemma cascade_refs:
  assumes "f ` set xs \<subseteq> g ` set ys"
  shows "f ` set (filter (\<lambda>x. f x \<noteq> i) xs) \<subseteq> g ` set (filter (\<lambda>y. g y \<noteq> i) ys)"
proof
  fix k assume "k \<in> f ` set (filter (\<lambda>x. f x \<noteq> i) xs)"
  then have "k \<in> f ` set xs" and ki: "k \<noteq> i" by auto
  with assms obtain y where "y \<in> set ys" "g y = k" by auto
  with ki show "k \<in> g ` set (filter (\<lambda>y. g y \<noteq> i) ys)" by auto
qed

lemma filter_refs: "f ` set xs \<subseteq> A \<Longrightarrow> f ` set (filter P xs) \<subseteq> A"
  by auto

end
