(* ===== verification/Reasoning.thy ===== *)
theory Reasoning
  imports Model
begin

text \<open>
  \<open>src/core/reasoning.rs\<close>: which provider and model pairs accept a reasoning
  effort, when a configured default is injected into an outgoing request, and how
  it is written.  The client's own choice always wins, and an injected Anthropic
  budget leaves a request the upstream accepts.
\<close>

section \<open>Capabilities\<close>

datatype capability = Unsupported | OpenAiEffort | AnthropicThinkingBudget

definition supports :: "capability \<Rightarrow> bool" where
  "supports c \<longleftrightarrow> c \<noteq> Unsupported"

fun openai_effort_str :: "effort_level \<Rightarrow> string" where
  "openai_effort_str Low = ''low''"
| "openai_effort_str Medium = ''medium''"
| "openai_effort_str High = ''high''"

fun anthropic_budget_tokens :: "effort_level \<Rightarrow> nat" where
  "anthropic_budget_tokens Low = 1024"
| "anthropic_budget_tokens Medium = 8192"
| "anthropic_budget_tokens High = 24576"

text \<open>\<open>commandcode::transform::wants_messages_shape\<close>.\<close>

definition wants_messages_shape :: "string \<Rightarrow> bool" where
  "wants_messages_shape model \<longleftrightarrow> contains (to_ascii_lowercase model) ''claude''"

definition capability_for :: "provider_kind \<Rightarrow> wire_format \<Rightarrow> string \<Rightarrow> capability" where
  "capability_for kind wire upstream_model =
     (let m = to_ascii_lowercase upstream_model
      in case kind of
           OauthCodex \<Rightarrow> OpenAiEffort
         | OauthCommandCode \<Rightarrow>
             if wants_messages_shape m then AnthropicThinkingBudget else Unsupported
         | Passthrough \<Rightarrow>
             (case wire of
                OpenAi \<Rightarrow> if starts_with m ''gpt-5'' then OpenAiEffort else Unsupported
              | Anthropic \<Rightarrow>
                  if starts_with m ''claude-sonnet-'' \<or> starts_with m ''claude-opus-''
                    \<or> starts_with m ''claude-haiku-''
                  then AnthropicThinkingBudget else Unsupported))"

section \<open>The client's own choice\<close>

definition client_specified_effort :: "json \<Rightarrow> bool" where
  "client_specified_effort client \<longleftrightarrow>
     \<not> is_null (unwrap_or (jget client ''reasoning_effort'') JNull)
   \<or> (case Option.bind (jget client ''reasoning'') (\<lambda>r. jget r ''effort'') of
        Some e \<Rightarrow> \<not> is_null e | None \<Rightarrow> False)
   \<or> \<not> is_null (unwrap_or (jget client ''thinking'') JNull)"

definition effort_from_responses :: "json \<Rightarrow> string option" where
  "effort_from_responses req =
     opt_filter (\<lambda>e. e \<noteq> [])
       (Option.bind (Option.bind (jget req ''reasoning'') (\<lambda>r. jget r ''effort'')) as_str)"

definition effort_from_anthropic :: "json \<Rightarrow> string option" where
  "effort_from_anthropic body =
     (case Option.bind (Option.bind (jget body ''output_config'') (\<lambda>oc. jget oc ''effort'')) as_str of
        Some e \<Rightarrow> Some (if e = ''max'' then ''xhigh'' else e)
      | None \<Rightarrow>
          (case jget body ''thinking'' of
             None \<Rightarrow> None
           | Some t \<Rightarrow>
               if Option.bind (jget t ''type'') as_str \<noteq> Some ''enabled'' then None
               else (case Option.bind (jget t ''budget_tokens'') as_i64 of
                       None \<Rightarrow> None
                     | Some budget \<Rightarrow> Some
                         (if budget \<le> 4096 then ''low''
                          else if budget \<le> 16384 then ''medium'' else ''high''))))"

section \<open>Injection\<close>

fun inject_openai_effort :: "json \<Rightarrow> effort_level \<Rightarrow> json" where
  "inject_openai_effort (JObj obj) level =
     JObj (obj_insert ''reasoning_effort'' (JStr (openai_effort_str level)) obj)"
| "inject_openai_effort body level = body"

definition THINKING_MAX_TOKENS_HEADROOM :: nat where
  "THINKING_MAX_TOKENS_HEADROOM = 1024"

definition thinking_object :: "nat \<Rightarrow> json" where
  "thinking_object budget =
     jobj [(''type'', JStr ''enabled''), (''budget_tokens'', JNum (PosInt budget))]"

fun inject_anthropic_thinking :: "json \<Rightarrow> effort_level \<Rightarrow> json" where
  "inject_anthropic_thinking (JObj obj) level =
     (let budget = anthropic_budget_tokens level;
          obj = obj_insert ''thinking'' (thinking_object budget) obj;
          minimum = budget + THINKING_MAX_TOKENS_HEADROOM;
          obj = (case Option.bind (map_of obj ''max_tokens'') as_i64 of
                   Some m \<Rightarrow>
                     if m < int minimum
                     then obj_insert ''max_tokens'' (JNum (PosInt minimum)) obj else obj
                 | None \<Rightarrow> obj_insert ''max_tokens'' (JNum (PosInt minimum)) obj)
      in JObj (fold obj_remove [''temperature'', ''top_p'', ''top_k''] obj))"
| "inject_anthropic_thinking body level = body"

definition effort_to_inject ::
  "provider_kind \<Rightarrow> wire_format \<Rightarrow> string \<Rightarrow> effort_level option \<Rightarrow> json \<Rightarrow>
     (capability \<times> effort_level) option" where
  "effort_to_inject kind wire upstream_model resolved client =
     (case resolved of
        None \<Rightarrow> None
      | Some level \<Rightarrow>
          if client_specified_effort client then None
          else (let capability = capability_for kind wire upstream_model
                in if \<not> supports capability then None else Some (capability, level)))"

section \<open>Lemmas\<close>

lemma capability_case_insensitive:
  "capability_for kind wire (to_ascii_lowercase m) = capability_for kind wire m"
  by (simp add: capability_for_def)

text \<open>The capability of a passthrough provider always has the shape of its wire format.\<close>

lemma passthrough_capability_wire:
  "capability_for Passthrough wire m = OpenAiEffort \<Longrightarrow> wire = OpenAi"
  "capability_for Passthrough wire m = AnthropicThinkingBudget \<Longrightarrow> wire = Anthropic"
  by (auto simp: capability_for_def Let_def split: wire_format.splits if_splits)

lemma jget_inject_openai:
  "jget (inject_openai_effort b l) k =
     (if k = ''reasoning_effort'' \<and> is_object b then Some (JStr (openai_effort_str l)) else jget b k)"
  by (cases b) auto

lemma map_of_fold_obj_remove:
  "map_of (fold obj_remove ks m) k = (if k \<in> set ks then None else map_of m k)"
  by (induction ks arbitrary: m) auto

lemma obj_ok_fold_remove: "obj_ok m \<Longrightarrow> obj_ok (fold obj_remove ks m)"
  by (induction ks arbitrary: m) auto

definition injected_max_tokens :: "json option \<Rightarrow> effort_level \<Rightarrow> json" where
  "injected_max_tokens old l =
     (case old of
        None \<Rightarrow> JNum (PosInt (anthropic_budget_tokens l + THINKING_MAX_TOKENS_HEADROOM))
      | Some v \<Rightarrow>
          (case as_i64 v of
             None \<Rightarrow> JNum (PosInt (anthropic_budget_tokens l + THINKING_MAX_TOKENS_HEADROOM))
           | Some m \<Rightarrow> if m < int (anthropic_budget_tokens l + THINKING_MAX_TOKENS_HEADROOM)
                then JNum (PosInt (anthropic_budget_tokens l + THINKING_MAX_TOKENS_HEADROOM)) else v))"

lemma jget_inject_anthropic:
  "jget (inject_anthropic_thinking (JObj obj) l) k =
     (if k \<in> {''temperature'', ''top_p'', ''top_k''} then None
      else if k = ''thinking'' then Some (thinking_object (anthropic_budget_tokens l))
      else if k = ''max_tokens'' then Some (injected_max_tokens (map_of obj ''max_tokens'') l)
      else map_of obj k)"
  by (auto simp: Let_def map_of_fold_obj_remove injected_max_tokens_def
      split: option.splits simp del: fold.simps)

lemma injected_max_tokens_as_i64:
  "\<exists>m. as_i64 (injected_max_tokens old l) = Some m \<and>
     int (anthropic_budget_tokens l) < m"
  by (cases l)
    (auto simp: injected_max_tokens_def THINKING_MAX_TOKENS_HEADROOM_def split: option.splits)

lemma thinking_object_fields:
  "jget (thinking_object n) ''type'' = Some (JStr ''enabled'')"
  "jget (thinking_object n) ''budget_tokens'' = Some (JNum (PosInt n))"
  by (simp_all add: thinking_object_def jobj_def)

lemma obj_ok_inject_anthropic:
  assumes "obj_ok obj"
  shows "\<exists>obj'. inject_anthropic_thinking (JObj obj) l = JObj obj' \<and> obj_ok obj'"
  using assms
  by (auto simp: Let_def obj_ok_fold_remove simp del: fold.simps split: option.splits)

lemma thinking_object_specified: "\<not> is_null (thinking_object n)"
  by (simp add: thinking_object_def jobj_def)

text \<open>Once injected, an effort counts as chosen: nothing is injected twice.\<close>

lemma inject_openai_specified: "client_specified_effort (inject_openai_effort (JObj obj) l)"
  by (simp add: client_specified_effort_def)

lemma inject_anthropic_specified:
  "client_specified_effort (inject_anthropic_thinking (JObj obj) l)"
  unfolding client_specified_effort_def jget_inject_anthropic
  by (simp add: thinking_object_specified)

lemma injected_thinking_valid:
  fixes l :: effort_level
  assumes "obj_ok obj"
  defines "b \<equiv> inject_anthropic_thinking (JObj obj) l"
  shows "(\<exists>obj'. b = JObj obj' \<and> obj_ok obj')
     \<and> (\<exists>m. Option.bind (jget b ''max_tokens'') as_i64 = Some m \<and> int (anthropic_budget_tokens l) < m)
     \<and> jget b ''temperature'' = None \<and> jget b ''top_p'' = None \<and> jget b ''top_k'' = None
     \<and> (\<forall>k. k \<notin> {''temperature'', ''top_p'', ''top_k'', ''thinking'', ''max_tokens''} \<longrightarrow> jget b k = map_of obj k)
     \<and> effort_to_inject kind wire model resolved b = None"
proof -
  have "client_specified_effort b" unfolding b_def by (rule inject_anthropic_specified)
  then have "effort_to_inject kind wire model resolved b = None"
    by (simp add: effort_to_inject_def split: option.split)
  then show ?thesis
    using obj_ok_inject_anthropic [OF assms(1), of l] injected_max_tokens_as_i64
    by (simp add: b_def jget_inject_anthropic del: inject_anthropic_thinking.simps)
qed

end
