(* ===== verification/Backoff.thy ===== *)
theory Backoff
  imports Model
begin

text \<open>
  \<open>src/proxy/backoff.rs\<close>: how an upstream status is classified and how long a
  failed \<open>(provider, model)\<close> pair is left alone.  The interface
  \<open>cooldown_schedule\<close> is what the callers of a cooldown function rely on (the
  proxy for upstream failures, the login limiter for wrong passwords): a delay
  between two seconds and a cap that never shrinks as the level grows.
\<close>

section \<open>Machine integers\<close>

type_synonym u8 = "8 word"
type_synonym u32 = "32 word"

definition sat_u64 :: "nat \<Rightarrow> nat" where
  "sat_u64 n = min n (2 ^ 64 - 1)"

definition saturating_inc :: "'a::len word \<Rightarrow> 'a word" where
  "saturating_inc w = (if w = - 1 then w else w + 1)"

lemma unat_saturating_inc:
  fixes w :: u8
  shows "unat (saturating_inc w) = min 255 (unat w + 1)"
proof (cases "w = - 1")
  case True
  have "unat (- 1 :: u8) = 255" by (simp add: unsigned_minus_1_eq_mask mask_eq_exp_minus_1)
  with True show ?thesis by (simp add: saturating_inc_def)
next
  case False
  then have "unat w \<noteq> unat (- 1 :: u8)" by (simp only: word_unat_eq_iff not_False_eq_True)
  then have "unat w \<noteq> 255" by (simp add: unsigned_minus_1_eq_mask mask_eq_exp_minus_1)
  moreover have "unat w < 256" using unsigned_less [of w] by simp
  ultimately have "unat w + 1 < 256" by simp
  with False show ?thesis
    by (simp add: saturating_inc_def unat_word_ariths)
qed

section \<open>Cooldown schedules\<close>

locale cooldown_schedule =
  fixes cd :: "'l::linorder \<Rightarrow> duration"
    and cap :: duration
  assumes cd_pos: "from_secs 2 \<le> cd n"
    and cd_cap: "cd n \<le> cap"
    and cd_mono: "m \<le> n \<Longrightarrow> cd m \<le> cd n"
begin

text \<open>The deadline a failure at level \<open>n\<close> sets.\<close>

lemma deadline_later: "now < now + cd n"
  using cd_pos [of n] by (simp add: from_secs_def)

lemma deadline_bound: "now + cd n \<le> now + cap"
  using cd_cap by simp

lemma deadline_mono: "now \<le> now' \<Longrightarrow> m \<le> n \<Longrightarrow> now + cd m \<le> now' + cd n"
  using cd_mono by (simp add: add_mono)

text \<open>Once the cap has passed no failure before it is still in force.\<close>

lemma deadline_over: "now + cap \<le> t \<Longrightarrow> now + cd n \<le> t"
  using cd_cap [of n] by simp

end

definition MAX_BACKOFF_LEVEL :: u8 where
  "MAX_BACKOFF_LEVEL = 15"

definition cooldown_for :: "u8 \<Rightarrow> duration" where
  "cooldown_for level =
     (let level = max level 1;
          exp = unat (min (level - 1) MAX_BACKOFF_LEVEL);
          secs = sat_u64 (2 * sat_u64 (2 ^ exp))
      in from_secs (min secs 300))"

lemma sat_u64_small: "n < 2 ^ 64 \<Longrightarrow> sat_u64 n = n"
  by (simp add: sat_u64_def)

lemma unat_max_one: "unat (max (w :: u8) 1) = max (unat w) 1"
  by (auto simp: max_def word_le_nat_alt)

lemma unat_min_cap: "unat (min (w :: u8) MAX_BACKOFF_LEVEL) = min (unat w) 15"
  by (auto simp: min_def word_le_nat_alt MAX_BACKOFF_LEVEL_def)

lemma unat_pred: "(1 :: u8) \<le> w \<Longrightarrow> unat (w - 1) = unat w - 1"
  by (simp add: unat_sub)

text \<open>The closed form: \<open>2s * 2^(level-1)\<close>, at most five minutes; level 0 counts as level 1.\<close>

lemma cooldown_for_eq:
  "cooldown_for level = from_secs (min 300 (2 ^ min (max (unat level) 1) 16))"
proof -
  let ?e = "min (max (unat level) 1 - 1) 15"
  have one: "(1 :: u8) \<le> max level 1" by simp
  have e: "unat (min (max level 1 - 1) MAX_BACKOFF_LEVEL) = ?e"
    by (simp only: unat_min_cap unat_pred [OF one] unat_max_one)
  have "(2::nat) ^ ?e \<le> 2 ^ 15" by (rule power_increasing) simp_all
  then have small: "(2::nat) ^ ?e < 2 ^ 16" by simp
  then have "sat_u64 (2 * sat_u64 (2 ^ ?e)) = 2 * 2 ^ ?e"
    by (simp add: sat_u64_small)
  also have "\<dots> = 2 ^ Suc ?e" by simp
  also have "Suc ?e = min (max (unat level) 1) 16" by simp
  finally show ?thesis
    by (simp only: cooldown_for_def Let_def e min.commute [of _ 300])
qed

lemma cooldown_for_mono: "a \<le> b \<Longrightarrow> cooldown_for a \<le> cooldown_for b"
proof -
  assume "a \<le> b"
  then have "unat a \<le> unat b" by (simp add: word_le_nat_alt)
  then have "min (max (unat a) 1) 16 \<le> min (max (unat b) 1) 16" by linarith
  then have "(2::nat) ^ min (max (unat a) 1) 16 \<le> 2 ^ min (max (unat b) 1) 16"
    by (rule power_increasing) simp
  then show ?thesis by (simp add: cooldown_for_eq min_le_iff_disj)
qed

interpretation bo: cooldown_schedule cooldown_for "from_secs 300"
proof unfold_locales
  fix n :: u8
  have "(2::nat) ^ 1 \<le> 2 ^ min (max (unat n) 1) 16" by (rule power_increasing) simp_all
  then show "from_secs 2 \<le> cooldown_for n" by (simp add: cooldown_for_eq)
  show "cooldown_for n \<le> from_secs 300" by (simp add: cooldown_for_eq)
qed (rule cooldown_for_mono)

section \<open>Classification\<close>

text \<open>\<open>retry-after\<close> in seconds, at most half an hour; a date or junk is ignored.\<close>

definition reset_after_from_header :: "headers \<Rightarrow> duration option" where
  "reset_after_from_header h =
     (case hdr_get h ''retry-after'' of
        None \<Rightarrow> None
      | Some v \<Rightarrow>
          (case header_text v of
             None \<Rightarrow> None
           | Some raw \<Rightarrow>
               (case parse_u64 (trim raw) of
                  None \<Rightarrow> None
                | Some secs \<Rightarrow> Some (from_secs (min secs 1800)))))"

definition classify :: "nat \<Rightarrow> headers \<Rightarrow> error_class" where
  "classify status h =
     (if is_success status then Success
      else if status = 401 then AuthExpired
      else if status = 400 \<or> status = 413 \<or> status = 422 then NonRetryable
      else if status = 429 \<or> status = 408 \<or> status = 500 \<or> status = 502
        \<or> status = 503 \<or> status = 504 then Retryable (reset_after_from_header h)
      else if is_server_error status then Retryable (reset_after_from_header h)
      else Retryable None)"

lemma reset_after_bound: "reset_after_from_header h = Some d \<Longrightarrow> d \<le> from_secs 1800"
  by (auto simp: reset_after_from_header_def split: option.splits)

lemma classify_Success_iff: "classify status h = Success \<longleftrightarrow> is_success status"
  by (simp add: classify_def)

lemma classify_NonRetryable_iff:
  "classify status h = NonRetryable \<longleftrightarrow> status \<in> {400, 413, 422}"
  by (auto simp: classify_def is_success_def)

lemma classify_AuthExpired_iff: "classify status h = AuthExpired \<longleftrightarrow> status = 401"
  by (auto simp: classify_def is_success_def)

lemma classify_retry_after_bound:
  "classify status h = Retryable (Some d) \<Longrightarrow> d \<le> from_secs 1800"
  by (auto simp: classify_def reset_after_bound split: if_splits)

text \<open>How an upstream status is judged: exactly the 2xx are successes, exactly 401 is an expired
  credential, exactly 400, 413 and 422 blame the request; everything else is worth another
  provider, after at most half an hour.\<close>

lemma classify_partition:
  "(classify s h = Success \<longleftrightarrow> 200 \<le> s \<and> s < 300)
   \<and> (classify s h = AuthExpired \<longleftrightarrow> s = 401)
   \<and> (classify s h = NonRetryable \<longleftrightarrow> s \<in> {400, 413, 422})
   \<and> (\<forall>t. classify s h = Retryable (Some t) \<longrightarrow> t \<le> from_secs 1800)"
  unfolding classify_Success_iff classify_AuthExpired_iff classify_NonRetryable_iff is_success_def
  by (intro conjI allI impI HOL.refl classify_retry_after_bound)

end
