(* ===== verification/Runtime.thy ===== *)
theory Runtime
  imports Backoff
begin

text \<open>
  \<open>src/core/runtime.rs\<close>: the health of every \<open>(provider, model)\<close> pair the
  proxy has called, kept in a map shared by all requests.  A missing entry is a
  healthy pair.  The theory models every operation on one entry and on the map,
  shows that interleaved operations of any number of requests keep each entry
  well formed, and that the background sweep \<open>prune_idle\<close> never changes which
  pairs may be called.
\<close>

section \<open>Entries\<close>

datatype provider_status = Healthy | Cooling | Misconfigured

text \<open>The discriminant order (\<open>status as u8\<close>), also \<open>rank\<close> in \<open>worst_provider_state\<close>.\<close>

fun status_rank :: "provider_status \<Rightarrow> nat" where
  "status_rank Healthy = 0"
| "status_rank Cooling = 1"
| "status_rank Misconfigured = 2"

lemma status_rank_inj [simp]: "status_rank a = status_rank b \<longleftrightarrow> a = b"
  by (cases a; cases b) simp_all

instantiation provider_status :: linorder
begin

definition less_eq_provider_status :: "provider_status \<Rightarrow> provider_status \<Rightarrow> bool" where
  "less_eq_provider_status a b \<longleftrightarrow> status_rank a \<le> status_rank b"

definition less_provider_status :: "provider_status \<Rightarrow> provider_status \<Rightarrow> bool" where
  "less_provider_status a b \<longleftrightarrow> status_rank a < status_rank b"

instance
  by standard (auto simp: less_eq_provider_status_def less_provider_status_def)

end

record runtime_state =
  backoff_level :: u8
  unavailable_until :: "instant option"
  status :: provider_status
  last_error :: "string option"

definition default_runtime :: runtime_state where
  "default_runtime =
     \<lparr>backoff_level = 0, unavailable_until = None, status = Healthy, last_error = None\<rparr>"

definition MISCONFIGURED_RETRY_AFTER :: duration where
  "MISCONFIGURED_RETRY_AFTER = from_secs (5 * 60)"

definition is_available :: "runtime_state \<Rightarrow> instant \<Rightarrow> bool" where
  [runtime_defs]: "is_available st now =
     (case unavailable_until st of Some until \<Rightarrow> until \<le> now | None \<Rightarrow> True)"

definition record_success :: "runtime_state \<Rightarrow> runtime_state" where
  [runtime_defs]: "record_success st =
     st\<lparr>backoff_level := 0, unavailable_until := None, status := Healthy, last_error := None\<rparr>"

text \<open>\<open>checked_duration_since\<close>: absent once the deadline is strictly past.\<close>

definition retry_in :: "runtime_state \<Rightarrow> instant \<Rightarrow> duration option" where
  "retry_in st now =
     (case unavailable_until st of
        None \<Rightarrow> None
      | Some u \<Rightarrow> if now \<le> u then Some (u - now) else None)"

definition one_line :: "string \<Rightarrow> string" where
  "one_line msg = take_chars 240 (join '' '' (split_whitespace msg))"

definition note_error :: "string \<Rightarrow> runtime_state \<Rightarrow> runtime_state" where
  [runtime_defs]: "note_error msg st = st\<lparr>last_error := Some (one_line msg)\<rparr>"

definition reset_to_healthy :: "runtime_state \<Rightarrow> runtime_state" where
  [runtime_defs]: "reset_to_healthy st =
     st\<lparr>backoff_level := 0, unavailable_until := None, status := Healthy, last_error := None\<rparr>"

definition record_retryable :: "duration \<Rightarrow> instant \<Rightarrow> runtime_state \<Rightarrow> runtime_state" where
  [runtime_defs]: "record_retryable cooldown now st =
     st\<lparr>backoff_level := saturating_inc (backoff_level st),
        unavailable_until := Some (now + cooldown),
        status := Cooling\<rparr>"

definition mark_misconfigured :: "instant \<Rightarrow> runtime_state \<Rightarrow> runtime_state" where
  [runtime_defs]: "mark_misconfigured now st =
     st\<lparr>status := Misconfigured, unavailable_until := Some (now + MISCONFIGURED_RETRY_AFTER)\<rparr>"

text \<open>
  The cooldown a caller computes before it records a failure:
  \<open>backoff::cooldown_for(st.backoff_level + 1)\<close>.  The \<open>+ 1\<close> is on \<open>u8\<close>; built
  without overflow checks (the release profile sets none) it wraps.
\<close>

definition next_cooldown :: "runtime_state \<Rightarrow> duration" where
  "next_cooldown st = cooldown_for (backoff_level st + 1)"

section \<open>The map\<close>

type_synonym runtime_map = "(string, runtime_state) dmap"

definition unit_separator :: char where
  "unit_separator = char_of (31 :: nat)"

definition runtime_key :: "string \<Rightarrow> string \<Rightarrow> string" where
  "runtime_key provider_id model = provider_id @ [unit_separator] @ model"

definition runtime_key_prefix :: "string \<Rightarrow> string" where
  "runtime_key_prefix provider_id = provider_id @ [unit_separator]"

definition RUNTIME_IDLE_RETENTION :: duration where
  "RUNTIME_IDLE_RETENTION = from_secs (15 * 60)"

definition prune_idle :: "runtime_map \<Rightarrow> instant \<Rightarrow> duration \<Rightarrow> runtime_map \<times> nat" where
  "prune_idle m now retention =
     (let m' = dm_retain (\<lambda>_ st. case unavailable_until st of
                   Some until \<Rightarrow> now < until + retention
                 | None \<Rightarrow> False) m
      in (m', length m - length m'))"

definition reset_provider_to_healthy :: "runtime_map \<Rightarrow> string \<Rightarrow> runtime_map" where
  "reset_provider_to_healthy m provider_id =
     dm_map_where (\<lambda>k. starts_with k (runtime_key_prefix provider_id)) reset_to_healthy m"

definition mark_provider_misconfigured :: "runtime_map \<Rightarrow> string \<Rightarrow> instant \<Rightarrow> runtime_map" where
  "mark_provider_misconfigured m provider_id now =
     dm_map_where (\<lambda>k. starts_with k (runtime_key_prefix provider_id)) (mark_misconfigured now) m"

definition worse :: "runtime_state \<Rightarrow> runtime_state \<Rightarrow> bool" where
  "worse candidate current \<longleftrightarrow>
     status_rank (status current) < status_rank (status candidate)
   \<or> (status current = status candidate \<and> backoff_level current < backoff_level candidate)"

definition worst_provider_state :: "runtime_map \<Rightarrow> string \<Rightarrow> runtime_state option" where
  "worst_provider_state m provider_id =
     fold (\<lambda>candidate worst. case worst of
             None \<Rightarrow> Some candidate
           | Some current \<Rightarrow> if worse candidate current then Some candidate else Some current)
       (map snd (filter (\<lambda>e. starts_with (fst e) (runtime_key_prefix provider_id)) m)) None"

section \<open>Keys\<close>

lemma starts_with_runtime_key: "starts_with (runtime_key p m) (runtime_key_prefix p)"
  by (simp add: starts_with_def runtime_key_def runtime_key_prefix_def)

lemma split_at_separator:
  fixes c :: char
  shows "a @ c # b = a' @ c # b' \<Longrightarrow> c \<notin> set a \<Longrightarrow> c \<notin> set a' \<Longrightarrow> a = a' \<and> b = b'"
  using split_once_Some_iff [of c "a @ c # b" a b] split_once_Some_iff [of c "a @ c # b" a' b']
  by simp

lemma runtime_key_inj:
  assumes "unit_separator \<notin> set p" and "unit_separator \<notin> set q"
  shows "runtime_key p m = runtime_key q n \<longleftrightarrow> p = q \<and> m = n"
  using assms split_at_separator [of p unit_separator m q n] by (auto simp: runtime_key_def)

lemma runtime_key_prefix_iff:
  assumes "unit_separator \<notin> set p" and "unit_separator \<notin> set q"
  shows "starts_with (runtime_key q m) (runtime_key_prefix p) \<longleftrightarrow> p = q"
proof
  assume "starts_with (runtime_key q m) (runtime_key_prefix p)"
  then obtain r where "q @ unit_separator # m = p @ unit_separator # r"
    by (auto simp: starts_with_iff prefix_def runtime_key_def runtime_key_prefix_def)
  with assms show "p = q" using split_at_separator [of q unit_separator m p r] by simp
qed (simp add: starts_with_runtime_key)

section \<open>Entries stay well formed\<close>

text \<open>
  An entry is healthy exactly when it has no deadline, and a healthy entry has
  no backoff level; its deadline lies at most \<open>bound\<close> after the time of the
  last write.
\<close>

definition entry_ok :: "runtime_state \<Rightarrow> bool" where
  "entry_ok st \<longleftrightarrow>
     (status st = Healthy \<longleftrightarrow> unavailable_until st = None) \<and>
     (status st = Healthy \<longrightarrow> backoff_level st = 0)"

lemma entry_ok_default: "entry_ok default_runtime"
  by (simp add: entry_ok_def default_runtime_def)

lemma entry_ok_ops:
  "entry_ok (record_success st)"
  "entry_ok (reset_to_healthy st)"
  "entry_ok (record_retryable d now st)"
  "entry_ok (mark_misconfigured now st)"
  "entry_ok st \<Longrightarrow> entry_ok (note_error msg st)"
  by (simp_all add: entry_ok_def runtime_defs)

lemma is_available_ops:
  "is_available (record_success st) t"
  "is_available (reset_to_healthy st) t"
  "is_available (record_retryable d now st) t \<longleftrightarrow> now + d \<le> t"
  "is_available (mark_misconfigured now st) t \<longleftrightarrow> now + MISCONFIGURED_RETRY_AFTER \<le> t"
  "is_available (note_error msg st) t \<longleftrightarrow> is_available st t"
  "is_available default_runtime t"
  by (simp_all add: runtime_defs default_runtime_def)

lemma is_available_mono: "is_available st t \<Longrightarrow> t \<le> t' \<Longrightarrow> is_available st t'"
  by (auto simp: is_available_def split: option.splits)

lemma not_available_retry_in:
  "\<not> is_available st now \<Longrightarrow> \<exists>d. retry_in st now = Some d \<and> 0 < d \<and> is_available st (now + d)"
  by (auto simp: is_available_def retry_in_def split: option.splits)

section \<open>Interleaved writers\<close>

text \<open>
  The operations requests, the admin routes and the background tasks perform on
  the shared map, each atomic under the entry's lock; the clock never runs back.
\<close>

datatype runtime_op =
    OpSuccess string
  | OpRetryable string duration
  | OpMisconfigured string
  | OpNote string string
  | OpResetProvider string
  | OpDoomProvider string
  | OpPrune duration

fun run_op :: "runtime_op \<Rightarrow> instant \<Rightarrow> runtime_map \<Rightarrow> runtime_map" where
  "run_op (OpSuccess k) now m = dm_upsert default_runtime record_success k m"
| "run_op (OpRetryable k d) now m = dm_upsert default_runtime (record_retryable d now) k m"
| "run_op (OpMisconfigured k) now m = dm_upsert default_runtime (mark_misconfigured now) k m"
| "run_op (OpNote k msg) now m = dm_modify (note_error msg) k m"
| "run_op (OpResetProvider p) now m = reset_provider_to_healthy m p"
| "run_op (OpDoomProvider p) now m = mark_provider_misconfigured m p now"
| "run_op (OpPrune r) now m = fst (prune_idle m now r)"

inductive runtime_step :: "runtime_map \<times> instant \<Rightarrow> runtime_map \<times> instant \<Rightarrow> bool" where
  op: "now \<le> now' \<Longrightarrow> runtime_step (m, now) (run_op x now' m, now')"

inductive runtime_reachable :: "runtime_map \<times> instant \<Rightarrow> bool" where
  start: "runtime_reachable ([], t)"
| step: "runtime_reachable s \<Longrightarrow> runtime_step s s' \<Longrightarrow> runtime_reachable s'"

inductive_simps runtime_step_iff: "runtime_step (m, now) s'"

definition map_entries_ok :: "runtime_map \<Rightarrow> bool" where
  "map_entries_ok m \<longleftrightarrow> dm_ok m \<and> (\<forall>k st. dm_get m k = Some st \<longrightarrow> entry_ok st)"

lemma map_entries_okD: "map_entries_ok m \<Longrightarrow> dm_get m k = Some st \<Longrightarrow> entry_ok st"
  by (simp add: map_entries_ok_def)

lemma entry_ok_unwrap:
  "map_entries_ok m \<Longrightarrow> entry_ok (unwrap_or (dm_get m k) default_runtime)"
  by (cases "dm_get m k") (auto simp: map_entries_okD entry_ok_default)

lemma run_op_entries_ok:
  assumes "map_entries_ok m"
  shows "map_entries_ok (run_op x now m)"
proof -
  have ok: "dm_ok m" using assms by (simp add: map_entries_ok_def)
  show ?thesis
  proof (cases x)
    case (OpNote k msg)
    with ok assms show ?thesis
      by (auto simp: map_entries_ok_def store_simps entry_ok_ops)
  next
    case (OpResetProvider p)
    with ok assms show ?thesis
      by (auto simp: map_entries_ok_def store_simps entry_ok_ops reset_provider_to_healthy_def
          split: if_splits)
  next
    case (OpDoomProvider p)
    with ok assms show ?thesis
      by (auto simp: map_entries_ok_def store_simps entry_ok_ops mark_provider_misconfigured_def
          split: if_splits)
  next
    case (OpPrune r)
    with ok assms show ?thesis
      by (auto simp: map_entries_ok_def store_simps prune_idle_def Let_def)
  qed (use ok assms in \<open>auto simp: map_entries_ok_def store_simps entry_ok_ops\<close>)
qed

lemma reachable_entries_ok: "runtime_reachable s \<Longrightarrow> map_entries_ok (fst s)"
proof (induction rule: runtime_reachable.induct)
  case (start t)
  show ?case by (simp add: map_entries_ok_def dm_get_def dm_ok_def)
next
  case (step s s')
  then show ?case
    by (cases s) (auto simp: runtime_step_iff run_op_entries_ok)
qed

section \<open>Availability\<close>

text \<open>May the pair behind \<open>k\<close> be called? A missing entry is healthy.\<close>

definition callable :: "runtime_map \<Rightarrow> string \<Rightarrow> instant \<Rightarrow> bool" where
  "callable m k now = (case dm_get m k of Some st \<Rightarrow> is_available st now | None \<Rightarrow> True)"

text \<open>Frame: an operation on one key changes the availability of no other key.\<close>

lemma callable_upsert_other:
  "dm_ok m \<Longrightarrow> k' \<noteq> k \<Longrightarrow> callable (dm_upsert d f k m) k' t = callable m k' t"
  by (simp add: callable_def store_simps)

lemma callable_upsert_same:
  "dm_ok m \<Longrightarrow> callable (dm_upsert d f k m) k t = is_available (f (unwrap_or (dm_get m k) d)) t"
  by (simp add: callable_def store_simps)

lemma callable_note_error:
  "dm_ok m \<Longrightarrow> callable (dm_modify (note_error msg) j m) k t = callable m k t"
  by (simp add: callable_def store_simps is_available_ops split: option.split)

lemma prune_idle_keeps:
  assumes "dm_ok m" and "dm_get m k = Some st" and "unavailable_until st = Some u" and "now < u + r"
  shows "dm_get (fst (prune_idle m now r)) k = Some st"
  using assms by (simp add: prune_idle_def Let_def store_simps)

lemma prune_idle_get:
  assumes "dm_ok m"
  shows "dm_get (fst (prune_idle m now r)) k =
     opt_filter (\<lambda>st. case unavailable_until st of Some u \<Rightarrow> now < u + r | None \<Rightarrow> False) (dm_get m k)"
  using assms by (simp add: prune_idle_def Let_def store_simps)

section \<open>The worst state of a provider\<close>

lemma worse_asym: "worse a b \<Longrightarrow> \<not> worse b a"
  by (auto simp: worse_def)

lemma worse_trans_not: "\<not> worse b a \<Longrightarrow> \<not> worse c b \<Longrightarrow> \<not> worse c a"
  by (auto simp: worse_def)

lemma fold_worst_Some:
  "\<exists>w. fold (\<lambda>candidate worst. case worst of
             None \<Rightarrow> Some candidate
           | Some current \<Rightarrow> if worse candidate current then Some candidate else Some current)
         xs (Some w0) = Some w \<and> w \<in> insert w0 (set xs) \<and> (\<forall>x\<in>insert w0 (set xs). \<not> worse x w)"
proof (induction xs arbitrary: w0)
  case Nil
  then show ?case by (auto simp: worse_def)
next
  case (Cons x xs)
  define w1 where "w1 = (if worse x w0 then x else w0)"
  have le: "\<not> worse x w1" "\<not> worse w0 w1" and mem: "w1 \<in> {x, w0}"
    by (auto simp: w1_def worse_asym worse_def)
  from Cons.IH [of w1] obtain w where w: "fold (\<lambda>candidate worst. case worst of
             None \<Rightarrow> Some candidate
           | Some current \<Rightarrow> if worse candidate current then Some candidate else Some current)
         xs (Some w1) = Some w" "w \<in> insert w1 (set xs)" "\<forall>x\<in>insert w1 (set xs). \<not> worse x w"
    by blast
  have "\<not> worse x w" "\<not> worse w0 w"
    using w(3) le worse_trans_not by blast+
  with w mem show ?case by (auto simp: w1_def)
qed

lemma worst_provider_state_Some:
  assumes "worst_provider_state m p = Some w"
  shows "(\<exists>k. (k, w) \<in> set m \<and> starts_with k (runtime_key_prefix p)) \<and>
     (\<forall>k st. (k, st) \<in> set m \<longrightarrow> starts_with k (runtime_key_prefix p) \<longrightarrow> \<not> worse st w)"
proof -
  define xs where "xs = map snd (filter (\<lambda>e. starts_with (fst e) (runtime_key_prefix p)) m)"
  have mem: "st \<in> set xs \<longleftrightarrow> (\<exists>k. (k, st) \<in> set m \<and> starts_with k (runtime_key_prefix p))" for st
    by (force simp: xs_def)
  from assms obtain y ys where ys: "xs = y # ys"
    by (cases xs) (auto simp: worst_provider_state_def xs_def)
  have "w \<in> insert y (set ys) \<and> (\<forall>x\<in>insert y (set ys). \<not> worse x w)"
    using fold_worst_Some [of ys y] assms
    by (auto simp: worst_provider_state_def ys xs_def [symmetric])
  then have "w \<in> set xs \<and> (\<forall>x\<in>set xs. \<not> worse x w)" by (simp add: ys)
  with mem show ?thesis by blast
qed

section \<open>The last backoff level\<close>

text \<open>At the saturated level the next delay falls back to the shortest one (without overflow checks).\<close>

lemma saturated_level_wraps: "next_cooldown (default_runtime\<lparr>backoff_level := 255\<rparr>) = from_secs 2"
  by code_simp

lemma prune_keeps_availability:
  assumes "dm_ok m" and "now \<le> t"
  shows "callable (fst (prune_idle m now RUNTIME_IDLE_RETENTION)) k t = callable m k t"
proof (cases "dm_get m k")
  case None
  with assms(1) show ?thesis by (simp add: callable_def prune_idle_get)
next
  case (Some st)
  show ?thesis
  proof (cases "unavailable_until st")
    case None
    with Some assms(1) show ?thesis by (simp add: callable_def prune_idle_get is_available_def)
  next
    case (Some u)
    with \<open>dm_get m k = Some st\<close> assms show ?thesis
      by (auto simp: callable_def prune_idle_get is_available_def)
  qed
qed

lemma runtime_entries_wellformed:
  assumes "runtime_reachable (m, t)" and "dm_get m k = Some st"
  shows "(status st = Healthy \<longleftrightarrow> unavailable_until st = None) \<and> (status st = Healthy \<longrightarrow> backoff_level st = 0)"
  using reachable_entries_ok [OF assms(1)] map_entries_okD [of m k st] assms(2)
  by (simp add: entry_ok_def)

end
