(* ===== verification/Select.thy ===== *)
theory Select
  imports Runtime "HOL-Library.Multiset"
begin

text \<open>
  \<open>src/pools/select.rs\<close>: from the model name a client asks for to the ordered
  list of candidates the failover loop tries.  Selection reads the configuration
  snapshot and advances the pool's rotation cursor, so it takes and returns the
  rotation map.  The interface \<open>candidate_source\<close> is what the proxy and the
  image route rely on; \<open>select\<close> and \<open>select_image\<close> both provide it.
\<close>

section \<open>Data\<close>

record resolved_member =
  rm_provider :: provider
  rm_effective_model :: string
  rm_dataset_logging_override :: "bool option"
  rm_reasoning_effort_override :: "effort_level option"

record selection =
  sel_pool :: "pool option"
  sel_providers :: "resolved_member list"

text \<open>\<open>core::state::RotationState\<close>; \<open>usize\<close> indices stay below the number of members.\<close>

record rotation_state =
  rot_index :: nat
  rot_consecutive_uses :: u32

type_synonym rotation_map = "(string, rotation_state) dmap"

type_synonym discovered_map = "(string, string list) dmap"

definition default_rotation :: rotation_state where
  "default_rotation = \<lparr>rot_index = 0, rot_consecutive_uses = 0\<rparr>"

section \<open>Overrides\<close>

definition dataset_logging_enabled :: "provider \<Rightarrow> bool option \<Rightarrow> bool" where
  "dataset_logging_enabled p member_override = unwrap_or member_override (prov_dataset_logging p)"

definition resolve_reasoning_effort :: "provider \<Rightarrow> effort_level option \<Rightarrow> effort_level option" where
  "resolve_reasoning_effort p member_override =
     opt_or member_override (prov_default_reasoning_effort p)"

section \<open>Rotation\<close>

text \<open>\<open>n as u32\<close> keeps the low 32 bits of the \<open>i64\<close>.\<close>

definition normalize_sticky_limit :: "int option \<Rightarrow> u32" where
  "normalize_sticky_limit sticky_limit =
     (case sticky_limit of
        Some n \<Rightarrow> if 0 < n then word_of_int n else 1
      | None \<Rightarrow> 1)"

definition advance :: "nat \<Rightarrow> u32 \<Rightarrow> rotation_state \<Rightarrow> rotation_state" where
  "advance len sticky st =
     (let head = rot_index st mod len
      in if sticky \<le> rot_consecutive_uses st + 1
         then \<lparr>rot_index = (head + 1) mod len, rot_consecutive_uses = 0\<rparr>
         else \<lparr>rot_index = head, rot_consecutive_uses = rot_consecutive_uses st + 1\<rparr>)"

definition rotate_from_cursor ::
  "pool \<Rightarrow> pool_member list \<Rightarrow> rotation_map \<Rightarrow> pool_member list \<times> rotation_map" where
  "rotate_from_cursor p members rotation =
     (let len = length members;
          sticky_limit = normalize_sticky_limit (pool_sticky_limit p);
          st = unwrap_or (dm_get rotation (pool_id p)) default_rotation;
          head = rot_index st mod len
      in (rotate head members, dm_put (pool_id p) (advance len sticky_limit st) rotation))"

section \<open>Selection\<close>

definition MAX_DIRECT_MODEL_LEN :: nat where
  "MAX_DIRECT_MODEL_LEN = 200"

definition find_provider :: "config_snapshot \<Rightarrow> string \<Rightarrow> provider option" where
  "find_provider s i = find (\<lambda>p. prov_id p = i) (snap_providers s)"

definition find_pool :: "config_snapshot \<Rightarrow> string \<Rightarrow> pool_with_members option" where
  "find_pool s i = find (\<lambda>p. pool_id (pwm_pool p) = i) (snap_pools s)"

definition bad_model_char :: "string \<Rightarrow> bool" where
  "bad_model_char c \<longleftrightarrow> is_control c \<or> is_whitespace c"

definition select_direct_provider ::
  "config_snapshot \<Rightarrow> string \<Rightarrow> wire_format \<Rightarrow> selection option" where
  "select_direct_provider s requested wire =
     (case split_once (CHR ''/'') requested of
        None \<Rightarrow> None
      | Some (provider_id, model) \<Rightarrow>
          if model = [] \<or> MAX_DIRECT_MODEL_LEN < length model \<or> list_ex bad_model_char (chars model)
          then None
          else (case find_provider s provider_id of
                  None \<Rightarrow> None
                | Some p \<Rightarrow> Some
                    \<lparr>sel_pool = None,
                     sel_providers = [\<lparr>rm_provider = p, rm_effective_model = model,
                       rm_dataset_logging_override = None, rm_reasoning_effort_override = None\<rparr>]\<rparr>))"

definition resolve_member :: "config_snapshot \<Rightarrow> pool_member \<Rightarrow> resolved_member option" where
  "resolve_member s m =
     (case find_provider s (mem_provider_id m) of
        None \<Rightarrow> None
      | Some p \<Rightarrow> Some
          \<lparr>rm_provider = p,
           rm_effective_model = unwrap_or (mem_model_override m) (prov_upstream_model p),
           rm_dataset_logging_override = mem_dataset_logging_override m,
           rm_reasoning_effort_override = mem_reasoning_effort_override m\<rparr>)"

text \<open>The members in the order they are tried, and the moved cursor.\<close>

definition order_members ::
  "pool \<Rightarrow> pool_member list \<Rightarrow> rotation_map \<Rightarrow> pool_member list \<times> rotation_map" where
  "order_members p ms rotation =
     (let members = sort_key mem_priority ms
      in if pool_strategy p = RoundRobin \<and> 1 < length members
         then rotate_from_cursor p members rotation
         else (members, rotation))"

definition select ::
  "config_snapshot \<Rightarrow> string \<Rightarrow> wire_format \<Rightarrow> rotation_map \<Rightarrow> selection option \<times> rotation_map" where
  "select s i wire rotation =
     (case find_pool s i of
        Some pwm \<Rightarrow>
          if pool_modality (pwm_pool pwm) \<noteq> Chat then (None, rotation)
          else (let (members, rotation') = order_members (pwm_pool pwm) (pwm_members pwm) rotation
                in (Some \<lparr>sel_pool = Some (pwm_pool pwm),
                          sel_providers = List.map_filter (resolve_member s) members\<rparr>,
                    rotation'))
      | None \<Rightarrow> (select_direct_provider s i wire, rotation))"

section \<open>Image selection\<close>

definition valid_image_name :: "string \<Rightarrow> bool" where
  "valid_image_name s \<longleftrightarrow>
     s \<noteq> [] \<and> length s \<le> MAX_DIRECT_MODEL_LEN \<and> \<not> list_ex bad_model_char (chars s)"

definition is_image_model :: "string \<Rightarrow> bool" where
  "is_image_model model \<longleftrightarrow>
     valid_image_name model \<and>
     ((case strip_prefix ''gpt-image-'' model of Some rest \<Rightarrow> rest \<noteq> [] | None \<Rightarrow> False)
    \<or> (case strip_suffix ''-image'' model of Some host \<Rightarrow> host \<noteq> [] | None \<Rightarrow> False))"

definition image_member_eligible :: "provider \<Rightarrow> pool_member \<Rightarrow> bool" where
  "image_member_eligible p m \<longleftrightarrow>
     prov_kind p = OauthCodex \<and>
     (case mem_model_override m of Some model \<Rightarrow> is_image_model model | None \<Rightarrow> False)"

definition resolve_image_member :: "config_snapshot \<Rightarrow> pool_member \<Rightarrow> resolved_member option" where
  "resolve_image_member s m =
     (case find_provider s (mem_provider_id m) of
        None \<Rightarrow> None
      | Some p \<Rightarrow>
          (case mem_model_override m of
             None \<Rightarrow> None
           | Some model \<Rightarrow> Some
               \<lparr>rm_provider = p, rm_effective_model = model,
                rm_dataset_logging_override = Some False, rm_reasoning_effort_override = None\<rparr>))"

definition select_image ::
  "config_snapshot \<Rightarrow> string \<Rightarrow> rotation_map \<Rightarrow> selection option \<times> rotation_map" where
  "select_image s i rotation =
     (case find_pool s i of
        Some pwm \<Rightarrow>
          if pool_modality (pwm_pool pwm) \<noteq> Image then (None, rotation)
          else (let eligible = filter (\<lambda>m. case find_provider s (mem_provider_id m) of
                                   Some p \<Rightarrow> image_member_eligible p m | None \<Rightarrow> False)
                                 (pwm_members pwm);
                    (members, rotation') = order_members (pwm_pool pwm) eligible rotation
                in (Some \<lparr>sel_pool = Some (pwm_pool pwm),
                          sel_providers = List.map_filter (resolve_image_member s) members\<rparr>,
                    rotation'))
      | None \<Rightarrow>
          ((case split_once (CHR ''/'') i of
              None \<Rightarrow> None
            | Some (provider_id, model) \<Rightarrow>
                if \<not> is_image_model model then None
                else (case find (\<lambda>p. prov_id p = provider_id \<and> prov_kind p = OauthCodex)
                             (snap_providers s) of
                        None \<Rightarrow> None
                      | Some p \<Rightarrow> Some
                          \<lparr>sel_pool = None,
                           sel_providers = [\<lparr>rm_provider = p, rm_effective_model = model,
                             rm_dataset_logging_override = Some False,
                             rm_reasoning_effort_override = None\<rparr>]\<rparr>)),
           rotation))"

section \<open>Direct addressing of non-admin callers\<close>

definition direct_model_allowed ::
  "config_snapshot \<Rightarrow> discovered_map \<Rightarrow> provider \<Rightarrow> string \<Rightarrow> bool" where
  "direct_model_allowed s discovered p model \<longleftrightarrow>
     prov_upstream_model p = model
   \<or> list_ex (\<lambda>pwm. pool_modality (pwm_pool pwm) = Chat \<and>
         list_ex (\<lambda>m. mem_provider_id m = prov_id p \<and> mem_model_override m = Some model)
           (pwm_members pwm)) (snap_pools s)
   \<or> (case dm_get discovered (prov_id p) of
        Some models \<Rightarrow> list_ex (\<lambda>m. m = model) models | None \<Rightarrow> False)"

section \<open>What a caller of selection relies on\<close>

text \<open>
  Candidates are configured providers; a selection without a pool names exactly
  one; a refused request leaves every cursor where it was.
\<close>

locale candidate_source =
  fixes pick :: "config_snapshot \<Rightarrow> string \<Rightarrow> rotation_map \<Rightarrow> selection option \<times> rotation_map"
  assumes pick_configured:
      "pick s i r = (Some sel, r') \<Longrightarrow> m \<in> set (sel_providers sel) \<Longrightarrow>
         rm_provider m \<in> set (snap_providers s)"
    and pick_pool:
      "pick s i r = (Some sel, r') \<Longrightarrow> sel_pool sel = Some p \<Longrightarrow>
         p \<in> pwm_pool ` set (snap_pools s) \<and> pool_id p = i"
    and pick_direct:
      "pick s i r = (Some sel, r') \<Longrightarrow> sel_pool sel = None \<Longrightarrow>
         length (sel_providers sel) = 1 \<and> r' = r"
    and pick_refused: "pick s i r = (None, r') \<Longrightarrow> r' = r"
begin

text \<open>No configured provider, no candidate: the failover loop has nothing to call.\<close>

lemma no_providers_no_candidates:
  assumes "pick s i r = (Some sel, r')" and "snap_providers s = []"
  shows "sel_providers sel = []" and "sel_pool sel \<noteq> None"
proof -
  show *: "sel_providers sel = []"
    using pick_configured [OF assms(1)] assms(2) by (cases "sel_providers sel") auto
  show "sel_pool sel \<noteq> None"
    using pick_direct [OF assms(1)] * by auto
qed

text \<open>The cursor only moves for a pool.\<close>

lemma rotation_moves_only_for_pools:
  assumes "pick s i r = (osel, r')" and "r' \<noteq> r"
  shows "\<exists>sel p. osel = Some sel \<and> sel_pool sel = Some p \<and> pool_id p = i"
proof (cases osel)
  case None
  with assms pick_refused show ?thesis by blast
next
  case (Some sel)
  with assms pick_direct [of s i r sel r'] pick_pool [of s i r sel r'] show ?thesis
    by (cases "sel_pool sel") auto
qed

end

lemma find_pool_SomeD:
  "find_pool s i = Some pwm \<Longrightarrow> pwm \<in> set (snap_pools s) \<and> pool_id (pwm_pool pwm) = i"
  unfolding find_pool_def by (rule find_Some_iff_mem)

lemma find_provider_SomeD:
  "find_provider s i = Some p \<Longrightarrow> p \<in> set (snap_providers s) \<and> prov_id p = i"
  unfolding find_provider_def by (rule find_Some_iff_mem)

lemma resolve_member_provider:
  "resolve_member s m = Some r \<Longrightarrow>
     rm_provider r \<in> set (snap_providers s) \<and> prov_id (rm_provider r) = mem_provider_id m"
  by (auto simp: resolve_member_def dest: find_provider_SomeD split: option.splits)

lemma resolve_image_member_provider:
  "resolve_image_member s m = Some r \<Longrightarrow>
     rm_provider r \<in> set (snap_providers s) \<and> prov_id (rm_provider r) = mem_provider_id m"
  by (auto simp: resolve_image_member_def dest: find_provider_SomeD split: option.splits)

lemma select_direct_SomeD:
  assumes "select_direct_provider s i w = Some sel"
  shows "sel_pool sel = None \<and>
     (\<exists>p model. i = prov_id p @ CHR ''/'' # model \<and> p \<in> set (snap_providers s) \<and>
        sel_providers sel = [\<lparr>rm_provider = p, rm_effective_model = model,
          rm_dataset_logging_override = None, rm_reasoning_effort_override = None\<rparr>])"
  using assms
  by (auto simp: select_direct_provider_def split_once_Some_iff
      dest: find_provider_SomeD split: option.splits prod.splits if_splits)

lemma select_pool_SomeD:
  assumes "select s i w r = (Some sel, r')" and "sel_pool sel = Some p"
  shows "\<exists>pwm. find_pool s i = Some pwm \<and> pwm_pool pwm = p \<and> pool_modality p = Chat
     \<and> sel_providers sel = List.map_filter (resolve_member s) (fst (order_members p (pwm_members pwm) r))
     \<and> r' = snd (order_members p (pwm_members pwm) r)"
proof (cases "find_pool s i")
  case None
  with assms show ?thesis by (auto simp: select_def dest: select_direct_SomeD)
next
  case (Some pwm)
  obtain ms r1 where "order_members (pwm_pool pwm) (pwm_members pwm) r = (ms, r1)"
    by (cases "order_members (pwm_pool pwm) (pwm_members pwm) r")
  with Some assms show ?thesis by (auto simp: select_def split: if_splits)
qed

interpretation chat_pick: candidate_source "\<lambda>s i. select s i w" for w
proof unfold_locales
  fix s i r sel r' m
  assume "select s i w r = (Some sel, r')" and "m \<in> set (sel_providers sel)"
  then show "rm_provider m \<in> set (snap_providers s)"
    by (auto simp: select_def set_map_filter_eq dest: resolve_member_provider select_direct_SomeD
        split: option.splits if_splits prod.splits)
next
  fix s i r sel r' p
  assume "select s i w r = (Some sel, r')" and "sel_pool sel = Some p"
  then show "p \<in> pwm_pool ` set (snap_pools s) \<and> pool_id p = i"
    by (auto simp: select_def dest: find_pool_SomeD select_direct_SomeD
        split: option.splits if_splits prod.splits)
next
  fix s i r sel r'
  assume "select s i w r = (Some sel, r')" and "sel_pool sel = None"
  then show "length (sel_providers sel) = 1 \<and> r' = r"
    by (auto simp: select_def dest: select_direct_SomeD split: option.splits if_splits prod.splits)
next
  fix s i r r'
  assume "select s i w r = (None, r')"
  then show "r' = r" by (auto simp: select_def split: option.splits if_splits prod.splits)
qed

interpretation image_pick: candidate_source select_image
proof unfold_locales
  fix s i r sel r' m
  assume "select_image s i r = (Some sel, r')" and "m \<in> set (sel_providers sel)"
  then show "rm_provider m \<in> set (snap_providers s)"
    by (auto simp: select_image_def set_map_filter_eq Let_def
        dest: resolve_image_member_provider find_Some_iff_mem
        split: option.splits if_splits prod.splits)
next
  fix s i r sel r' p
  assume "select_image s i r = (Some sel, r')" and "sel_pool sel = Some p"
  then show "p \<in> pwm_pool ` set (snap_pools s) \<and> pool_id p = i"
    by (auto simp: select_image_def Let_def dest: find_pool_SomeD
        split: option.splits if_splits prod.splits)
next
  fix s i r sel r'
  assume "select_image s i r = (Some sel, r')" and "sel_pool sel = None"
  then show "length (sel_providers sel) = 1 \<and> r' = r"
    by (auto simp: select_image_def Let_def split: option.splits if_splits prod.splits)
next
  fix s i r r'
  assume "select_image s i r = (None, r')"
  then show "r' = r"
    by (auto simp: select_image_def Let_def split: option.splits if_splits prod.splits)
qed

section \<open>Order of the candidates\<close>

lemma mset_rotate_list: "mset (rotate n xs) = mset xs"
  by (simp add: rotate_drop_take flip: mset_append)
    (metis append_take_drop_id mset_append union_commute)

lemma mset_order_members: "mset (fst (order_members p ms r)) = mset ms"
  by (simp add: order_members_def rotate_from_cursor_def Let_def mset_rotate_list)

lemma order_members_priority:
  "pool_strategy p = Priority \<Longrightarrow> order_members p ms r = (sort_key mem_priority ms, r)"
  by (simp add: order_members_def)

lemma order_members_rotated:
  "\<exists>n. fst (order_members p ms r) = rotate n (sort_key mem_priority ms)"
  by (auto simp: order_members_def rotate_from_cursor_def Let_def intro: exI [of _ 0])

section \<open>Round robin\<close>

text \<open>
  The abstract cursor is one number, how many selections there have been.  The
  stored state represents it: \<open>j div L\<close> full turns of the sticky limit \<open>L\<close>
  and \<open>j mod L\<close> uses of the current head.
\<close>

definition sticky_of :: "pool \<Rightarrow> nat" where
  "sticky_of p = unat (normalize_sticky_limit (pool_sticky_limit p))"

definition represents :: "nat \<Rightarrow> nat \<Rightarrow> rotation_state \<Rightarrow> nat \<Rightarrow> bool" where
  "represents n L st j \<longleftrightarrow>
     rot_index st = (j div L) mod n \<and> unat (rot_consecutive_uses st) = j mod L"

lemma represents_default: "represents n L default_rotation 0"
  by (simp add: represents_def default_rotation_def)

lemma div_mod_Suc:
  assumes "0 < (L::nat)"
  shows "L \<le> Suc (j mod L) \<Longrightarrow> Suc j div L = Suc (j div L) \<and> Suc j mod L = 0"
    and "\<not> L \<le> Suc (j mod L) \<Longrightarrow> Suc j div L = j div L \<and> Suc j mod L = Suc (j mod L)"
  using assms mod_less_divisor [OF assms, of j] by (auto simp: div_Suc mod_Suc)

lemma represents_advance:
  assumes rep: "represents n L st j" and n: "0 < n" and L: "0 < L"
    and sticky: "unat sticky = L"
  shows "represents n L (advance n sticky st) (Suc j)"
proof -
  let ?u = "rot_consecutive_uses st"
  have uj: "unat ?u = j mod L" and ij: "rot_index st = (j div L) mod n"
    using rep by (auto simp: represents_def)
  have "L < 2 ^ 32" using sticky unsigned_less [of sticky] by auto
  then have nowrap: "unat (?u + 1) = Suc (j mod L)"
    using mod_less_divisor [OF L, of j] by (simp add: unat_word_ariths uj)
  have cmp: "sticky \<le> ?u + 1 \<longleftrightarrow> L \<le> Suc (j mod L)"
    by (simp add: word_le_nat_alt nowrap sticky)
  show ?thesis
  proof (cases "L \<le> Suc (j mod L)")
    case True
    with div_mod_Suc(1) [OF L True] show ?thesis
      by (simp add: advance_def Let_def cmp represents_def ij mod_Suc_eq)
  next
    case False
    with div_mod_Suc(2) [OF L False] show ?thesis
      by (simp add: advance_def Let_def cmp represents_def ij nowrap)
  qed
qed

text \<open>\<open>k\<close> selections in a row on one pool; the list of heads they try first.\<close>

fun heads :: "pool \<Rightarrow> pool_member list \<Rightarrow> rotation_map \<Rightarrow> nat \<Rightarrow> pool_member list" where
  "heads p ms r 0 = []"
| "heads p ms r (Suc k) =
     (let (ms', r') = order_members p ms r in hd ms' # heads p ms r' k)"

lemma heads_eq:
  assumes rr: "pool_strategy p = RoundRobin" and n: "1 < length ms" and L: "0 < sticky_of p"
    and ok: "dm_ok r"
    and rep: "represents (length ms) (sticky_of p) (unwrap_or (dm_get r (pool_id p)) default_rotation) j"
  shows "heads p ms r k =
     map (\<lambda>i. sort_key mem_priority ms ! (((j + i) div sticky_of p) mod length ms)) [0..<k]"
  using ok rep
proof (induction k arbitrary: r j)
  case 0
  then show ?case by simp
next
  case (Suc k)
  let ?sms = "sort_key mem_priority ms"
  let ?st = "unwrap_or (dm_get r (pool_id p)) default_rotation"
  let ?st' = "advance (length ms) (normalize_sticky_limit (pool_sticky_limit p)) ?st"
  let ?r' = "dm_put (pool_id p) ?st' r"
  have n0: "0 < length ms" and ne: "ms \<noteq> []" using n by auto
  have idx: "rot_index ?st mod length ms = (j div sticky_of p) mod length ms"
    using Suc.prems(2) by (simp add: represents_def)
  have ord: "order_members p ms r = (rotate (rot_index ?st mod length ms) ?sms, ?r')"
    using rr n by (simp add: order_members_def rotate_from_cursor_def Let_def)
  have "hd (rotate (rot_index ?st mod length ms) ?sms) = ?sms ! ((j div sticky_of p) mod length ms)"
  proof -
    have "?sms \<noteq> []" using n0 length_sort [of mem_priority ms] by fastforce
    then have "hd (rotate (rot_index ?st mod length ms) ?sms) =
        ?sms ! ((rot_index ?st mod length ms) mod length ?sms)"
      by (rule hd_rotate_conv_nth)
    then show ?thesis by (simp only: idx length_sort mod_mod_trivial)
  qed
  moreover have "heads p ms ?r' k =
      map (\<lambda>i. ?sms ! (((Suc j + i) div sticky_of p) mod length ms)) [0..<k]"
  proof (rule Suc.IH)
    show "dm_ok ?r'" using Suc.prems(1) by auto
    show "represents (length ms) (sticky_of p)
        (unwrap_or (dm_get ?r' (pool_id p)) default_rotation) (Suc j)"
      using represents_advance [OF Suc.prems(2) n0 L] Suc.prems(1)
      by (simp add: store_simps sticky_of_def)
  qed
  ultimately show ?case
    by (simp add: ord upt_conv_Cons_Cons map_upt_Suc del: upt_Suc)
qed

text \<open>The cast of a large sticky limit wraps: every use moves the cursor.\<close>

lemma sticky_limit_wraps: "normalize_sticky_limit (Some (2 ^ 32)) = 0"
  by code_simp

lemma select_order:
  assumes "select s i w r = (Some sel, r')" and "sel_pool sel = Some p"
  shows "\<exists>pwm ms n. find_pool s i = Some pwm \<and> pwm_pool pwm = p \<and> pool_modality p = Chat
     \<and> mset ms = mset (pwm_members pwm) \<and> sorted (map mem_priority ms)
     \<and> sel_providers sel = List.map_filter (resolve_member s) (rotate n ms)
     \<and> (pool_strategy p = Priority \<longrightarrow> n = 0 \<and> r' = r)"
proof -
  from select_pool_SomeD [OF assms] obtain pwm where pwm: "find_pool s i = Some pwm" "pwm_pool pwm = p"
    "pool_modality p = Chat"
    and sel: "sel_providers sel = List.map_filter (resolve_member s) (fst (order_members p (pwm_members pwm) r))"
    and r': "r' = snd (order_members p (pwm_members pwm) r)"
    by blast
  let ?ms = "sort_key mem_priority (pwm_members pwm)"
  obtain n where n: "fst (order_members p (pwm_members pwm) r) = rotate n ?ms"
    using order_members_rotated by blast
  show ?thesis
  proof (cases "pool_strategy p = Priority")
    case True
    with pwm sel r' show ?thesis
      by (intro exI [of _ pwm] exI [of _ ?ms] exI [of _ 0]) (simp add: order_members_priority)
  next
    case False
    with pwm sel n show ?thesis by (intro exI [of _ pwm] exI [of _ ?ms] exI [of _ n]) simp
  qed
qed

end
