(* ===== verification/ProviderStore.thy ===== *)
theory ProviderStore
  imports Store Reasoning Select
begin

text \<open>
  \<open>src/providers/queries.rs\<close>: validation and storage of providers and of their
  OAuth state.  Every function takes the current time where the code calls
  \<open>Utc::now()\<close>.  The theory shows that each operation keeps the constraints of the
  schema and that no provider or pool member it accepts carries a reasoning
  effort its model does not support.
\<close>

section \<open>Validation\<close>

record provider_patch =
  patch_name :: "string option"
  patch_base_url :: "string option option"
  patch_api_key :: "string option option"
  patch_upstream_model :: "string option"
  patch_wire_format :: "wire_format option"
  patch_dataset_logging :: "bool option"
  patch_default_reasoning_effort :: "effort_level option option"

definition no_patch :: provider_patch where
  "no_patch = \<lparr>patch_name = None, patch_base_url = None, patch_api_key = None,
     patch_upstream_model = None, patch_wire_format = None, patch_dataset_logging = None,
     patch_default_reasoning_effort = None\<rparr>"

definition provider_effort_ok :: "provider \<Rightarrow> bool" where
  "provider_effort_ok p \<longleftrightarrow>
     (case prov_default_reasoning_effort p of
        None \<Rightarrow> True
      | Some level \<Rightarrow> supports (capability_for (prov_kind p) (prov_wire_format p) (prov_upstream_model p)))"

definition check_provider_reasoning_effort :: "provider \<Rightarrow> app_error + unit" where
  "check_provider_reasoning_effort p =
     (case prov_default_reasoning_effort p of
        None \<Rightarrow> Inr ()
      | Some level \<Rightarrow>
          if supports (capability_for (prov_kind p) (prov_wire_format p) (prov_upstream_model p))
          then Inr ()
          else Inl (BadRequest
            (''provider '' @ quoted (prov_id p) @ '' ('' @ provider_kind_debug (prov_kind p) @ '' / ''
             @ wire_format_debug (prov_wire_format p) @ '' / model '' @ quoted (prov_upstream_model p)
             @ '') does not accept a reasoning effort - clear default_reasoning_effort (currently ''
             @ effort_level_debug level @ '') or pick a model that does'')))"

definition effective_model_of :: "provider \<Rightarrow> pool_member \<Rightarrow> string" where
  "effective_model_of p m = unwrap_or (mem_model_override m) (prov_upstream_model p)"

definition member_effort_ok :: "provider \<Rightarrow> pool_member \<Rightarrow> bool" where
  "member_effort_ok p m \<longleftrightarrow>
     mem_reasoning_effort_override m = None
   \<or> supports (capability_for (prov_kind p) (prov_wire_format p) (effective_model_of p m))"

definition check_member_reasoning_overrides :: "provider \<Rightarrow> unit query" where
  "check_member_reasoning_overrides p =
     attempt (fetch (\<lambda>db. filter (\<lambda>m. mem_provider_id m = prov_id p
                         \<and> mem_reasoning_effort_override m \<noteq> None) (t_members db)))
       (\<lambda>rows. case find (\<lambda>m. \<not> member_effort_ok p m) rows of
          None \<Rightarrow> ok_ret ()
        | Some m \<Rightarrow> fail_ret (BadRequest
            (''pool '' @ quoted (mem_pool_id m) @ '' has a member on provider '' @ quoted (prov_id p)
             @ '' with reasoning_effort_override ''
             @ effort_level_debug (the (mem_reasoning_effort_override m))
             @ '', which model '' @ quoted (effective_model_of p m)
             @ '' would no longer accept after this edit - clear that member''
             @ [char_of (39 :: nat)] @ ''s override first'')))"

definition clean_opt :: "string option \<Rightarrow> string option" where
  "clean_opt v = opt_filter (\<lambda>s. s \<noteq> []) (map_option trim v)"

definition clean_endpoint :: "string option \<Rightarrow> string option" where
  "clean_endpoint v = map_option (trim_end_char (CHR ''/'')) (clean_opt v)"

text \<open>One \<open>char\<close> that is an ASCII letter or digit.\<close>

definition alnum_char :: "string \<Rightarrow> bool" where
  "alnum_char d \<longleftrightarrow> (case d of [c] \<Rightarrow> is_ascii_alphanumeric c | _ \<Rightarrow> False)"

definition id_char :: "string \<Rightarrow> bool" where
  "id_char d \<longleftrightarrow> alnum_char d \<or> d \<in> {''.'', ''_'', ''-''}"

definition valid_id :: "string \<Rightarrow> bool" where
  "valid_id i \<longleftrightarrow>
     i \<noteq> [] \<and> length i \<le> 64
   \<and> (case chars i of d # _ \<Rightarrow> alnum_char d | [] \<Rightarrow> False)
   \<and> list_all id_char (chars i)"

definition validate_id :: "string \<Rightarrow> app_error + unit" where
  "validate_id i =
     (if valid_id i then Inr ()
      else Inl (BadRequest
        (''provider id must be 1-64 chars of letters, digits, '' @ quoted ''.'' @ '', ''
         @ quoted ''_'' @ '' or '' @ quoted ''-'' @ '', starting with a letter or digit'')))"

definition slug_push :: "string \<Rightarrow> string \<Rightarrow> string" where
  "slug_push c slug =
     (if alnum_char c then slug @ to_ascii_lowercase c
      else if \<not> ends_with slug ''-'' \<and> slug \<noteq> [] then slug @ ''-''
      else slug)"

definition id_from_name :: "string \<Rightarrow> string" where
  "id_from_name name =
     (let name = trim name
      in if is_ok (validate_id name) then name
         else (let slug = take_chars 64 (trim_end_char (CHR ''-'') (fold slug_push (chars name) []))
               in if slug = [] then ''provider'' else slug))"

definition validate_endpoint :: "string option \<Rightarrow> app_error + unit" where
  "validate_endpoint url =
     (case url of
        Some u \<Rightarrow>
          if \<not> (starts_with u ''http://'' \<or> starts_with u ''https://'')
          then Inl (BadRequest ''endpoint URL must start with http:// or https://'')
          else Inr ()
      | None \<Rightarrow> Inr ())"

text \<open>\<open>normalize_new\<close> returns the normalised row, or the error it is refused with.\<close>

definition normalize_new :: "provider \<Rightarrow> app_error + provider" where
  "normalize_new p =
     (let p = p\<lparr>prov_id := trim (prov_id p), prov_name := trim (prov_name p),
                prov_upstream_model := trim (prov_upstream_model p),
                prov_base_url := clean_endpoint (prov_base_url p),
                prov_api_key := clean_opt (prov_api_key p)\<rparr>
      in res_bind (validate_id (prov_id p)) (\<lambda>_.
         if prov_name p = [] then Inl (BadRequest ''name must not be empty'')
         else if prov_upstream_model p = [] then Inl (BadRequest ''upstream_model must not be empty'')
         else res_bind (validate_endpoint (prov_base_url p)) (\<lambda>_. Inr p)))"

definition is_ready :: "provider \<Rightarrow> bool \<Rightarrow> bool" where
  "is_ready p has_oauth_token =
     (case prov_kind p of
        Passthrough \<Rightarrow> (case prov_base_url p of Some u \<Rightarrow> u \<noteq> [] | None \<Rightarrow> False)
      | OauthCodex \<Rightarrow> has_oauth_token
      | OauthCommandCode \<Rightarrow> has_oauth_token)"

section \<open>Providers\<close>

definition list_providers :: "provider list query" where
  "list_providers = fetch (\<lambda>db. sort_key prov_name (t_providers db))"

definition get_provider :: "string \<Rightarrow> provider query" where
  "get_provider i =
     attempt (fetch (\<lambda>db. row_with prov_id i (t_providers db)))
       (\<lambda>r. case r of Some p \<Rightarrow> ok_ret p | None \<Rightarrow> fail_ret NotFound)"

definition name_taken :: "provider \<Rightarrow> app_error" where
  "name_taken p = Conflict (''provider name '' @ quoted (prov_name p) @ '' already exists'')"

definition insert_provider_row :: "provider \<Rightarrow> database \<Rightarrow> sql_error + unit \<times> database" where
  "insert_provider_row p db =
     (if prov_id p \<in> prov_id ` set (t_providers db) \<or> prov_name p \<in> prov_name ` set (t_providers db)
      then Inl UniqueViolation
      else Inr ((), db\<lparr>t_providers := t_providers db @ [p]\<rparr>))"

definition insert_provider :: "provider \<Rightarrow> unit query" where
  "insert_provider p =
     attempt (check (check_provider_reasoning_effort p)) (\<lambda>_.
     attempt (fetch (\<lambda>db. row_with prov_id (prov_id p) (t_providers db))) (\<lambda>id_taken.
     if id_taken \<noteq> None
     then fail_ret (Conflict (''provider id '' @ quoted (prov_id p) @ '' already exists''))
     else unique_write (name_taken p) (insert_provider_row p) ()))"

definition is_codex :: "provider \<Rightarrow> bool" where
  "is_codex p \<longleftrightarrow> prov_kind p = OauthCodex"

text \<open>The part of \<open>update_provider\<close> before its next statement, field by field.\<close>

definition patch_the_name :: "provider_patch \<Rightarrow> provider \<Rightarrow> app_error + provider" where
  "patch_the_name patch p =
     (case patch_name patch of
        None \<Rightarrow> Inr p
      | Some n \<Rightarrow> if trim n = [] then Inl (BadRequest ''name must not be empty'')
                   else Inr (p\<lparr>prov_name := trim n\<rparr>))"

definition patch_the_endpoint :: "provider_patch \<Rightarrow> provider \<Rightarrow> app_error + provider" where
  "patch_the_endpoint patch p =
     (case opt_filter (\<lambda>_. \<not> is_codex p) (patch_base_url patch) of
        None \<Rightarrow> Inr p
      | Some b \<Rightarrow> res_bind (validate_endpoint (clean_endpoint b))
                     (\<lambda>_. Inr (p\<lparr>prov_base_url := clean_endpoint b\<rparr>)))"

definition patch_the_key :: "provider_patch \<Rightarrow> provider \<Rightarrow> provider" where
  "patch_the_key patch p =
     (case opt_filter (\<lambda>_. \<not> is_codex p) (patch_api_key patch) of
        None \<Rightarrow> p | Some k \<Rightarrow> p\<lparr>prov_api_key := clean_opt k\<rparr>)"

definition patch_the_model :: "provider_patch \<Rightarrow> provider \<Rightarrow> app_error + provider" where
  "patch_the_model patch p =
     (case patch_upstream_model patch of
        None \<Rightarrow> Inr p
      | Some m \<Rightarrow> if trim m = [] then Inl (BadRequest ''upstream_model must not be empty'')
                   else Inr (p\<lparr>prov_upstream_model := trim m\<rparr>))"

definition patch_the_rest :: "provider_patch \<Rightarrow> provider \<Rightarrow> provider" where
  "patch_the_rest patch p =
     (let p = (case patch_dataset_logging patch of None \<Rightarrow> p | Some v \<Rightarrow> p\<lparr>prov_dataset_logging := v\<rparr>)
      in (case patch_default_reasoning_effort patch of
            None \<Rightarrow> p | Some e \<Rightarrow> p\<lparr>prov_default_reasoning_effort := e\<rparr>))"

definition patch_fields :: "provider_patch \<Rightarrow> provider \<Rightarrow> app_error + provider" where
  "patch_fields patch p =
     res_bind (patch_the_name patch p) (\<lambda>p.
     res_bind (patch_the_endpoint patch p) (\<lambda>p.
     res_bind (patch_the_model patch (patch_the_key patch p)) (\<lambda>p.
     Inr (patch_the_rest patch p))))"

text \<open>
  \<open>SELECT COUNT(DISTINCT pm.pool_id) .. WHERE pools.wire_format != ?\<close> compares wire
  names, so a pool that accepts any format differs from both and is counted.
\<close>

definition mismatched_pools :: "string \<Rightarrow> wire_format \<Rightarrow> database \<Rightarrow> nat" where
  "mismatched_pools i w db =
     card (set (map mem_pool_id (filter (\<lambda>m. mem_provider_id m = i
       \<and> list_ex (\<lambda>pl. pool_id pl = mem_pool_id m
            \<and> pool_wire_text (pool_wire_format pl) \<noteq> wire_format_text w) (t_pools db)) (t_members db))))"

definition check_wire_flip :: "string \<Rightarrow> provider_patch \<Rightarrow> provider \<Rightarrow> provider query" where
  "check_wire_flip i patch p =
     (case patch_wire_format patch of
        None \<Rightarrow> ok_ret p
      | Some w \<Rightarrow>
          if w \<noteq> prov_wire_format p \<and> prov_kind p \<notin> {OauthCodex, OauthCommandCode}
          then attempt (fetch (mismatched_pools i w)) (\<lambda>mismatched.
            if 0 < mismatched
            then fail_ret (BadRequest
              (''provider '' @ quoted i @ '' is a member of '' @ show_nat mismatched
               @ '' pool(s) that don'' @ [char_of (39 :: nat)] @ ''t speak wire_format ''
               @ quoted (wire_format_debug w) @ '' - remove it from those pools first''))
            else ok_ret (p\<lparr>prov_wire_format := w\<rparr>))
          else ok_ret (p\<lparr>prov_wire_format := w\<rparr>))"

text \<open>The columns \<open>UPDATE providers SET ..\<close> writes.\<close>

definition write_columns :: "provider \<Rightarrow> provider \<Rightarrow> provider" where
  "write_columns p r = r\<lparr>prov_name := prov_name p, prov_base_url := prov_base_url p,
     prov_api_key := prov_api_key p, prov_upstream_model := prov_upstream_model p,
     prov_wire_format := prov_wire_format p, prov_dataset_logging := prov_dataset_logging p,
     prov_default_reasoning_effort := prov_default_reasoning_effort p,
     prov_updated_at := prov_updated_at p\<rparr>"

definition update_provider_row :: "string \<Rightarrow> provider \<Rightarrow> database \<Rightarrow> sql_error + unit \<times> database" where
  "update_provider_row i p db =
     (let ps = update_where (\<lambda>r. prov_id r = i) (write_columns p) (t_providers db)
      in if \<not> distinct (map prov_name ps) then Inl UniqueViolation
         else Inr ((), db\<lparr>t_providers := ps\<rparr>))"

definition update_provider :: "timestamp \<Rightarrow> string \<Rightarrow> provider_patch \<Rightarrow> provider query" where
  "update_provider now i patch =
     attempt (get_provider i) (\<lambda>p.
     attempt (check (patch_fields patch p)) (\<lambda>p.
     attempt (check_wire_flip i patch p) (\<lambda>p.
     attempt (check (check_provider_reasoning_effort p)) (\<lambda>_.
     attempt (check_member_reasoning_overrides p) (\<lambda>_.
     let p = p\<lparr>prov_updated_at := now\<rparr>
     in unique_write (name_taken p) (update_provider_row i p) p)))))"

text \<open>\<open>DELETE FROM providers\<close> cascades to the OAuth state and the pool members.\<close>

definition delete_provider_rows :: "string \<Rightarrow> database \<Rightarrow> nat \<times> database" where
  "delete_provider_rows i db =
     (length (filter (\<lambda>p. prov_id p = i) (t_providers db)),
      db\<lparr>t_providers := filter (\<lambda>p. prov_id p \<noteq> i) (t_providers db),
         t_oauth := filter (\<lambda>o'. os_provider_id o' \<noteq> i) (t_oauth db),
         t_members := filter (\<lambda>m. mem_provider_id m \<noteq> i) (t_members db)\<rparr>)"

definition delete_provider :: "string \<Rightarrow> unit query" where
  "delete_provider i =
     attempt (query_stmt (\<lambda>db. Inr (delete_provider_rows i db)))
       (\<lambda>n. if n = 0 then fail_ret NotFound else ok_ret ())"

section \<open>OAuth state\<close>

definition clear_oauth_tokens :: "string \<Rightarrow> unit query" where
  "clear_oauth_tokens i =
     execute_stmt (\<lambda>db. db\<lparr>t_oauth := filter (\<lambda>o'. os_provider_id o' \<noteq> i) (t_oauth db)\<rparr>)"

definition get_oauth_state :: "string \<Rightarrow> oauth_state option query" where
  "get_oauth_state i = fetch (\<lambda>db. row_with os_provider_id i (t_oauth db))"

definition oauth_credential_configured :: "string \<Rightarrow> bool query" where
  "oauth_credential_configured i =
     attempt (get_oauth_state i) (\<lambda>s. ok_ret
       (case s of None \<Rightarrow> False | Some s \<Rightarrow> os_access_token s \<noteq> None \<or> os_refresh_token s \<noteq> None))"

definition oauth_configured_provider_ids :: "string list query" where
  "oauth_configured_provider_ids =
     fetch (\<lambda>db. map os_provider_id
       (filter (\<lambda>s. os_access_token s \<noteq> None \<or> os_refresh_token s \<noteq> None) (t_oauth db)))"

definition fresh_oauth :: "string \<Rightarrow> timestamp \<Rightarrow> oauth_state" where
  "fresh_oauth i now = \<lparr>os_provider_id = i, os_access_token = None, os_refresh_token = None,
     os_id_token = None, os_access_expires_at = None, os_provider_data = JObj [],
     os_pkce_verifier = None, os_oauth_state = None, os_updated_at = now\<rparr>"

text \<open>\<open>INSERT .. ON CONFLICT(provider_id) DO UPDATE\<close>; a new row needs its provider.\<close>

definition upsert_oauth_row ::
  "string \<Rightarrow> timestamp \<Rightarrow> (oauth_state \<Rightarrow> oauth_state) \<Rightarrow> database \<Rightarrow> sql_error + unit \<times> database" where
  "upsert_oauth_row i now g db =
     (if i \<in> os_provider_id ` set (t_oauth db)
      then Inr ((), db\<lparr>t_oauth := update_where (\<lambda>o'. os_provider_id o' = i) g (t_oauth db)\<rparr>)
      else if i \<notin> prov_id ` set (t_providers db) then Inl ForeignKeyViolation
      else Inr ((), db\<lparr>t_oauth := t_oauth db @ [g (fresh_oauth i now)]\<rparr>))"

record token_values =
  tok_access :: "string option"
  tok_refresh :: "string option"
  tok_id :: "string option"
  tok_expires :: "timestamp option"
  tok_data :: json

definition set_tokens :: "timestamp \<Rightarrow> token_values \<Rightarrow> oauth_state \<Rightarrow> oauth_state" where
  "set_tokens now t o' = o'\<lparr>os_access_token := tok_access t, os_refresh_token := tok_refresh t,
     os_id_token := tok_id t, os_access_expires_at := tok_expires t,
     os_provider_data := tok_data t, os_updated_at := now\<rparr>"

definition upsert_oauth_tokens :: "timestamp \<Rightarrow> string \<Rightarrow> token_values \<Rightarrow> unit query" where
  "upsert_oauth_tokens now i t = query_stmt (upsert_oauth_row i now (set_tokens now t))"

definition set_pkce :: "timestamp \<Rightarrow> string \<Rightarrow> string \<Rightarrow> oauth_state \<Rightarrow> oauth_state" where
  "set_pkce now verifier state o' =
     o'\<lparr>os_pkce_verifier := Some verifier, os_oauth_state := Some state, os_updated_at := now\<rparr>"

definition store_pkce :: "timestamp \<Rightarrow> string \<Rightarrow> string \<Rightarrow> string \<Rightarrow> unit query" where
  "store_pkce now i verifier state = query_stmt (upsert_oauth_row i now (set_pkce now verifier state))"

definition drop_pkce :: "timestamp \<Rightarrow> oauth_state \<Rightarrow> oauth_state" where
  "drop_pkce now o' = o'\<lparr>os_pkce_verifier := None, os_oauth_state := None, os_updated_at := now\<rparr>"

definition clear_pkce :: "timestamp \<Rightarrow> string \<Rightarrow> unit query" where
  "clear_pkce now i = execute_stmt (\<lambda>db.
     db\<lparr>t_oauth := update_where (\<lambda>o'. os_provider_id o' = i) (drop_pkce now) (t_oauth db)\<rparr>)"

section \<open>Invariants\<close>

text \<open>No stored effort that the provider's model cannot carry.\<close>

definition efforts_ok :: "database \<Rightarrow> bool" where
  "efforts_ok db \<longleftrightarrow>
     (\<forall>p\<in>set (t_providers db). provider_effort_ok p
        \<and> (\<forall>m\<in>set (t_members db). mem_provider_id m = prov_id p \<longrightarrow> member_effort_ok p m))"

text \<open>Every member of an image pool is a Codex member with an image model.\<close>

definition images_ok :: "database \<Rightarrow> bool" where
  "images_ok db \<longleftrightarrow>
     (\<forall>m\<in>set (t_members db). \<forall>pl\<in>set (t_pools db). \<forall>p\<in>set (t_providers db).
        pool_id pl = mem_pool_id m \<longrightarrow> pool_modality pl = Image \<longrightarrow>
        prov_id p = mem_provider_id m \<longrightarrow> image_member_eligible p m)"

definition config_ok :: "database \<Rightarrow> bool" where
  "config_ok db \<longleftrightarrow> db_ok db \<and> efforts_ok db \<and> overrides_ok db \<and> images_ok db"

lemma fault_blind_efforts: "fault_blind efforts_ok"
  by (simp add: fault_blind_def efforts_ok_def)

lemma fault_blind_images: "fault_blind images_ok"
  by (simp add: fault_blind_def images_ok_def)

lemma fault_blind_config: "fault_blind config_ok"
  using fault_blind_db_ok fault_blind_efforts fault_blind_overrides fault_blind_images
  by (simp add: fault_blind_def config_ok_def)

lemma config_okD:
  "config_ok db \<Longrightarrow> db_ok db" "config_ok db \<Longrightarrow> efforts_ok db"
  "config_ok db \<Longrightarrow> overrides_ok db" "config_ok db \<Longrightarrow> images_ok db"
  by (simp_all add: config_ok_def)

lemma config_ok_refs:
  assumes "config_ok db" and "m \<in> set (t_members db)"
  shows "mem_provider_id m \<in> prov_id ` set (t_providers db)"
    and "mem_pool_id m \<in> pool_id ` set (t_pools db)"
  using assms by (simp_all add: config_ok_def db_ok_def refs_ok_def image_subset_iff)

lemma check_provider_effort_iff:
  "check_provider_reasoning_effort p = Inr u \<longleftrightarrow> provider_effort_ok p"
  by (auto simp: check_provider_reasoning_effort_def provider_effort_ok_def split: option.splits)

lemma res_bind_cases:
  "res_bind r f = Inr b \<Longrightarrow> (\<And>a. r = Inr a \<Longrightarrow> f a = Inr b \<Longrightarrow> Q) \<Longrightarrow> Q"
  by (auto simp: res_bind_Inr_iff)

lemma patch_stage_ids:
  "patch_the_name patch p = Inr p' \<Longrightarrow> prov_id p' = prov_id p \<and> prov_kind p' = prov_kind p"
  "patch_the_endpoint patch p = Inr p' \<Longrightarrow> prov_id p' = prov_id p \<and> prov_kind p' = prov_kind p"
  "patch_the_model patch p = Inr p' \<Longrightarrow> prov_id p' = prov_id p \<and> prov_kind p' = prov_kind p"
  "prov_id (patch_the_key patch p) = prov_id p \<and> prov_kind (patch_the_key patch p) = prov_kind p"
  "prov_id (patch_the_rest patch p) = prov_id p \<and> prov_kind (patch_the_rest patch p) = prov_kind p"
  by (auto simp: patch_the_name_def patch_the_endpoint_def patch_the_model_def patch_the_key_def
      patch_the_rest_def Let_def res_bind_Inr_iff split: option.splits if_splits)

lemma patch_fields_id:
  assumes "patch_fields patch p = Inr p'"
  shows "prov_id p' = prov_id p \<and> prov_kind p' = prov_kind p"
  using assms unfolding patch_fields_def
  by (elim res_bind_cases) (auto simp: patch_stage_ids(4,5) dest!: patch_stage_ids(1-3))

lemma good_insert_row:
  assumes "config_ok db" and "provider_effort_ok p" and "insert_provider_row p db = Inr ((), db')"
  shows "config_ok db'"
proof -
  from assms(3) have new: "prov_id p \<notin> prov_id ` set (t_providers db)"
    "prov_name p \<notin> prov_name ` set (t_providers db)"
    and db': "db' = db\<lparr>t_providers := t_providers db @ [p]\<rparr>"
    by (auto simp: insert_provider_row_def split: if_splits)
  have ref: "mem_provider_id m \<noteq> prov_id p" if "m \<in> set (t_members db)" for m
    using config_ok_refs(1) [OF assms(1) that] new(1) by metis
  have "db_ok db'"
    using config_okD(1) [OF assms(1)] new by (auto simp: db' db_ok_def providers_ok_def refs_ok_def)
  moreover have "efforts_ok db'"
    using config_okD(2) [OF assms(1)] assms(2) ref by (auto simp: db' efforts_ok_def)
  moreover have "images_ok db'"
    using config_okD(4) [OF assms(1)] ref by (fastforce simp: db' images_ok_def)
  ultimately show ?thesis
    using config_okD(3) [OF assms(1)] by (simp add: config_ok_def db' overrides_ok_def)
qed

lemma valid_insert_provider: "valid config_ok (insert_provider p) (\<lambda>_. config_ok)"
  unfolding insert_provider_def
proof (rule valid_attempt [where R = "\<lambda>_ db. config_ok db \<and> provider_effort_ok p"])
  show "valid config_ok (check (check_provider_reasoning_effort p))
     (\<lambda>r s. case r of Inl e \<Rightarrow> config_ok s | Inr a \<Rightarrow> config_ok s \<and> provider_effort_ok p)"
    using check_provider_effort_iff [of p] by (auto split: sum.splits)
next
  fix u :: unit
  let ?P = "\<lambda>db. config_ok db \<and> provider_effort_ok p"
  have b: "fault_blind ?P" using fault_blind_config by (simp add: fault_blind_def)
  show "valid ?P (attempt (fetch (\<lambda>db. row_with prov_id (prov_id p) (t_providers db)))
     (\<lambda>id_taken. if id_taken \<noteq> None
        then fail_ret (Conflict (''provider id '' @ quoted (prov_id p) @ '' already exists''))
        else unique_write (name_taken p) (insert_provider_row p) ())) (\<lambda>_. config_ok)"
  proof (rule valid_attempt [where R = "\<lambda>_. ?P"])
    fix r
    have "valid ?P (unique_write (name_taken p) (insert_provider_row p) ()) (\<lambda>_. config_ok)"
      by (rule valid_unique_write [OF b]) (auto intro: good_insert_row)
    then show "valid ?P (if r \<noteq> None
        then fail_ret (Conflict (''provider id '' @ quoted (prov_id p) @ '' already exists''))
        else unique_write (name_taken p) (insert_provider_row p) ()) (\<lambda>_. config_ok)"
      by auto
  qed (rule valid_post [OF valid_fetch [OF b]], simp split: sum.split)
qed

lemma prov_id_write_columns [simp]:
  "prov_id (write_columns p r) = prov_id r" "prov_kind (write_columns p r) = prov_kind r"
  by (simp_all add: write_columns_def)

text \<open>Providers are replaced one for one by rows with the same id and kind.\<close>

definition same_rows :: "provider list \<Rightarrow> provider list \<Rightarrow> bool" where
  "same_rows ps qs \<longleftrightarrow> map prov_id ps = map prov_id qs \<and> map prov_kind ps = map prov_kind qs"

lemma same_rows_update: "same_rows (update_where P (write_columns p) ps) ps"
  by (simp add: same_rows_def map_update_where)

lemma same_rows_mem:
  assumes "same_rows ps qs" and "p \<in> set ps"
  shows "\<exists>q\<in>set qs. prov_id q = prov_id p \<and> prov_kind q = prov_kind p"
proof -
  obtain n where n: "n < length ps" "p = ps ! n" using assms(2) by (metis in_set_conv_nth)
  have len: "length ps = length qs" using assms(1) by (metis length_map same_rows_def)
  have "prov_id (qs ! n) = prov_id (ps ! n)" "prov_kind (qs ! n) = prov_kind (ps ! n)"
    using assms(1) n(1) len unfolding same_rows_def by (metis nth_map)+
  with n len show ?thesis by (metis nth_mem)
qed

lemma images_ok_same_rows:
  assumes "images_ok db" and "same_rows ps (t_providers db)"
  shows "images_ok (db\<lparr>t_providers := ps\<rparr>)"
  unfolding images_ok_def
proof (intro ballI impI)
  fix m pl p
  assume "m \<in> set (t_members (db\<lparr>t_providers := ps\<rparr>))" "pl \<in> set (t_pools (db\<lparr>t_providers := ps\<rparr>))"
    and p: "p \<in> set (t_providers (db\<lparr>t_providers := ps\<rparr>))"
    and "pool_id pl = mem_pool_id m" "pool_modality pl = Image" "prov_id p = mem_provider_id m"
  moreover from p have "p \<in> set ps" by simp
  with same_rows_mem [OF assms(2)] obtain q where
    "q \<in> set (t_providers db)" "prov_id q = prov_id p" "prov_kind q = prov_kind p" by blast
  ultimately have "image_member_eligible q m" using assms(1) by (simp add: images_ok_def)
  with \<open>prov_kind q = prov_kind p\<close> show "image_member_eligible p m"
    by (simp add: image_member_eligible_def)
qed

lemma write_columns_same:
  "prov_id r = prov_id p \<Longrightarrow> prov_kind r = prov_kind p \<Longrightarrow>
     provider_effort_ok (write_columns p r) = provider_effort_ok p
   \<and> member_effort_ok (write_columns p r) m = member_effort_ok p m"
  by (cases "prov_default_reasoning_effort p")
    (simp_all add: write_columns_def provider_effort_ok_def member_effort_ok_def effective_model_of_def)

definition members_accept :: "provider \<Rightarrow> database \<Rightarrow> bool" where
  "members_accept p db \<longleftrightarrow>
     (\<forall>m\<in>set (t_members db). mem_provider_id m = prov_id p \<longrightarrow> member_effort_ok p m)"

definition same_kind_row :: "string \<Rightarrow> provider \<Rightarrow> database \<Rightarrow> bool" where
  "same_kind_row i p db \<longleftrightarrow> prov_id p = i \<and>
     (\<forall>r\<in>set (t_providers db). prov_id r = i \<longrightarrow> prov_kind r = prov_kind p)"

lemma good_update_row:
  assumes good: "config_ok db" and eff: "provider_effort_ok p" and mem: "members_accept p db"
    and row: "same_kind_row i p db" and upd: "update_provider_row i p db = Inr ((), db')"
  shows "config_ok db'"
proof -
  let ?ps = "update_where (\<lambda>r. prov_id r = i) (write_columns p) (t_providers db)"
  from upd have names: "distinct (map prov_name ?ps)" and db': "db' = db\<lparr>t_providers := ?ps\<rparr>"
    by (auto simp: update_provider_row_def Let_def split: if_splits)
  have ids: "map prov_id ?ps = map prov_id (t_providers db)"
    by (rule map_update_where) simp
  then have idset: "prov_id ` set ?ps = prov_id ` set (t_providers db)"
    by (metis set_map)
  have "db_ok db'"
    using config_okD(1) [OF good] names
    by (simp add: db' db_ok_def providers_ok_def refs_ok_def ids idset)
  moreover have "efforts_ok db'"
    using config_okD(2) [OF good] eff mem row write_columns_same [of _ p]
    by (auto simp: db' efforts_ok_def set_update_where members_accept_def same_kind_row_def)
  moreover have "images_ok db'"
    unfolding db' by (rule images_ok_same_rows [OF config_okD(4) [OF good] same_rows_update])
  ultimately show ?thesis
    using config_okD(3) [OF good] by (simp add: config_ok_def db' overrides_ok_def)
qed

lemma valid_case_sum_post:
  "valid P m (\<lambda>r s. Q s \<and> (\<forall>a. r = Inr a \<longrightarrow> T a s)) \<Longrightarrow>
     valid P m (\<lambda>r s. case r of Inl e \<Rightarrow> Q s | Inr a \<Rightarrow> Q s \<and> T a s)"
  by (erule valid_post) (simp split: sum.split)

lemma fault_blind_rows:
  "fault_blind (members_accept p)" "fault_blind (same_kind_row i p)"
  by (simp_all add: fault_blind_def members_accept_def same_kind_row_def)

lemma get_provider_good:
  "valid config_ok (get_provider i)
     (\<lambda>r db. case r of Inl e \<Rightarrow> config_ok db | Inr p \<Rightarrow> config_ok db \<and> same_kind_row i p db)"
  unfolding get_provider_def
proof (rule valid_attempt)
  show "valid config_ok (fetch (\<lambda>db. row_with prov_id i (t_providers db)))
     (\<lambda>r db. case r of Inl e \<Rightarrow> (case Inl e of Inl e \<Rightarrow> config_ok db | Inr p \<Rightarrow> config_ok db \<and> same_kind_row i p db)
        | Inr a \<Rightarrow> config_ok db \<and> a = row_with prov_id i (t_providers db))"
    by (rule valid_post [OF valid_fetch_result [OF fault_blind_config]]) (simp split: sum.split)
  fix a
  show "valid (\<lambda>db. config_ok db \<and> a = row_with prov_id i (t_providers db))
     (case a of None \<Rightarrow> fail_ret NotFound | Some p \<Rightarrow> ok_ret p)
     (\<lambda>r db. case r of Inl e \<Rightarrow> config_ok db | Inr p \<Rightarrow> config_ok db \<and> same_kind_row i p db)"
  proof (cases a)
    case (Some p)
    have "same_kind_row i p db" if "config_ok db" "Some p = row_with prov_id i (t_providers db)" for db
    proof -
      have "distinct (map prov_id (t_providers db))"
        using that(1) by (simp add: config_ok_def db_ok_def providers_ok_def)
      then have "r \<in> set (t_providers db) \<Longrightarrow> prov_id r = i \<Longrightarrow> r = p" for r
        using that(2) row_with_mem by fastforce
      with that(2) row_with_SomeD [of prov_id i "t_providers db" p] show ?thesis
        unfolding same_kind_row_def by auto
    qed
    with Some show ?thesis by auto
  qed auto
qed

text \<open>One stage of \<open>update_provider\<close> after another: the row in hand stays the stored one.\<close>

lemma patch_fields_good:
  "valid (\<lambda>db. config_ok db \<and> same_kind_row i p db) (check (patch_fields patch p))
     (\<lambda>r db. case r of Inl e \<Rightarrow> config_ok db | Inr p \<Rightarrow> config_ok db \<and> same_kind_row i p db)"
  by (rule valid_check) (auto simp: same_kind_row_def dest: patch_fields_id split: sum.split)

lemma check_wire_flip_good:
  "valid (\<lambda>db. config_ok db \<and> same_kind_row i p db) (check_wire_flip i patch p)
     (\<lambda>r db. case r of Inl e \<Rightarrow> config_ok db | Inr p \<Rightarrow> config_ok db \<and> same_kind_row i p db)"
proof -
  let ?P = "\<lambda>db. config_ok db \<and> same_kind_row i p db"
  have b: "fault_blind ?P"
    using fault_blind_config fault_blind_rows(2) by (simp add: fault_blind_def)
  have ok: "valid ?P (ok_ret (p\<lparr>prov_wire_format := w\<rparr>))
      (\<lambda>r db. case r of Inl e \<Rightarrow> config_ok db | Inr p \<Rightarrow> config_ok db \<and> same_kind_row i p db)" for w
    by (rule valid_ok_ret) (simp add: same_kind_row_def)
  have "valid ?P (attempt (fetch (mismatched_pools i w)) (\<lambda>mismatched.
      if 0 < mismatched then fail_ret (e mismatched) else ok_ret (p\<lparr>prov_wire_format := w\<rparr>)))
      (\<lambda>r db. case r of Inl e \<Rightarrow> config_ok db | Inr p \<Rightarrow> config_ok db \<and> same_kind_row i p db)" for w e
  proof (rule valid_attempt [where R = "\<lambda>_. ?P"])
    show "valid ?P (fetch (mismatched_pools i w))
      (\<lambda>r db. case r of Inl e \<Rightarrow> (case Inl e of Inl e \<Rightarrow> config_ok db
          | Inr p \<Rightarrow> config_ok db \<and> same_kind_row i p db) | Inr a \<Rightarrow> ?P db)"
      by (rule valid_post [OF valid_fetch [OF b]]) (simp split: sum.split)
  qed (use ok in auto)
  with ok show ?thesis by (auto simp: check_wire_flip_def split: option.split)
qed

lemma check_members_good:
  assumes "fault_blind P"
  shows "valid P (check_member_reasoning_overrides p)
     (\<lambda>r db. case r of Inl e \<Rightarrow> P db | Inr _ \<Rightarrow> P db \<and> members_accept p db)"
  unfolding check_member_reasoning_overrides_def
proof (rule valid_attempt)
  let ?f = "\<lambda>db. filter (\<lambda>m. mem_provider_id m = prov_id p
                         \<and> mem_reasoning_effort_override m \<noteq> None) (t_members db)"
  show "valid P (fetch ?f) (\<lambda>r db. case r of
      Inl e \<Rightarrow> (case Inl e of Inl e \<Rightarrow> P db | Inr _ \<Rightarrow> P db \<and> members_accept p db)
    | Inr a \<Rightarrow> P db \<and> a = ?f db)"
    by (rule valid_post [OF valid_fetch_result [OF assms]]) (simp split: sum.split)
  fix rows
  have "members_accept p db" if "find (\<lambda>m. \<not> member_effort_ok p m) (?f db) = None" for db
    using that by (auto simp: find_None_iff members_accept_def member_effort_ok_def)
  then show "valid (\<lambda>db. P db \<and> rows = ?f db)
     (case find (\<lambda>m. \<not> member_effort_ok p m) rows of None \<Rightarrow> ok_ret () | Some m \<Rightarrow> fail_ret (e m))
     (\<lambda>r db. case r of Inl e \<Rightarrow> P db | Inr _ \<Rightarrow> P db \<and> members_accept p db)" for e
    by (auto simp: valid_def split: option.split)
qed

lemma members_accept_updated [simp]:
  "members_accept (p\<lparr>prov_updated_at := t\<rparr>) db = members_accept p db"
  "same_kind_row i (p\<lparr>prov_updated_at := t\<rparr>) db = same_kind_row i p db"
  "provider_effort_ok (p\<lparr>prov_updated_at := t\<rparr>) = provider_effort_ok p"
  by (simp_all add: members_accept_def same_kind_row_def provider_effort_ok_def
      member_effort_ok_def effective_model_of_def split: option.split)

lemma update_tail_good:
  "valid (\<lambda>db. config_ok db \<and> same_kind_row i p db)
     (attempt (check (check_provider_reasoning_effort p)) (\<lambda>_.
      attempt (check_member_reasoning_overrides p) (\<lambda>_.
        unique_write (name_taken (p\<lparr>prov_updated_at := now\<rparr>))
          (update_provider_row i (p\<lparr>prov_updated_at := now\<rparr>)) (p\<lparr>prov_updated_at := now\<rparr>))))
     (\<lambda>_. config_ok)" (is "valid _ (attempt _ (\<lambda>_. attempt _ (\<lambda>_. ?write))) _")
proof -
  let ?P = "\<lambda>db. config_ok db \<and> same_kind_row i p db \<and> provider_effort_ok p"
  have b: "fault_blind ?P" "fault_blind (\<lambda>db. ?P db \<and> members_accept p db)"
    using fault_blind_config fault_blind_rows by (simp_all add: fault_blind_def)
  have written: "valid (\<lambda>db. ?P db \<and> members_accept p db) ?write (\<lambda>_. config_ok)"
    by (rule valid_unique_write [OF b(2)])
      (auto intro: good_update_row [of _ "p\<lparr>prov_updated_at := now\<rparr>" i])
  have members: "valid ?P (attempt (check_member_reasoning_overrides p) (\<lambda>_. ?write)) (\<lambda>_. config_ok)"
  proof (rule valid_attempt [where R = "\<lambda>_ db. ?P db \<and> members_accept p db"])
    show "valid ?P (check_member_reasoning_overrides p)
        (\<lambda>r db. case r of Inl e \<Rightarrow> config_ok db | Inr a \<Rightarrow> ?P db \<and> members_accept p db)"
      by (rule valid_post [OF check_members_good [OF b(1)]]) (simp split: sum.splits)
  qed (rule written)
  show ?thesis
  proof (rule valid_attempt [where R = "\<lambda>_. ?P"])
    show "valid (\<lambda>db. config_ok db \<and> same_kind_row i p db) (check (check_provider_reasoning_effort p))
        (\<lambda>r db. case r of Inl e \<Rightarrow> config_ok db | Inr a \<Rightarrow> ?P db)"
      using check_provider_effort_iff [of p] by (auto simp: valid_def split: sum.split)
  qed (rule members)
qed

lemma valid_update_provider: "valid config_ok (update_provider now i patch) (\<lambda>_. config_ok)"
  unfolding update_provider_def Let_def
proof (rule valid_attempt [OF get_provider_good])
  fix p
  let ?R = "\<lambda>p db. config_ok db \<and> same_kind_row i p db"
  show "valid (?R p)
     (attempt (check (patch_fields patch p)) (\<lambda>p.
      attempt (check_wire_flip i patch p) (\<lambda>p.
      attempt (check (check_provider_reasoning_effort p)) (\<lambda>_.
      attempt (check_member_reasoning_overrides p) (\<lambda>_.
        unique_write (name_taken (p\<lparr>prov_updated_at := now\<rparr>))
          (update_provider_row i (p\<lparr>prov_updated_at := now\<rparr>)) (p\<lparr>prov_updated_at := now\<rparr>))))))
     (\<lambda>_. config_ok)"
    by (rule valid_attempt [OF patch_fields_good], rule valid_attempt [OF check_wire_flip_good],
        rule update_tail_good)
qed

lemma good_delete_rows:
  assumes "config_ok db"
  shows "config_ok (snd (delete_provider_rows i db))"
proof -
  note ok = config_okD [OF assms]
  have "refs_ok (snd (delete_provider_rows i db))"
    using ok(1) by (simp add: db_ok_def refs_ok_def delete_provider_rows_def cascade_refs filter_refs
        del: set_filter)
  with ok(1) have "db_ok (snd (delete_provider_rows i db))"
    by (simp add: db_ok_def providers_ok_def delete_provider_rows_def distinct_map_filter_rows)
  moreover have "images_ok (snd (delete_provider_rows i db))"
    using ok(4) unfolding images_ok_def delete_provider_rows_def by simp
  ultimately show ?thesis
    using ok(2,3)
    by (simp add: config_ok_def delete_provider_rows_def efforts_ok_def overrides_ok_def list.pred_set)
qed

lemma valid_delete_provider: "valid config_ok (delete_provider i) (\<lambda>_. config_ok)"
  unfolding delete_provider_def
proof (rule valid_inv_attempt)
  show "valid config_ok (query_stmt (\<lambda>db. Inr (delete_provider_rows i db))) (\<lambda>_. config_ok)"
  proof (rule valid_query_stmt [OF fault_blind_config])
    fix db a db'
    assume "config_ok db" and "Inr (delete_provider_rows i db) = (Inr (a, db') :: sql_error + _)"
    with good_delete_rows [of db i] show "config_ok db'" by simp
  qed
qed auto

text \<open>OAuth rows: writes keep the key, and a new row needs its provider.\<close>

lemma good_oauth_update:
  assumes "config_ok db" and "\<And>o'. os_provider_id (g o') = os_provider_id o'"
  shows "config_ok (db\<lparr>t_oauth := update_where P g (t_oauth db)\<rparr>)"
proof -
  have k: "map os_provider_id (update_where P g (t_oauth db)) = map os_provider_id (t_oauth db)"
    by (rule map_update_where) (rule assms(2))
  then have "os_provider_id ` set (update_where P g (t_oauth db)) = os_provider_id ` set (t_oauth db)"
    by (metis set_map)
  with assms(1) k show ?thesis
    by (simp add: config_ok_def db_ok_def refs_ok_def efforts_ok_def overrides_ok_def images_ok_def)
qed

lemma good_upsert_oauth:
  assumes "config_ok db" and g: "\<And>o'. os_provider_id (g o') = os_provider_id o'"
    and "upsert_oauth_row i now g db = Inr ((), db')"
  shows "config_ok db'"
proof (cases "i \<in> os_provider_id ` set (t_oauth db)")
  case True
  with assms(3) good_oauth_update [OF assms(1) g] show ?thesis
    by (auto simp: upsert_oauth_row_def)
next
  case False
  with assms(3) have "i \<in> prov_id ` set (t_providers db)"
    and "db' = db\<lparr>t_oauth := t_oauth db @ [g (fresh_oauth i now)]\<rparr>"
    by (auto simp: upsert_oauth_row_def split: if_splits)
  moreover have "os_provider_id (g (fresh_oauth i now)) = i"
    by (simp add: g fresh_oauth_def)
  ultimately show ?thesis
    using assms(1) False
    by (simp add: config_ok_def db_ok_def refs_ok_def efforts_ok_def overrides_ok_def images_ok_def)
qed

lemma valid_oauth_ops:
  "valid config_ok (upsert_oauth_tokens now i t) (\<lambda>_. config_ok)"
  "valid config_ok (store_pkce now i v st) (\<lambda>_. config_ok)"
  "valid config_ok (clear_pkce now i) (\<lambda>_. config_ok)"
  "valid config_ok (clear_oauth_tokens i) (\<lambda>_. config_ok)"
proof -
  show "valid config_ok (upsert_oauth_tokens now i t) (\<lambda>_. config_ok)"
    unfolding upsert_oauth_tokens_def
    by (rule valid_query_stmt [OF fault_blind_config], erule good_upsert_oauth)
      (simp_all add: set_tokens_def)
  show "valid config_ok (store_pkce now i v st) (\<lambda>_. config_ok)"
    unfolding store_pkce_def
    by (rule valid_query_stmt [OF fault_blind_config], erule good_upsert_oauth)
      (simp_all add: set_pkce_def)
  show "valid config_ok (clear_pkce now i) (\<lambda>_. config_ok)"
    unfolding clear_pkce_def
    by (rule valid_execute [OF fault_blind_config], erule good_oauth_update) (simp add: drop_pkce_def)
  show "valid config_ok (clear_oauth_tokens i) (\<lambda>_. config_ok)"
    unfolding clear_oauth_tokens_def
    by (rule valid_execute [OF fault_blind_config])
      (auto simp: config_ok_def db_ok_def refs_ok_def efforts_ok_def overrides_ok_def images_ok_def
        distinct_map_filter_rows)
qed

end
