(* ===== verification/PoolStore.thy ===== *)
theory PoolStore
  imports ProviderStore
begin

text \<open>
  \<open>src/pools/queries.rs\<close>: storage of pools and their members.  A member is
  identified by pool, provider and model override; an image pool only takes Codex
  members with an image model.  \<open>dbg\<close> is the standard library's \<open>{:?}\<close> of an
  optional string, which only appears in an error message.
\<close>

section \<open>Pools\<close>

definition list_pools :: "pool list query" where
  "list_pools = fetch (\<lambda>db. sort_key pool_id (t_pools db))"

definition get_pool :: "string \<Rightarrow> pool query" where
  "get_pool i =
     attempt (fetch (\<lambda>db. row_with pool_id i (t_pools db)))
       (\<lambda>r. case r of Some p \<Rightarrow> ok_ret p | None \<Rightarrow> fail_ret NotFound)"

definition insert_pool_row :: "pool \<Rightarrow> database \<Rightarrow> sql_error + unit \<times> database" where
  "insert_pool_row p db =
     (if pool_id p \<in> pool_id ` set (t_pools db) then Inl UniqueViolation
      else Inr ((), db\<lparr>t_pools := t_pools db @ [p]\<rparr>))"

definition insert_pool :: "pool \<Rightarrow> unit query" where
  "insert_pool p =
     unique_write (Conflict (''pool '' @ quoted (pool_id p) @ '' already exists'')) (insert_pool_row p) ()"

definition set_strategy_rows ::
  "string \<Rightarrow> pool_strategy \<Rightarrow> int option \<Rightarrow> database \<Rightarrow> nat \<times> database" where
  "set_strategy_rows i strategy sticky_limit db =
     (length (filter (\<lambda>p. pool_id p = i) (t_pools db)),
      db\<lparr>t_pools := update_where (\<lambda>p. pool_id p = i)
         (\<lambda>p. p\<lparr>pool_strategy := strategy, pool_sticky_limit := sticky_limit\<rparr>) (t_pools db)\<rparr>)"

definition update_pool_strategy :: "string \<Rightarrow> pool_strategy \<Rightarrow> int option \<Rightarrow> unit query" where
  "update_pool_strategy i strategy sticky_limit =
     attempt (query_stmt (\<lambda>db. Inr (set_strategy_rows i strategy sticky_limit db)))
       (\<lambda>n. if n = 0 then fail_ret NotFound else ok_ret ())"

definition delete_pool_rows :: "string \<Rightarrow> database \<Rightarrow> nat \<times> database" where
  "delete_pool_rows i db =
     (length (filter (\<lambda>p. pool_id p = i) (t_pools db)),
      db\<lparr>t_pools := filter (\<lambda>p. pool_id p \<noteq> i) (t_pools db),
         t_members := filter (\<lambda>m. mem_pool_id m \<noteq> i) (t_members db)\<rparr>)"

definition delete_pool :: "string \<Rightarrow> unit query" where
  "delete_pool i =
     attempt (query_stmt (\<lambda>db. Inr (delete_pool_rows i db)))
       (\<lambda>n. if n = 0 then fail_ret NotFound else ok_ret ())"

section \<open>Members\<close>

definition members_of :: "database \<Rightarrow> string \<Rightarrow> pool_member list" where
  "members_of db i = sort_key member_order (filter (\<lambda>m. mem_pool_id m = i) (t_members db))"

definition list_members :: "string \<Rightarrow> pool_member list query" where
  "list_members i = fetch (\<lambda>db. members_of db i)"

definition nonempty_override :: "pool_member \<Rightarrow> pool_member" where
  "nonempty_override m = m\<lparr>mem_model_override := opt_filter (\<lambda>s. s \<noteq> []) (mem_model_override m)\<rparr>"

definition check_image_member ::
  "(string option \<Rightarrow> string) \<Rightarrow> pool \<Rightarrow> pool_member \<Rightarrow> unit query" where
  "check_image_member dbg pl m =
     (if pool_modality pl \<noteq> Image then ok_ret ()
      else attempt (get_provider (mem_provider_id m)) (\<lambda>p.
        if prov_kind p \<noteq> OauthCodex
        then fail_ret (BadRequest
          (''image pool '' @ quoted (pool_id pl) @ '' only accepts Codex (ChatGPT OAuth) providers; ''
           @ quoted (prov_id p) @ '' is '' @ provider_kind_debug (prov_kind p)))
        else (case mem_model_override m of
                Some model \<Rightarrow>
                  if is_image_model model then ok_ret ()
                  else fail_ret (BadRequest
                    (''image pool members need model_override set to an image model ''
                     @ char_of (10 :: nat) # replicate 21 (CHR '' '')
                     @ ''(gpt-image-* or <chat-model>-image), got '' @ dbg (Some model)))
              | None \<Rightarrow> fail_ret (BadRequest
                    (''image pool members need model_override set to an image model ''
                     @ char_of (10 :: nat) # replicate 21 (CHR '' '')
                     @ ''(gpt-image-* or <chat-model>-image), got '' @ dbg None)))))"

definition check_member_effort :: "pool_member \<Rightarrow> unit query" where
  "check_member_effort m =
     (case mem_reasoning_effort_override m of
        None \<Rightarrow> ok_ret ()
      | Some level \<Rightarrow>
          attempt (get_provider (mem_provider_id m)) (\<lambda>p.
            if supports (capability_for (prov_kind p) (prov_wire_format p) (effective_model_of p m))
            then ok_ret ()
            else fail_ret (BadRequest
              (''provider '' @ quoted (prov_id p) @ '' ('' @ provider_kind_debug (prov_kind p) @ '' / ''
               @ wire_format_debug (prov_wire_format p) @ '') calling model ''
               @ quoted (effective_model_of p m)
               @ '' does not accept a reasoning effort - remove reasoning_effort_override (''
               @ effort_level_debug level @ '')''))))"

text \<open>\<open>INSERT INTO pool_members .. ON CONFLICT (identity) DO UPDATE\<close>.\<close>

definition write_member :: "pool_member \<Rightarrow> pool_member \<Rightarrow> pool_member" where
  "write_member m r = r\<lparr>mem_priority := mem_priority m,
     mem_dataset_logging_override := mem_dataset_logging_override m,
     mem_reasoning_effort_override := mem_reasoning_effort_override m\<rparr>"

definition upsert_member_row :: "pool_member \<Rightarrow> database \<Rightarrow> sql_error + unit \<times> database" where
  "upsert_member_row m db =
     (if member_identity m \<in> member_identity ` set (t_members db)
      then Inr ((), db\<lparr>t_members :=
             update_where (\<lambda>r. member_identity r = member_identity m) (write_member m) (t_members db)\<rparr>)
      else if mem_pool_id m \<notin> pool_id ` set (t_pools db)
           \<or> mem_provider_id m \<notin> prov_id ` set (t_providers db)
      then Inl ForeignKeyViolation
      else Inr ((), db\<lparr>t_members := t_members db @ [m]\<rparr>))"

definition write_member_stmt :: "pool_member \<Rightarrow> unit query" where
  "write_member_stmt m =
     do { res \<leftarrow> statement (upsert_member_row m);
          case res of
            Inr _ \<Rightarrow> ok_ret ()
          | Inl ForeignKeyViolation \<Rightarrow> fail_ret (BadRequest ''unknown pool_id or provider_id'')
          | Inl e \<Rightarrow> fail_ret (db_error e) }"

definition upsert_member :: "(string option \<Rightarrow> string) \<Rightarrow> pool_member \<Rightarrow> unit query" where
  "upsert_member dbg m =
     (let m = nonempty_override m
      in attempt (get_pool (mem_pool_id m)) (\<lambda>pl.
         attempt (check_image_member dbg pl m) (\<lambda>_.
         attempt (check_member_effort m) (\<lambda>_.
         write_member_stmt m))))"

text \<open>\<open>Some model\<close> names one member by its identity, \<open>None\<close> every member of the provider.\<close>

definition member_matches :: "string \<Rightarrow> string \<Rightarrow> string option \<Rightarrow> pool_member \<Rightarrow> bool" where
  "member_matches pid prid model m \<longleftrightarrow>
     mem_pool_id m = pid \<and> mem_provider_id m = prid
   \<and> (case model of Some x \<Rightarrow> unwrap_or (mem_model_override m) [] = x | None \<Rightarrow> True)"

definition delete_member_rows ::
  "string \<Rightarrow> string \<Rightarrow> string option \<Rightarrow> database \<Rightarrow> nat \<times> database" where
  "delete_member_rows pid prid model db =
     (length (filter (member_matches pid prid model) (t_members db)),
      db\<lparr>t_members := filter (\<lambda>m. \<not> member_matches pid prid model m) (t_members db)\<rparr>)"

definition delete_member :: "string \<Rightarrow> string \<Rightarrow> string option \<Rightarrow> unit query" where
  "delete_member pid prid model =
     attempt (query_stmt (\<lambda>db. Inr (delete_member_rows pid prid model db)))
       (\<lambda>n. if n = 0 then fail_ret NotFound else ok_ret ())"

section \<open>Every operation keeps the invariants\<close>

lemma config_insert_pool_row:
  assumes "config_ok db" and "insert_pool_row p db = Inr (u, db')"
  shows "config_ok db'"
proof -
  from assms(2) have new: "pool_id p \<notin> pool_id ` set (t_pools db)"
    and db': "db' = db\<lparr>t_pools := t_pools db @ [p]\<rparr>"
    by (auto simp: insert_pool_row_def split: if_splits)
  have ref: "mem_pool_id m \<noteq> pool_id p" if "m \<in> set (t_members db)" for m
    using config_ok_refs(2) [OF assms(1) that] new by metis
  have "db_ok db'"
    using config_okD(1) [OF assms(1)] new by (auto simp: db' db_ok_def refs_ok_def)
  moreover have "images_ok db'"
    using config_okD(4) [OF assms(1)] ref by (fastforce simp: db' images_ok_def)
  ultimately show ?thesis
    using config_okD [OF assms(1)] by (simp add: config_ok_def db' efforts_ok_def overrides_ok_def)
qed

text \<open>Dropping members, and pools no remaining member refers to, breaks nothing.\<close>

lemma images_ok_subset:
  assumes "images_ok db" and "set ps \<subseteq> set (t_pools db)" and "set ms \<subseteq> set (t_members db)"
  shows "images_ok (db\<lparr>t_pools := ps, t_members := ms\<rparr>)"
  unfolding images_ok_def
proof (intro ballI impI)
  fix m pl p
  assume "m \<in> set (t_members (db\<lparr>t_pools := ps, t_members := ms\<rparr>))"
    and "pl \<in> set (t_pools (db\<lparr>t_pools := ps, t_members := ms\<rparr>))"
    and "p \<in> set (t_providers (db\<lparr>t_pools := ps, t_members := ms\<rparr>))"
    and "pool_id pl = mem_pool_id m" and "pool_modality pl = Image"
    and "prov_id p = mem_provider_id m"
  moreover from this assms(2,3) have "m \<in> set (t_members db)" "pl \<in> set (t_pools db)" by auto
  ultimately show "image_member_eligible p m" using assms(1) by (simp add: images_ok_def)
qed

lemma config_ok_shrink:
  assumes ok: "config_ok db"
    and ps: "ps = filter P (t_pools db)" and ms: "ms = filter Q (t_members db)"
    and refs: "mem_pool_id ` set ms \<subseteq> pool_id ` set ps"
  shows "config_ok (db\<lparr>t_pools := ps, t_members := ms\<rparr>)"
proof -
  have "set ps \<subseteq> set (t_pools db)" "set ms \<subseteq> set (t_members db)" by (auto simp: ps ms)
  then have "images_ok (db\<lparr>t_pools := ps, t_members := ms\<rparr>)"
    using images_ok_subset config_okD(4) [OF ok] by blast
  moreover have "db_ok (db\<lparr>t_pools := ps, t_members := ms\<rparr>)"
  proof -
    have "refs_ok (db\<lparr>t_pools := ps, t_members := ms\<rparr>)"
      using config_okD(1) [OF ok] refs filter_refs [of mem_provider_id "t_members db"]
      by (simp add: db_ok_def refs_ok_def ms del: set_filter)
    with config_okD(1) [OF ok] show ?thesis
      by (simp add: db_ok_def ps ms distinct_map_filter_rows)
  qed
  ultimately show ?thesis
    using config_okD [OF ok]
    by (simp add: config_ok_def efforts_ok_def overrides_ok_def list.pred_set ms)
qed

lemma config_pool_rows:
  assumes "config_ok db"
  shows "config_ok (snd (set_strategy_rows i st sl db))"
    and "config_ok (snd (delete_pool_rows i db))"
    and "config_ok (snd (delete_member_rows pid prid model db))"
proof -
  let ?g = "\<lambda>p. p\<lparr>pool_strategy := st, pool_sticky_limit := sl\<rparr>"
  let ?ps = "update_where (\<lambda>p. pool_id p = i) ?g (t_pools db)"
  have ids: "map pool_id ?ps = map pool_id (t_pools db)"
    by (rule map_update_where) simp
  then have idset: "pool_id ` set ?ps = pool_id ` set (t_pools db)" by (metis set_map)
  have "images_ok (db\<lparr>t_pools := ?ps\<rparr>)"
    using config_okD(4) [OF assms] by (auto simp: images_ok_def set_update_where)
  then show "config_ok (snd (set_strategy_rows i st sl db))"
    using config_okD [OF assms]
    by (simp add: set_strategy_rows_def config_ok_def db_ok_def refs_ok_def ids idset
        efforts_ok_def overrides_ok_def)
  have refs: "mem_pool_id ` set (t_members db) \<subseteq> pool_id ` set (t_pools db)"
    using config_okD(1) [OF assms] by (simp add: db_ok_def refs_ok_def)
  show "config_ok (snd (delete_pool_rows i db))"
    unfolding delete_pool_rows_def snd_conv
    by (rule config_ok_shrink [OF assms refl refl cascade_refs [OF refs]])
  show "config_ok (snd (delete_member_rows pid prid model db))"
    using config_ok_shrink [OF assms, of "t_pools db" "\<lambda>_. True" _ "\<lambda>m. \<not> member_matches pid prid model m"]
      filter_refs [OF refs]
    by (simp add: delete_member_rows_def del: set_filter)
qed

lemma valid_rows_query:
  assumes "\<And>db. config_ok db \<Longrightarrow> config_ok (snd (f db))" and "\<And>a. valid config_ok (g a) (\<lambda>_. config_ok)"
  shows "valid config_ok (attempt (query_stmt (\<lambda>db. Inr (f db))) g) (\<lambda>_. config_ok)"
proof (rule valid_inv_attempt [OF _ assms(2)])
  show "valid config_ok (query_stmt (\<lambda>db. Inr (f db))) (\<lambda>_. config_ok)"
  proof (rule valid_query_stmt [OF fault_blind_config])
    fix db a db'
    assume "config_ok db" and "Inr (f db) = (Inr (a, db') :: sql_error + _)"
    with assms(1) [of db] show "config_ok db'" by simp
  qed
qed

lemma valid_unit_tail [intro!]:
  "valid P (if b then fail_ret e else ok_ret a) (\<lambda>_. P)"
  by (simp add: valid_def)

lemma valid_pool_ops:
  "valid config_ok (insert_pool p) (\<lambda>_. config_ok)"
  "valid config_ok (update_pool_strategy i st sl) (\<lambda>_. config_ok)"
  "valid config_ok (delete_pool i) (\<lambda>_. config_ok)"
  "valid config_ok (delete_member pid prid model) (\<lambda>_. config_ok)"
proof -
  show "valid config_ok (insert_pool p) (\<lambda>_. config_ok)"
    unfolding insert_pool_def
    by (rule valid_unique_write [OF fault_blind_config config_insert_pool_row])
  show "valid config_ok (update_pool_strategy i st sl) (\<lambda>_. config_ok)"
    unfolding update_pool_strategy_def by (rule valid_rows_query) (auto intro: config_pool_rows)
  show "valid config_ok (delete_pool i) (\<lambda>_. config_ok)"
    unfolding delete_pool_def by (rule valid_rows_query) (auto intro: config_pool_rows)
  show "valid config_ok (delete_member pid prid model) (\<lambda>_. config_ok)"
    unfolding delete_member_def by (rule valid_rows_query) (auto intro: config_pool_rows)
qed

section \<open>Writing a member\<close>

definition image_fits :: "pool_member \<Rightarrow> database \<Rightarrow> bool" where
  "image_fits m db \<longleftrightarrow>
     (\<forall>pl\<in>set (t_pools db). \<forall>p\<in>set (t_providers db).
        pool_id pl = mem_pool_id m \<longrightarrow> pool_modality pl = Image \<longrightarrow>
        prov_id p = mem_provider_id m \<longrightarrow> image_member_eligible p m)"

definition effort_fits :: "pool_member \<Rightarrow> database \<Rightarrow> bool" where
  "effort_fits m db \<longleftrightarrow>
     (\<forall>p\<in>set (t_providers db). mem_provider_id m = prov_id p \<longrightarrow> member_effort_ok p m)"

lemma fault_blind_fits: "fault_blind (image_fits m)" "fault_blind (effort_fits m)"
  by (simp_all add: fault_blind_def image_fits_def effort_fits_def)

lemma identity_override:
  assumes "member_identity r = member_identity m"
    and "mem_model_override r \<noteq> Some []" and "mem_model_override m \<noteq> Some []"
  shows "mem_model_override r = mem_model_override m
     \<and> mem_pool_id r = mem_pool_id m \<and> mem_provider_id r = mem_provider_id m"
  using assms
  by (cases "mem_model_override r"; cases "mem_model_override m") (auto simp: member_identity_def)

lemma write_member_simps [simp]:
  "mem_pool_id (write_member m r) = mem_pool_id r"
  "mem_provider_id (write_member m r) = mem_provider_id r"
  "mem_model_override (write_member m r) = mem_model_override r"
  "mem_reasoning_effort_override (write_member m r) = mem_reasoning_effort_override m"
  "member_identity (write_member m r) = member_identity r"
  "image_member_eligible p (write_member m r) = image_member_eligible p r"
  by (simp_all add: write_member_def member_identity_def image_member_eligible_def)

lemma config_update_member:
  assumes ok: "config_ok db" and ov: "mem_model_override m \<noteq> Some []" and fits: "effort_fits m db"
  shows "config_ok (db\<lparr>t_members :=
     update_where (\<lambda>r. member_identity r = member_identity m) (write_member m) (t_members db)\<rparr>)"
proof -
  let ?ms = "update_where (\<lambda>r. member_identity r = member_identity m) (write_member m) (t_members db)"
  have keep: "map f ?ms = map f (t_members db)"
    if "\<And>r. f (write_member m r) = f r" for f :: "pool_member \<Rightarrow> 'z"
    by (rule map_update_where) (rule that)
  have sets: "f ` set ?ms = f ` set (t_members db)"
    if "\<And>r. f (write_member m r) = f r" for f :: "pool_member \<Rightarrow> 'z"
    using keep [of f, OF that] by (metis set_map)
  have ovs: "mem_model_override r \<noteq> Some []" if "r \<in> set (t_members db)" for r
    using config_okD(3) [OF ok] that by (simp add: overrides_ok_def list.pred_set)
  have "member_effort_ok p (write_member m r)"
    if "r \<in> set (t_members db)" "member_identity r = member_identity m"
      "p \<in> set (t_providers db)" "mem_provider_id r = prov_id p" for r p
    using identity_override [OF that(2) ovs [OF that(1)] ov] fits that
    by (simp add: effort_fits_def member_effort_ok_def effective_model_of_def)
  then have "efforts_ok (db\<lparr>t_members := ?ms\<rparr>)"
    using config_okD(2) [OF ok] by (auto simp: efforts_ok_def set_update_where)
  moreover have "db_ok (db\<lparr>t_members := ?ms\<rparr>)"
    using config_okD(1) [OF ok] by (simp add: db_ok_def refs_ok_def keep sets)
  moreover have "overrides_ok (db\<lparr>t_members := ?ms\<rparr>)"
    using ovs by (auto simp: overrides_ok_def list.pred_set set_update_where)
  moreover have "images_ok (db\<lparr>t_members := ?ms\<rparr>)"
    using config_okD(4) [OF ok] by (auto simp: images_ok_def set_update_where)
  ultimately show ?thesis by (simp add: config_ok_def)
qed

lemma config_append_member:
  assumes ok: "config_ok db" and ov: "mem_model_override m \<noteq> Some []"
    and fits: "effort_fits m db" "image_fits m db"
    and new: "member_identity m \<notin> member_identity ` set (t_members db)"
    and refs: "mem_pool_id m \<in> pool_id ` set (t_pools db)" "mem_provider_id m \<in> prov_id ` set (t_providers db)"
  shows "config_ok (db\<lparr>t_members := t_members db @ [m]\<rparr>)"
proof -
  have "db_ok (db\<lparr>t_members := t_members db @ [m]\<rparr>)"
    using config_okD(1) [OF ok] new refs by (auto simp: db_ok_def refs_ok_def)
  moreover have "efforts_ok (db\<lparr>t_members := t_members db @ [m]\<rparr>)"
    using config_okD(2) [OF ok] fits(1) by (auto simp: efforts_ok_def effort_fits_def)
  moreover have "overrides_ok (db\<lparr>t_members := t_members db @ [m]\<rparr>)"
    using config_okD(3) [OF ok] ov by (simp add: overrides_ok_def)
  moreover have "images_ok (db\<lparr>t_members := t_members db @ [m]\<rparr>)"
    using config_okD(4) [OF ok] fits(2) by (auto simp: images_ok_def image_fits_def)
  ultimately show ?thesis by (simp add: config_ok_def)
qed

lemma config_upsert_member_row:
  assumes "config_ok db" and "mem_model_override m \<noteq> Some []"
    and "effort_fits m db" and "image_fits m db" and "upsert_member_row m db = Inr (u, db')"
  shows "config_ok db'"
  using assms(5) config_update_member [OF assms(1,2,3)] config_append_member [OF assms(1-4)]
  by (auto simp: upsert_member_row_def split: if_splits)

section \<open>The checks of \<open>upsert_member\<close>\<close>

text \<open>A row found by its id is the only one with that id.\<close>

definition the_pool :: "string \<Rightarrow> pool \<Rightarrow> database \<Rightarrow> bool" where
  "the_pool i pl db \<longleftrightarrow> (\<forall>q\<in>set (t_pools db). pool_id q = i \<longrightarrow> q = pl)"

definition the_provider :: "string \<Rightarrow> provider \<Rightarrow> database \<Rightarrow> bool" where
  "the_provider i p db \<longleftrightarrow> (\<forall>q\<in>set (t_providers db). prov_id q = i \<longrightarrow> q = p)"

lemma valid_lookup:
  assumes b: "fault_blind P" and key: "\<And>db. P db \<Longrightarrow> distinct (map f (rows db))"
  shows "valid P (attempt (fetch (\<lambda>db. row_with f i (rows db)))
      (\<lambda>r. case r of Some p \<Rightarrow> ok_ret p | None \<Rightarrow> fail_ret NotFound))
    (\<lambda>r db. P db \<and> (\<forall>p. r = Inr p \<longrightarrow> (\<forall>q\<in>set (rows db). f q = i \<longrightarrow> q = p)))"
proof (rule valid_attempt)
  show "valid P (fetch (\<lambda>db. row_with f i (rows db)))
     (\<lambda>r db. case r of Inl e \<Rightarrow> P db \<and> (\<forall>p. Inl e = Inr p \<longrightarrow> (\<forall>q\<in>set (rows db). f q = i \<longrightarrow> q = p))
        | Inr a \<Rightarrow> P db \<and> a = row_with f i (rows db))"
    by (rule valid_post [OF valid_fetch_result [OF b]]) (simp split: sum.split)
  fix a
  have "q = p" if "P db" "Some p = row_with f i (rows db)" "q \<in> set (rows db)" "f q = i" for db p q
    using row_with_mem [OF key [OF that(1)] that(3)] that(2,4) by simp
  then show "valid (\<lambda>db. P db \<and> a = row_with f i (rows db))
      (case a of Some p \<Rightarrow> ok_ret p | None \<Rightarrow> fail_ret NotFound)
      (\<lambda>r db. P db \<and> (\<forall>p. r = Inr p \<longrightarrow> (\<forall>q\<in>set (rows db). f q = i \<longrightarrow> q = p)))"
    by (cases a) (auto simp: valid_def)
qed

lemma get_pool_the:
  "fault_blind P \<Longrightarrow> (\<And>db. P db \<Longrightarrow> config_ok db) \<Longrightarrow>
     valid P (get_pool i) (\<lambda>r db. P db \<and> (\<forall>pl. r = Inr pl \<longrightarrow> the_pool i pl db))"
  unfolding get_pool_def the_pool_def
  by (rule valid_lookup) (auto simp: config_ok_def db_ok_def)

lemma get_provider_the:
  "fault_blind P \<Longrightarrow> (\<And>db. P db \<Longrightarrow> config_ok db) \<Longrightarrow>
     valid P (get_provider i) (\<lambda>r db. P db \<and> (\<forall>p. r = Inr p \<longrightarrow> the_provider i p db))"
  unfolding get_provider_def the_provider_def
  by (rule valid_lookup) (auto simp: config_ok_def db_ok_def providers_ok_def)

lemma check_image_member_fits:
  assumes b: "fault_blind P" and ok: "\<And>db. P db \<Longrightarrow> config_ok db"
    and pl: "\<And>db. P db \<Longrightarrow> the_pool (mem_pool_id m) pl db"
  shows "valid P (check_image_member dbg pl m)
     (\<lambda>r db. P db \<and> (\<forall>u. r = Inr u \<longrightarrow> image_fits m db))"
proof (cases "pool_modality pl = Image")
  case False
  then have "image_fits m db" if "P db" for db
    using pl [OF that] by (auto simp: the_pool_def image_fits_def)
  with False show ?thesis by (auto simp: check_image_member_def)
next
  case True
  have fit: "image_fits m db"
    if "P db" "the_provider (mem_provider_id m) p db" "prov_kind p = OauthCodex"
      "mem_model_override m = Some x" "is_image_model x" for db p x
    using that by (auto simp: the_provider_def image_fits_def image_member_eligible_def)
  show ?thesis
    unfolding check_image_member_def
    by (simp add: True, rule valid_attempt [where R = "\<lambda>p db. P db \<and> the_provider (mem_provider_id m) p db"],
        rule valid_post [OF get_provider_the [OF b ok]])
      (use fit in \<open>auto simp: valid_def split: sum.splits option.splits\<close>)
qed

lemma check_member_effort_fits:
  assumes b: "fault_blind P" and ok: "\<And>db. P db \<Longrightarrow> config_ok db"
  shows "valid P (check_member_effort m) (\<lambda>r db. P db \<and> (\<forall>u. r = Inr u \<longrightarrow> effort_fits m db))"
proof (cases "mem_reasoning_effort_override m")
  case None
  then show ?thesis
    by (auto simp: check_member_effort_def effort_fits_def member_effort_ok_def)
next
  case (Some level)
  have fit: "effort_fits m db"
    if "the_provider (mem_provider_id m) p db"
      "supports (capability_for (prov_kind p) (prov_wire_format p) (effective_model_of p m))" for db p
    using that by (auto simp: the_provider_def effort_fits_def member_effort_ok_def)
  show ?thesis
    unfolding check_member_effort_def
    by (simp add: Some, rule valid_attempt [where R = "\<lambda>p db. P db \<and> the_provider (mem_provider_id m) p db"],
        rule valid_post [OF get_provider_the [OF b ok]])
      (use fit in \<open>auto simp: valid_def split: sum.splits\<close>)
qed

lemma valid_write_member_stmt:
  assumes ov: "mem_model_override m \<noteq> Some []"
  shows "valid (\<lambda>db. config_ok db \<and> image_fits m db \<and> effort_fits m db) (write_member_stmt m)
     (\<lambda>_. config_ok)"
proof (rule validI)
  fix db :: database and r db'
  let ?db = "db\<lparr>db_faults := tl (db_faults db)\<rparr>"
  assume "config_ok db \<and> image_fits m db \<and> effort_fits m db"
    and run: "run_state (write_member_stmt m) db = (r, db')"
  then have fit: "config_ok ?db" "image_fits m ?db" "effort_fits m ?db"
    by (simp_all add: fault_blindD fault_blind_config fault_blind_fits)
  show "config_ok db'"
    by (rule run_statement_cases [of "upsert_member_row m" db])
      (use run fit config_upsert_member_row [OF fit(1) ov fit(3,2)] in
        \<open>auto simp: write_member_stmt_def split: sql_error.splits\<close>)
qed

lemma valid_upsert_member: "valid config_ok (upsert_member dbg m) (\<lambda>_. config_ok)"
proof -
  define m' where "m' = nonempty_override m"
  have ov: "mem_model_override m' \<noteq> Some []"
    by (cases "mem_model_override m") (auto simp: m'_def nonempty_override_def)
  let ?P = "\<lambda>pl db. config_ok db \<and> the_pool (mem_pool_id m') pl db"
  let ?Q = "\<lambda>db. config_ok db \<and> image_fits m' db"
  have b: "fault_blind (?P pl)" "fault_blind ?Q" for pl
    using fault_blind_config fault_blind_fits by (simp_all add: fault_blind_def the_pool_def)
  show ?thesis
    unfolding upsert_member_def Let_def m'_def [symmetric]
  proof (rule valid_attempt [where R = ?P])
    show "valid config_ok (get_pool (mem_pool_id m'))
        (\<lambda>r s. case r of Inl e \<Rightarrow> config_ok s | Inr a \<Rightarrow> ?P a s)"
      by (rule valid_post [OF get_pool_the [OF fault_blind_config]]) (auto split: sum.split)
    fix pl
    show "valid (?P pl) (attempt (check_image_member dbg pl m') (\<lambda>_. attempt (check_member_effort m')
        (\<lambda>_. write_member_stmt m'))) (\<lambda>_. config_ok)"
    proof (rule valid_attempt [where R = "\<lambda>_. ?Q"])
      show "valid (?P pl) (check_image_member dbg pl m')
          (\<lambda>r s. case r of Inl e \<Rightarrow> config_ok s | Inr a \<Rightarrow> ?Q s)"
        by (rule valid_post [OF check_image_member_fits [OF b(1)]]) (auto split: sum.split)
      show "valid ?Q (attempt (check_member_effort m') (\<lambda>_. write_member_stmt m')) (\<lambda>_. config_ok)"
      proof (rule valid_attempt [OF _ valid_write_member_stmt [OF ov]])
        show "valid ?Q (check_member_effort m') (\<lambda>r s. case r of Inl e \<Rightarrow> config_ok s
            | Inr a \<Rightarrow> config_ok s \<and> image_fits m' s \<and> effort_fits m' s)"
          by (rule valid_post [OF check_member_effort_fits [OF b(2)]]) (auto split: sum.split)
      qed
    qed
  qed
qed

end
