(* ===== verification/ConfigStore.thy ===== *)
theory ConfigStore
  imports PoolStore
begin

text \<open>
  The configuration as a whole: the snapshot the proxy routes by
  (\<open>src/core/state.rs\<close>), export, import and first-boot seeding
  (\<open>src/admin/mod.rs\<close>, \<open>src/seed.rs\<close>), boolean settings (\<open>src/core/settings.rs\<close>)
  and the pool routes (\<open>src/pools/routes.rs\<close>), which write the database, publish a
  fresh snapshot and drop the rotation cursor of a changed pool.
\<close>

section \<open>The snapshot\<close>

fun load_members :: "pool list \<Rightarrow> pool_with_members list query" where
  "load_members [] = ok_ret []"
| "load_members (p # ps) =
     attempt (list_members (pool_id p)) (\<lambda>ms.
     attempt (load_members ps) (\<lambda>rest.
     ok_ret (\<lparr>pwm_pool = p, pwm_members = ms\<rparr> # rest)))"

definition load_snapshot :: "config_snapshot query" where
  "load_snapshot =
     attempt list_providers (\<lambda>providers.
     attempt list_pools (\<lambda>pools.
     attempt (load_members pools) (\<lambda>with_members.
     ok_ret \<lparr>snap_providers = providers, snap_pools = with_members\<rparr>)))"

text \<open>What the tables say, without statements: the specification of \<open>load_snapshot\<close>.\<close>

definition snapshot_of :: "database \<Rightarrow> config_snapshot" where
  "snapshot_of db =
     \<lparr>snap_providers = sort_key prov_name (t_providers db),
      snap_pools = map (\<lambda>p. \<lparr>pwm_pool = p, pwm_members = members_of db (pool_id p)\<rparr>)
                     (sort_key pool_id (t_pools db))\<rparr>"

section \<open>Direct pools\<close>

definition has_member :: "database \<Rightarrow> provider \<Rightarrow> bool" where
  "has_member db p \<longleftrightarrow> list_ex (\<lambda>m. mem_provider_id m = prov_id p) (t_members db)"

definition direct_pool :: "provider \<Rightarrow> pool" where
  "direct_pool p = \<lparr>pool_id = prov_id p, pool_wire_format = pool_wire_of (prov_wire_format p),
     pool_created_at = prov_created_at p, pool_strategy = Priority, pool_sticky_limit = None,
     pool_modality = Chat\<rparr>"

definition direct_member :: "provider \<Rightarrow> pool_member" where
  "direct_member p = \<lparr>mem_pool_id = prov_id p, mem_provider_id = prov_id p, mem_priority = 1,
     mem_model_override = None, mem_dataset_logging_override = None,
     mem_reasoning_effort_override = None\<rparr>"

definition add_direct_pools :: "database \<Rightarrow> database" where
  "add_direct_pools db = db\<lparr>t_pools := t_pools db @ map direct_pool
     (filter (\<lambda>p. \<not> has_member db p \<and> prov_id p \<notin> pool_id ` set (t_pools db)) (t_providers db))\<rparr>"

definition add_direct_members :: "database \<Rightarrow> database" where
  "add_direct_members db = db\<lparr>t_members := t_members db @ map direct_member
     (filter (\<lambda>p. list_ex (\<lambda>pl. pool_id pl = prov_id p
                 \<and> pool_wire_text (pool_wire_format pl) = wire_format_text (prov_wire_format p))
               (t_pools db)
             \<and> \<not> has_member db p) (t_providers db))\<rparr>"

text \<open>\<open>begin\<close> and \<open>commit\<close> are statements that can fail, too.\<close>

definition in_transaction :: "unit query \<Rightarrow> unit query" where
  "in_transaction body = transaction
     (attempt (fetch (\<lambda>_. ())) (\<lambda>_. attempt body (\<lambda>_. fetch (\<lambda>_. ()))))"

definition ensure_direct_pools_for_unassigned_providers :: "unit query" where
  "ensure_direct_pools_for_unassigned_providers =
     in_transaction (attempt (execute_stmt add_direct_pools) (\<lambda>_. execute_stmt add_direct_members))"

section \<open>Export and import\<close>

record export_dump =
  dump_providers :: "provider list"
  dump_pools :: "pool list"
  dump_members :: "pool_member list"
  dump_users :: "user_row list"

definition export_users :: "user_row list query" where
  "export_users = fetch (\<lambda>db. sort_key usr_id (t_users db))"

fun export_members :: "pool list \<Rightarrow> pool_member list query" where
  "export_members [] = ok_ret []"
| "export_members (p # ps) =
     attempt (list_members (pool_id p)) (\<lambda>ms.
     attempt (export_members ps) (\<lambda>rest. ok_ret (ms @ rest)))"

definition export :: "export_dump query" where
  "export =
     attempt list_providers (\<lambda>providers.
     attempt list_pools (\<lambda>pools.
     attempt (export_members pools) (\<lambda>members.
     attempt export_users (\<lambda>users.
     ok_ret \<lparr>dump_providers = providers, dump_pools = pools, dump_members = members,
             dump_users = users\<rparr>))))"

definition overwrite_provider :: "provider \<Rightarrow> provider \<Rightarrow> provider" where
  "overwrite_provider p r = p\<lparr>prov_id := prov_id r, prov_created_at := prov_created_at r\<rparr>"

definition import_provider_row :: "provider \<Rightarrow> database \<Rightarrow> sql_error + unit \<times> database" where
  "import_provider_row p db =
     (let ps = (if prov_id p \<in> prov_id ` set (t_providers db)
                then update_where (\<lambda>r. prov_id r = prov_id p) (overwrite_provider p) (t_providers db)
                else t_providers db @ [p])
      in if \<not> distinct (map prov_name ps) then Inl UniqueViolation
         else Inr ((), db\<lparr>t_providers := ps\<rparr>))"

definition overwrite_pool :: "pool \<Rightarrow> pool \<Rightarrow> pool" where
  "overwrite_pool p r = p\<lparr>pool_id := pool_id r, pool_created_at := pool_created_at r\<rparr>"

definition import_pool_row :: "pool \<Rightarrow> database \<Rightarrow> sql_error + unit \<times> database" where
  "import_pool_row p db = Inr ((), db\<lparr>t_pools :=
     (if pool_id p \<in> pool_id ` set (t_pools db)
      then update_where (\<lambda>r. pool_id r = pool_id p) (overwrite_pool p) (t_pools db)
      else t_pools db @ [p])\<rparr>)"

definition import_member_row :: "pool_member \<Rightarrow> database \<Rightarrow> sql_error + unit \<times> database" where
  "import_member_row m = upsert_member_row (nonempty_override m)"

definition merge_user :: "user_row \<Rightarrow> user_row \<Rightarrow> user_row" where
  "merge_user u r = r\<lparr>usr_name := usr_name u,
     usr_revoked_at := opt_or (usr_revoked_at r) (usr_revoked_at u)\<rparr>"

definition import_user_row :: "user_row \<Rightarrow> database \<Rightarrow> sql_error + unit \<times> database" where
  "import_user_row u db =
     (if usr_id u \<in> usr_id ` set (t_users db)
      then Inr ((), db\<lparr>t_users := update_where (\<lambda>r. usr_id r = usr_id u) (merge_user u) (t_users db)\<rparr>)
      else if usr_key_hash u \<in> usr_key_hash ` set (t_users db) then Inl UniqueViolation
      else Inr ((), db\<lparr>t_users := t_users db @ [u]\<rparr>))"

fun each_row :: "('r \<Rightarrow> database \<Rightarrow> sql_error + unit \<times> database) \<Rightarrow> 'r list \<Rightarrow> unit query" where
  "each_row f [] = ok_ret ()"
| "each_row f (r # rs) = attempt (query_stmt (f r)) (\<lambda>_. each_row f rs)"

definition import_config :: "export_dump \<Rightarrow> unit query" where
  "import_config d = in_transaction
     (attempt (each_row import_provider_row (dump_providers d)) (\<lambda>_.
      attempt (each_row import_pool_row (dump_pools d)) (\<lambda>_.
      attempt (each_row import_member_row (dump_members d)) (\<lambda>_.
      each_row import_user_row (dump_users d)))))"

section \<open>Seeding and settings\<close>

text \<open>
  \<open>anyhow\<close> errors are their text.  Reading the seed file and parsing it (\<open>serde_json\<close>)
  are parameters; \<open>dbg\<close> is \<open>{:?}\<close> of a string.
\<close>

definition app_text :: "app_error \<Rightarrow> string" where
  "app_text = app_error_text show_nat"

definition seed_if_configured ::
  "(string \<Rightarrow> string) \<Rightarrow> (string \<Rightarrow> string + string) \<Rightarrow> (string \<Rightarrow> string + export_dump) \<Rightarrow>
     string option \<Rightarrow> (database, string + unit) state" where
  "seed_if_configured dbg read_to_string parse_dump seed_path =
     (case seed_path of
        None \<Rightarrow> ok_ret ()
      | Some path \<Rightarrow> do {
          count \<leftarrow> statement (\<lambda>db. Inr (length (t_providers db), db));
          case count of
            Inl e \<Rightarrow> fail_ret (sql_error_text e)
          | Inr n \<Rightarrow>
              if 0 < n then ok_ret ()
              else (case read_to_string path of
                Inl e \<Rightarrow> fail_ret (''failed to read seed file '' @ dbg path @ '': '' @ e)
              | Inr raw \<Rightarrow>
                  (case parse_dump raw of
                     Inl e \<Rightarrow> fail_ret (''invalid seed JSON: '' @ e)
                   | Inr d \<Rightarrow> do {
                       r \<leftarrow> import_config d;
                       case r of
                         Inl e \<Rightarrow> fail_ret (''seed import failed: '' @ app_text e)
                       | Inr _ \<Rightarrow> ok_ret () })) })"

definition get_bool :: "(string \<Rightarrow> string) \<Rightarrow> string \<Rightarrow> (database, string + bool option) state" where
  "get_bool dbg name = do {
     r \<leftarrow> statement (\<lambda>db. Inr (dm_get (t_secrets db) name, db));
     case r of
       Inl e \<Rightarrow> fail_ret (sql_error_text e)
     | Inr None \<Rightarrow> ok_ret None
     | Inr (Some v) \<Rightarrow>
         if v = ''true'' then ok_ret (Some True)
         else if v = ''false'' then ok_ret (Some False)
         else fail_ret (''invalid boolean setting '' @ dbg name @ '': '' @ dbg v) }"

definition set_bool :: "string \<Rightarrow> bool \<Rightarrow> (database, string + unit) state" where
  "set_bool name v = do {
     r \<leftarrow> statement (\<lambda>db. Inr ((),
       db\<lparr>t_secrets := dm_put name (if v then ''true'' else ''false'') (t_secrets db)\<rparr>));
     case r of Inl e \<Rightarrow> fail_ret (sql_error_text e) | Inr _ \<Rightarrow> ok_ret () }"

section \<open>The pool routes\<close>

text \<open>The part of \<open>AppState\<close> the routes write: the database, the published snapshot, the cursors.\<close>

record gateway =
  gw_db :: database
  gw_snapshot :: config_snapshot
  gw_rotation :: rotation_map

type_synonym 'a route = "(gateway, app_error + 'a) state"

definition on_db :: "'a query \<Rightarrow> 'a route" where
  "on_db q = State (\<lambda>g. case run_state q (gw_db g) of (r, db) \<Rightarrow> (r, g\<lparr>gw_db := db\<rparr>))"

definition reload_snapshot :: "unit route" where
  "reload_snapshot = attempt (on_db load_snapshot) (\<lambda>s. do {
     update_by (\<lambda>g. g\<lparr>gw_snapshot := s\<rparr>); ok_ret () })"

definition drop_cursor :: "string \<Rightarrow> unit route" where
  "drop_cursor i = do { update_by (\<lambda>g. g\<lparr>gw_rotation := dm_del i (gw_rotation g)\<rparr>); ok_ret () }"

definition pool_create :: "pool \<Rightarrow> pool route" where
  "pool_create p =
     attempt (check (validate_path_id (pool_id p))) (\<lambda>_.
     attempt (on_db (insert_pool p)) (\<lambda>_.
     attempt reload_snapshot (\<lambda>_. ok_ret p)))"

definition pool_update :: "string \<Rightarrow> pool_strategy option \<Rightarrow> int option \<Rightarrow> pool route" where
  "pool_update i strategy sticky_limit =
     attempt (on_db (get_pool i)) (\<lambda>current.
     attempt (on_db (update_pool_strategy i (unwrap_or strategy (pool_strategy current))
       (opt_or sticky_limit (pool_sticky_limit current)))) (\<lambda>_.
     attempt reload_snapshot (\<lambda>_.
     attempt (drop_cursor i) (\<lambda>_. on_db (get_pool i)))))"

definition pool_delete :: "string \<Rightarrow> unit route" where
  "pool_delete i =
     attempt (on_db (delete_pool i)) (\<lambda>_.
     attempt reload_snapshot (\<lambda>_. drop_cursor i))"

definition put_member :: "(string option \<Rightarrow> string) \<Rightarrow> pool_member \<Rightarrow> pool_member route" where
  "put_member dbg m =
     attempt (on_db (get_pool (mem_pool_id m))) (\<lambda>_.
     attempt (on_db (get_provider (mem_provider_id m))) (\<lambda>_.
     attempt (on_db (upsert_member dbg (nonempty_override m))) (\<lambda>_.
     attempt reload_snapshot (\<lambda>_. ok_ret (nonempty_override m)))))"

definition remove_member :: "string \<Rightarrow> string \<Rightarrow> string option \<Rightarrow> unit route" where
  "remove_member pid prid model =
     attempt (on_db (delete_member pid prid model)) (\<lambda>_. reload_snapshot)"

definition import_route :: "export_dump \<Rightarrow> unit route" where
  "import_route d = attempt (on_db (import_config d)) (\<lambda>_. reload_snapshot)"

section \<open>Queries that only read\<close>

text \<open>
  \<open>reads q f\<close>: whatever the faults, \<open>q\<close> changes no table and what it returns is
  \<open>f\<close> of the tables; without faults it does return.
\<close>

definition reads :: "'a query \<Rightarrow> (database \<Rightarrow> 'a) \<Rightarrow> bool" where
  "reads q f \<longleftrightarrow>
     (\<forall>db fs. f (db\<lparr>db_faults := fs\<rparr>) = f db) \<and>
     (\<forall>db. \<exists>fs. snd (run_state q db) = db\<lparr>db_faults := fs\<rparr> \<and>
        (\<forall>a. fst (run_state q db) = Inr a \<longrightarrow> a = f db) \<and>
        (db_faults db = [] \<longrightarrow> run_state q db = (Inr (f db), db)))"

lemma readsD:
  assumes "reads q f"
  shows "f (db\<lparr>db_faults := fs\<rparr>) = f db"
    and "\<exists>fs. snd (run_state q db) = db\<lparr>db_faults := fs\<rparr>"
    and "run_state q db = (Inr a, db') \<Longrightarrow> a = f db"
    and "db_faults db = [] \<Longrightarrow> run_state q db = (Inr (f db), db)"
  using assms unfolding reads_def by (metis fst_conv)+

lemma reads_fetch: "(\<And>db fs. f (db\<lparr>db_faults := fs\<rparr>) = f db) \<Longrightarrow> reads (fetch f) f"
  unfolding reads_def
proof (intro conjI allI)
  fix db
  assume blind: "\<And>db fs. f (db\<lparr>db_faults := fs\<rparr>) = f db"
  show "\<exists>fs. snd (run_state (fetch f) db) = db\<lparr>db_faults := fs\<rparr> \<and>
      (\<forall>a. fst (run_state (fetch f) db) = Inr a \<longrightarrow> a = f db) \<and>
      (db_faults db = [] \<longrightarrow> run_state (fetch f) db = (Inr (f db), db))"
    by (rule run_query_stmt_cases [of "\<lambda>db. Inr (f db, db)" db])
      (auto simp: fetch_def [symmetric] blind)
qed

lemma reads_ok_ret: "(\<And>db fs. f (db\<lparr>db_faults := fs\<rparr>) = f db) \<Longrightarrow> (\<And>db. f db = a) \<Longrightarrow> reads (ok_ret a) f"
  unfolding reads_def
proof (intro conjI allI)
  fix db :: database
  assume "\<And>db. f db = a"
  moreover have "db = db\<lparr>db_faults := db_faults db\<rparr>" by simp
  ultimately show "\<exists>fs. snd (run_state (ok_ret a) db) = db\<lparr>db_faults := fs\<rparr> \<and>
      (\<forall>b. fst (run_state (ok_ret a) db) = Inr b \<longrightarrow> b = f db) \<and>
      (db_faults db = [] \<longrightarrow> run_state (ok_ret a) db = (Inr (f db), db))"
    by (intro exI [of _ "db_faults db"]) simp
qed

lemma reads_attempt:
  assumes q: "reads q f" and g: "\<And>a. reads (g a) (h a)"
  shows "reads (attempt q g) (\<lambda>db. h (f db) db)"
  unfolding reads_def
proof (intro conjI allI)
  fix db :: database and fs
  show "h (f (db\<lparr>db_faults := fs\<rparr>)) (db\<lparr>db_faults := fs\<rparr>) = h (f db) db"
    using readsD(1) [OF q] readsD(1) [OF g] by simp
next
  fix db
  obtain r db1 where run: "run_state q db = (r, db1)" by (cases "run_state q db")
  with readsD(2) [OF q, of db] obtain fs where db1: "db1 = db\<lparr>db_faults := fs\<rparr>" by auto
  show "\<exists>fs. snd (run_state (attempt q g) db) = db\<lparr>db_faults := fs\<rparr> \<and>
      (\<forall>a. fst (run_state (attempt q g) db) = Inr a \<longrightarrow> a = h (f db) db) \<and>
      (db_faults db = [] \<longrightarrow> run_state (attempt q g) db = (Inr (h (f db) db), db))"
  proof (cases r)
    case (Inl e)
    with run readsD(4) [OF q, of db] have "db_faults db \<noteq> []" by auto
    with Inl run db1 show ?thesis by (intro exI [of _ fs]) (simp add: run_attempt)
  next
    case (Inr a)
    with run have a: "a = f db" using readsD(3) [OF q] by blast
    obtain r2 db2 where run2: "run_state (g a) db1 = (r2, db2)" by (cases "run_state (g a) db1")
    with readsD(2) [OF g, of a db1] obtain fs2 where "db2 = db1\<lparr>db_faults := fs2\<rparr>" by auto
    with db1 have db2: "db2 = db\<lparr>db_faults := fs2\<rparr>" by simp
    have val: "r2 = Inr b \<Longrightarrow> b = h (f db) db" for b
      using run2 readsD(3) [OF g, of a db1 b db2] readsD(1) [OF g] db1 a by simp
    have nof: "(r2, db2) = (Inr (h (f db) db), db)" if "db_faults db = []"
    proof -
      from readsD(4) [OF q that] run have "db1 = db" by simp
      with run2 have "(r2, db2) = run_state (g a) db" by (metis (no_types))
      also have "\<dots> = (Inr (h a db), db)" by (rule readsD(4) [OF g that])
      finally show ?thesis by (simp only: a)
    qed
    from run run2 Inr have res: "run_state (attempt q g) db = (r2, db2)" by (simp add: run_attempt)
    show ?thesis
      unfolding res fst_conv snd_conv
      by (intro exI [of _ fs2] conjI allI impI) (fact db2, erule val, erule nof)
  qed
qed

lemma reads_list_ops:
  "reads list_providers (\<lambda>db. sort_key prov_name (t_providers db))"
  "reads list_pools (\<lambda>db. sort_key pool_id (t_pools db))"
  "reads (list_members i) (\<lambda>db. members_of db i)"
  "reads export_users (\<lambda>db. sort_key usr_id (t_users db))"
  unfolding list_providers_def list_pools_def list_members_def export_users_def
  by (rule reads_fetch, simp add: members_of_def)+

lemma reads_load_members:
  "reads (load_members ps) (\<lambda>db. map (\<lambda>p. \<lparr>pwm_pool = p, pwm_members = members_of db (pool_id p)\<rparr>) ps)"
proof (induction ps)
  case Nil
  show ?case by (simp add: reads_ok_ret)
next
  case (Cons p ps)
  have "reads (ok_ret (\<lparr>pwm_pool = p, pwm_members = ms\<rparr> # rest))
      (\<lambda>_. \<lparr>pwm_pool = p, pwm_members = ms\<rparr> # rest)" for ms rest
    by (simp add: reads_ok_ret)
  from reads_attempt [OF reads_list_ops(3) reads_attempt [OF Cons.IH this]] show ?case by simp
qed

lemma reads_export_members:
  "reads (export_members ps) (\<lambda>db. concat (map (\<lambda>p. members_of db (pool_id p)) ps))"
proof (induction ps)
  case Nil
  show ?case by (simp add: reads_ok_ret)
next
  case (Cons p ps)
  have "reads (ok_ret (ms @ rest)) (\<lambda>_. ms @ rest)" for ms rest :: "pool_member list"
    by (simp add: reads_ok_ret)
  from reads_attempt [OF reads_list_ops(3) reads_attempt [OF Cons.IH this]] show ?case by simp
qed

lemma reads_load_snapshot: "reads load_snapshot snapshot_of"
proof -
  have "reads (ok_ret \<lparr>snap_providers = ps, snap_pools = ws\<rparr>)
      (\<lambda>_. \<lparr>snap_providers = ps, snap_pools = ws\<rparr>)" for ps ws
    by (simp add: reads_ok_ret)
  from reads_attempt [OF reads_list_ops(1) reads_attempt [OF reads_list_ops(2)
    reads_attempt [OF reads_load_members this]]]
  show ?thesis by (simp add: load_snapshot_def snapshot_of_def [abs_def])
qed

definition dump_of :: "database \<Rightarrow> export_dump" where
  "dump_of db =
     \<lparr>dump_providers = sort_key prov_name (t_providers db),
      dump_pools = sort_key pool_id (t_pools db),
      dump_members = concat (map (\<lambda>p. members_of db (pool_id p)) (sort_key pool_id (t_pools db))),
      dump_users = sort_key usr_id (t_users db)\<rparr>"

lemma reads_export: "reads export dump_of"
proof -
  have "reads (ok_ret \<lparr>dump_providers = ps, dump_pools = pls, dump_members = ms, dump_users = us\<rparr>)
      (\<lambda>_. \<lparr>dump_providers = ps, dump_pools = pls, dump_members = ms, dump_users = us\<rparr>)" for ps pls ms us
    by (simp add: reads_ok_ret)
  from reads_attempt [OF reads_list_ops(1) reads_attempt [OF reads_list_ops(2)
    reads_attempt [OF reads_export_members reads_attempt [OF reads_list_ops(4) this]]]]
  show ?thesis by (simp add: export_def dump_of_def [abs_def])
qed

section \<open>Import keeps the schema and is all or nothing\<close>

lemma valid_each_row:
  assumes b: "fault_blind P" and f: "\<And>r db db'. P db \<Longrightarrow> f r db = Inr ((), db') \<Longrightarrow> P db'"
  shows "valid P (each_row f rs) (\<lambda>_. P)"
proof (induction rs)
  case (Cons r rs)
  have "valid P (query_stmt (f r)) (\<lambda>_. P)"
    by (rule valid_query_stmt [OF b]) (use f in auto)
  then show ?case using Cons.IH by (simp add: valid_inv_attempt)
qed auto

lemma valid_in_transaction:
  assumes b: "fault_blind P" and "valid P body (\<lambda>_. P)"
  shows "valid P (in_transaction body) (\<lambda>_. P)"
  unfolding in_transaction_def
  by (intro valid_transaction [OF b] valid_inv_attempt valid_fetch [OF b] assms(2))

text \<open>One statement per row of the dump: an invariant of every row write is one of the import.\<close>

lemma valid_import:
  assumes b: "fault_blind P"
    and "\<And>r db db'. P db \<Longrightarrow> import_provider_row r db = Inr ((), db') \<Longrightarrow> P db'"
    and "\<And>r db db'. P db \<Longrightarrow> import_pool_row r db = Inr ((), db') \<Longrightarrow> P db'"
    and "\<And>r db db'. P db \<Longrightarrow> import_member_row r db = Inr ((), db') \<Longrightarrow> P db'"
    and "\<And>r db db'. P db \<Longrightarrow> import_user_row r db = Inr ((), db') \<Longrightarrow> P db'"
  shows "valid P (import_config d) (\<lambda>_. P)"
  unfolding import_config_def
  by (intro valid_in_transaction [OF b] valid_inv_attempt valid_each_row [OF b])
    (erule assms(2-5), assumption)+

definition stored_ok :: "database \<Rightarrow> bool" where
  "stored_ok db \<longleftrightarrow> db_ok db \<and> overrides_ok db"

lemma fault_blind_stored: "fault_blind stored_ok"
  using fault_blind_db_ok fault_blind_overrides by (simp add: fault_blind_def stored_ok_def)

text \<open>Replacing one table.\<close>

lemma stored_set_table:
  assumes "stored_ok db"
  shows "providers_ok ps \<Longrightarrow> prov_id ` set (t_providers db) \<subseteq> prov_id ` set ps \<Longrightarrow>
      stored_ok (db\<lparr>t_providers := ps\<rparr>)"
    and "distinct (map pool_id pls) \<Longrightarrow> pool_id ` set (t_pools db) \<subseteq> pool_id ` set pls \<Longrightarrow>
      stored_ok (db\<lparr>t_pools := pls\<rparr>)"
    and "distinct (map member_identity ms) \<Longrightarrow> mem_pool_id ` set ms \<subseteq> pool_id ` set (t_pools db) \<Longrightarrow>
      mem_provider_id ` set ms \<subseteq> prov_id ` set (t_providers db) \<Longrightarrow>
      list_all (\<lambda>m. mem_model_override m \<noteq> Some []) ms \<Longrightarrow> stored_ok (db\<lparr>t_members := ms\<rparr>)"
    and "users_ok us \<Longrightarrow> stored_ok (db\<lparr>t_users := us\<rparr>)"
  using assms unfolding stored_ok_def db_ok_def refs_ok_def overrides_ok_def
  by (simp_all, (meson subset_trans)+)

lemma stored_import_provider:
  assumes ok: "stored_ok db" and row: "import_provider_row p db = Inr ((), db')"
  shows "stored_ok db'"
proof -
  let ?up = "update_where (\<lambda>r. prov_id r = prov_id p) (overwrite_provider p) (t_providers db)"
  let ?ps = "if prov_id p \<in> prov_id ` set (t_providers db) then ?up else t_providers db @ [p]"
  have ids: "map prov_id ?up = map prov_id (t_providers db)"
    by (rule map_update_where) (simp add: overwrite_provider_def)
  then have idset: "prov_id ` set ?up = prov_id ` set (t_providers db)" by (metis set_map)
  from row have db': "db' = db\<lparr>t_providers := ?ps\<rparr>" and "distinct (map prov_name ?ps)"
    unfolding import_provider_row_def Let_def by (metis Inl_Inr_False Inr_inject prod.inject)+
  moreover have "distinct (map prov_id ?ps)"
    using ok by (simp add: ids stored_ok_def db_ok_def providers_ok_def)
  ultimately have "providers_ok ?ps" by (simp only: providers_ok_def simp_thms)
  then show ?thesis
    unfolding db' by (rule stored_set_table(1) [OF ok]) (simp add: idset subset_insertI)
qed

lemma stored_import_pool:
  assumes ok: "stored_ok db" and row: "import_pool_row p db = Inr ((), db')"
  shows "stored_ok db'"
proof -
  let ?up = "update_where (\<lambda>r. pool_id r = pool_id p) (overwrite_pool p) (t_pools db)"
  let ?ps = "if pool_id p \<in> pool_id ` set (t_pools db) then ?up else t_pools db @ [p]"
  have ids: "map pool_id ?up = map pool_id (t_pools db)"
    by (rule map_update_where) (simp add: overwrite_pool_def)
  then have idset: "pool_id ` set ?up = pool_id ` set (t_pools db)" by (metis set_map)
  from row have db': "db' = db\<lparr>t_pools := ?ps\<rparr>"
    by (simp add: import_pool_row_def)
  have "distinct (map pool_id ?ps)"
    using ok by (simp add: ids stored_ok_def db_ok_def)
  then show ?thesis
    unfolding db' by (rule stored_set_table(2) [OF ok]) (simp add: idset subset_insertI)
qed

lemma nonempty_override_ok: "mem_model_override (nonempty_override m) \<noteq> Some []"
  by (cases "mem_model_override m") (auto simp: nonempty_override_def)

lemma stored_okD:
  assumes "stored_ok db"
  shows "distinct (map member_identity (t_members db))" "users_ok (t_users db)"
    "mem_pool_id ` set (t_members db) \<subseteq> pool_id ` set (t_pools db)"
    "mem_provider_id ` set (t_members db) \<subseteq> prov_id ` set (t_providers db)"
    "list_all (\<lambda>m. mem_model_override m \<noteq> Some []) (t_members db)"
  using assms by (simp_all add: stored_ok_def db_ok_def refs_ok_def overrides_ok_def)

lemma stored_import_member:
  assumes ok: "stored_ok db" and row: "import_member_row m db = Inr ((), db')"
  shows "stored_ok db'"
proof (cases "member_identity (nonempty_override m) \<in> member_identity ` set (t_members db)")
  case True
  let ?m = "nonempty_override m"
  let ?up = "update_where (\<lambda>r. member_identity r = member_identity ?m) (write_member ?m) (t_members db)"
  have keep: "map f ?up = map f (t_members db)"
    if "\<And>r. f (write_member ?m r) = f r" for f :: "pool_member \<Rightarrow> 'z"
    by (rule map_update_where) (rule that)
  have sets: "f ` set ?up = f ` set (t_members db)"
    if "\<And>r. f (write_member ?m r) = f r" for f :: "pool_member \<Rightarrow> 'z"
    using keep [of f, OF that] by (metis set_map)
  have "list_all (\<lambda>m. mem_model_override m \<noteq> Some []) ?up"
    using stored_okD(5) [OF ok] by (auto simp: list.pred_set set_update_where)
  moreover from True row have db': "db' = db\<lparr>t_members := ?up\<rparr>"
    by (simp add: import_member_row_def upsert_member_row_def)
  ultimately show ?thesis
    unfolding db' using stored_okD(1,3,4) [OF ok]
    by (intro stored_set_table(3) [OF ok]) (simp_all add: keep sets)
next
  case False
  with row have refs: "mem_pool_id (nonempty_override m) \<in> pool_id ` set (t_pools db)"
      "mem_provider_id (nonempty_override m) \<in> prov_id ` set (t_providers db)"
    and db': "db' = db\<lparr>t_members := t_members db @ [nonempty_override m]\<rparr>"
    by (simp_all add: import_member_row_def upsert_member_row_def split: if_splits)
  show ?thesis
    unfolding db' using stored_okD [OF ok] False refs nonempty_override_ok [of m]
    by (intro stored_set_table(3) [OF ok]) simp_all
qed

lemma merge_user_simps [simp]:
  "usr_id (merge_user u r) = usr_id r" "usr_key_hash (merge_user u r) = usr_key_hash r"
  "usr_key_prefix (merge_user u r) = usr_key_prefix r"
  "usr_revoked_at (merge_user u r) = opt_or (usr_revoked_at r) (usr_revoked_at u)"
  by (simp_all add: merge_user_def)

lemma stored_import_user:
  assumes ok: "stored_ok db" and row: "import_user_row u db = Inr ((), db')"
  shows "stored_ok db'"
proof (cases "usr_id u \<in> usr_id ` set (t_users db)")
  case True
  let ?up = "update_where (\<lambda>r. usr_id r = usr_id u) (merge_user u) (t_users db)"
  have keep: "map f ?up = map f (t_users db)"
    if "\<And>r. f (merge_user u r) = f r" for f :: "user_row \<Rightarrow> 'z"
    by (rule map_update_where) (rule that)
  have "users_ok ?up" using stored_okD(2) [OF ok] by (simp add: users_ok_def keep)
  with True row show ?thesis
    using stored_set_table(4) [OF ok] by (auto simp: import_user_row_def)
next
  case False
  with row have "usr_key_hash u \<notin> usr_key_hash ` set (t_users db)"
    and db': "db' = db\<lparr>t_users := t_users db @ [u]\<rparr>"
    by (simp_all add: import_user_row_def split: if_splits)
  with False stored_okD(2) [OF ok] have "users_ok (t_users db @ [u])" by (simp add: users_ok_def)
  then show ?thesis unfolding db' by (rule stored_set_table(4) [OF ok])
qed

lemma valid_import_stored: "valid stored_ok (import_config d) (\<lambda>_. stored_ok)"
  by (rule valid_import [OF fault_blind_stored])
    (erule stored_import_provider stored_import_pool stored_import_member stored_import_user,
      assumption)+

lemma import_atomic:
  "run_state (import_config d) db = (Inl e, db') \<Longrightarrow> db' = db\<lparr>db_faults := db_faults db'\<rparr>"
  unfolding import_config_def in_transaction_def by (rule transaction_error)

text \<open>An import neither replaces the key of a stored user nor takes a revocation back.\<close>

definition user_kept :: "user_row \<Rightarrow> database \<Rightarrow> bool" where
  "user_kept u db \<longleftrightarrow>
     (\<exists>r\<in>set (t_users db). usr_id r = usr_id u \<and> usr_key_hash r = usr_key_hash u
        \<and> (usr_revoked_at u \<noteq> None \<longrightarrow> usr_revoked_at r = usr_revoked_at u))"

lemma user_kept_cong: "t_users db' = t_users db \<Longrightarrow> user_kept u db' = user_kept u db"
  by (simp add: user_kept_def)

lemma import_rows_users:
  "import_provider_row p db = Inr ((), db') \<Longrightarrow> t_users db' = t_users db"
  "import_pool_row pl db = Inr ((), db') \<Longrightarrow> t_users db' = t_users db"
  "import_member_row m db = Inr ((), db') \<Longrightarrow> t_users db' = t_users db"
  by (auto simp: import_provider_row_def import_pool_row_def import_member_row_def
      upsert_member_row_def Let_def split: if_splits)

lemma user_kept_import:
  assumes "user_kept u db" and "import_user_row v db = Inr ((), db')"
  shows "user_kept u db'"
proof -
  from assms(1) obtain r where r: "r \<in> set (t_users db)" "usr_id r = usr_id u"
    "usr_key_hash r = usr_key_hash u" "usr_revoked_at u \<noteq> None \<longrightarrow> usr_revoked_at r = usr_revoked_at u"
    by (auto simp: user_kept_def)
  let ?r = "if usr_id r = usr_id v then merge_user v r else r"
  have "usr_revoked_at r = usr_revoked_at u \<Longrightarrow> usr_revoked_at u \<noteq> None \<Longrightarrow>
      opt_or (usr_revoked_at r) (usr_revoked_at v) = usr_revoked_at u" by auto
  with r have "usr_id ?r = usr_id u" "usr_key_hash ?r = usr_key_hash u"
    "usr_revoked_at u \<noteq> None \<longrightarrow> usr_revoked_at ?r = usr_revoked_at u" by auto
  moreover have "?r \<in> set (t_users db') \<or> r \<in> set (t_users db')"
    using assms(2) r(1) by (auto simp: import_user_row_def set_update_where split: if_splits)
  ultimately show ?thesis using r unfolding user_kept_def by blast
qed

lemma valid_import_users: "valid (user_kept u) (import_config d) (\<lambda>_. user_kept u)"
proof (rule valid_import)
  show "fault_blind (user_kept u)" by (simp add: fault_blind_def user_kept_def)
qed (use import_rows_users user_kept_cong user_kept_import in blast)+

section \<open>Export, then import into an empty database\<close>

lemma run_each_row_append:
  assumes f: "\<And>xs r ys. rs = xs @ r # ys \<Longrightarrow> f r (upd xs) = Inr ((), upd (xs @ [r]))"
    and nf: "\<And>xs. db_faults (upd xs) = []"
  shows "run_state (each_row f rs) (upd []) = (Inr (), upd rs)"
proof -
  have "rs = xs @ ys \<Longrightarrow> run_state (each_row f ys) (upd xs) = (Inr (), upd rs)" for xs ys
  proof (induction ys arbitrary: xs)
    case Nil
    then show ?case by simp
  next
    case (Cons y ys)
    from Cons.IH [of "xs @ [y]"] Cons.prems f [OF Cons.prems] nf [of xs] show ?case
      by (simp add: run_attempt run_query_stmt_ok)
  qed
  then show ?thesis by simp
qed

lemma nonempty_override_id: "mem_model_override m \<noteq> Some [] \<Longrightarrow> nonempty_override m = m"
  by (cases "mem_model_override m") (auto simp: nonempty_override_def)

lemma import_into_empty:
  assumes "distinct (map prov_id ps)" and "distinct (map prov_name ps)"
    and "distinct (map pool_id pls)" and "distinct (map member_identity ms)"
    and "\<And>m. m \<in> set ms \<Longrightarrow> mem_pool_id m \<in> pool_id ` set pls"
    and "\<And>m. m \<in> set ms \<Longrightarrow> mem_provider_id m \<in> prov_id ` set ps"
    and "\<And>m. m \<in> set ms \<Longrightarrow> mem_model_override m \<noteq> Some []"
    and "users_ok us"
  shows "run_state (import_config \<lparr>dump_providers = ps, dump_pools = pls, dump_members = ms, dump_users = us\<rparr>) empty_db
     = (Inr (), empty_db\<lparr>t_providers := ps, t_pools := pls, t_members := ms, t_users := us\<rparr>)"
proof -
  let ?d1 = "\<lambda>xs. empty_db\<lparr>t_providers := xs\<rparr>"
  let ?d2 = "\<lambda>xs. ?d1 ps\<lparr>t_pools := xs\<rparr>"
  let ?d3 = "\<lambda>xs. ?d2 pls\<lparr>t_members := xs\<rparr>"
  let ?d4 = "\<lambda>xs. ?d3 ms\<lparr>t_users := xs\<rparr>"
  have nf: "db_faults empty_db = []" and start: "?d1 [] = empty_db" "?d2 [] = ?d1 ps"
    "?d3 [] = ?d2 pls" "?d4 [] = ?d3 ms"
    by (simp_all add: empty_db_def)
  have 1: "run_state (each_row import_provider_row ps) (?d1 []) = (Inr (), ?d1 ps)"
    by (rule run_each_row_append)
      (use assms(1,2) in \<open>auto simp: import_provider_row_def Let_def nf\<close>)
  have 2: "run_state (each_row import_pool_row pls) (?d2 []) = (Inr (), ?d2 pls)"
    by (rule run_each_row_append) (use assms(3) in \<open>auto simp: import_pool_row_def nf\<close>)
  have 3: "run_state (each_row import_member_row ms) (?d3 []) = (Inr (), ?d3 ms)"
  proof (rule run_each_row_append)
    fix xs r ys assume ms: "ms = xs @ r # ys"
    then have "member_identity r \<notin> member_identity ` set xs" "nonempty_override r = r"
      "mem_pool_id r \<in> pool_id ` set pls" "mem_provider_id r \<in> prov_id ` set ps"
      using assms(4-7) by (auto intro: nonempty_override_id)
    then show "import_member_row r (?d3 xs) = Inr ((), ?d3 (xs @ [r]))"
      by (simp add: import_member_row_def upsert_member_row_def)
  qed (simp add: nf)
  have 4: "run_state (each_row import_user_row us) (?d4 []) = (Inr (), ?d4 us)"
    by (rule run_each_row_append)
      (use assms(8) in \<open>auto simp: import_user_row_def users_ok_def nf\<close>)
  show ?thesis
    using 1 2 3 4
    by (simp add: start import_config_def in_transaction_def transaction_def run_attempt nf)
qed

lemma filter_concat_members:
  assumes "distinct (map pool_id pls)"
  shows "filter (\<lambda>m. mem_pool_id m = i) (concat (map (\<lambda>p. members_of db (pool_id p)) pls)) =
     (if i \<in> pool_id ` set pls then members_of db i else [])"
  using assms
proof (induction pls)
  case (Cons p pls)
  have "filter (\<lambda>m. mem_pool_id m = i) (members_of db (pool_id p)) =
      (if pool_id p = i then members_of db i else [])"
    by (auto simp: members_of_def filter_empty_conv filter_id_conv)
  with Cons show ?case by auto
qed simp

lemma sort_key_idem [simp]: "sort_key f (sort_key f xs) = sort_key f xs"
  by (rule sort_key_id_if_sorted) simp

lemma members_of_dump:
  assumes "distinct (map pool_id pls)" and "i \<in> pool_id ` set pls"
  shows "members_of (db'\<lparr>t_members := concat (map (\<lambda>p. members_of db (pool_id p)) pls)\<rparr>) i = members_of db i"
  unfolding members_of_def [of "db'\<lparr>t_members := _\<rparr>"]
  by (simp add: filter_concat_members [OF assms(1)] assms(2)) (simp add: members_of_def)

lemma distinct_dump_members:
  assumes "distinct (map pool_id pls)" and "distinct (map member_identity (t_members db))"
  shows "distinct (map member_identity (concat (map (\<lambda>p. members_of db (pool_id p)) pls)))"
  using assms(1)
proof (induction pls)
  case (Cons p pls)
  have mine: "mem_pool_id m = pool_id p" if "m \<in> set (members_of db (pool_id p))" for m p
    using that by (simp add: members_of_def)
  have "distinct (map member_identity (members_of db (pool_id p)))"
  proof -
    have "mset (map member_identity (members_of db (pool_id p)))
        = mset (map member_identity (filter (\<lambda>m. mem_pool_id m = pool_id p) (t_members db)))"
      by (simp add: members_of_def)
    then show ?thesis
      using distinct_map_filter_rows [OF assms(2)] mset_eq_imp_distinct_iff by blast
  qed
  moreover have "member_identity m \<noteq> member_identity n"
    if "m \<in> set (members_of db (pool_id p))" "q \<in> set pls" "n \<in> set (members_of db (pool_id q))" for m n q
    using mine [OF that(1)] mine [OF that(3)] that(2) Cons.prems
    by (auto simp: member_identity_def)
  ultimately show ?case using Cons by (force simp: disjoint_iff)
qed simp

lemma import_export_roundtrip:
  assumes ok: "stored_ok db"
  shows "\<exists>db'. run_state (import_config (dump_of db)) empty_db = (Inr (), db')
     \<and> snapshot_of db' = snapshot_of db \<and> dump_of db' = dump_of db"
proof -
  let ?pls = "sort_key pool_id (t_pools db)"
  let ?ms = "concat (map (\<lambda>p. members_of db (pool_id p)) ?pls)"
  let ?ps = "sort_key prov_name (t_providers db)"
  let ?us = "sort_key usr_id (t_users db)"
  let ?db' = "empty_db\<lparr>t_providers := ?ps, t_pools := ?pls, t_members := ?ms, t_users := ?us\<rparr>"
  have dist: "distinct (map f (sort_key g xs)) \<longleftrightarrow> distinct (map f xs)"
    for f :: "'r \<Rightarrow> string" and g :: "'r \<Rightarrow> string" and xs
    by (metis mset_eq_imp_distinct_iff mset_map mset_sort)
  have pls: "distinct (map pool_id ?pls)"
    using ok by (simp add: dist stored_ok_def db_ok_def)
  have mem: "m \<in> set (t_members db)" "mem_pool_id m \<in> pool_id ` set ?pls" if "m \<in> set ?ms" for m
    using that by (auto simp: members_of_def)
  have run: "run_state (import_config (dump_of db)) empty_db = (Inr (), ?db')"
    unfolding dump_of_def
  proof (rule import_into_empty)
    show "distinct (map member_identity ?ms)"
      using ok by (intro distinct_dump_members pls) (simp add: stored_ok_def db_ok_def)
    show "m \<in> set ?ms \<Longrightarrow> mem_provider_id m \<in> prov_id ` set ?ps" for m
      using mem(1) stored_okD(4) [OF ok] by fastforce
    show "m \<in> set ?ms \<Longrightarrow> mem_model_override m \<noteq> Some []" for m
      using mem(1) stored_okD(5) [OF ok] by (auto simp: list.pred_set)
  qed (use ok mem(2) in \<open>simp_all add: dist stored_ok_def db_ok_def providers_ok_def users_ok_def\<close>)
  have "members_of ?db' (pool_id p) = members_of db (pool_id p)" if "p \<in> set (t_pools db)" for p
  proof -
    have "members_of (empty_db\<lparr>t_providers := ?ps, t_pools := ?pls, t_users := ?us, t_members := ?ms\<rparr>) (pool_id p)
        = members_of db (pool_id p)"
      using that by (intro members_of_dump pls) simp
    then show ?thesis by (simp add: members_of_def)
  qed
  then have eq: "map (\<lambda>p. g p (members_of ?db' (pool_id p))) ?pls =
      map (\<lambda>p. g p (members_of db (pool_id p))) ?pls" for g :: "pool \<Rightarrow> pool_member list \<Rightarrow> 'z"
    by (intro map_cong) auto
  have "snapshot_of ?db' = snapshot_of db"
    using eq [of "\<lambda>p ms. \<lparr>pwm_pool = p, pwm_members = ms\<rparr>"] by (simp add: snapshot_of_def)
  moreover have "dump_of ?db' = dump_of db"
    using eq [of "\<lambda>_ ms. ms"] by (simp add: dump_of_def del: map_eq_conv)
  ultimately show ?thesis using run by blast
qed

section \<open>The snapshot of a database that meets its schema\<close>

text \<open>Every pool member the snapshot lists resolves to a provider of the same snapshot.\<close>

lemma snapshot_members_resolve:
  assumes ok: "db_ok db" and "pwm \<in> set (snap_pools (snapshot_of db))" and "m \<in> set (pwm_members pwm)"
  shows "\<exists>r. resolve_member (snapshot_of db) m = Some r \<and> prov_id (rm_provider r) = mem_provider_id m"
proof -
  from assms(2,3) have "m \<in> set (t_members db)" by (auto simp: snapshot_of_def members_of_def)
  then have "mem_provider_id m \<in> prov_id ` set (t_providers db)"
    using ok by (simp add: db_ok_def refs_ok_def image_subset_iff)
  then have "find_provider (snapshot_of db) (mem_provider_id m) \<noteq> None"
    by (auto simp: find_provider_def snapshot_of_def find_None_iff)
  then show ?thesis
    by (auto simp: resolve_member_def dest: find_provider_SomeD)
qed

lemma map_filter_all_Some:
  "(\<And>x. x \<in> set xs \<Longrightarrow> f x \<noteq> None) \<Longrightarrow> length (List.map_filter f xs) = length xs"
  by (induction xs) (auto simp: List.map_filter_simps split: option.split)

lemma select_drops_no_member:
  assumes ok: "db_ok db" and sel: "select (snapshot_of db) i w r = (Some sel, r')"
    and pl: "sel_pool sel = Some pl"
  shows "length (sel_providers sel) = length (members_of db i)"
proof -
  from sel pl obtain pwm ms where pwm: "find_pool (snapshot_of db) i = Some pwm"
    and ms: "ms = fst (order_members (pwm_pool pwm) (pwm_members pwm) r)"
    and s: "sel_providers sel = List.map_filter (resolve_member (snapshot_of db)) ms"
    by (auto simp: select_def split: option.splits if_splits prod.splits dest: select_direct_SomeD)
  have mem: "pwm \<in> set (snap_pools (snapshot_of db))" "pool_id (pwm_pool pwm) = i"
    using find_pool_SomeD [OF pwm] by auto
  have "mset ms = mset (pwm_members pwm)" by (simp add: ms mset_order_members)
  then have "set ms = set (pwm_members pwm)" and len: "length ms = length (pwm_members pwm)"
    by (metis set_mset_mset, metis size_mset)
  then have "resolve_member (snapshot_of db) m \<noteq> None" if "m \<in> set ms" for m
    using snapshot_members_resolve [OF ok mem(1), of m] that by auto
  then have "length (sel_providers sel) = length ms" unfolding s by (rule map_filter_all_Some)
  moreover have "pwm_members pwm = members_of db i"
    using mem by (auto simp: snapshot_of_def)
  ultimately show ?thesis using len by simp
qed

section \<open>Direct pools make every provider routable\<close>

lemma direct_simps [simp]:
  "pool_id (direct_pool p) = prov_id p"
  "pool_wire_format (direct_pool p) = pool_wire_of (prov_wire_format p)"
  "pool_modality (direct_pool p) = Chat"
  "mem_provider_id (direct_member p) = prov_id p" "mem_pool_id (direct_member p) = prov_id p"
  "mem_model_override (direct_member p) = None"
  "mem_reasoning_effort_override (direct_member p) = None"
  "member_identity (direct_member p) = (prov_id p, prov_id p, [])"
  by (simp_all add: direct_pool_def direct_member_def member_identity_def)

lemma has_member_add_pools [simp]: "has_member (add_direct_pools db) p = has_member db p"
  by (simp add: has_member_def add_direct_pools_def)

lemma distinct_ids: "db_ok db \<Longrightarrow> distinct (map prov_id (filter P (t_providers db)))"
  by (rule distinct_map_filter_rows) (simp add: db_ok_def providers_ok_def)

lemma stored_add_direct_pools:
  assumes ok: "stored_ok db"
  shows "stored_ok (add_direct_pools db)"
  unfolding add_direct_pools_def
proof (rule stored_set_table(2) [OF ok])
  let ?new = "filter (\<lambda>p. \<not> has_member db p \<and> prov_id p \<notin> pool_id ` set (t_pools db)) (t_providers db)"
  have "distinct (map pool_id (t_pools db))" "distinct (map prov_id ?new)"
    using ok distinct_ids by (simp_all add: stored_ok_def db_ok_def)
  moreover have "map pool_id (map direct_pool ?new) = map prov_id ?new"
    by (simp add: comp_def)
  moreover have "set (map pool_id (t_pools db)) \<inter> set (map prov_id ?new) = {}"
    by (fastforce simp: image_iff)
  ultimately show "distinct (map pool_id (t_pools db @ map direct_pool ?new))"
    by (simp only: map_append distinct_append simp_thms)
qed auto

lemma stored_add_direct_members:
  assumes ok: "stored_ok db"
  shows "stored_ok (add_direct_members db)"
  unfolding add_direct_members_def
proof (rule stored_set_table(3) [OF ok])
  let ?new = "filter (\<lambda>p. list_ex (\<lambda>pl. pool_id pl = prov_id p
                 \<and> pool_wire_text (pool_wire_format pl) = wire_format_text (prov_wire_format p))
               (t_pools db) \<and> \<not> has_member db p) (t_providers db)"
  have "distinct (map member_identity (t_members db))"
    using ok by (simp add: stored_ok_def db_ok_def)
  moreover have "distinct (map member_identity (map direct_member ?new))"
  proof -
    have "map member_identity (map direct_member ?new) = map (\<lambda>i. (i, i, [])) (map prov_id ?new)"
      by (simp add: comp_def)
    moreover have "distinct (map prov_id ?new)"
      by (rule distinct_ids) (use ok in \<open>simp add: stored_ok_def\<close>)
    moreover have "inj_on (\<lambda>i. (i, i, [])) (set (map prov_id ?new))" by (simp add: inj_on_def)
    ultimately show ?thesis by (simp only: distinct_map simp_thms)
  qed
  moreover have "member_identity m \<noteq> member_identity (direct_member p)"
    if "m \<in> set (t_members db)" "p \<in> set ?new" for m p
    using that by (auto simp: has_member_def list_ex_iff member_identity_def)
  then have "set (map member_identity (t_members db)) \<inter> set (map member_identity (map direct_member ?new)) = {}"
    unfolding set_map by blast
  ultimately show "distinct (map member_identity (t_members db @ map direct_member ?new))"
    by (simp only: map_append distinct_append simp_thms)
  show "mem_pool_id ` set (t_members db @ map direct_member ?new) \<subseteq> pool_id ` set (t_pools db)"
    using stored_okD(3) [OF ok] by (auto simp: list_ex_iff image_iff) metis
  show "mem_provider_id ` set (t_members db @ map direct_member ?new) \<subseteq> prov_id ` set (t_providers db)"
    using stored_okD(4) [OF ok] by auto
  show "list_all (\<lambda>m. mem_model_override m \<noteq> Some []) (t_members db @ map direct_member ?new)"
    using stored_okD(5) [OF ok] by (auto simp: list.pred_set)
qed

lemma valid_ensure_direct:
  "valid stored_ok ensure_direct_pools_for_unassigned_providers (\<lambda>_. stored_ok)"
  unfolding ensure_direct_pools_for_unassigned_providers_def
  by (intro valid_in_transaction [OF fault_blind_stored] valid_inv_attempt
      valid_execute [OF fault_blind_stored] stored_add_direct_pools stored_add_direct_members)

lemma run_ensure_direct:
  "db_faults db = [] \<Longrightarrow>
     run_state ensure_direct_pools_for_unassigned_providers db
       = (Inr (), add_direct_members (add_direct_pools db))"
  by (simp add: ensure_direct_pools_for_unassigned_providers_def in_transaction_def transaction_def
      run_attempt add_direct_pools_def add_direct_members_def)

text \<open>
  A provider nobody routes to, whose id names no pool, gets a pool of its own
  name that answers with exactly this provider.
\<close>

lemma filter_eq_single: "distinct xs \<Longrightarrow> x \<in> set xs \<Longrightarrow> filter (\<lambda>y. y = x) xs = [x]"
  by (induction xs) (auto simp: filter_empty_conv)

lemma direct_pool_members:
  assumes ok: "stored_ok db" and p: "p \<in> set (t_providers db)"
    and none: "\<not> has_member db p" and free: "prov_id p \<notin> pool_id ` set (t_pools db)"
  shows "members_of (add_direct_members (add_direct_pools db)) (prov_id p) = [direct_member p]"
proof -
  let ?db = "add_direct_pools db"
  let ?Q = "\<lambda>q. list_ex (\<lambda>pl. pool_id pl = prov_id q
      \<and> pool_wire_text (pool_wire_format pl) = wire_format_text (prov_wire_format q)) (t_pools ?db)
    \<and> \<not> has_member ?db q"
  have "direct_pool p \<in> set (t_pools ?db)"
    using p none free by (simp add: add_direct_pools_def)
  then have "?Q p"
    using none unfolding list_ex_iff by (auto intro!: bexI [of _ "direct_pool p"] simp: wire_text_agree)
  moreover have "prov_id q = prov_id p \<longleftrightarrow> q = p" if "q \<in> set (t_providers db)" for q
    using distinct_ids [of db "\<lambda>_. True"] ok that p by (auto simp: stored_ok_def distinct_map inj_on_def)
  ultimately have new: "filter (\<lambda>q. ?Q q \<and> prov_id q = prov_id p) (t_providers db)
      = filter (\<lambda>q. q = p) (t_providers db)"
    by (intro filter_cong) auto
  have one: "filter (\<lambda>q. q = p) (t_providers db) = [p]"
  proof -
    have "distinct (t_providers db)" using ok by (auto simp: stored_ok_def db_ok_def providers_ok_def distinct_map)
    with p show ?thesis by (rule filter_eq_single [rotated])
  qed
  have old: "filter (\<lambda>m. mem_pool_id m = prov_id p) (t_members db) = []"
    using free stored_okD(3) [OF ok] unfolding filter_empty_conv by (metis imageI subsetD)
  have "filter (\<lambda>m. mem_pool_id m = prov_id p) (t_members (add_direct_members ?db))
      = map direct_member (filter (\<lambda>q. ?Q q \<and> prov_id q = prov_id p) (t_providers db))"
    using old by (simp add: add_direct_members_def add_direct_pools_def filter_map comp_def conj_commute)
  then have "filter (\<lambda>m. mem_pool_id m = prov_id p) (t_members (add_direct_members ?db)) = [direct_member p]"
    by (simp only: new one list.map)
  then show ?thesis by (simp add: members_of_def)
qed

lemma select_direct_pool:
  assumes ok: "stored_ok db" and p: "p \<in> set (t_providers db)"
    and none: "\<not> has_member db p" and free: "prov_id p \<notin> pool_id ` set (t_pools db)"
  defines "db' \<equiv> add_direct_members (add_direct_pools db)"
  shows "\<exists>sel. select (snapshot_of db') (prov_id p) w r = (Some sel, r)
     \<and> map rm_provider (sel_providers sel) = [p]
     \<and> map rm_effective_model (sel_providers sel) = [prov_upstream_model p]"
proof -
  have ok': "stored_ok db'"
    unfolding db'_def by (intro stored_add_direct_members stored_add_direct_pools ok)
  have mem: "direct_pool p \<in> set (t_pools db')" and ps: "t_providers db' = t_providers db"
    using p none free by (auto simp: db'_def add_direct_members_def add_direct_pools_def)
  let ?pwm = "\<lambda>q. \<lparr>pwm_pool = q, pwm_members = members_of db' (pool_id q)\<rparr>"
  have "distinct (map pool_id (t_pools db'))" using ok' by (simp add: stored_ok_def db_ok_def)
  then have uniq: "q = direct_pool p" if "q \<in> set (t_pools db')" "pool_id q = prov_id p" for q
    using that mem by (metis direct_simps(1) distinct_map inj_onD)
  have "find_pool (snapshot_of db') (prov_id p) \<noteq> None"
    using bexI [OF _ mem, of "\<lambda>x. pool_id x = prov_id p"]
    by (simp add: find_pool_def snapshot_of_def find_None_iff)
  then obtain pwm where pwm: "find_pool (snapshot_of db') (prov_id p) = Some pwm" by auto
  with find_pool_SomeD [OF pwm] obtain q where "q \<in> set (t_pools db')" "pwm = ?pwm q" "pool_id q = prov_id p"
    by (auto simp: snapshot_of_def)
  with uniq pwm have pool: "find_pool (snapshot_of db') (prov_id p) = Some (?pwm (direct_pool p))"
    by auto
  have "find_provider (snapshot_of db') (prov_id p) = Some p"
  proof -
    have d: "distinct (map prov_id (sort_key prov_name (t_providers db)))"
      using ok by (metis mset_eq_imp_distinct_iff mset_map mset_sort stored_ok_def db_ok_def providers_ok_def)
    show ?thesis
      using find_unique_key [OF d, of p] p by (simp add: find_provider_def snapshot_of_def ps)
  qed
  then have "resolve_member (snapshot_of db') (direct_member p) = Some
      \<lparr>rm_provider = p, rm_effective_model = prov_upstream_model p,
       rm_dataset_logging_override = None, rm_reasoning_effort_override = None\<rparr>"
    by (simp add: resolve_member_def direct_member_def)
  with pool direct_pool_members [OF ok p none free] show ?thesis
    by (simp add: select_def db'_def order_members_def direct_pool_def List.map_filter_simps)
qed

section \<open>Routes publish what they stored\<close>

lemma run_on_db: "run_state (on_db q) g = (fst (run_state q (gw_db g)), g\<lparr>gw_db := snd (run_state q (gw_db g))\<rparr>)"
  by (simp add: on_db_def split: prod.split)

definition published :: "gateway \<Rightarrow> bool" where
  "published g \<longleftrightarrow> gw_snapshot g = snapshot_of (gw_db g)"

lemma snapshot_of_blind: "snapshot_of (db\<lparr>db_faults := fs\<rparr>) = snapshot_of db"
  using readsD(1) [OF reads_load_snapshot] .

lemma reload_publishes: "run_state reload_snapshot g = (Inr u, g') \<Longrightarrow> published g'"
proof -
  assume run: "run_state reload_snapshot g = (Inr u, g')"
  obtain r db' where q: "run_state load_snapshot (gw_db g) = (r, db')"
    by (cases "run_state load_snapshot (gw_db g)")
  with readsD(2) [OF reads_load_snapshot, of "gw_db g"] obtain fs where db': "db' = (gw_db g)\<lparr>db_faults := fs\<rparr>"
    by auto
  from run q obtain s where r: "r = Inr s" and g': "g' = g\<lparr>gw_db := db', gw_snapshot := s\<rparr>"
    by (cases r) (auto simp: reload_snapshot_def run_attempt run_on_db)
  have "s = snapshot_of (gw_db g)" using readsD(3) [OF reads_load_snapshot] q r by blast
  with g' db' show ?thesis by (simp add: published_def snapshot_of_blind)
qed

definition publishes :: "'a route \<Rightarrow> bool" where
  "publishes m \<longleftrightarrow> (\<forall>g a g'. run_state m g = (Inr a, g') \<longrightarrow> published g')"

definition keeps_published :: "'a route \<Rightarrow> bool" where
  "keeps_published m \<longleftrightarrow> (\<forall>g a g'. published g \<longrightarrow> run_state m g = (Inr a, g') \<longrightarrow> published g')"

lemma publishes_reload: "publishes reload_snapshot"
  using reload_publishes by (auto simp: publishes_def)

lemma publishes_attempt: "(\<And>a. publishes (f a)) \<Longrightarrow> publishes (attempt m f)"
  by (auto simp: publishes_def run_attempt_Inr_iff)

lemma publishes_then: "publishes m \<Longrightarrow> (\<And>a. keeps_published (f a)) \<Longrightarrow> publishes (attempt m f)"
  unfolding publishes_def keeps_published_def run_attempt_Inr_iff by blast

lemma keeps_published_basic:
  "keeps_published (ok_ret a)" "keeps_published (drop_cursor i)"
  by (auto simp: keeps_published_def drop_cursor_def published_def)

lemma keeps_published_get_pool: "keeps_published (on_db (get_pool i))"
proof -
  let ?q = "fetch (\<lambda>db. row_with pool_id i (t_pools db))"
  have same: "snd (run_state (get_pool i) db) = snd (run_state ?q db)" for db
    by (cases "run_state ?q db") (simp add: get_pool_def run_attempt split: sum.split option.split)
  have "reads ?q (\<lambda>db. row_with pool_id i (t_pools db))"
    by (rule reads_fetch) simp
  from readsD(2) [OF this] have "\<exists>fs. snd (run_state (get_pool i) db) = db\<lparr>db_faults := fs\<rparr>" for db
    unfolding same .
  then have "snapshot_of (snd (run_state (get_pool i) db)) = snapshot_of db" for db
    using snapshot_of_blind by metis
  then show ?thesis
    by (auto simp: keeps_published_def published_def run_on_db)
qed

lemma keeps_published_tail:
  "keeps_published (attempt (drop_cursor i) (\<lambda>_. on_db (get_pool i)))"
  using keeps_published_basic(2) [of i] keeps_published_get_pool [of i]
  unfolding keeps_published_def run_attempt_Inr_iff by blast

lemma routes_publish:
  "publishes (pool_create p)" "publishes (pool_update i st sl)" "publishes (pool_delete i)"
  "publishes (put_member dbg m)" "publishes (remove_member pid prid model)" "publishes (import_route d)"
proof -
  note then_reload = publishes_then [OF publishes_reload]
  show "publishes (pool_create p)"
    unfolding pool_create_def
    by (rule publishes_attempt, rule publishes_attempt, rule then_reload, rule keeps_published_basic)
  show "publishes (put_member dbg m)"
    unfolding put_member_def
    by (rule publishes_attempt, rule publishes_attempt, rule publishes_attempt, rule then_reload,
        rule keeps_published_basic)
  show "publishes (pool_delete i)"
    unfolding pool_delete_def by (rule publishes_attempt, rule then_reload, rule keeps_published_basic)
  show "publishes (pool_update i st sl)"
    unfolding pool_update_def
    by (rule publishes_attempt, rule publishes_attempt, rule then_reload, rule keeps_published_tail)
  show "publishes (remove_member pid prid model)" "publishes (import_route d)"
    unfolding remove_member_def import_route_def by (rule publishes_attempt, rule publishes_reload)+
qed

text \<open>A pool whose strategy changed, or that is gone, starts from a fresh cursor.\<close>

lemma cursor_dropped:
  "run_state (pool_update i st sl) g = (Inr a, g') \<Longrightarrow> dm_get (gw_rotation g') i = None"
  "run_state (pool_delete i) g = (Inr u, g') \<Longrightarrow> dm_get (gw_rotation g') i = None"
  by (auto simp: pool_update_def pool_delete_def drop_cursor_def run_attempt_Inr_iff run_on_db
      dm_get_def dm_del_def delete_conv')

section \<open>Every database the admin operations build\<close>

text \<open>
  The writes of the admin API on the configuration tables, in any order, each under
  any script of faults.  Import and the start-up fix-up write without the checks
  and are treated separately above.
\<close>

datatype config_op =
    AddProvider provider
  | EditProvider timestamp string provider_patch
  | RemoveProvider string
  | SaveTokens timestamp string token_values
  | SavePkce timestamp string string string
  | DropPkce timestamp string
  | DropTokens string
  | AddPool pool
  | SetStrategy string pool_strategy "int option"
  | RemovePool string
  | PutMember pool_member
  | RemoveMember string string "string option"

fun config_db :: "(string option \<Rightarrow> string) \<Rightarrow> config_op \<Rightarrow> database \<Rightarrow> database" where
  "config_db dbg (AddProvider p) db = snd (run_state (insert_provider p) db)"
| "config_db dbg (EditProvider now i patch) db = snd (run_state (update_provider now i patch) db)"
| "config_db dbg (RemoveProvider i) db = snd (run_state (delete_provider i) db)"
| "config_db dbg (SaveTokens now i t) db = snd (run_state (upsert_oauth_tokens now i t) db)"
| "config_db dbg (SavePkce now i v st) db = snd (run_state (store_pkce now i v st) db)"
| "config_db dbg (DropPkce now i) db = snd (run_state (clear_pkce now i) db)"
| "config_db dbg (DropTokens i) db = snd (run_state (clear_oauth_tokens i) db)"
| "config_db dbg (AddPool p) db = snd (run_state (insert_pool p) db)"
| "config_db dbg (SetStrategy i st sl) db = snd (run_state (update_pool_strategy i st sl) db)"
| "config_db dbg (RemovePool i) db = snd (run_state (delete_pool i) db)"
| "config_db dbg (PutMember m) db = snd (run_state (upsert_member dbg m) db)"
| "config_db dbg (RemoveMember pid prid model) db = snd (run_state (delete_member pid prid model) db)"

inductive config_reachable :: "(string option \<Rightarrow> string) \<Rightarrow> database \<Rightarrow> bool" for dbg where
  start: "config_reachable dbg empty_db"
| step: "config_reachable dbg db \<Longrightarrow> config_reachable dbg (config_db dbg x (db\<lparr>db_faults := fs\<rparr>))"

lemma valid_snd: "valid P m (\<lambda>_. Q) \<Longrightarrow> P s \<Longrightarrow> Q (snd (run_state m s))"
  by (simp add: valid_def)

text \<open>An import never gives a revoked user access again, and never replaces a stored key.\<close>

lemma import_keeps_revocation:
  assumes "u \<in> set (t_users db)"
  shows "\<exists>r\<in>set (t_users (snd (run_state (import_config d) db))).
     usr_id r = usr_id u \<and> usr_key_hash r = usr_key_hash u
     \<and> (usr_revoked_at u \<noteq> None \<longrightarrow> usr_revoked_at r = usr_revoked_at u)"
proof -
  have "user_kept u db" using assms by (auto simp: user_kept_def)
  with valid_import_users have "user_kept u (snd (run_state (import_config d) db))"
    by (rule valid_snd [where P = "user_kept u"])
  then show ?thesis by (simp add: user_kept_def)
qed

lemma config_ok_empty: "config_ok empty_db"
  by (simp add: config_ok_def db_ok_def providers_ok_def refs_ok_def users_ok_def efforts_ok_def
      overrides_ok_def images_ok_def empty_db_def)

lemma config_db_ok: "config_ok db \<Longrightarrow> config_ok (config_db dbg x db)"
  by (cases x) (simp_all add: valid_snd [where P = config_ok] valid_insert_provider valid_update_provider
      valid_delete_provider valid_oauth_ops valid_pool_ops valid_upsert_member)

lemma config_reachable_ok: "config_reachable dbg db \<Longrightarrow> config_ok db"
  by (induction rule: config_reachable.induct)
    (auto simp: config_ok_empty fault_blindD [OF fault_blind_config] intro!: config_db_ok)

section \<open>Accepted provider ids\<close>

lemma id_char_sing: "id_char d \<Longrightarrow> \<exists>c. d = [c] \<and> (is_ascii_alphanumeric c \<or> c \<in> {CHR ''.'', CHR ''_'', CHR ''-''})"
  by (auto simp: id_char_def alnum_char_def split: list.splits)

lemma valid_id_chars:
  assumes "valid_id i" and "c \<in> set i"
  shows "is_ascii_alphanumeric c \<or> c \<in> {CHR ''.'', CHR ''_'', CHR ''-''}"
proof -
  have "set i = \<Union> (set ` set (chars i))" by (metis concat_chars set_concat)
  with assms(2) obtain d where d: "d \<in> set (chars i)" "c \<in> set d" by auto
  with assms(1) have "id_char d" by (simp add: valid_id_def list.pred_set)
  with id_char_sing [OF this] d(2) show ?thesis by auto
qed

lemma valid_id_separators:
  assumes "valid_id i"
  shows "unit_separator \<notin> set i" and "CHR ''/'' \<notin> set i"
proof -
  have "\<not> is_ascii_alphanumeric unit_separator"
    by (simp add: is_ascii_alphanumeric_def is_ascii_digit_def unit_separator_def byte_of_def)
  moreover have "unit_separator \<notin> {CHR ''.'', CHR ''_'', CHR ''-''}" by code_simp
  moreover note valid_id_chars [OF assms]
  ultimately show "unit_separator \<notin> set i" by blast
  have "\<not> is_ascii_alphanumeric (CHR ''/'')"
    by (simp add: is_ascii_alphanumeric_def is_ascii_digit_def byte_of_def)
  with valid_id_chars [OF assms] show "CHR ''/'' \<notin> set i" by fastforce
qed

lemma normalize_new_id: "normalize_new p = Inr q \<Longrightarrow> valid_id (prov_id q)"
  by (auto simp: normalize_new_def Let_def res_bind_Inr_iff validate_id_def split: if_splits)

lemma unassigned_provider_routable:
  assumes "stored_ok db" and "p \<in> set (t_providers db)" and "\<not> has_member db p"
    and "prov_id p \<notin> pool_id ` set (t_pools db)" and "db_faults db = []"
  defines "db' \<equiv> snd (run_state ensure_direct_pools_for_unassigned_providers db)"
  shows "\<exists>sel. select (snapshot_of db') (prov_id p) w r = (Some sel, r)
     \<and> map rm_provider (sel_providers sel) = [p]
     \<and> map rm_effective_model (sel_providers sel) = [prov_upstream_model p]"
  unfolding db'_def using select_direct_pool [OF assms(1-4), of w r]
  by (simp add: run_ensure_direct [OF assms(5)])

lemma failed_import_changes_nothing:
  assumes "run_state (import_config d) db = (Inl e, db')"
  shows "db' = db\<lparr>db_faults := db_faults db'\<rparr>"
  using assms by (rule import_atomic)

lemma admin_routes_publish:
  assumes "run_state (pool_create p) g = (Inr a, g') \<or> run_state (put_member dbg m) g = (Inr b, g')
     \<or> run_state (remove_member pid prid model) g = (Inr u, g') \<or> run_state (import_route d) g = (Inr u, g')
     \<or> run_state (pool_update i st sl) g = (Inr a, g') \<or> run_state (pool_delete i) g = (Inr u, g')"
  shows "gw_snapshot g' = snapshot_of (gw_db g')
     \<and> (run_state (pool_update i st sl) g = (Inr a, g') \<or> run_state (pool_delete i) g = (Inr u, g')
         \<longrightarrow> dm_get (gw_rotation g') i = None)"
proof -
  have publ: "publishes q \<Longrightarrow> run_state q g = (Inr x, g') \<Longrightarrow> published g'" for q :: "'x route" and x
    by (auto simp: publishes_def)
  have "published g'"
    using assms by (elim disjE) (rule publ [OF routes_publish(1)] publ [OF routes_publish(2)] publ [OF routes_publish(3)]
        publ [OF routes_publish(4)] publ [OF routes_publish(5)] publ [OF routes_publish(6)], assumption)+
  then show ?thesis using cursor_dropped [of i] by (auto simp: published_def)
qed

end
