(* ===== verification/Users.thy ===== *)
theory Users
  imports ConfigStore
begin

text \<open>
  \<open>src/users/mod.rs\<close> and \<open>src/users/queries.rs\<close>: the named bearer credentials of
  \<open>/v1\<close> callers.  SHA-256 in hexadecimal (crate \<open>sha2\<close>) is the parameter \<open>sha\<close>, the
  random bytes of a new key are the argument \<open>rnd\<close>.  The theory shows that a key works
  exactly as long as it is the current key of a user who has not been revoked.
\<close>

section \<open>Callers\<close>

definition ADMIN_USER_ID :: string where
  "ADMIN_USER_ID = ''admin''"

record caller =
  caller_user_id :: "string option"

definition admin_caller :: caller where
  "admin_caller = \<lparr>caller_user_id = Some ADMIN_USER_ID\<rparr>"

definition cf_caller :: "string \<Rightarrow> caller" where
  "cf_caller i = \<lparr>caller_user_id = Some i\<rparr>"

definition anonymous_caller :: caller where
  "anonymous_caller = \<lparr>caller_user_id = None\<rparr>"

definition is_admin :: "caller \<Rightarrow> bool" where
  "is_admin c \<longleftrightarrow> caller_user_id c = Some ADMIN_USER_ID"

definition presented_key :: "headers \<Rightarrow> string option" where
  "presented_key h =
     opt_filter (\<lambda>k. k \<noteq> []) (map_option trim
       (opt_or (Option.bind (hdr_text h ''authorization'') (strip_prefix ''Bearer ''))
          (hdr_text h ''x-api-key'')))"

section \<open>Keys and names\<close>

definition KEY_PREFIX :: string where
  "KEY_PREFIX = ''1r_''"

definition DISPLAY_PREFIX_LEN :: nat where
  "DISPLAY_PREFIX_LEN = 10"

definition MAX_NAME_LEN :: nat where
  "MAX_NAME_LEN = 64"

definition LAST_USED_RESOLUTION :: int where
  "LAST_USED_RESOLUTION = 60 * int nanos_per_sec"

text \<open>\<open>{b:02x}\<close>.\<close>

definition hex_digit :: "nat \<Rightarrow> char" where
  "hex_digit n = ''0123456789abcdef'' ! n"

definition hex_byte :: "u8 \<Rightarrow> string" where
  "hex_byte b = [hex_digit (unat b div 16), hex_digit (unat b mod 16)]"

definition generate_raw_key :: "u8 list \<Rightarrow> string" where
  "generate_raw_key rnd = KEY_PREFIX @ concat (map hex_byte rnd)"

definition display_prefix :: "string \<Rightarrow> string" where
  "display_prefix raw = take_chars DISPLAY_PREFIX_LEN raw"

definition validate_user_id :: "string \<Rightarrow> app_error + unit" where
  "validate_user_id i =
     res_bind (validate_path_id i) (\<lambda>_.
       if i \<noteq> trim i then Inl (BadRequest ''id must not have leading/trailing whitespace'')
       else if eq_ignore_ascii_case i ADMIN_USER_ID \<or> eq_ignore_ascii_case i ''anonymous''
       then Inl (BadRequest (''id '' @ quoted i @ '' is reserved''))
       else Inr ())"

definition validate_name :: "string \<Rightarrow> app_error + string" where
  "validate_name name =
     (if MAX_NAME_LEN < length (chars (trim name))
      then Inl (BadRequest (''name must be at most '' @ show_nat MAX_NAME_LEN @ '' characters''))
      else Inr (trim name))"

section \<open>Queries\<close>

text \<open>\<open>User\<close>: a row without its key hash.\<close>

record user =
  user_id :: string
  user_name :: string
  user_key_prefix :: string
  user_created_at :: timestamp
  user_last_used_at :: "timestamp option"
  user_revoked_at :: "timestamp option"

definition user_of_row :: "user_row \<Rightarrow> user" where
  "user_of_row r = \<lparr>user_id = usr_id r, user_name = usr_name r, user_key_prefix = usr_key_prefix r,
     user_created_at = usr_created_at r, user_last_used_at = usr_last_used_at r,
     user_revoked_at = usr_revoked_at r\<rparr>"

definition get_user :: "string \<Rightarrow> user query" where
  "get_user i =
     attempt (fetch (\<lambda>db. row_with usr_id i (t_users db)))
       (\<lambda>r. case r of Some u \<Rightarrow> ok_ret (user_of_row u) | None \<Rightarrow> fail_ret NotFound)"

definition insert_user_row :: "user_row \<Rightarrow> database \<Rightarrow> sql_error + unit \<times> database" where
  "insert_user_row u db =
     (if usr_id u \<in> usr_id ` set (t_users db) \<or> usr_key_hash u \<in> usr_key_hash ` set (t_users db)
      then Inl UniqueViolation
      else Inr ((), db\<lparr>t_users := t_users db @ [u]\<rparr>))"

definition new_user_row ::
  "(string \<Rightarrow> string) \<Rightarrow> string \<Rightarrow> timestamp \<Rightarrow> string \<Rightarrow> string \<Rightarrow> user_row" where
  "new_user_row sha raw now i name =
     \<lparr>usr_id = i, usr_name = (if name = [] then i else name), usr_key_prefix = display_prefix raw,
      usr_key_hash = sha raw, usr_created_at = now, usr_last_used_at = None, usr_revoked_at = None\<rparr>"

definition create_user ::
  "(string \<Rightarrow> string) \<Rightarrow> u8 list \<Rightarrow> timestamp \<Rightarrow> string \<Rightarrow> string option \<Rightarrow> (user \<times> string) query" where
  "create_user sha rnd now i name =
     attempt (check (validate_user_id i)) (\<lambda>_.
     attempt (check (validate_name (unwrap_or name []))) (\<lambda>name.
     let raw = generate_raw_key rnd;
         row = new_user_row sha raw now i name
     in unique_write (Conflict (''user '' @ quoted i @ '' already exists'')) (insert_user_row row)
          (user_of_row row, raw)))"

definition list_users :: "user list query" where
  "list_users = fetch (\<lambda>db. map user_of_row (sort_key (\<lambda>r. - usr_created_at r) (t_users db)))"

definition active :: "string \<Rightarrow> user_row \<Rightarrow> bool" where
  "active i r \<longleftrightarrow> usr_id r = i \<and> usr_revoked_at r = None"

definition revoke_user :: "timestamp \<Rightarrow> string \<Rightarrow> user query" where
  "revoke_user now i =
     attempt (execute_stmt (\<lambda>db. db\<lparr>t_users :=
         update_where (active i) (\<lambda>r. r\<lparr>usr_revoked_at := Some now\<rparr>) (t_users db)\<rparr>))
       (\<lambda>_. get_user i)"

definition set_key :: "string \<Rightarrow> string \<Rightarrow> user_row \<Rightarrow> user_row" where
  "set_key hash shown r = r\<lparr>usr_key_hash := hash, usr_key_prefix := shown, usr_last_used_at := None\<rparr>"

definition rotate_row :: "string \<Rightarrow> string \<Rightarrow> string \<Rightarrow> database \<Rightarrow> sql_error + unit \<times> database" where
  "rotate_row i hash shown db =
     (let us = update_where (active i) (set_key hash shown) (t_users db)
      in if \<not> distinct (map usr_key_hash us) then Inl UniqueViolation
         else Inr ((), db\<lparr>t_users := us\<rparr>))"

definition rotate_user_key :: "(string \<Rightarrow> string) \<Rightarrow> u8 list \<Rightarrow> string \<Rightarrow> (user \<times> string) query" where
  "rotate_user_key sha rnd i =
     attempt (get_user i) (\<lambda>current.
     if user_revoked_at current \<noteq> None
     then fail_ret (Conflict (''user '' @ quoted i @ '' is revoked''))
     else let raw = generate_raw_key rnd
       in attempt (query_stmt (rotate_row i (sha raw) (display_prefix raw))) (\<lambda>_.
          attempt (get_user i) (\<lambda>u. ok_ret (u, raw))))"

text \<open>The background write of \<open>last_used_at\<close>; its failure is only logged.\<close>

definition touch_user :: "timestamp \<Rightarrow> string \<Rightarrow> (database, unit) state" where
  "touch_user now i = do {
     _ \<leftarrow> execute_stmt (\<lambda>db. db\<lparr>t_users := update_where
       (\<lambda>r. usr_id r = i \<and> (case usr_last_used_at r of None \<Rightarrow> True
                             | Some t \<Rightarrow> t < now - LAST_USED_RESOLUTION))
       (\<lambda>r. r\<lparr>usr_last_used_at := Some now\<rparr>) (t_users db)\<rparr>);
     ret () }"

definition authenticate :: "(string \<Rightarrow> string) \<Rightarrow> timestamp \<Rightarrow> string \<Rightarrow> caller option query" where
  "authenticate sha now raw =
     attempt (fetch (\<lambda>db. find (\<lambda>r. usr_key_hash r = sha raw \<and> usr_revoked_at r = None) (t_users db)))
       (\<lambda>row. case row of
          None \<Rightarrow> ok_ret None
        | Some r \<Rightarrow> do { touch_user now (usr_id r); ok_ret (Some \<lparr>caller_user_id = Some (usr_id r)\<rparr>) })"

section \<open>Who holds a working key\<close>

text \<open>The specification: \<open>key_of db h i\<close> iff \<open>h\<close> is the stored hash of the live user \<open>i\<close>.\<close>

definition credential :: "user_row \<Rightarrow> string \<times> string \<times> timestamp option" where
  "credential r = (usr_key_hash r, usr_id r, usr_revoked_at r)"

lemma credential_frame [simp]:
  "credential (r\<lparr>usr_last_used_at := t\<rparr>) = credential r"
  by (simp add: credential_def)

definition key_of :: "database \<Rightarrow> string \<Rightarrow> string \<Rightarrow> bool" where
  "key_of db h i \<longleftrightarrow> (h, i, None) \<in> credential ` set (t_users db)"

lemma key_of_iff:
  "key_of db h i \<longleftrightarrow> (\<exists>r\<in>set (t_users db). usr_key_hash r = h \<and> usr_id r = i \<and> usr_revoked_at r = None)"
  by (auto simp: key_of_def credential_def image_iff)

lemma credentials_update_where:
  assumes "\<And>r. P r \<Longrightarrow> credential (g r) = credential r"
  shows "credential ` set (update_where P g rs) = credential ` set rs"
  using map_update_where [of P credential g rs, OF assms] by (metis set_map)

lemma key_of_blind [simp]: "key_of (db\<lparr>db_faults := fs\<rparr>) h i = key_of db h i"
  by (simp add: key_of_def)

lemma key_of_unique: "users_ok (t_users db) \<Longrightarrow> key_of db h i \<Longrightarrow> key_of db h j \<Longrightarrow> i = j"
  unfolding key_of_iff users_ok_def by (metis distinct_map inj_onD)

lemma run_touch_cases:
  obtains fs where "snd (run_state (touch_user now i) db) = db\<lparr>db_faults := fs\<rparr>"
  | fs where "snd (run_state (touch_user now i) db) = db\<lparr>db_faults := fs, t_users := update_where
       (\<lambda>r. usr_id r = i \<and> (case usr_last_used_at r of None \<Rightarrow> True
                             | Some t \<Rightarrow> t < now - LAST_USED_RESOLUTION))
       (\<lambda>r. r\<lparr>usr_last_used_at := Some now\<rparr>) (t_users db)\<rparr>"
proof -
  let ?f = "\<lambda>db. db\<lparr>t_users := update_where
       (\<lambda>r. usr_id r = i \<and> (case usr_last_used_at r of None \<Rightarrow> True
                             | Some t \<Rightarrow> t < now - LAST_USED_RESOLUTION))
       (\<lambda>r. r\<lparr>usr_last_used_at := Some now\<rparr>) (t_users db)\<rparr>"
  show thesis
    by (rule run_query_stmt_cases [of "\<lambda>db. Inr ((), ?f db)" db])
      (use that in \<open>auto simp: touch_user_def execute_stmt_def\<close>)
qed

lemma key_of_touch [simp]: "key_of (snd (run_state (touch_user now i) db)) h j = key_of db h j"
  by (rule run_touch_cases [of now i db])
    (simp_all add: key_of_def credentials_update_where)

lemma find_live_None:
  "find (\<lambda>r. usr_key_hash r = h \<and> usr_revoked_at r = None) (t_users db) = None \<Longrightarrow> \<not> key_of db h i"
  by (auto simp: find_None_iff key_of_iff)

lemma find_live_Some:
  "find (\<lambda>r. usr_key_hash r = h \<and> usr_revoked_at r = None) (t_users db) = Some r \<Longrightarrow> key_of db h (usr_id r)"
  by (auto simp: key_of_iff dest!: find_Some_iff_mem)

lemma run_authenticate_cases:
  obtains e fs where "run_state (authenticate sha now raw) db = (Inl e, db\<lparr>db_faults := fs\<rparr>)"
  | fs where "run_state (authenticate sha now raw) db = (Inr None, db\<lparr>db_faults := fs\<rparr>)"
      "\<And>i. \<not> key_of db (sha raw) i"
  | i fs where "run_state (authenticate sha now raw) db
        = (Inr (Some \<lparr>caller_user_id = Some i\<rparr>), snd (run_state (touch_user now i) (db\<lparr>db_faults := fs\<rparr>)))"
      "key_of db (sha raw) i"
proof -
  let ?find = "\<lambda>db :: database. find (\<lambda>r. usr_key_hash r = sha raw \<and> usr_revoked_at r = None) (t_users db)"
  let ?db = "db\<lparr>db_faults := tl (db_faults db)\<rparr>"
  show thesis
  proof (rule run_query_stmt_cases [of "\<lambda>db. Inr (?find db, db)" db])
    fix e assume "run_state (query_stmt (\<lambda>db. Inr (?find db, db))) db = (Inl (DbError e), ?db)"
    then show thesis using that(1) by (simp add: authenticate_def fetch_def run_attempt)
  next
    fix a db''
    assume run: "run_state (query_stmt (\<lambda>db. Inr (?find db, db))) db = (Inr a, db'')"
      and "(Inr (?find ?db, ?db) :: sql_error + _) = Inr (a, db'')"
    then have a: "a = ?find db" and db'': "db'' = ?db" by auto
    show thesis
    proof (cases a)
      case None
      with a have "\<not> key_of db (sha raw) i" for i by (intro find_live_None) simp
      with run None db'' show thesis by (intro that(2)) (simp_all add: authenticate_def fetch_def run_attempt)
    next
      case (Some r)
      with a have "key_of db (sha raw) (usr_id r)" by (intro find_live_Some) simp
      with run Some db'' show thesis
        by (intro that(3) [of "usr_id r" "tl (db_faults db)"]) (simp_all add: authenticate_def fetch_def run_attempt split: prod.split)
    qed
  qed
qed

lemma authenticate_iff:
  assumes "db_faults db = []" and "users_ok (t_users db)"
  shows "fst (run_state (authenticate sha now raw) db) = Inr (Some \<lparr>caller_user_id = Some i\<rparr>)
     \<longleftrightarrow> key_of db (sha raw) i"
proof (cases "find (\<lambda>r. usr_key_hash r = sha raw \<and> usr_revoked_at r = None) (t_users db)")
  case None
  then have "\<not> key_of db (sha raw) i" by (rule find_live_None)
  with None assms(1) show ?thesis by (simp add: authenticate_def run_attempt)
next
  case (Some r)
  then have "key_of db (sha raw) (usr_id r)" by (rule find_live_Some)
  then have "usr_id r = i \<longleftrightarrow> key_of db (sha raw) i" using key_of_unique [OF assms(2)] by blast
  with Some assms(1) show ?thesis by (simp add: authenticate_def run_attempt split: prod.split)
qed

section \<open>Creating, rotating, revoking\<close>

lemma create_user_key:
  assumes run: "run_state (create_user sha rnd now i name) db = (Inr (u, raw), db')"
  shows "raw = generate_raw_key rnd \<and> user_id u = i \<and> i \<noteq> ADMIN_USER_ID
     \<and> (\<exists>r. t_users db' = t_users db @ [r] \<and> credential r = (sha raw, i, None))
     \<and> i \<notin> usr_id ` set (t_users db) \<and> sha raw \<notin> usr_key_hash ` set (t_users db)"
proof -
  from run obtain n where chk: "validate_user_id i = Inr ()"
    and st: "run_state (unique_write (Conflict (''user '' @ quoted i @ '' already exists''))
        (insert_user_row (new_user_row sha (generate_raw_key rnd) now i n))
        (user_of_row (new_user_row sha (generate_raw_key rnd) now i n), generate_raw_key rnd)) db
      = (Inr (u, raw), db')"
    by (auto simp: create_user_def run_attempt_Inr_iff Let_def)
  let ?row = "new_user_row sha (generate_raw_key rnd) now i n"
  from run_unique_write_Inr [OF st] have u: "u = user_of_row ?row" "raw = generate_raw_key rnd"
    and ins: "insert_user_row ?row (db\<lparr>db_faults := tl (db_faults db)\<rparr>) = Inr ((), db')"
    by auto
  have "i \<noteq> ADMIN_USER_ID"
    using chk by (auto simp: validate_user_id_def res_bind_Inr_iff eq_ignore_ascii_case_def split: if_splits)
  with u ins show ?thesis
    by (auto simp: insert_user_row_def credential_def new_user_row_def user_of_row_def split: if_splits)
qed

lemma get_user_tables: "\<exists>fs. snd (run_state (get_user i) db) = db\<lparr>db_faults := fs\<rparr>"
proof -
  let ?q = "fetch (\<lambda>db. row_with usr_id i (t_users db))"
  have "snd (run_state (get_user i) db) = snd (run_state ?q db)"
    by (cases "run_state ?q db") (simp add: get_user_def run_attempt split: sum.split option.split)
  moreover have "reads ?q (\<lambda>db. row_with usr_id i (t_users db))"
    by (rule reads_fetch) simp
  ultimately show ?thesis using readsD(2) by metis
qed

lemma get_user_users: "run_state (get_user i) db = (r, db') \<Longrightarrow> t_users db' = t_users db"
  using get_user_tables [of i db] by auto

lemma get_user_row:
  "run_state (get_user i) db = (Inr u, db') \<Longrightarrow>
     \<exists>r\<in>set (t_users db). usr_id r = i \<and> u = user_of_row r"
proof -
  assume run: "run_state (get_user i) db = (Inr u, db')"
  let ?q = "fetch (\<lambda>db. row_with usr_id i (t_users db))"
  have q: "reads ?q (\<lambda>db. row_with usr_id i (t_users db))" by (rule reads_fetch) simp
  from run obtain a s where "run_state ?q db = (Inr a, s)"
    and "run_state (case a of None \<Rightarrow> fail_ret NotFound | Some u \<Rightarrow> ok_ret (user_of_row u)) s = (Inr u, db')"
    by (auto simp: get_user_def run_attempt_Inr_iff)
  with readsD(3) [OF q] show ?thesis
    by (auto split: option.splits dest!: row_with_SomeD [OF sym])
qed

lemma credential_set_key [simp]: "credential (set_key h p r) = (h, usr_id r, usr_revoked_at r)"
  by (simp add: credential_def set_key_def)

lemma rotate_row_keys:
  assumes ok: "users_ok (t_users db)" and row: "rotate_row i h p db = Inr ((), db')"
    and live: "r \<in> set (t_users db)" "active i r"
  shows "key_of db' k j \<longleftrightarrow> (if j = i then k = h else key_of db k j)"
proof -
  from row have db': "t_users db' = update_where (active i) (set_key h p) (t_users db)"
    by (auto simp: rotate_row_def Let_def split: if_splits)
  have uniq: "active i q \<longleftrightarrow> usr_id q = i" if "q \<in> set (t_users db)" for q
    using ok live that by (auto simp: users_ok_def active_def distinct_map inj_on_def)
  have img: "credential ` set (t_users db') =
      (\<lambda>q. if usr_id q = i then (h, i, usr_revoked_at q) else credential q) ` set (t_users db)"
    unfolding db' update_where_def set_map image_image
    by (intro image_cong) (auto simp: uniq)
  have new: "(h, i, None) \<in> credential ` set (t_users db')"
    unfolding img by (rule image_eqI [of _ _ r]) (use live in \<open>auto simp: active_def\<close>)
  have "(k, j, None) \<in> credential ` set (t_users db') \<longleftrightarrow> (k, j, None) \<in> credential ` set (t_users db)"
    if "j \<noteq> i"
    unfolding img using that by (auto simp: image_iff credential_def)
  moreover have "k = h" if "(k, i, None) \<in> credential ` set (t_users db')"
    using that unfolding img by (auto simp: credential_def split: if_splits)
  ultimately show ?thesis using new by (auto simp: key_of_def)
qed

lemma rotate_user_key_keys:
  assumes ok: "users_ok (t_users db)"
    and run: "run_state (rotate_user_key sha rnd i) db = (Inr (u, raw), db')"
  shows "raw = generate_raw_key rnd \<and> (\<forall>k j. key_of db' k j \<longleftrightarrow> (if j = i then k = sha raw else key_of db k j))"
proof -
  let ?raw = "generate_raw_key rnd"
  from run obtain cur s1 v s2 where c: "run_state (get_user i) db = (Inr cur, s1)"
    and live: "user_revoked_at cur = None"
    and q: "run_state (query_stmt (rotate_row i (sha ?raw) (display_prefix ?raw))) s1 = (Inr (), s2)"
    and g: "run_state (get_user i) s2 = (Inr v, db')" and raw: "raw = ?raw"
    by (auto simp: rotate_user_key_def run_attempt_Inr_iff Let_def split: if_splits)
  from get_user_row [OF c] obtain r where r: "r \<in> set (t_users db)" "usr_id r = i" "cur = user_of_row r" by auto
  have s1: "t_users s1 = t_users db" using get_user_users [OF c] .
  let ?s1 = "s1\<lparr>db_faults := tl (db_faults s1)\<rparr>"
  have row: "rotate_row i (sha ?raw) (display_prefix ?raw) ?s1 = Inr ((), s2)"
    by (rule run_query_stmt_cases [of "rotate_row i (sha ?raw) (display_prefix ?raw)" s1]) (use q in auto)
  have "key_of s2 k j \<longleftrightarrow> (if j = i then k = sha ?raw else key_of ?s1 k j)" for k j
    by (rule rotate_row_keys [OF _ row, of r]) (use ok s1 r live in \<open>auto simp: active_def user_of_row_def\<close>)
  moreover have "key_of db' k j = key_of s2 k j" "key_of ?s1 k j = key_of db k j" for k j
    using get_user_users [OF g] s1 by (simp_all add: key_of_def)
  ultimately show ?thesis using raw by simp
qed

lemma revoke_changes: "r\<lparr>usr_revoked_at := Some now\<rparr> = r \<Longrightarrow> usr_revoked_at r = Some now"
  by (cases r) simp

lemma revoke_user_keys:
  assumes run: "run_state (revoke_user now i) db = (Inr u, db')"
  shows "key_of db' k j \<longleftrightarrow> j \<noteq> i \<and> key_of db k j"
proof -
  let ?f = "\<lambda>db. db\<lparr>t_users := update_where (active i) (\<lambda>r. r\<lparr>usr_revoked_at := Some now\<rparr>) (t_users db)\<rparr>"
  from run obtain s where e: "run_state (execute_stmt ?f) db = (Inr (), s)"
    and g: "run_state (get_user i) s = (Inr u, db')"
    by (auto simp: revoke_user_def run_attempt_Inr_iff)
  have "t_users s = update_where (active i) (\<lambda>r. r\<lparr>usr_revoked_at := Some now\<rparr>) (t_users db)"
    by (rule run_query_stmt_cases [of "\<lambda>db. Inr ((), ?f db)" db]) (use e in \<open>auto simp: execute_stmt_def\<close>)
  with get_user_users [OF g] have users: "t_users db' =
      update_where (active i) (\<lambda>r. r\<lparr>usr_revoked_at := Some now\<rparr>) (t_users db)" by simp
  show ?thesis
    unfolding key_of_iff users set_update_where
    by (auto simp: active_def split: if_splits dest!: revoke_changes)
qed

section \<open>Revocation is for good\<close>

text \<open>
  Everything the gateway does with the table of users, in any order and under any
  script of faults.
\<close>

datatype user_op =
    CreateUser "u8 list" timestamp string "string option"
  | RevokeUser timestamp string
  | RotateUser "u8 list" string
  | Authenticate timestamp string
  | ImportDump export_dump

fun user_db :: "(string \<Rightarrow> string) \<Rightarrow> user_op \<Rightarrow> database \<Rightarrow> database" where
  "user_db sha (CreateUser rnd now i name) db = snd (run_state (create_user sha rnd now i name) db)"
| "user_db sha (RevokeUser now i) db = snd (run_state (revoke_user now i) db)"
| "user_db sha (RotateUser rnd i) db = snd (run_state (rotate_user_key sha rnd i) db)"
| "user_db sha (Authenticate now raw) db = snd (run_state (authenticate sha now raw) db)"
| "user_db sha (ImportDump d) db = snd (run_state (import_config d) db)"

inductive users_later :: "(string \<Rightarrow> string) \<Rightarrow> database \<Rightarrow> database \<Rightarrow> bool" for sha where
  here: "users_later sha db db"
| step: "users_later sha db db' \<Longrightarrow> users_later sha db (user_db sha x (db'\<lparr>db_faults := fs\<rparr>))"

definition revoked :: "string \<Rightarrow> database \<Rightarrow> bool" where
  "revoked i db \<longleftrightarrow> users_ok (t_users db) \<and>
     (\<exists>r\<in>set (t_users db). usr_id r = i \<and> usr_revoked_at r \<noteq> None)"

lemma revoked_no_key: "revoked i db \<Longrightarrow> \<not> key_of db h i"
  unfolding revoked_def key_of_iff users_ok_def by (metis distinct_map inj_onD)

lemma revoke_user_revoked:
  assumes ok: "users_ok (t_users db)" and run: "run_state (revoke_user now i) db = (Inr u, db')"
  shows "revoked i db'"
proof -
  let ?f = "\<lambda>db. db\<lparr>t_users := update_where (active i) (\<lambda>r. r\<lparr>usr_revoked_at := Some now\<rparr>) (t_users db)\<rparr>"
  from run obtain s where e: "run_state (execute_stmt ?f) db = (Inr (), s)"
    and g: "run_state (get_user i) s = (Inr u, db')"
    by (auto simp: revoke_user_def run_attempt_Inr_iff)
  have s: "t_users s = t_users (?f db)"
    by (rule run_query_stmt_cases [of "\<lambda>db. Inr ((), ?f db)" db]) (use e in \<open>auto simp: execute_stmt_def\<close>)
  have keep: "map usr_id (t_users (?f db)) = map usr_id (t_users db)"
    "map usr_key_hash (t_users (?f db)) = map usr_key_hash (t_users db)"
    by (simp_all add: map_update_where)
  from get_user_row [OF g] obtain r where r: "r \<in> set (t_users s)" "usr_id r = i" by blast
  then have "r \<in> set (update_where (active i) (\<lambda>r. r\<lparr>usr_revoked_at := Some now\<rparr>) (t_users db))"
    by (simp add: s)
  then obtain q where q: "r = (if active i q then q\<lparr>usr_revoked_at := Some now\<rparr> else q)"
    unfolding set_update_where by blast
  have "usr_revoked_at r \<noteq> None"
  proof (cases "active i q")
    case False
    with q have "r = q" by simp
    with False r(2) show ?thesis by (simp add: active_def)
  qed (simp add: q)
  with r have "\<exists>r\<in>set (t_users (?f db)). usr_id r = i \<and> usr_revoked_at r \<noteq> None"
    unfolding s by blast
  then show ?thesis
    using ok keep get_user_users [OF g] by (simp add: revoked_def users_ok_def s)
qed

lemma revoked_cong: "t_users db' = t_users db \<Longrightarrow> revoked i db' = revoked i db"
  by (simp add: revoked_def)

lemma fault_blind_revoked: "fault_blind (revoked i)"
  by (simp add: fault_blind_def revoked_def)

text \<open>A rewrite of rows that keeps ids and never clears a revocation, with distinct keys.\<close>

lemma revoked_update_where:
  assumes "revoked i db" and "\<And>r. usr_id (g r) = usr_id r"
    and "\<And>r. usr_revoked_at r \<noteq> None \<Longrightarrow> usr_revoked_at (g r) \<noteq> None"
    and "distinct (map usr_key_hash (update_where P g (t_users db)))"
  shows "revoked i (db\<lparr>t_users := update_where P g (t_users db)\<rparr>)"
proof -
  have "map usr_id (update_where P g (t_users db)) = map usr_id (t_users db)"
    by (rule map_update_where) (rule assms(2))
  moreover from assms(1) obtain r where r: "r \<in> set (t_users db)" "usr_id r = i" "usr_revoked_at r \<noteq> None"
    by (auto simp: revoked_def)
  then have "(if P r then g r else r) \<in> set (update_where P g (t_users db))"
    by (auto simp: update_where_def)
  with r assms(2,3) have "\<exists>q\<in>set (update_where P g (t_users db)). usr_id q = i \<and> usr_revoked_at q \<noteq> None"
    by (metis (full_types))
  ultimately show ?thesis
    using assms(1,4) by (simp add: revoked_def users_ok_def)
qed

lemma distinct_hash_update:
  assumes "users_ok us" and "\<And>r. usr_key_hash (g r) = usr_key_hash r"
  shows "distinct (map usr_key_hash (update_where P g us))"
  using assms map_update_where [of P usr_key_hash g us] by (simp add: users_ok_def)

lemma revoked_append:
  "revoked i db \<Longrightarrow> usr_id u \<notin> usr_id ` set (t_users db) \<Longrightarrow>
     usr_key_hash u \<notin> usr_key_hash ` set (t_users db) \<Longrightarrow> revoked i (db\<lparr>t_users := t_users db @ [u]\<rparr>)"
  by (auto simp: revoked_def users_ok_def)

lemma revoked_usersD: "revoked i db \<Longrightarrow> users_ok (t_users db)"
  by (simp add: revoked_def)

lemma valid_check_inv [intro!]: "valid P (check r) (\<lambda>_. P)"
  by (simp add: valid_def)

lemma valid_revoked_get_user: "valid (revoked j) (get_user i) (\<lambda>_. revoked j)"
  using fault_blindD [OF fault_blind_revoked] get_user_tables [of i]
  by (metis validI snd_conv)

lemma valid_revoked_create: "valid (revoked j) (create_user sha rnd now i name) (\<lambda>_. revoked j)"
  unfolding create_user_def Let_def
proof (intro valid_inv_attempt valid_check_inv)
  fix u n
  let ?row = "new_user_row sha (generate_raw_key rnd) now i n"
  have "revoked j db'" if "revoked j db" "insert_user_row ?row db = Inr ((), db')" for db db'
    using that revoked_append [OF that(1), of ?row] by (auto simp: insert_user_row_def split: if_splits)
  then show "valid (revoked j) (unique_write (Conflict (''user '' @ quoted i @ '' already exists''))
      (insert_user_row ?row) (user_of_row ?row, generate_raw_key rnd)) (\<lambda>_. revoked j)"
    by (rule valid_unique_write [OF fault_blind_revoked])
qed

lemma valid_revoked_revoke: "valid (revoked j) (revoke_user now i) (\<lambda>_. revoked j)"
  unfolding revoke_user_def
proof (intro valid_inv_attempt valid_execute [OF fault_blind_revoked] valid_revoked_get_user)
  fix db assume r: "revoked j db"
  show "revoked j (db\<lparr>t_users := update_where (active i) (\<lambda>r. r\<lparr>usr_revoked_at := Some now\<rparr>) (t_users db)\<rparr>)"
    by (rule revoked_update_where [OF r])
      (simp_all add: distinct_hash_update [OF revoked_usersD [OF r]])
qed

lemma valid_revoked_rotate: "valid (revoked j) (rotate_user_key sha rnd i) (\<lambda>_. revoked j)"
proof -
  have row: "revoked j db'" if "revoked j db" "rotate_row i h p db = Inr ((), db')" for db db' h p
  proof -
    from that(2) have d: "distinct (map usr_key_hash (update_where (active i) (set_key h p) (t_users db)))"
      and db': "db' = db\<lparr>t_users := update_where (active i) (set_key h p) (t_users db)\<rparr>"
      by (auto simp: rotate_row_def Let_def split: if_splits)
    show ?thesis
      unfolding db' by (rule revoked_update_where [OF that(1) _ _ d]) (simp_all add: set_key_def)
  qed
  have "valid (revoked j) (query_stmt (rotate_row i h p)) (\<lambda>_. revoked j)" for h p
    by (rule valid_query_stmt [OF fault_blind_revoked]) (use row in auto)
  then show ?thesis
    unfolding rotate_user_key_def Let_def
    by (intro valid_inv_attempt valid_revoked_get_user)
      (auto intro!: valid_inv_attempt valid_revoked_get_user valid_fail_ret)
qed

lemma valid_revoked_authenticate: "valid (revoked j) (authenticate sha now raw) (\<lambda>_. revoked j)"
proof (rule validI)
  fix db r db'
  assume rv: "revoked j db" and run: "run_state (authenticate sha now raw) db = (r, db')"
  have blind: "revoked j (d\<lparr>db_faults := fs\<rparr>) = revoked j d" for d fs
    by (rule fault_blindD [OF fault_blind_revoked])
  have touch: "revoked j (snd (run_state (touch_user now i) d))" if "revoked j d" for i d
  proof (rule run_touch_cases [of now i d])
    fix fs
    let ?P = "\<lambda>r. usr_id r = i \<and> (case usr_last_used_at r of None \<Rightarrow> True
                             | Some t \<Rightarrow> t < now - LAST_USED_RESOLUTION)"
    assume run: "snd (run_state (touch_user now i) d) = d\<lparr>db_faults := fs, t_users := update_where ?P
       (\<lambda>r. r\<lparr>usr_last_used_at := Some now\<rparr>) (t_users d)\<rparr>"
    have "revoked j (d\<lparr>db_faults := fs\<rparr>)" using that by (simp add: blind)
    then have "revoked j (d\<lparr>db_faults := fs\<rparr>\<lparr>t_users := update_where ?P
       (\<lambda>r. r\<lparr>usr_last_used_at := Some now\<rparr>) (t_users (d\<lparr>db_faults := fs\<rparr>))\<rparr>)"
      by (rule revoked_update_where)
        (simp_all add: distinct_hash_update [OF revoked_usersD [OF that]])
    then show ?thesis unfolding run by simp
  qed (use that blind in auto)
  show "revoked j db'"
    by (rule run_authenticate_cases [of sha now raw db]) (use run rv touch blind in auto)
qed

lemma valid_revoked_import: "valid (revoked j) (import_config d) (\<lambda>_. revoked j)"
proof (rule valid_import [OF fault_blind_revoked])
  fix u db db'
  assume r: "revoked j db" and row: "import_user_row u db = Inr ((), db')"
  show "revoked j db'"
  proof (cases "usr_id u \<in> usr_id ` set (t_users db)")
    case True
    have "distinct (map usr_key_hash (update_where P (merge_user u) (t_users db)))" for P
      by (rule distinct_hash_update [OF revoked_usersD [OF r]]) simp
    then have "revoked j (db\<lparr>t_users := update_where (\<lambda>r. usr_id r = usr_id u) (merge_user u) (t_users db)\<rparr>)"
      by (intro revoked_update_where [OF r]) (auto simp: opt_or_def)
    with True row show ?thesis by (auto simp: import_user_row_def)
  next
    case False
    with row revoked_append [OF r False] show ?thesis
      by (auto simp: import_user_row_def split: if_splits)
  qed
qed (use import_rows_users revoked_cong in blast)+

lemma revoked_forever:
  "users_later sha db db' \<Longrightarrow> revoked i db \<Longrightarrow> revoked i db'"
proof (induction rule: users_later.induct)
  case (step db db' x fs)
  have "revoked i (db'\<lparr>db_faults := fs\<rparr>)"
    unfolding fault_blindD [OF fault_blind_revoked] by (rule step.IH [OF step.prems])
  note run = valid_snd [where P = "revoked i", OF _ this]
  show ?case
    by (cases x) (simp_all add: run [OF valid_revoked_create] run [OF valid_revoked_revoke]
        run [OF valid_revoked_rotate] run [OF valid_revoked_authenticate] run [OF valid_revoked_import])
qed

lemma rotation_swaps_key:
  assumes "users_ok (t_users db)" and "run_state (rotate_user_key sha rnd i) db = (Inr (u, raw), db')"
  shows "raw = generate_raw_key rnd
     \<and> (\<forall>k j. key_of db' k j \<longleftrightarrow> (if j = i then k = sha raw else key_of db k j))"
  by (rule rotate_user_key_keys [OF assms])

lemma key_authenticates:
  assumes "db_faults db = []" and "users_ok (t_users db)"
  shows "fst (run_state (authenticate sha now raw) db) = Inr (Some \<lparr>caller_user_id = Some i\<rparr>)
     \<longleftrightarrow> (\<exists>r\<in>set (t_users db). usr_key_hash r = sha raw \<and> usr_id r = i \<and> usr_revoked_at r = None)"
  using authenticate_iff [OF assms, of sha now raw i] by (simp only: key_of_iff)

end
