(* ===== verification/Utf8.thy ===== *)
theory Utf8
  imports RustText
begin

text \<open>
  UTF-8 as the standard library decodes it: \<open>utf8_step\<close> looks at the front of a
  byte string and finds a scalar value, a maximal ill-formed part, or the start of a
  value the bytes do not complete.  \<open>String::from_utf8_lossy\<close> writes U+FFFD for each
  of the last two.
\<close>

datatype utf8_step = Scalar nat | Broken nat | Short

text \<open>The number of bytes the first byte announces; 0 for a byte that starts no scalar value.\<close>

definition utf8_width :: "nat \<Rightarrow> nat" where
  "utf8_width b =
     (if b < 128 then 1 else if b < 194 then 0 else if b < 224 then 2
      else if b < 240 then 3 else if b < 245 then 4 else 0)"

text \<open>The second byte: no overlong forms, no surrogates, nothing above U+10FFFF.\<close>

definition second_ok :: "nat \<Rightarrow> nat \<Rightarrow> bool" where
  "second_ok b d \<longleftrightarrow>
     (if b = 224 then 160 \<le> d \<and> d < 192
      else if b = 237 then 128 \<le> d \<and> d < 160
      else if b = 240 then 144 \<le> d \<and> d < 192
      else if b = 244 then 128 \<le> d \<and> d < 144
      else 128 \<le> d \<and> d < 192)"

definition utf8_front :: "char \<Rightarrow> string \<Rightarrow> utf8_step" where
  "utf8_front c s =
     (let b = byte_of c; w = utf8_width b
      in if w = 0 then Broken 1
         else if w = 1 then Scalar 1
         else (case s of [] \<Rightarrow> Short
           | d # s \<Rightarrow>
               if \<not> second_ok b (byte_of d) then Broken 1
               else if w = 2 then Scalar 2
               else (case s of [] \<Rightarrow> Short
                 | e # s \<Rightarrow>
                     if \<not> is_cont e then Broken 2
                     else if w = 3 then Scalar 3
                     else (case s of [] \<Rightarrow> Short
                       | f # s \<Rightarrow> if is_cont f then Scalar 4 else Broken 3))))"

definition replacement :: string where
  "replacement = map char_of [239, 191, 189 :: nat]"

lemma utf8_front_pos:
  "utf8_front c s = Scalar n \<Longrightarrow> 0 < n \<and> n \<le> length (c # s)"
  "utf8_front c s = Broken n \<Longrightarrow> 0 < n \<and> n \<le> length (c # s)"
  by (auto simp: utf8_front_def Let_def split: if_splits list.splits)

text \<open>The longest well-formed prefix and what follows it.\<close>

function utf8_valid_up_to :: "string \<Rightarrow> nat" where
  "utf8_valid_up_to [] = 0"
| "utf8_valid_up_to (c # s) =
     (case utf8_front c s of
        Scalar n \<Rightarrow> n + utf8_valid_up_to (drop n (c # s))
      | _ \<Rightarrow> 0)"
  by pat_completeness auto
termination
  by (relation "measure length") (auto dest: utf8_front_pos)

definition valid_utf8 :: "string \<Rightarrow> bool" where
  "valid_utf8 s \<longleftrightarrow> utf8_valid_up_to s = length s"

function from_utf8_lossy :: "string \<Rightarrow> string" where
  "from_utf8_lossy [] = []"
| "from_utf8_lossy (c # s) =
     (case utf8_front c s of
        Scalar n \<Rightarrow> take n (c # s) @ from_utf8_lossy (drop n (c # s))
      | Broken n \<Rightarrow> replacement @ from_utf8_lossy (drop n (c # s))
      | Short \<Rightarrow> replacement)"
  by pat_completeness auto
termination
  by (relation "measure length") (auto dest: utf8_front_pos)

section \<open>Lemmas\<close>

lemma utf8_valid_up_to_le: "utf8_valid_up_to s \<le> length s"
proof (induction s rule: utf8_valid_up_to.induct)
  case (2 c s)
  show ?case
  proof (cases "utf8_front c s")
    case (Scalar n)
    with 2 utf8_front_pos(1) [OF Scalar] show ?thesis by fastforce
  qed simp_all
qed simp

text \<open>A scalar value is recognised whatever follows it.\<close>

lemma utf8_front_take:
  "utf8_front c s = Scalar n \<Longrightarrow> n = Suc m \<Longrightarrow> utf8_front c (take m s @ t) = Scalar n"
  by (auto simp: utf8_front_def Let_def split: if_splits list.splits)

lemma valid_utf8_Cons:
  "valid_utf8 (c # s) \<longleftrightarrow> (\<exists>n. utf8_front c s = Scalar n \<and> valid_utf8 (drop n (c # s)))"
proof (cases "utf8_front c s")
  case (Scalar n)
  have "n \<le> length (c # s)" using utf8_front_pos(1) [OF Scalar] by simp
  then show ?thesis using Scalar by (auto simp: valid_utf8_def)
qed (simp_all add: valid_utf8_def)

lemma valid_utf8_Nil [simp]: "valid_utf8 []"
  by (simp add: valid_utf8_def)

lemma valid_utf8_append: "valid_utf8 s \<Longrightarrow> valid_utf8 t \<Longrightarrow> valid_utf8 (s @ t)"
proof (induction s rule: utf8_valid_up_to.induct)
  case (2 c s)
  from 2(2) obtain n where n: "utf8_front c s = Scalar n" and v: "valid_utf8 (drop n (c # s))"
    by (auto simp: valid_utf8_Cons)
  obtain m where m: "n = Suc m" using utf8_front_pos(1) [OF n] by (cases n) auto
  have len: "m \<le> length s" using utf8_front_pos(1) [OF n] m by simp
  have "utf8_front c (take m s @ drop m s @ t) = Scalar n" by (rule utf8_front_take [OF n m])
  then have "utf8_front c (s @ t) = Scalar n" by (simp add: append_assoc [symmetric] del: append_assoc)
  moreover have "valid_utf8 (drop n (c # s) @ t)" by (rule 2(1) [OF n v 2(3)])
  ultimately show ?case using len m by (auto simp: valid_utf8_Cons)
qed simp

lemma valid_utf8_front: "utf8_front c s = Scalar n \<Longrightarrow> valid_utf8 (take n (c # s))"
proof -
  assume n: "utf8_front c s = Scalar n"
  obtain m where m: "n = Suc m" using utf8_front_pos(1) [OF n] by (cases n) auto
  have len: "m \<le> length s" using utf8_front_pos(1) [OF n] m by simp
  from utf8_front_take [OF n m, of "[]"] show ?thesis using m len by (simp add: valid_utf8_Cons)
qed

lemma valid_utf8_replacement: "valid_utf8 replacement"
  by code_simp

lemma from_utf8_lossy_valid: "valid_utf8 (from_utf8_lossy s)"
proof (induction s rule: from_utf8_lossy.induct)
  case (2 c s)
  show ?case
  proof (cases "utf8_front c s")
    case (Scalar n)
    with 2(1) [OF Scalar] show ?thesis by (simp add: valid_utf8_append valid_utf8_front [OF Scalar] del: take_Suc_Cons)
  next
    case (Broken n)
    with 2(2) [OF Broken] show ?thesis by (simp add: valid_utf8_append valid_utf8_replacement)
  qed (simp add: valid_utf8_replacement)
qed simp

lemma from_utf8_lossy_id: "valid_utf8 s \<Longrightarrow> from_utf8_lossy s = s"
proof (induction s rule: from_utf8_lossy.induct)
  case (2 c s)
  from 2(3) obtain n where n: "utf8_front c s = Scalar n" and v: "valid_utf8 (drop n (c # s))"
    by (auto simp: valid_utf8_Cons)
  from 2(1) [OF n v] n show ?case by simp
qed simp

lemma from_utf8_lossy_iff: "from_utf8_lossy s = s \<longleftrightarrow> valid_utf8 s"
  using from_utf8_lossy_valid [of s] from_utf8_lossy_id by auto

lemma is_ascii_valid: "is_ascii s \<Longrightarrow> valid_utf8 s"
proof (induction s)
  case (Cons c s)
  then have "utf8_front c s = Scalar 1" by (simp add: utf8_front_def utf8_width_def)
  with Cons show ?case by (simp add: valid_utf8_Cons)
qed simp

end
