(* ===== verification/World.thy ===== *)
theory World
  imports Users Utf8
begin

text \<open>
  What a proxied request sees and changes.  \<open>env\<close> is everything outside the
  repository, indexed by a tick that advances with every use: the clocks, the HTTP
  client (\<open>reqwest\<close>), the JSON parser and printer (\<open>serde_json\<close>), calendar
  arithmetic (\<open>chrono\<close>), and the adapter objects behind \<open>dyn ProviderAdapter\<close>, whose
  request and response translations are parameters here.  \<open>world\<close> is the shared state
  of \<open>AppState\<close> the request path writes, with two records of what it did: the calls
  that left the process and the log entries it queued.
\<close>

section \<open>Upstream messages\<close>

record request =
  rq_url :: string
  rq_headers :: headers
  rq_body :: string

text \<open>A response whose body arrives in chunks and may break off with a read error.\<close>

record upstream =
  up_status :: nat
  up_headers :: headers
  up_chunks :: "string list"
  up_error :: "string option"

text \<open>A \<open>reqwest::Error\<close>: its text, and its text \<open>without_url()\<close>.\<close>

record http_error =
  he_text :: string
  he_text_no_url :: string

definition MAX_ERROR_BODY :: nat where
  "MAX_ERROR_BODY = 1024 * 1024"

definition MAX_BUFFERED_BODY :: nat where
  "MAX_BUFFERED_BODY = 64 * 1024 * 1024"

text \<open>The loop of \<open>read_text_truncated\<close>; a read error ends the body like its end does.\<close>

fun read_truncated :: "nat \<Rightarrow> string \<Rightarrow> string list \<Rightarrow> string" where
  "read_truncated cap buf [] = buf"
| "read_truncated cap buf (chunk # chunks) =
     (let room = cap - length buf
      in if room \<le> length chunk then buf @ take room chunk
         else read_truncated cap (buf @ chunk) chunks)"

definition read_text_truncated :: "upstream \<Rightarrow> nat \<Rightarrow> string" where
  "read_text_truncated up cap = from_utf8_lossy (read_truncated cap [] (up_chunks up))"

fun read_limited :: "nat \<Rightarrow> string \<Rightarrow> string list \<Rightarrow> string option \<Rightarrow> string + string" where
  "read_limited cap buf [] failed = (case failed of None \<Rightarrow> Inr buf | Some e \<Rightarrow> Inl e)"
| "read_limited cap buf (chunk # chunks) failed =
     (if cap < length buf + length chunk
      then Inl (''upstream body exceeds '' @ show_nat (cap div (1024 * 1024)) @ '' MiB'')
      else read_limited cap (buf @ chunk) chunks failed)"

definition read_body_limited :: "upstream \<Rightarrow> nat \<Rightarrow> string + string" where
  "read_body_limited up cap = read_limited cap [] (up_chunks up) (up_error up)"

lemma read_truncated_eq:
  "length buf \<le> cap \<Longrightarrow> read_truncated cap buf cs = take cap (buf @ concat cs)"
proof (induction cs arbitrary: buf)
  case (Cons c cs)
  show ?case
  proof (cases "cap - length buf \<le> length c")
    case True
    with Cons.prems show ?thesis by (simp add: Let_def)
  next
    case False
    with Cons.prems Cons.IH [of "buf @ c"] show ?thesis by (simp add: Let_def)
  qed
qed simp

lemma read_limited_eq:
  "length buf \<le> cap \<Longrightarrow> read_limited cap buf cs None =
     (if length (buf @ concat cs) \<le> cap then Inr (buf @ concat cs)
      else Inl (''upstream body exceeds '' @ show_nat (cap div (1024 * 1024)) @ '' MiB''))"
  by (induction cs arbitrary: buf) auto

text \<open>A Rust computation that may panic.\<close>

datatype 'a outcome = Done 'a | Panicked

section \<open>Credentials and adapters\<close>

record credentials =
  cr_api_key :: "string option"
  cr_access_token :: "string option"
  cr_refresh_token :: "string option"
  cr_id_token :: "string option"
  cr_access_expires_at :: "timestamp option"
  cr_provider_data :: json

definition from_provider_and_oauth :: "provider \<Rightarrow> oauth_state option \<Rightarrow> credentials" where
  "from_provider_and_oauth p oauth =
     (case oauth of
        Some os \<Rightarrow> \<lparr>cr_api_key = prov_api_key p, cr_access_token = os_access_token os,
          cr_refresh_token = os_refresh_token os, cr_id_token = os_id_token os,
          cr_access_expires_at = os_access_expires_at os, cr_provider_data = os_provider_data os\<rparr>
      | None \<Rightarrow> \<lparr>cr_api_key = prov_api_key p, cr_access_token = None, cr_refresh_token = None,
          cr_id_token = None, cr_access_expires_at = None, cr_provider_data = JNull\<rparr>)"

text \<open>\<open>commandcode::Transport\<close>, remembered per provider id.\<close>

datatype transport = ProviderTransport | GenerateTransport

type_synonym transport_map = "(string, transport) dmap"

definition transport_of :: "transport_map \<Rightarrow> string \<Rightarrow> transport" where
  "transport_of m i = unwrap_or (dm_get m i) ProviderTransport"

text \<open>
  The two operations of an adapter object that depend on its kind.  An adapter is
  made for one request; what it remembers of the request in flight is a function of
  the last request it built, which is passed back to \<open>transform_response\<close>.
\<close>

record adapter =
  ad_build_request :: "nat \<Rightarrow> transport_map \<Rightarrow> string \<Rightarrow> credentials \<Rightarrow> (app_error + request) outcome"
  ad_transform_response :: "nat \<Rightarrow> request \<Rightarrow> upstream \<Rightarrow> bool \<Rightarrow> app_error + response"

record env =
  env_now :: "nat \<Rightarrow> instant"
  env_wall :: "nat \<Rightarrow> timestamp"
  env_execute :: "nat \<Rightarrow> request \<Rightarrow> http_error + upstream"
  env_parse_json :: "string \<Rightarrow> string + json"
  env_print_json :: "json \<Rightarrow> string"
  env_add_seconds :: "timestamp \<Rightarrow> int \<Rightarrow> timestamp option"
  env_token_url :: string
  env_status_text :: "nat \<Rightarrow> string"
  env_panic_text :: string
  env_adapter :: "provider \<Rightarrow> wire_format \<Rightarrow> string \<Rightarrow> adapter"

section \<open>The world\<close>

record limit_snapshot =
  ls_observed_at :: timestamp
  ls_values :: "(string \<times> string) list"

datatype call =
    ProviderCall (call_provider: string) (call_model: string)
  | RefreshCall (call_provider: string) (call_token: string)

text \<open>What \<open>maybe_log_dataset\<close> attaches to a response body.\<close>

record tap =
  tap_user :: "string option"
  tap_pool :: "string option"
  tap_provider :: string
  tap_model :: string
  tap_wire :: wire_format
  tap_stream :: bool
  tap_dataset :: "string option"
  tap_ttfb_ms :: int

record world =
  w_db :: database
  w_runtime :: runtime_map
  w_rotation :: rotation_map
  w_transports :: transport_map
  w_limits :: "(string, limit_snapshot) dmap"
  w_logs :: "log_entry list"
  w_calls :: "call list"
  w_taps :: "tap list"
  w_tick :: nat

type_synonym 'a flow = "(world, 'a) state"

section \<open>Steps\<close>

definition next_tick :: "nat flow" where
  "next_tick = State (\<lambda>w. (w_tick w, w\<lparr>w_tick := Suc (w_tick w)\<rparr>))"

definition read_clock :: "env \<Rightarrow> instant flow" where
  "read_clock E = do { t \<leftarrow> next_tick; ret (env_now E t) }"

definition read_wall :: "env \<Rightarrow> timestamp flow" where
  "read_wall E = do { t \<leftarrow> next_tick; ret (env_wall E t) }"

definition on_database :: "'a query \<Rightarrow> (world, app_error + 'a) state" where
  "on_database q = State (\<lambda>w. case run_state q (w_db w) of (r, db) \<Rightarrow> (r, w\<lparr>w_db := db\<rparr>))"

definition http_execute :: "env \<Rightarrow> call \<Rightarrow> request \<Rightarrow> (http_error + upstream) flow" where
  "http_execute E c rq = do {
     update_by (\<lambda>w. w\<lparr>w_calls := w_calls w @ [c]\<rparr>);
     t \<leftarrow> next_tick;
     ret (env_execute E t rq) }"

text \<open>One write under the entry's lock, at the time the clock says.\<close>

definition runtime_write :: "env \<Rightarrow> runtime_op \<Rightarrow> unit flow" where
  "runtime_write E x = do {
     now \<leftarrow> read_clock E;
     update_by (\<lambda>w. w\<lparr>w_runtime := run_op x now (w_runtime w)\<rparr>) }"

definition runtime_entry :: "string \<Rightarrow> runtime_state flow" where
  "runtime_entry k = gets (\<lambda>w. unwrap_or (dm_get (w_runtime w) k) default_runtime)"

text \<open>\<open>std::time::Duration::as_millis() as i64\<close>.\<close>

definition millis_between :: "instant \<Rightarrow> instant \<Rightarrow> int" where
  "millis_between a b = int ((b - a) div 1000000)"

end
