(* ===== verification/Quota.thy ===== *)
theory Quota
  imports World
begin

text \<open>
  \<open>src/telemetry/limits.rs\<close>: the quota headers remembered per provider and the
  report \<open>GET /v1/limits\<close> gives, which shows for every pool member the state the
  failover loop will go by.
\<close>

section \<open>Remembering headers\<close>

definition MAX_HEADERS :: nat where
  "MAX_HEADERS = 32"

definition MAX_VALUE_LEN :: nat where
  "MAX_VALUE_LEN = 64"

definition is_limit_header :: "string \<Rightarrow> bool" where
  "is_limit_header name \<longleftrightarrow>
     starts_with name ''x-codex-primary-'' \<or> starts_with name ''x-codex-secondary-''
   \<or> starts_with name ''x-codex-credits-'' \<or> starts_with name ''x-ratelimit-''
   \<or> starts_with name ''anthropic-ratelimit-''"

text \<open>The map grows entry by entry; the loop stops at the first header past the limit.\<close>

fun limit_values_from :: "headers \<Rightarrow> (string, string) dmap \<Rightarrow> (string, string) dmap" where
  "limit_values_from [] out = out"
| "limit_values_from ((name, v) # h) out =
     (if \<not> is_limit_header name then limit_values_from h out
      else (case header_text v of
              None \<Rightarrow> limit_values_from h out
            | Some t \<Rightarrow>
                if MAX_VALUE_LEN < length t then limit_values_from h out
                else if MAX_HEADERS \<le> length out then out
                else limit_values_from h (dm_put name t out)))"

definition limit_values :: "headers \<Rightarrow> (string, string) dmap" where
  "limit_values h = limit_values_from h []"

definition capture :: "env \<Rightarrow> string \<Rightarrow> headers \<Rightarrow> unit flow" where
  "capture E i h =
     (let values = limit_values h
      in if values = [] then ret ()
         else do {
           seen \<leftarrow> read_wall E;
           update_by (\<lambda>w. w\<lparr>w_limits := dm_put i \<lparr>ls_observed_at = seen, ls_values = values\<rparr> (w_limits w)\<rparr>) })"

section \<open>The report\<close>

text \<open>\<open>max_by_key\<close> returns the last of several maxima.\<close>

definition later_max :: "runtime_state \<Rightarrow> runtime_state option \<Rightarrow> runtime_state option" where
  "later_max c best =
     (case best of
        None \<Rightarrow> Some c
      | Some b \<Rightarrow>
          if status b < status c \<or> (status b = status c \<and> backoff_level b \<le> backoff_level c)
          then Some c else Some b)"

definition worst_unavailable_state :: "runtime_map \<Rightarrow> string \<Rightarrow> instant \<Rightarrow> runtime_state option" where
  "worst_unavailable_state m i now =
     fold later_max
       (filter (\<lambda>st. \<not> is_available st now)
         (map snd (filter (\<lambda>e. starts_with (fst e) (runtime_key_prefix i)) m))) None"

fun provider_status_text :: "provider_status \<Rightarrow> string" where
  "provider_status_text Healthy = ''healthy''"
| "provider_status_text Cooling = ''cooling''"
| "provider_status_text Misconfigured = ''misconfigured''"

definition state_fields :: "runtime_state option \<Rightarrow> instant \<Rightarrow> (string \<times> json) list" where
  "state_fields st now =
     (let (available, shown, retry) =
        (case opt_filter (\<lambda>st. \<not> is_available st now) st of
           Some st \<Rightarrow> (False, provider_status_text (status st), map_option as_secs (retry_in st now))
         | None \<Rightarrow> (True, ''healthy'', None))
      in [(''available'', JBool available), (''status'', JStr shown),
          (''retry_in_seconds'', case retry of Some s \<Rightarrow> JNum (PosInt s) | None \<Rightarrow> JNull)])"

definition provider_report ::
  "(timestamp \<Rightarrow> string) \<Rightarrow> runtime_map \<Rightarrow> (string, limit_snapshot) dmap \<Rightarrow> string \<Rightarrow> instant \<Rightarrow> json" where
  "provider_report rfc3339 m limits i now =
     jobj (state_fields (worst_unavailable_state m i now) now @
       [(''rate_limits'', case dm_get limits i of
           Some s \<Rightarrow> jobj (map (\<lambda>(k, v). (k, JStr v)) (ls_values s)) | None \<Rightarrow> JNull),
        (''observed_at'', case dm_get limits i of
           Some s \<Rightarrow> JStr (rfc3339 (ls_observed_at s)) | None \<Rightarrow> JNull)])"

definition member_fields :: "runtime_map \<Rightarrow> string \<Rightarrow> string \<Rightarrow> instant \<Rightarrow> (string \<times> json) list" where
  "member_fields m i model now = state_fields (dm_get m (runtime_key i model)) now"

definition member_report :: "runtime_map \<Rightarrow> string \<Rightarrow> string \<Rightarrow> instant \<Rightarrow> json" where
  "member_report m i model now = jobj (member_fields m i model now)"

text \<open>The model a member is called with, if its provider still exists.\<close>

definition member_model :: "config_snapshot \<Rightarrow> pool_member \<Rightarrow> string option" where
  "member_model s m =
     opt_or (mem_model_override m) (map_option prov_upstream_model (find_provider s (mem_provider_id m)))"

text \<open>\<open>v["member"] = json!(i + 1)\<close>.\<close>

definition numbered :: "nat \<Rightarrow> json \<Rightarrow> json" where
  "numbered n v = (case v of JObj m \<Rightarrow> JObj (obj_insert ''member'' (JNum (PosInt n)) m) | _ \<Rightarrow> v)"

definition pool_report ::
  "(timestamp \<Rightarrow> string) \<Rightarrow> config_snapshot \<Rightarrow> runtime_map \<Rightarrow> (string, limit_snapshot) dmap \<Rightarrow>
     instant \<Rightarrow> pool_with_members \<Rightarrow> json" where
  "pool_report rfc3339 s m limits now p =
     jobj [(''id'', JStr (pool_id (pwm_pool p))),
       (''members'', JArr (map (\<lambda>(i, mem). numbered (i + 1)
          (case member_model s mem of
             Some model \<Rightarrow> member_report m (mem_provider_id mem) model now
           | None \<Rightarrow> provider_report rfc3339 m limits (mem_provider_id mem) now))
          (enumerate 0 (pwm_members p))))]"

definition limits_route ::
  "(timestamp \<Rightarrow> string) \<Rightarrow> config_snapshot \<Rightarrow> discovered_map \<Rightarrow> runtime_map \<Rightarrow>
     (string, limit_snapshot) dmap \<Rightarrow> instant \<Rightarrow> json" where
  "limits_route rfc3339 s discovered m limits now =
     jobj [(''object'', JStr ''limits''),
       (''providers'', jobj (map (\<lambda>(i, _). (i, provider_report rfc3339 m limits i now))
          (filter (\<lambda>(_, models). models \<noteq> []) discovered))),
       (''pools'', JArr (map (pool_report rfc3339 s m limits now)
          (filter (\<lambda>p. pool_modality (pwm_pool p) = Chat) (snap_pools s))))]"

section \<open>The store of headers stays small\<close>

lemma length_dm_put: "length (dm_put k v m) \<le> Suc (length m)"
  by (induction m) (auto simp: dm_put_def)

lemma set_dm_put: "(j, v') \<in> set (dm_put k v m) \<Longrightarrow> (j, v') = (k, v) \<or> (j, v') \<in> set m"
  by (induction m) (auto simp: dm_put_def split: if_splits)

lemma extract_from_length: "length out \<le> MAX_HEADERS \<Longrightarrow> length (limit_values_from h out) \<le> MAX_HEADERS"
proof (induction h out rule: limit_values_from.induct)
  case (2 name v h out)
  have "length (dm_put name t out) \<le> MAX_HEADERS" if "\<not> MAX_HEADERS \<le> length out" for t
    using length_dm_put [of name t out] that by simp
  with 2 show ?case by (auto split: option.split)
qed simp

lemma extract_from_entries:
  "(k, t) \<in> set (limit_values_from h out) \<Longrightarrow>
     (k, t) \<in> set out \<or> (is_limit_header k \<and> length t \<le> MAX_VALUE_LEN \<and> (k, t) \<in> set h)"
proof (induction h out rule: limit_values_from.induct)
  case (2 name v h out)
  have v: "header_text v = Some t' \<Longrightarrow> v = t'" for t' by (simp add: header_text_def split: if_splits)
  from 2 v show ?case by (auto split: if_splits option.splits dest: set_dm_put)
qed simp

section \<open>The report agrees with the failover loop\<close>

lemma state_fields_names:
  "map fst (state_fields st now) = [''available'', ''status'', ''retry_in_seconds'']"
  by (simp add: state_fields_def Let_def split: prod.split)

lemma map_of_member_fields:
  "map_of (member_fields m i model now) ''available'' = Some (JBool (callable m (runtime_key i model) now))"
  by (cases "dm_get m (runtime_key i model)")
    (auto simp: member_fields_def state_fields_def callable_def Let_def split: option.split)

lemma jget_jobj_distinct: "distinct (map fst kvs) \<Longrightarrow> jget (jobj kvs) k = map_of kvs k"
proof -
  assume "distinct (map fst kvs)"
  then have "map_of (rev kvs) = map_of kvs"
    by (intro map_of_eqI) (auto simp: map_of_eq_Some_iff rev_map [symmetric] dom_map_of_conv_image_fst)
  then show ?thesis by (simp add: jget_jobj)
qed

lemma member_report_available:
  "jget (member_report m i model now) ''available'' = Some (JBool (callable m (runtime_key i model) now))"
proof -
  have "distinct (map fst (member_fields m i model now))"
    by (simp add: member_fields_def state_fields_names)
  then show ?thesis by (simp add: member_report_def jget_jobj_distinct map_of_member_fields)
qed

lemma later_max_not_None: "fold later_max xs (Some b) \<noteq> None"
  by (induction xs arbitrary: b) (auto simp: later_max_def split: if_splits)

lemma worst_unavailable_None:
  "worst_unavailable_state m i now = None \<longleftrightarrow>
     (\<forall>k st. (k, st) \<in> set m \<longrightarrow> starts_with k (runtime_key_prefix i) \<longrightarrow> is_available st now)"
proof -
  have "fold later_max xs None = None \<longleftrightarrow> xs = []" for xs
    using later_max_not_None by (cases xs) (auto simp: later_max_def)
  then show ?thesis
    by (auto simp: worst_unavailable_state_def filter_empty_conv)
qed

text \<open>A provider is shown as available exactly when every pair on it may be called.\<close>

lemma provider_report_available:
  "jget (provider_report rfc m limits i now) ''available'' = Some (JBool
     (\<forall>k st. (k, st) \<in> set m \<longrightarrow> starts_with k (runtime_key_prefix i) \<longrightarrow> is_available st now))"
proof -
  let ?w = "worst_unavailable_state m i now"
  have na: "\<not> is_available b now" if "fold later_max xs None = Some b" "\<forall>x\<in>set xs. \<not> is_available x now" for xs b
  proof -
    have "\<not> is_available b now" if "fold later_max xs a = Some b" "\<forall>x\<in>set xs. \<not> is_available x now"
      "\<And>c. a = Some c \<Longrightarrow> \<not> is_available c now" for a
      using that
    proof (induction xs arbitrary: a)
      case (Cons x xs)
      have "\<And>c. later_max x a = Some c \<Longrightarrow> \<not> is_available c now"
        using Cons.prems by (auto simp: later_max_def split: option.splits if_splits)
      with Cons show ?case by simp
    qed simp
    with that show ?thesis by blast
  qed
  have w: "\<not> is_available st now" if "?w = Some st" for st
    using that unfolding worst_unavailable_state_def by (rule na) simp
  have "opt_filter (\<lambda>st. \<not> is_available st now) ?w = ?w"
    using w by (cases ?w) auto
  then have "map_of (state_fields ?w now) ''available'' = Some (JBool (?w = None))"
    by (cases ?w) (simp_all add: state_fields_def)
  moreover have "distinct (map fst (state_fields ?w now @ [(''rate_limits'', a), (''observed_at'', b)]))" for a b
    unfolding map_append state_fields_names by simp
  ultimately show ?thesis
    unfolding provider_report_def by (simp add: jget_jobj_distinct worst_unavailable_None [symmetric])
qed

end
