(* ===== verification/Refresh.thy ===== *)
theory Refresh
  imports Quota
begin

text \<open>
  Renewing an OAuth credential: \<open>src/providers/adapter/codex/refresh.rs\<close>, the refresh
  operations of the three adapters, \<open>src/providers/refresh_lock.rs\<close> and
  \<open>src/providers/refresh_task.rs\<close>.  A refresh spends a single-use token upstream before
  the new one is stored, so what matters is that it happens at most once per token and
  that what is handed on is what was stored.  The per-provider lock runs the refreshers
  of one provider one after the other; each may hold credentials read long before.
\<close>

section \<open>The adapters\<close>

definition REFRESH_LEAD :: int where
  "REFRESH_LEAD = 5 * 60 * int nanos_per_sec"

definition codex_needs_refresh :: "credentials \<Rightarrow> timestamp \<Rightarrow> bool" where
  "codex_needs_refresh creds now =
     (case cr_access_expires_at creds of Some t \<Rightarrow> t - now \<le> REFRESH_LEAD | None \<Rightarrow> True)"

definition needs_refresh :: "provider_kind \<Rightarrow> credentials \<Rightarrow> timestamp \<Rightarrow> bool" where
  "needs_refresh kind creds now = (kind = OauthCodex \<and> codex_needs_refresh creds now)"

definition CODEX_CLIENT_ID :: string where
  "CODEX_CLIENT_ID = ''app_EMoamEEZ73f0CkXaXp7hrann''"

record token_set =
  ts_access_token :: string
  ts_refresh_token :: "string option"
  ts_id_token :: "string option"
  ts_expires_in :: "int option"

definition refresh_body :: "string \<Rightarrow> json" where
  "refresh_body refresh_token = jobj
     [(''grant_type'', JStr ''refresh_token''), (''refresh_token'', JStr refresh_token),
      (''client_id'', JStr CODEX_CLIENT_ID),
      (''scope'', JStr ''openid profile email offline_access'')]"

definition token_set_of :: "json \<Rightarrow> token_set" where
  "token_set_of j = \<lparr>ts_access_token = unwrap_or (as_str (jidx j ''access_token'')) [],
     ts_refresh_token = as_str (jidx j ''refresh_token''), ts_id_token = as_str (jidx j ''id_token''),
     ts_expires_in = as_i64 (jidx j ''expires_in'')\<rparr>"

definition read_token_set :: "env \<Rightarrow> upstream \<Rightarrow> refresh_error + token_set" where
  "read_token_set E up =
     (if \<not> is_success (up_status up)
      then (let text = read_text_truncated up MAX_ERROR_BODY
            in if contains text ''invalid_grant'' then Inl InvalidGrant
               else Inl (Transient (''refresh failed: '' @ text)))
      else (case (case up_error up of Some e \<Rightarrow> Inl e | None \<Rightarrow> env_parse_json E (concat (up_chunks up))) of
              Inl e \<Rightarrow> Inl (Transient (''refresh parse: '' @ e))
            | Inr j \<Rightarrow> Inr (token_set_of j)))"

definition refresh_tokens :: "env \<Rightarrow> string \<Rightarrow> string \<Rightarrow> (refresh_error + token_set) flow" where
  "refresh_tokens E i refresh_token = do {
     sent \<leftarrow> http_execute E (RefreshCall i refresh_token)
       \<lparr>rq_url = env_token_url E, rq_headers = [(''content-type'', ''application/json'')],
        rq_body = env_print_json E (refresh_body refresh_token)\<rparr>;
     case sent of
       Inl e \<Rightarrow> fail_ret (Transient (''refresh request failed: '' @ he_text e))
     | Inr up \<Rightarrow> check (read_token_set E up) }"

text \<open>\<open>Utc::now() + Duration::seconds(s)\<close> panics outside the range of the calendar.\<close>

definition renewed :: "env \<Rightarrow> timestamp \<Rightarrow> credentials \<Rightarrow> token_set \<Rightarrow> credentials outcome" where
  "renewed E now creds t =
     (case (case ts_expires_in t of
              None \<Rightarrow> Some None
            | Some s \<Rightarrow> map_option Some (env_add_seconds E now s)) of
        None \<Rightarrow> Panicked
      | Some expiry \<Rightarrow> Done \<lparr>cr_api_key = None, cr_access_token = Some (ts_access_token t),
          cr_refresh_token = opt_or (ts_refresh_token t) (cr_refresh_token creds),
          cr_id_token = opt_or (ts_id_token t) (cr_id_token creds),
          cr_access_expires_at = expiry, cr_provider_data = cr_provider_data creds\<rparr>)"

definition codex_refresh_credentials ::
  "env \<Rightarrow> string \<Rightarrow> credentials \<Rightarrow> (refresh_error + credentials) outcome flow" where
  "codex_refresh_credentials E i creds =
     (case cr_refresh_token creds of
        None \<Rightarrow> ret (Done (Inl InvalidGrant))
      | Some rt \<Rightarrow> do {
          tokens \<leftarrow> refresh_tokens E i rt;
          case tokens of
            Inl e \<Rightarrow> ret (Done (Inl e))
          | Inr t \<Rightarrow> do {
              now \<leftarrow> read_wall E;
              ret (case renewed E now creds t of Done c \<Rightarrow> Done (Inr c) | Panicked \<Rightarrow> Panicked) } })"

definition http_refresh_credentials :: "credentials \<Rightarrow> (refresh_error + credentials) outcome flow" where
  "http_refresh_credentials _ = ret (Done (Inl (Transient ''passthrough has no refresh'')))"

definition commandcode_refresh_credentials :: "credentials \<Rightarrow> (refresh_error + credentials) outcome flow" where
  "commandcode_refresh_credentials creds = ret (Done (Inr creds))"

text \<open>The method of the adapter \<open>adapter_for_wire\<close> makes for a provider.\<close>

definition refresh_credentials ::
  "env \<Rightarrow> provider \<Rightarrow> credentials \<Rightarrow> (refresh_error + credentials) outcome flow" where
  "refresh_credentials E p creds =
     (case prov_kind p of
        Passthrough \<Rightarrow> http_refresh_credentials creds
      | OauthCommandCode \<Rightarrow> commandcode_refresh_credentials creds
      | OauthCodex \<Rightarrow> codex_refresh_credentials E (prov_id p) creds)"

section \<open>Refreshing under the lock\<close>

definition PERSIST_RETRIES :: nat where
  "PERSIST_RETRIES = 3"

definition tokens_of :: "credentials \<Rightarrow> token_values" where
  "tokens_of c = \<lparr>tok_access = cr_access_token c, tok_refresh = cr_refresh_token c,
     tok_id = cr_id_token c, tok_expires = cr_access_expires_at c, tok_data = cr_provider_data c\<rparr>"

definition persist_once :: "env \<Rightarrow> string \<Rightarrow> credentials \<Rightarrow> (world, app_error + unit) state" where
  "persist_once E i c = do {
     now \<leftarrow> read_wall E;
     on_database (upsert_oauth_tokens now i (tokens_of c)) }"

text \<open>The loop of writes: \<open>n\<close> more attempts after this one.\<close>

fun persist :: "env \<Rightarrow> nat \<Rightarrow> string \<Rightarrow> credentials \<Rightarrow> (refresh_error + credentials) flow" where
  "persist E 0 i c = do {
     persisted \<leftarrow> persist_once E i c;
     case persisted of
       Inr _ \<Rightarrow> ok_ret c
     | Inl e \<Rightarrow> fail_ret (Transient (''persist refreshed tokens: '' @ app_error_text (env_status_text E) e)) }"
| "persist E (Suc n) i c = do {
     persisted \<leftarrow> persist_once E i c;
     case persisted of Inr _ \<Rightarrow> ok_ret c | Inl _ \<Rightarrow> persist E n i c }"

text \<open>Somebody refreshed while this caller waited: the stored token is not the one it read.\<close>

definition superseded :: "credentials \<Rightarrow> oauth_state \<Rightarrow> bool" where
  "superseded creds current \<longleftrightarrow>
     os_access_token current \<noteq> None \<and> os_access_token current \<noteq> cr_access_token creds"

definition refresh_and_persist ::
  "env \<Rightarrow> provider \<Rightarrow> credentials \<Rightarrow> (refresh_error + credentials) outcome flow" where
  "refresh_and_persist E p creds = do {
     stored \<leftarrow> on_database (get_oauth_state (prov_id p));
     case opt_filter (superseded creds) (case stored of Inr (Some os) \<Rightarrow> Some os | _ \<Rightarrow> None) of
       Some current \<Rightarrow> ret (Done (Inr (from_provider_and_oauth p (Some current))))
     | None \<Rightarrow> do {
         refreshed \<leftarrow> refresh_credentials E p creds;
         case refreshed of
           Panicked \<Rightarrow> ret Panicked
         | Done (Inl e) \<Rightarrow> ret (Done (Inl e))
         | Done (Inr c) \<Rightarrow> do { r \<leftarrow> persist E PERSIST_RETRIES (prov_id p) c; ret (Done r) } } }"

text \<open>On a task of its own: a panic comes back as a join error.\<close>

definition refresh_and_persist_detached ::
  "env \<Rightarrow> provider \<Rightarrow> credentials \<Rightarrow> (refresh_error + credentials) flow" where
  "refresh_and_persist_detached E p creds = do {
     r \<leftarrow> refresh_and_persist E p creds;
     ret (case r of Done res \<Rightarrow> res
          | Panicked \<Rightarrow> Inl (Transient (''refresh task failed: '' @ env_panic_text E))) }"

section \<open>The background task\<close>

text \<open>One provider of \<open>refresh_due_providers\<close>; a panic ends the task for good.\<close>

definition refresh_if_due :: "env \<Rightarrow> provider \<Rightarrow> unit outcome flow" where
  "refresh_if_due E p =
     (if prov_kind p \<noteq> OauthCodex then ret (Done ())
      else do {
        stored \<leftarrow> on_database (get_oauth_state (prov_id p));
        case stored of
          Inr (Some os) \<Rightarrow>
            (let creds = from_provider_and_oauth p (Some os)
             in do {
               now \<leftarrow> read_wall E;
               if \<not> needs_refresh (prov_kind p) creds now then ret (Done ())
               else do {
                 r \<leftarrow> refresh_and_persist E p creds;
                 case r of
                   Done (Inl InvalidGrant) \<Rightarrow> do { runtime_write E (OpDoomProvider (prov_id p)); ret (Done ()) }
                 | Done _ \<Rightarrow> ret (Done ())
                 | Panicked \<Rightarrow> ret Panicked } })
        | _ \<Rightarrow> ret (Done ()) })"

fun refresh_each :: "env \<Rightarrow> provider list \<Rightarrow> unit outcome flow" where
  "refresh_each E [] = ret (Done ())"
| "refresh_each E (p # ps) = do {
     r \<leftarrow> refresh_if_due E p;
     case r of Done _ \<Rightarrow> refresh_each E ps | Panicked \<Rightarrow> ret Panicked }"

definition refresh_due_providers :: "env \<Rightarrow> unit outcome flow" where
  "refresh_due_providers E = do {
     s \<leftarrow> on_database load_snapshot;
     case s of Inl _ \<Rightarrow> ret (Done ()) | Inr s \<Rightarrow> refresh_each E (snap_providers s) }"

section \<open>What is handed on is what is stored\<close>

lemma run_on_database:
  "run_state (on_database q) w = (fst (run_state q (w_db w)), w\<lparr>w_db := snd (run_state q (w_db w))\<rparr>)"
  by (simp add: on_database_def split: prod.split)

lemma run_ticks [simp]:
  "run_state next_tick w = (w_tick w, w\<lparr>w_tick := Suc (w_tick w)\<rparr>)"
  "run_state (read_clock E) w = (env_now E (w_tick w), w\<lparr>w_tick := Suc (w_tick w)\<rparr>)"
  "run_state (read_wall E) w = (env_wall E (w_tick w), w\<lparr>w_tick := Suc (w_tick w)\<rparr>)"
  by (simp_all add: next_tick_def read_clock_def read_wall_def)

lemma run_http_execute [simp]:
  "run_state (http_execute E c rq) w =
     (env_execute E (w_tick w) rq, w\<lparr>w_calls := w_calls w @ [c], w_tick := Suc (w_tick w)\<rparr>)"
  by (simp add: http_execute_def)

lemma run_runtime_write [simp]:
  "run_state (runtime_write E x) w =
     ((), w\<lparr>w_tick := Suc (w_tick w), w_runtime := run_op x (env_now E (w_tick w)) (w_runtime w)\<rparr>)"
  by (simp add: runtime_write_def)

definition holds_tokens :: "oauth_state \<Rightarrow> credentials \<Rightarrow> bool" where
  "holds_tokens os c \<longleftrightarrow>
     os_access_token os = cr_access_token c \<and> os_refresh_token os = cr_refresh_token c
   \<and> os_id_token os = cr_id_token c \<and> os_access_expires_at os = cr_access_expires_at c
   \<and> os_provider_data os = cr_provider_data c"

definition stored_as :: "string \<Rightarrow> credentials \<Rightarrow> database \<Rightarrow> bool" where
  "stored_as i c db \<longleftrightarrow> (\<exists>os. row_with os_provider_id i (t_oauth db) = Some os \<and> holds_tokens os c)"

lemma find_append_None: "find P xs = None \<Longrightarrow> find P (xs @ ys) = find P ys"
  by (induction xs) (auto split: if_splits)

lemma row_with_update_at:
  assumes "\<And>r. f (g r) = f r"
  shows "row_with f k (update_where (\<lambda>r. f r = k) g rs) = map_option g (row_with f k rs)"
  using row_with_update_where [of "\<lambda>r. f r = k" f g k rs] row_with_SomeD [of f k rs] assms
  by (cases "row_with f k rs") simp_all

lemma set_tokens_holds: "holds_tokens (set_tokens now (tokens_of c) os) c"
  by (simp add: holds_tokens_def set_tokens_def tokens_of_def)

lemma upsert_stored:
  assumes "upsert_oauth_row i now (set_tokens now (tokens_of c)) db = Inr ((), db')"
  shows "stored_as i c db'"
proof (cases "i \<in> os_provider_id ` set (t_oauth db)")
  case True
  have keep: "os_provider_id (set_tokens now (tokens_of c) r) = os_provider_id r" for r
    by (simp add: set_tokens_def)
  from True obtain os where "row_with os_provider_id i (t_oauth db) = Some os"
    using row_with_None [of os_provider_id i "t_oauth db"] by (cases "row_with os_provider_id i (t_oauth db)") auto
  with True assms row_with_update_at [of os_provider_id "set_tokens now (tokens_of c)", OF keep] show ?thesis
    by (auto simp: upsert_oauth_row_def stored_as_def set_tokens_holds)
next
  case False
  then have none: "find (\<lambda>r. os_provider_id r = i) (t_oauth db) = None" by (auto simp: find_None_iff)
  have "os_provider_id (set_tokens now (tokens_of c) (fresh_oauth i now)) = i"
    by (simp add: set_tokens_def fresh_oauth_def)
  with False none assms show ?thesis
    by (auto simp: upsert_oauth_row_def stored_as_def row_with_def find_append_None set_tokens_holds split: if_splits)
qed

lemma stored_as_blind [simp]: "stored_as i c (db\<lparr>db_faults := fs\<rparr>) = stored_as i c db"
  by (simp add: stored_as_def)

lemma run_persist_once_cases:
  obtains e where "run_state (persist_once E i c) w = (Inl (DbError e),
      w\<lparr>w_tick := Suc (w_tick w), w_db := (w_db w)\<lparr>db_faults := tl (db_faults (w_db w))\<rparr>\<rparr>)"
  | db' where "run_state (persist_once E i c) w = (Inr (), w\<lparr>w_tick := Suc (w_tick w), w_db := db'\<rparr>)"
      "stored_as i c db'"
proof -
  let ?f = "upsert_oauth_row i (env_wall E (w_tick w)) (set_tokens (env_wall E (w_tick w)) (tokens_of c))"
  show thesis
    by (rule run_query_stmt_cases [of ?f "w_db w"])
      (use that upsert_stored in \<open>auto simp: persist_once_def run_on_database upsert_oauth_tokens_def\<close>)
qed

lemma persist_stores:
  "run_state (persist E n i c) w = (Inr c', w') \<Longrightarrow> c' = c \<and> stored_as i c (w_db w') \<and> w_calls w' = w_calls w"
proof (induction n arbitrary: w)
  case 0
  show ?case by (rule run_persist_once_cases [of E i c w]) (use 0 in auto)
next
  case (Suc n)
  show ?case
  proof (rule run_persist_once_cases [of E i c w])
    fix e assume "run_state (persist_once E i c) w = (Inl (DbError e),
        w\<lparr>w_tick := Suc (w_tick w), w_db := (w_db w)\<lparr>db_faults := tl (db_faults (w_db w))\<rparr>\<rparr>)"
    with Suc.prems have "run_state (persist E n i c)
        (w\<lparr>w_tick := Suc (w_tick w), w_db := (w_db w)\<lparr>db_faults := tl (db_faults (w_db w))\<rparr>\<rparr>) = (Inr c', w')"
      by simp
    from Suc.IH [OF this] show ?thesis by simp
  qed (use Suc.prems in auto)
qed

lemma persist_calls: "w_calls (snd (run_state (persist E n i c) w)) = w_calls w"
proof (induction n arbitrary: w)
  case 0
  show ?case by (rule run_persist_once_cases [of E i c w]) auto
next
  case (Suc n)
  show ?case
    by (rule run_persist_once_cases [of E i c w]) (simp_all add: Suc.IH)
qed

text \<open>A rotated token survives any three consecutive failures of the database.\<close>

definition leading_faults :: "database \<Rightarrow> nat" where
  "leading_faults db = length (takeWhile (\<lambda>f. f \<noteq> None) (db_faults db))"

lemma run_persist_once_faults:
  assumes "i \<in> prov_id ` set (t_providers (w_db w))"
  shows "leading_faults (w_db w) = 0 \<Longrightarrow> \<exists>w'. run_state (persist_once E i c) w = (Inr (), w')"
    and "leading_faults (w_db w) = Suc n \<Longrightarrow> \<exists>e w'. run_state (persist_once E i c) w = (Inl e, w')
        \<and> leading_faults (w_db w') = n \<and> t_providers (w_db w') = t_providers (w_db w)"
proof -
  let ?g = "set_tokens (env_wall E (w_tick w)) (tokens_of c)"
  have up: "\<exists>db'. upsert_oauth_row i now g ((w_db w)\<lparr>db_faults := fs\<rparr>) = Inr ((), db')" for now g fs
    using assms by (simp add: upsert_oauth_row_def)
  have ok: "\<exists>w'. run_state (persist_once E i c) w = (Inr (), w')" if "\<nexists>e fs. db_faults (w_db w) = Some e # fs"
    using up [of "env_wall E (w_tick w)" ?g "tl (db_faults (w_db w))"] that
    by (auto simp: persist_once_def run_on_database upsert_oauth_tokens_def query_stmt_def statement_def Let_def
        split: list.splits option.splits)
  show "leading_faults (w_db w) = 0 \<Longrightarrow> \<exists>w'. run_state (persist_once E i c) w = (Inr (), w')"
    by (rule ok) (auto simp: leading_faults_def)
  assume lead: "leading_faults (w_db w) = Suc n"
  then obtain e fs where "db_faults (w_db w) = Some e # fs"
    by (cases "db_faults (w_db w)") (auto simp: leading_faults_def split: if_splits)
  with lead show "\<exists>e w'. run_state (persist_once E i c) w = (Inl e, w')
      \<and> leading_faults (w_db w') = n \<and> t_providers (w_db w') = t_providers (w_db w)"
    by (simp add: leading_faults_def persist_once_def run_on_database upsert_oauth_tokens_def
        query_stmt_def statement_def)
qed

lemma persist_survives:
  assumes "i \<in> prov_id ` set (t_providers (w_db w))" and "leading_faults (w_db w) \<le> n"
  shows "\<exists>w'. run_state (persist E n i c) w = (Inr c, w')"
  using assms
proof (induction n arbitrary: w)
  case 0
  with run_persist_once_faults(1) [of i w E c] show ?case by auto
next
  case (Suc n)
  show ?case
  proof (cases "leading_faults (w_db w)")
    case 0
    with run_persist_once_faults(1) [of i w E c] Suc.prems show ?thesis by auto
  next
    case (Suc m)
    with run_persist_once_faults(2) [OF Suc.prems(1) Suc, of E c] obtain e w1
      where "run_state (persist_once E i c) w = (Inl e, w1)" "leading_faults (w_db w1) = m"
        "t_providers (w_db w1) = t_providers (w_db w)" by blast
    with Suc Suc.prems Suc.IH [of w1] show ?thesis by simp
  qed
qed

lemma get_oauth_reads: "reads (get_oauth_state i) (\<lambda>db. row_with os_provider_id i (t_oauth db))"
  unfolding get_oauth_state_def by (rule reads_fetch) simp

lemma stored_as_from_oauth:
  "row_with os_provider_id i (t_oauth db) = Some os \<Longrightarrow> stored_as i (from_provider_and_oauth p (Some os)) db"
  by (auto simp: stored_as_def holds_tokens_def from_provider_and_oauth_def)

lemma refresh_tokens_call:
  "w_calls (snd (run_state (refresh_tokens E i rt) w)) = w_calls w @ [RefreshCall i rt]"
  "w_db (snd (run_state (refresh_tokens E i rt) w)) = w_db w"
  by (auto simp: refresh_tokens_def split: sum.split)

definition one_refresh :: "provider \<Rightarrow> credentials \<Rightarrow> call list \<Rightarrow> bool" where
  "one_refresh p creds cs \<longleftrightarrow> cs = []
     \<or> (\<exists>rt. prov_kind p = OauthCodex \<and> cr_refresh_token creds = Some rt \<and> cs = [RefreshCall (prov_id p) rt])"

lemma codex_refresh_run:
  assumes rt: "cr_refresh_token creds = Some rt"
  shows "w_calls (snd (run_state (codex_refresh_credentials E i creds) w)) = w_calls w @ [RefreshCall i rt]
     \<and> w_db (snd (run_state (codex_refresh_credentials E i creds) w)) = w_db w"
proof -
  obtain r w1 where run: "run_state (refresh_tokens E i rt) w = (r, w1)"
    by (cases "run_state (refresh_tokens E i rt) w")
  with refresh_tokens_call [of E i rt w] have w1: "w_calls w1 = w_calls w @ [RefreshCall i rt]" "w_db w1 = w_db w"
    by simp_all
  show ?thesis
  proof (cases r)
    case (Inl e)
    with run w1 show ?thesis by (simp add: codex_refresh_credentials_def rt)
  next
    case (Inr t)
    with run w1 show ?thesis by (simp add: codex_refresh_credentials_def rt)
  qed
qed

lemma refresh_credentials_call:
  "\<exists>cs. w_calls (snd (run_state (refresh_credentials E p creds) w)) = w_calls w @ cs \<and> one_refresh p creds cs"
  "w_db (snd (run_state (refresh_credentials E p creds) w)) = w_db w"
proof -
  have "(\<exists>cs. w_calls (snd (run_state (refresh_credentials E p creds) w)) = w_calls w @ cs \<and> one_refresh p creds cs)
      \<and> w_db (snd (run_state (refresh_credentials E p creds) w)) = w_db w"
  proof (cases "prov_kind p = OauthCodex \<and> cr_refresh_token creds \<noteq> None")
    case True
    then obtain rt where rt: "cr_refresh_token creds = Some rt" by auto
    from codex_refresh_run [OF this, of E "prov_id p" w] True show ?thesis
      by (intro conjI exI [of _ "[RefreshCall (prov_id p) rt]"]) (simp_all add: refresh_credentials_def one_refresh_def rt)
  next
    case False
    then show ?thesis
      by (intro conjI exI [of _ "[]"])
        (auto simp: refresh_credentials_def http_refresh_credentials_def commandcode_refresh_credentials_def codex_refresh_credentials_def one_refresh_def split: provider_kind.split)
  qed
  then show "\<exists>cs. w_calls (snd (run_state (refresh_credentials E p creds) w)) = w_calls w @ cs \<and> one_refresh p creds cs"
    and "w_db (snd (run_state (refresh_credentials E p creds) w)) = w_db w" by blast+
qed

text \<open>A waiter whose token was replaced meanwhile makes no call and gets what is stored.\<close>

lemma refresh_superseded:
  assumes "db_faults (w_db w) = []" and "row_with os_provider_id (prov_id p) (t_oauth (w_db w)) = Some os"
    and "superseded creds os"
  shows "run_state (refresh_and_persist E p creds) w = (Done (Inr (from_provider_and_oauth p (Some os))), w)"
  using readsD(4) [OF get_oauth_reads, of "w_db w" "prov_id p"] assms
  by (simp add: refresh_and_persist_def run_on_database)

text \<open>Whatever it returns is what the database now holds, and it called upstream at most once.\<close>

lemma refresh_and_persist_result:
  assumes run: "run_state (refresh_and_persist E p creds) w = (r, w')"
  shows "\<exists>cs. w_calls w' = w_calls w @ cs \<and> one_refresh p creds cs"
    and "r = Done (Inr c) \<Longrightarrow> stored_as (prov_id p) c (w_db w')"
proof -
  obtain stored db1 where q: "run_state (get_oauth_state (prov_id p)) (w_db w) = (stored, db1)"
    by (cases "run_state (get_oauth_state (prov_id p)) (w_db w)")
  with readsD(2) [OF get_oauth_reads, of "prov_id p" "w_db w"]
  obtain fs where db1: "db1 = (w_db w)\<lparr>db_faults := fs\<rparr>" by auto
  from q readsD(3) [OF get_oauth_reads, of "prov_id p" "w_db w"]
  have val: "\<And>a. stored = Inr a \<Longrightarrow> a = row_with os_provider_id (prov_id p) (t_oauth (w_db w))" by simp
  let ?w1 = "w\<lparr>w_db := db1\<rparr>"
  let ?cur = "opt_filter (superseded creds) (case stored of Inr (Some os) \<Rightarrow> Some os | _ \<Rightarrow> None)"
  have both: "(\<exists>cs. w_calls w' = w_calls w @ cs \<and> one_refresh p creds cs)
      \<and> (\<forall>c. r = Done (Inr c) \<longrightarrow> stored_as (prov_id p) c (w_db w'))"
  proof (cases ?cur)
    case (Some os)
    with val have "row_with os_provider_id (prov_id p) (t_oauth (w_db w)) = Some os"
      by (auto split: sum.splits option.splits)
    with Some run q db1 show ?thesis
      by (auto simp: refresh_and_persist_def run_on_database one_refresh_def stored_as_from_oauth)
  next
    case None
    obtain rc w2 where rc: "run_state (refresh_credentials E p creds) ?w1 = (rc, w2)"
      by (cases "run_state (refresh_credentials E p creds) ?w1")
    with refresh_credentials_call(1) [of E p creds ?w1]
    have calls: "\<exists>cs. w_calls w2 = w_calls w @ cs \<and> one_refresh p creds cs" by simp
    show ?thesis
    proof (cases "\<exists>c. rc = Done (Inr c)")
      case True
      then obtain c where c: "rc = Done (Inr c)" ..
      obtain pr w3 where pr: "run_state (persist E PERSIST_RETRIES (prov_id p) c) w2 = (pr, w3)"
        by (cases "run_state (persist E PERSIST_RETRIES (prov_id p) c) w2")
      from run q None rc c pr have res: "r = Done pr" "w' = w3"
        by (simp_all add: refresh_and_persist_def run_on_database)
      have "w_calls w3 = w_calls w2" using persist_calls [of E PERSIST_RETRIES "prov_id p" c w2] pr by simp
      moreover have "stored_as (prov_id p) c' (w_db w3)" if "pr = Inr c'" for c'
        using persist_stores pr that by blast
      ultimately show ?thesis using calls res by simp
    next
      case False
      have "w' = w2 \<and> (\<nexists>c. r = Done (Inr c))"
      proof (cases rc)
        case (Done res)
        with False obtain e where "rc = Done (Inl e)" by (cases res) auto
        with run q None rc show ?thesis by (auto simp add: refresh_and_persist_def run_on_database)
      next
        case Panicked
        with run q None rc show ?thesis by (auto simp add: refresh_and_persist_def run_on_database)
      qed
      with calls show ?thesis by simp
    qed
  qed
  then show "\<exists>cs. w_calls w' = w_calls w @ cs \<and> one_refresh p creds cs"
    and "r = Done (Inr c) \<Longrightarrow> stored_as (prov_id p) c (w_db w')" by blast+
qed

end
