(* ===== verification/Messages.thy ===== *)
theory Messages
  imports World
begin

text \<open>
  What the failover loop says: the answers \<open>src/proxy/error_response.rs\<close> and the
  second half of \<open>src/proxy/flow.rs\<close> build, the cooldown a spent quota announces in
  its body (\<open>src/media/codex_images.rs\<close>), and the debug headers, which name providers
  and therefore reach the administrator only.
\<close>

section \<open>Answers\<close>

definition wire_error_body :: "wire_format \<Rightarrow> string \<Rightarrow> json" where
  "wire_error_body wire message =
     (case wire of
        OpenAi \<Rightarrow> jobj [(''error'', jobj
          [(''message'', JStr message), (''type'', JStr ''invalid_request_error''),
           (''code'', JNull), (''param'', JNull)])]
      | Anthropic \<Rightarrow> jobj [(''type'', JStr ''error''), (''error'', jobj
          [(''type'', JStr ''invalid_request_error''), (''message'', JStr message)])])"

definition wire_error :: "wire_format \<Rightarrow> nat \<Rightarrow> string \<Rightarrow> response" where
  "wire_error wire code message =
     \<lparr>resp_status = code, resp_headers = [(''content-type'', ''application/json'')],
      resp_body = JsonBody (wire_error_body wire message)\<rparr>"

text \<open>\<open>HeaderValue::from_str\<close>: any byte but a control character other than a tab.\<close>

definition header_value :: "string \<Rightarrow> string option" where
  "header_value v =
     (if list_all (\<lambda>c. byte_of c = 9 \<or> (32 \<le> byte_of c \<and> byte_of c \<noteq> 127)) v then Some v else None)"

definition hdr_insert_valid :: "string \<Rightarrow> string \<Rightarrow> headers \<Rightarrow> headers" where
  "hdr_insert_valid k v h = (case header_value v of Some v \<Rightarrow> hdr_insert k v h | None \<Rightarrow> h)"

definition newlines_to_spaces :: "string \<Rightarrow> string" where
  "newlines_to_spaces = map (\<lambda>c. if c = char_of (10::nat) \<or> c = char_of (13::nat) then CHR '' '' else c)"

definition insert_debug_headers :: "string list \<Rightarrow> string \<Rightarrow> string \<Rightarrow> headers \<Rightarrow> headers" where
  "insert_debug_headers tried provider error h =
     hdr_insert_valid ''x-1router-error'' (newlines_to_spaces (take_chars 200 error))
       (hdr_insert_valid ''x-1router-provider'' provider
         (hdr_insert_valid ''x-1router-tried'' (join '','' tried) h))"

definition strip_debug_headers :: "headers \<Rightarrow> headers" where
  "strip_debug_headers h =
     fold hdr_remove [''x-1router-tried'', ''x-1router-provider'', ''x-1router-error''] h"

definition build_error_passthrough ::
  "nat \<Rightarrow> string \<Rightarrow> string list \<Rightarrow> string \<Rightarrow> string option \<Rightarrow> response" where
  "build_error_passthrough code text tried provider_id content_type =
     \<lparr>resp_status = code,
      resp_headers = insert_debug_headers tried provider_id text
        [(''content-type'', unwrap_or content_type ''text/plain; charset=utf-8'')],
      resp_body = RawBody text\<rparr>"

definition build_wire_error ::
  "wire_format \<Rightarrow> nat \<Rightarrow> string \<Rightarrow> string list \<Rightarrow> string \<Rightarrow> response" where
  "build_wire_error wire code text tried provider_id =
     (let r = wire_error wire code text
      in r\<lparr>resp_headers := insert_debug_headers tried provider_id text (resp_headers r)\<rparr>)"

section \<open>The members that were not asked\<close>

record skipped_member =
  sk_provider :: string
  sk_model :: string
  sk_status :: provider_status
  sk_retry_in :: duration
  sk_reason :: "string option"

definition fmt_wait :: "duration \<Rightarrow> string" where
  "fmt_wait d =
     (let s = as_secs d
      in if s \<le> 89 then show_nat s @ ''s''
         else if s \<le> 5399 then show_nat ((s + 30) div 60) @ ''m''
         else show_nat (s div 3600) @ ''h'' @ show_nat2 ((s mod 3600) div 60) @ ''m'')"

definition describe :: "skipped_member \<Rightarrow> string" where
  "describe m =
     sk_provider m @ ''/'' @ sk_model m @ '' ''
     @ (case sk_status m of Misconfigured \<Rightarrow> ''misconfigured'' | _ \<Rightarrow> ''cooling'')
     @ '' (retry in '' @ fmt_wait (sk_retry_in m) @ '')''
     @ (case sk_reason m of Some r \<Rightarrow> '': '' @ r | None \<Rightarrow> [])"

definition shortest_wait :: "skipped_member list \<Rightarrow> duration option" where
  "shortest_wait ms = (if ms = [] then None else Some (Min (set (map sk_retry_in ms))))"

definition first_reason :: "skipped_member list \<Rightarrow> string option" where
  "first_reason ms = (case List.map_filter sk_reason ms of [] \<Rightarrow> None | r # _ \<Rightarrow> Some r)"

definition unavailable_message ::
  "string \<Rightarrow> string list \<Rightarrow> skipped_member list \<Rightarrow> string \<Rightarrow> bool \<Rightarrow> string" where
  "unavailable_message pool tried skipped last_err admin =
     (if skipped = [] then last_err
      else if tried \<noteq> [] then
        last_err @ '' ('' @ show_nat (length skipped)
          @ '' more upstream member(s) skipped while cooling down.)''
      else
        ''no upstream provider available for '' @ quoted pool @ '': all ''
        @ show_nat (length skipped) @ '' are cooling down after earlier failures (next retry in ~''
        @ fmt_wait (unwrap_or (shortest_wait skipped) 0) @ '').''
        @ (if admin then
             '' Members: '' @ trim_end_char (CHR ''.'') (join ''; '' (map describe skipped)) @ ''.''
           else (case first_reason skipped of
                   Some why \<Rightarrow> '' Last upstream error: '' @ why
                 | None \<Rightarrow> [])))"

text \<open>The \<open>Retry-After\<close> of a request that found every member cooling.\<close>

definition retry_after_secs :: "duration \<Rightarrow> nat" where
  "retry_after_secs wait = max (as_secs wait) 1 + (if 0 < subsec_nanos wait then 1 else 0)"

definition unavailable ::
  "wire_format \<Rightarrow> string \<Rightarrow> string list \<Rightarrow> skipped_member list \<Rightarrow> string \<Rightarrow> string \<Rightarrow> bool \<Rightarrow> response" where
  "unavailable wire pool tried skipped last_provider last_err admin =
     (let r = wire_error wire 503 (unavailable_message pool tried skipped last_err admin);
          h = (case (if tried = [] then shortest_wait skipped else None) of
                 Some wait \<Rightarrow> hdr_insert ''retry-after'' (show_nat (retry_after_secs wait)) (resp_headers r)
               | None \<Rightarrow> resp_headers r)
      in r\<lparr>resp_headers := insert_debug_headers tried last_provider last_err h\<rparr>)"

section \<open>Cooldowns the upstream announces\<close>

definition MAX_USAGE_LIMIT_COOLDOWN :: duration where
  "MAX_USAGE_LIMIT_COOLDOWN = from_secs (6 * 60 * 60)"

definition usage_limit_field :: "json \<Rightarrow> string \<Rightarrow> rat option" where
  "usage_limit_field v key =
     Option.bind (opt_or (jget v key) (Option.bind (jget v ''error'') (\<lambda>e. jget e key))) as_f64"

text \<open>
  \<open>Duration::from_secs_f64\<close> rounds to the nearest nanosecond and panics from
  \<open>2 ^ 64\<close> seconds on, before the cap is applied.
\<close>

definition duration_from_secs_f64 :: "rat \<Rightarrow> duration outcome" where
  "duration_from_secs_f64 s =
     (if s < 2 ^ 64 then Done (nat (round_half_even (s * 1000000000))) else Panicked)"

definition usage_limit_cooldown :: "timestamp \<Rightarrow> json \<Rightarrow> duration option outcome" where
  "usage_limit_cooldown now v =
     (let timestamp = now div int nanos_per_sec
      in case opt_or (usage_limit_field v ''resets_in_seconds'')
                (map_option (\<lambda>t. f64_round (t - f64_round (of_int timestamp))) (usage_limit_field v ''resets_at'')) of
           None \<Rightarrow> Done None
         | Some secs \<Rightarrow>
             if 0 < secs
             then (case duration_from_secs_f64 secs of
                     Done d \<Rightarrow> Done (Some (min d MAX_USAGE_LIMIT_COOLDOWN))
                   | Panicked \<Rightarrow> Panicked)
             else Done None)"

definition is_upgrade_required :: "nat \<Rightarrow> string \<Rightarrow> bool" where
  "is_upgrade_required code text \<longleftrightarrow> code = 403 \<and> contains text ''upgrade_required''"

section \<open>Headers\<close>

definition debug_header :: "string \<Rightarrow> bool" where
  "debug_header k \<longleftrightarrow> k \<in> {''x-1router-tried'', ''x-1router-provider'', ''x-1router-error''}"

lemma set_strip_debug_headers: "set (strip_debug_headers h) = {e \<in> set h. \<not> debug_header (fst e)}"
  by (auto simp: strip_debug_headers_def hdr_remove_def debug_header_def)

lemma strip_debug_headers_other:
  "\<not> debug_header k \<Longrightarrow> hdr_get (strip_debug_headers h) k = hdr_get h k"
  by (induction h) (auto simp: strip_debug_headers_def hdr_remove_def hdr_get_def debug_header_def)

lemma hdr_get_debug_headers:
  "\<not> debug_header k \<Longrightarrow> hdr_get (insert_debug_headers tried p e h) k = hdr_get h k"
  by (auto simp: insert_debug_headers_def hdr_insert_valid_def hdr_get_insert debug_header_def split: option.split)

text \<open>The body of a 503 depends on the members only through what \<open>admin\<close> may see.\<close>

lemma shortest_wait_le: "shortest_wait ms = Some d \<Longrightarrow> m \<in> set ms \<Longrightarrow> d \<le> sk_retry_in m"
  by (auto simp: shortest_wait_def split: if_splits)

lemma shortest_wait_attained: "shortest_wait ms = Some d \<Longrightarrow> \<exists>m\<in>set ms. sk_retry_in m = d"
proof -
  assume d: "shortest_wait ms = Some d"
  then have "ms \<noteq> []" and "d = Min (set (map sk_retry_in ms))"
    by (auto simp: shortest_wait_def split: if_splits)
  then have "d \<in> set (map sk_retry_in ms)" using Min_in [of "set (map sk_retry_in ms)"] by simp
  then show ?thesis by auto
qed

text \<open>The announced wait covers the deadline and exceeds it by at most two seconds.\<close>

lemma retry_after_secs_bounds:
  "wait \<le> from_secs (retry_after_secs wait)" "from_secs (retry_after_secs wait) \<le> wait + from_secs 2"
proof -
  have split: "wait = as_secs wait * nanos_per_sec + subsec_nanos wait"
    by (simp add: as_secs_def subsec_nanos_def)
  have less: "subsec_nanos wait < nanos_per_sec" by (simp add: subsec_nanos_def)
  show "wait \<le> from_secs (retry_after_secs wait)"
    using split less by (auto simp: retry_after_secs_def from_secs_def max_def add_mult_distrib)
  show "from_secs (retry_after_secs wait) \<le> wait + from_secs 2"
    using split less by (auto simp: retry_after_secs_def from_secs_def max_def add_mult_distrib)
qed

lemma usage_limit_cooldown_cap:
  "usage_limit_cooldown now v = Done (Some d) \<Longrightarrow> d \<le> MAX_USAGE_LIMIT_COOLDOWN"
  by (auto simp: usage_limit_cooldown_def Let_def split: option.splits if_splits outcome.splits)

text \<open>The cap comes too late for a reset beyond the range of \<open>Duration\<close>.\<close>

lemma usage_limit_overflow:
  "usage_limit_cooldown 0 (jobj [(''resets_in_seconds'', JNum (PosInt (2 ^ 64)))]) = Panicked"
  by code_simp

end
