(* ===== verification/Flow.thy ===== *)
theory Flow
  imports Refresh Messages
begin

text \<open>
  \<open>src/proxy/flow.rs\<close>: one proxied request, from the candidates selection gives to the
  answer.  Candidates are tried in order; a pair that is cooling is passed over, a
  failure cools its pair and moves on, a rejection of the request itself ends the loop,
  and an expired OAuth token is renewed once.  Runs of one request are modelled on the
  shared state; \<open>w_logs\<close> holds the entries offered to the log queue, which drops what
  it has no room for.  Not modelled: \<open>tracing\<close> output and the prompt-cache trace.
\<close>

section \<open>One attempt\<close>

text \<open>What does not change while one request is served.\<close>

record ctx =
  cx_wire :: wire_format
  cx_pool :: string
  cx_caller :: caller
  cx_body :: string
  cx_stream :: bool
  cx_selected :: "string option"

text \<open>The provider as the adapters see it (the member's overrides folded in) and its adapter.\<close>

record target =
  tg_provider :: provider
  tg_model :: string
  tg_dataset :: "bool option"
  tg_adapter :: adapter

definition tg_id :: "target \<Rightarrow> string" where
  "tg_id tg = prov_id (tg_provider tg)"

definition tg_key :: "target \<Rightarrow> string" where
  "tg_key tg = runtime_key (tg_id tg) (tg_model tg)"

definition folded_provider :: "resolved_member \<Rightarrow> provider" where
  "folded_provider m =
     (rm_provider m)\<lparr>prov_upstream_model := rm_effective_model m,
        prov_default_reasoning_effort := resolve_reasoning_effort (rm_provider m) (rm_reasoning_effort_override m)\<rparr>"

definition adapter_for_caller :: "env \<Rightarrow> provider \<Rightarrow> wire_format \<Rightarrow> string option \<Rightarrow> adapter" where
  "adapter_for_caller E p wire user =
     (case prov_kind p of
        OauthCodex \<Rightarrow> env_adapter E p wire (unwrap_or user [])
      | _ \<Rightarrow> env_adapter E p wire [])"

definition target_of :: "env \<Rightarrow> ctx \<Rightarrow> resolved_member \<Rightarrow> target" where
  "target_of E cx m =
     \<lparr>tg_provider = folded_provider m, tg_model = rm_effective_model m,
      tg_dataset = rm_dataset_logging_override m,
      tg_adapter = adapter_for_caller E (folded_provider m) (cx_wire cx) (caller_user_id (cx_caller cx))\<rparr>"

text \<open>A failed read of the token row counts as no tokens.\<close>

definition credentials_for :: "provider \<Rightarrow> credentials flow" where
  "credentials_for p = do {
     os \<leftarrow> on_database (get_oauth_state (prov_id p));
     ret (from_provider_and_oauth p (case os of Inr r \<Rightarrow> r | Inl _ \<Rightarrow> None)) }"

definition log_request :: "ctx \<Rightarrow> string \<Rightarrow> nat option \<Rightarrow> int \<Rightarrow> bool \<Rightarrow> unit flow" where
  "log_request cx i code latency ok = update_by (\<lambda>w. w\<lparr>w_logs := w_logs w @
     [\<lparr>le_pool_id = Some (cx_pool cx), le_provider_id = Some i, le_status_code = map_option int code,
       le_latency_ms = latency, le_success = ok, le_user_id = caller_user_id (cx_caller cx),
       le_modality = None, le_units = None\<rparr>]\<rparr>)"

text \<open>
  The response goes through unchanged; what is attached to its body is the token
  accounting and, when enabled, the dataset log with a copy of the request.
\<close>

definition maybe_log_dataset :: "ctx \<Rightarrow> target \<Rightarrow> int \<Rightarrow> response \<Rightarrow> response flow" where
  "maybe_log_dataset cx tg ttfb resp = do {
     update_by (\<lambda>w. w\<lparr>w_taps := w_taps w @
       [\<lparr>tap_user = caller_user_id (cx_caller cx), tap_pool = cx_selected cx, tap_provider = tg_id tg,
         tap_model = tg_model tg, tap_wire = cx_wire cx, tap_stream = cx_stream cx,
         tap_dataset = (if dataset_logging_enabled (tg_provider tg) (tg_dataset tg)
                        then Some (from_utf8_lossy (cx_body cx)) else None),
         tap_ttfb_ms = ttfb\<rparr>]\<rparr>);
     ret resp }"

definition build_request :: "ctx \<Rightarrow> target \<Rightarrow> credentials \<Rightarrow> (app_error + request) outcome flow" where
  "build_request cx tg creds = do {
     t \<leftarrow> next_tick;
     transports \<leftarrow> gets w_transports;
     ret (ad_build_request (tg_adapter tg) t transports (cx_body cx) creds) }"

text \<open>Send and time one request.\<close>

definition exchange :: "env \<Rightarrow> target \<Rightarrow> request \<Rightarrow> ((http_error + upstream) \<times> int) flow" where
  "exchange E tg rq = do {
     begun \<leftarrow> read_clock E;
     sent \<leftarrow> http_execute E (ProviderCall (tg_id tg) (tg_model tg)) rq;
     over \<leftarrow> read_clock E;
     ret (sent, millis_between begun over) }"

definition cool_for :: "env \<Rightarrow> target \<Rightarrow> duration \<Rightarrow> unit flow" where
  "cool_for E tg d = runtime_write E (OpRetryable (tg_key tg) d)"

definition backoff_delay :: "target \<Rightarrow> duration flow" where
  "backoff_delay tg = do { st \<leftarrow> runtime_entry (tg_key tg); ret (next_cooldown st) }"

definition cool_down :: "env \<Rightarrow> target \<Rightarrow> unit flow" where
  "cool_down E tg = do { d \<leftarrow> backoff_delay tg; cool_for E tg d }"

text \<open>The delay the upstream asked for, or the backoff, or 30 s for a status that is nobody's overload.\<close>

definition status_delay :: "target \<Rightarrow> nat \<Rightarrow> duration option \<Rightarrow> duration flow" where
  "status_delay tg code asked =
     (case asked of
        Some d \<Rightarrow> ret d
      | None \<Rightarrow>
          if is_server_error code \<or> code = 429 \<or> code = 408 then backoff_delay tg
          else ret (from_secs 30))"

datatype attempt_end = Answer response | Failover string | Crash

text \<open>A 2xx: the pair is healthy, whatever its body turns out to hold.\<close>

definition deliver ::
  "env \<Rightarrow> ctx \<Rightarrow> string list \<Rightarrow> target \<Rightarrow> string \<Rightarrow> request \<Rightarrow> upstream \<Rightarrow> int \<Rightarrow> attempt_end flow" where
  "deliver E cx tried tg stage rq up latency = do {
     runtime_write E (OpSuccess (tg_key tg));
     t \<leftarrow> next_tick;
     case ad_transform_response (tg_adapter tg) t rq up (cx_stream cx) of
       Inr resp \<Rightarrow> do {
         log_request cx (tg_id tg) (Some (up_status up)) latency True;
         resp \<leftarrow> maybe_log_dataset cx tg latency resp;
         ret (Answer resp) }
     | Inl e \<Rightarrow> do {
         log_request cx (tg_id tg) (Some (up_status up)) latency False;
         ret (case e of
                UpstreamWithStatus s msg \<Rightarrow> Answer (build_wire_error (cx_wire cx) s msg tried (tg_id tg))
              | _ \<Rightarrow> Failover (stage @ ''response transform failed: '' @ app_error_text (env_status_text E) e)) } }"

definition error_text :: "upstream \<Rightarrow> string" where
  "error_text up = read_text_truncated up MAX_ERROR_BODY"

text \<open>The rejection is relayed as it came.\<close>

definition relay_error ::
  "ctx \<Rightarrow> string list \<Rightarrow> target \<Rightarrow> upstream \<Rightarrow> int \<Rightarrow> attempt_end flow" where
  "relay_error cx tried tg up latency = do {
     log_request cx (tg_id tg) (Some (up_status up)) latency False;
     ret (Answer (build_error_passthrough (up_status up) (error_text up) tried (tg_id tg)
       (hdr_get (up_headers up) ''content-type''))) }"

definition give_up :: "ctx \<Rightarrow> target \<Rightarrow> nat option \<Rightarrow> int \<Rightarrow> string \<Rightarrow> attempt_end flow" where
  "give_up cx tg code latency msg = do {
     log_request cx (tg_id tg) code latency False;
     ret (Failover msg) }"

text \<open>
  The second answer of the same provider.  \<open>honour\<close>: after a token refresh a
  \<open>Retry-After\<close> counts; after the change of transport only the backoff does.
\<close>

definition retry_end ::
  "env \<Rightarrow> ctx \<Rightarrow> string list \<Rightarrow> target \<Rightarrow> bool \<Rightarrow> request \<Rightarrow> upstream \<Rightarrow> int \<Rightarrow> attempt_end flow" where
  "retry_end E cx tried tg honour rq up latency =
     (case classify (up_status up) (up_headers up) of
        Success \<Rightarrow> deliver E cx tried tg ''retry '' rq up latency
      | NonRetryable \<Rightarrow> give_up cx tg (Some (up_status up)) latency (error_text up)
      | AuthExpired \<Rightarrow> do {
          runtime_write E (OpMisconfigured (tg_key tg));
          give_up cx tg (Some (up_status up)) latency (error_text up) }
      | Retryable asked \<Rightarrow> do {
          d \<leftarrow> (if honour then status_delay tg (up_status up) asked else backoff_delay tg);
          cool_for E tg d;
          give_up cx tg (Some (up_status up)) latency (error_text up) })"

definition retry_once ::
  "env \<Rightarrow> ctx \<Rightarrow> string list \<Rightarrow> target \<Rightarrow> bool \<Rightarrow> credentials \<Rightarrow> attempt_end flow" where
  "retry_once E cx tried tg honour creds = do {
     built \<leftarrow> build_request cx tg creds;
     case built of
       Panicked \<Rightarrow> ret Crash
     | Done (Inl e) \<Rightarrow> give_up cx tg None 0 (''retry request build failed: '' @ app_error_text (env_status_text E) e)
     | Done (Inr rq) \<Rightarrow> do {
         (sent, latency) \<leftarrow> exchange E tg rq;
         case sent of
           Inl e \<Rightarrow> do {
             cool_down E tg;
             give_up cx tg None latency (''retry upstream request error: '' @ he_text_no_url e) }
         | Inr up \<Rightarrow> do {
             capture E (tg_id tg) (up_headers up);
             retry_end E cx tried tg honour rq up latency } } }"

text \<open>401: only a Codex provider with a refresh token can recover.\<close>

definition on_auth_expired ::
  "env \<Rightarrow> ctx \<Rightarrow> string list \<Rightarrow> target \<Rightarrow> credentials \<Rightarrow> upstream \<Rightarrow> int \<Rightarrow> attempt_end flow" where
  "on_auth_expired E cx tried tg creds up latency =
     (if prov_kind (tg_provider tg) \<noteq> OauthCodex \<or> cr_refresh_token creds = None
      then do {
        runtime_write E (OpMisconfigured (tg_key tg));
        relay_error cx tried tg up latency }
      else do {
        refreshed \<leftarrow> refresh_and_persist_detached E (tg_provider tg) creds;
        case refreshed of
          Inr new_creds \<Rightarrow> retry_once E cx tried tg True new_creds
        | Inl InvalidGrant \<Rightarrow> do {
            runtime_write E (OpMisconfigured (tg_key tg));
            give_up cx tg (Some 401) latency ''refresh token invalid_grant; re-auth required'' }
        | Inl (Transient msg) \<Rightarrow> do {
            cool_down E tg;
            give_up cx tg (Some 401) latency (''transient refresh error: '' @ msg) } })"

text \<open>The wait a 429 announces in its body.\<close>

definition announced_delay :: "env \<Rightarrow> upstream \<Rightarrow> duration option \<Rightarrow> duration option outcome flow" where
  "announced_delay E up asked =
     (case asked of
        Some d \<Rightarrow> ret (Done (Some d))
      | None \<Rightarrow>
          if up_status up = 429
          then (case env_parse_json E (error_text up) of
                  Inr v \<Rightarrow> do { now \<leftarrow> read_wall E; ret (usage_limit_cooldown now v) }
                | Inl _ \<Rightarrow> ret (Done None))
          else ret (Done None))"

definition on_retryable ::
  "env \<Rightarrow> ctx \<Rightarrow> string list \<Rightarrow> target \<Rightarrow> credentials \<Rightarrow> upstream \<Rightarrow> duration option \<Rightarrow> int \<Rightarrow>
     attempt_end flow" where
  "on_retryable E cx tried tg creds up asked latency = do {
     transports \<leftarrow> gets w_transports;
     if prov_kind (tg_provider tg) = OauthCommandCode
       \<and> transport_of transports (tg_id tg) = ProviderTransport
       \<and> is_upgrade_required (up_status up) (error_text up)
     then do {
       update_by (\<lambda>w. w\<lparr>w_transports := dm_put (tg_id tg) GenerateTransport (w_transports w)\<rparr>);
       retry_once E cx tried tg False creds }
     else do {
       announced \<leftarrow> announced_delay E up asked;
       case announced of
         Panicked \<Rightarrow> ret Crash
       | Done asked' \<Rightarrow> do {
           d \<leftarrow> status_delay tg (up_status up) asked';
           cool_for E tg d;
           give_up cx tg (Some (up_status up)) latency (error_text up) } } }"

definition on_response ::
  "env \<Rightarrow> ctx \<Rightarrow> string list \<Rightarrow> target \<Rightarrow> credentials \<Rightarrow> request \<Rightarrow> upstream \<Rightarrow> int \<Rightarrow> attempt_end flow" where
  "on_response E cx tried tg creds rq up latency =
     (case classify (up_status up) (up_headers up) of
        Success \<Rightarrow> deliver E cx tried tg [] rq up latency
      | NonRetryable \<Rightarrow> relay_error cx tried tg up latency
      | AuthExpired \<Rightarrow> on_auth_expired E cx tried tg creds up latency
      | Retryable asked \<Rightarrow> on_retryable E cx tried tg creds up asked latency)"

definition attempt_member ::
  "env \<Rightarrow> ctx \<Rightarrow> string list \<Rightarrow> target \<Rightarrow> credentials \<Rightarrow> attempt_end flow" where
  "attempt_member E cx tried tg creds = do {
     built \<leftarrow> build_request cx tg creds;
     case built of
       Panicked \<Rightarrow> ret Crash
     | Done (Inl e) \<Rightarrow> ret (Failover (''request build failed: '' @ app_error_text (env_status_text E) e))
     | Done (Inr rq) \<Rightarrow> do {
         (sent, latency) \<leftarrow> exchange E tg rq;
         case sent of
           Inl e \<Rightarrow> do {
             cool_down E tg;
             give_up cx tg None latency (''upstream request error: '' @ he_text_no_url e) }
         | Inr up \<Rightarrow> do {
             capture E (tg_id tg) (up_headers up);
             on_response E cx tried tg creds rq up latency } } }"

section \<open>The loop\<close>

record loop_vars =
  lv_tried :: "string list"
  lv_error :: string
  lv_provider :: string
  lv_skipped :: "skipped_member list"
  lv_prev_key :: "string option"
  lv_seen :: string

definition no_response :: string where
  "no_response = ''no provider produced a response''"

definition loop_start :: loop_vars where
  "loop_start = \<lparr>lv_tried = [], lv_error = no_response, lv_provider = [], lv_skipped = [],
     lv_prev_key = None, lv_seen = no_response\<rparr>"

text \<open>A new failure text is pinned on the entry of the member that produced it.\<close>

definition attribute_error :: "env \<Rightarrow> loop_vars \<Rightarrow> loop_vars flow" where
  "attribute_error E v =
     (if lv_error v = lv_seen v then ret v
      else do {
        (case lv_prev_key v of Some k \<Rightarrow> runtime_write E (OpNote k (lv_error v)) | None \<Rightarrow> ret ());
        ret (v\<lparr>lv_prev_key := None, lv_seen := lv_error v\<rparr>) })"

definition skipped_of :: "resolved_member \<Rightarrow> instant \<Rightarrow> runtime_state \<Rightarrow> skipped_member" where
  "skipped_of m now st =
     \<lparr>sk_provider = prov_id (rm_provider m), sk_model = rm_effective_model m, sk_status = status st,
      sk_retry_in = unwrap_or (retry_in st now) 0, sk_reason = last_error st\<rparr>"

definition member_key :: "resolved_member \<Rightarrow> string" where
  "member_key m = runtime_key (prov_id (rm_provider m)) (rm_effective_model m)"

datatype turn = Next loop_vars | Stop "response outcome"

text \<open>The part of the loop body for a member that may be called.\<close>

definition contact :: "env \<Rightarrow> ctx \<Rightarrow> resolved_member \<Rightarrow> loop_vars \<Rightarrow> turn flow" where
  "contact E cx m v = do {
     creds \<leftarrow> credentials_for (rm_provider m);
     let has_token = cr_access_token creds \<noteq> None \<or> cr_refresh_token creds \<noteq> None;
     if \<not> is_ready (rm_provider m) has_token
     then ret (Next (if lv_tried v = []
       then v\<lparr>lv_error := ''provider '' @ quoted (prov_id (rm_provider m)) @ '' is not configured yet''\<rparr>
       else v))
     else do {
       let v = v\<lparr>lv_tried := lv_tried v @ [prov_id (rm_provider m)], lv_provider := prov_id (rm_provider m)\<rparr>;
       fin \<leftarrow> attempt_member E cx (lv_tried v) (target_of E cx m) creds;
       ret (case fin of
              Answer resp \<Rightarrow> Stop (Done resp)
            | Crash \<Rightarrow> Stop Panicked
            | Failover msg \<Rightarrow> Next (v\<lparr>lv_error := msg\<rparr>)) } }"

definition try_member :: "env \<Rightarrow> ctx \<Rightarrow> resolved_member \<Rightarrow> loop_vars \<Rightarrow> turn flow" where
  "try_member E cx m v = do {
     now \<leftarrow> read_clock E;
     v \<leftarrow> attribute_error E v;
     st \<leftarrow> gets (\<lambda>w. dm_get (w_runtime w) (member_key m));
     case opt_filter (\<lambda>st. \<not> is_available st now) st of
       Some st \<Rightarrow> ret (Next (v\<lparr>lv_skipped := lv_skipped v @ [skipped_of m now st]\<rparr>))
     | None \<Rightarrow> contact E cx m (v\<lparr>lv_prev_key := Some (member_key m)\<rparr>) }"

definition finish :: "env \<Rightarrow> ctx \<Rightarrow> loop_vars \<Rightarrow> response outcome flow" where
  "finish E cx v = do {
     v \<leftarrow> attribute_error E v;
     ret (Done (unavailable (cx_wire cx) (cx_pool cx) (lv_tried v) (lv_skipped v) (lv_provider v)
       (lv_error v) (is_admin (cx_caller cx)))) }"

fun try_members :: "env \<Rightarrow> ctx \<Rightarrow> resolved_member list \<Rightarrow> loop_vars \<Rightarrow> response outcome flow" where
  "try_members E cx [] v = finish E cx v"
| "try_members E cx (m # ms) v = do {
     r \<leftarrow> try_member E cx m v;
     case r of Next v' \<Rightarrow> try_members E cx ms v' | Stop resp \<Rightarrow> ret resp }"

section \<open>The request\<close>

definition client_wanted_stream :: "env \<Rightarrow> string \<Rightarrow> bool" where
  "client_wanted_stream E text =
     (case env_parse_json E text of
        Inr v \<Rightarrow> unwrap_or (Option.bind (jget v ''stream'') as_bool) False
      | Inl _ \<Rightarrow> False)"

definition select_candidates ::
  "config_snapshot \<Rightarrow> string \<Rightarrow> wire_format \<Rightarrow> selection option flow" where
  "select_candidates s i wire = State (\<lambda>w. case select s i wire (w_rotation w) of
     (sel, r) \<Rightarrow> (sel, w\<lparr>w_rotation := r\<rparr>))"

text \<open>Why a direct model is refused to a caller, if it is.\<close>

definition direct_refusal ::
  "config_snapshot \<Rightarrow> discovered_map \<Rightarrow> caller \<Rightarrow> selection \<Rightarrow> string option" where
  "direct_refusal s discovered c sel =
     (case sel_providers sel of
        m # _ \<Rightarrow>
          if sel_pool sel = None \<and> \<not> is_admin c
            \<and> \<not> direct_model_allowed s discovered (rm_provider m) (rm_effective_model m)
          then Some (''model '' @ quoted (rm_effective_model m)
            @ '' is not enabled for direct addressing on provider '' @ quoted (prov_id (rm_provider m)))
          else None
      | [] \<Rightarrow> None)"

definition request_ctx :: "env \<Rightarrow> wire_format \<Rightarrow> string \<Rightarrow> caller \<Rightarrow> string \<Rightarrow> selection \<Rightarrow> ctx" where
  "request_ctx E wire i c text sel =
     \<lparr>cx_wire = wire, cx_pool = i, cx_caller = c, cx_body = text,
      cx_stream = client_wanted_stream E text, cx_selected = map_option pool_id (sel_pool sel)\<rparr>"

definition handle_proxy_inner ::
  "env \<Rightarrow> config_snapshot \<Rightarrow> discovered_map \<Rightarrow> wire_format \<Rightarrow> string \<Rightarrow> caller \<Rightarrow> string \<Rightarrow>
     response outcome flow" where
  "handle_proxy_inner E s discovered wire i c text = do {
     selected \<leftarrow> select_candidates s i wire;
     case selected of
       None \<Rightarrow> ret (Done (wire_error wire 400 (''unknown model or pool '' @ quoted i)))
     | Some sel \<Rightarrow>
         (case direct_refusal s discovered c sel of
            Some refusal \<Rightarrow> ret (Done (wire_error wire 400 refusal))
          | None \<Rightarrow> do {
              total_start \<leftarrow> read_clock E;
              try_members E (request_ctx E wire i c text sel) (sel_providers sel) loop_start }) }"

definition handle_proxy ::
  "env \<Rightarrow> config_snapshot \<Rightarrow> discovered_map \<Rightarrow> wire_format \<Rightarrow> string \<Rightarrow> caller \<Rightarrow> string \<Rightarrow>
     response outcome flow" where
  "handle_proxy E s discovered wire i c text = do {
     r \<leftarrow> handle_proxy_inner E s discovered wire i c text;
     ret (case r of
            Done resp \<Rightarrow> Done (if is_admin c then resp
              else resp\<lparr>resp_headers := strip_debug_headers (resp_headers resp)\<rparr>)
          | Panicked \<Rightarrow> Panicked) }"

end
