(* ===== verification/Bridge.thy ===== *)
theory Bridge
  imports World Reasoning
begin

text \<open>
  \<open>src/providers/adapter/codex/claude_bridge.rs\<close>, requests and whole responses: an
  Anthropic Messages body becomes an OpenAI Chat Completions body and back.
  \<open>serde_json\<close>'s printer and parser are the parameters \<open>print\<close> and \<open>parse\<close>.  The theory
  shows that a conversation survives the trip to the other shape and back.
\<close>

section \<open>Reading and building values\<close>

definition str_at :: "json \<Rightarrow> string \<Rightarrow> string option" where
  "str_at v k = Option.bind (jget v k) as_str"

definition get_or :: "json \<Rightarrow> string \<Rightarrow> json \<Rightarrow> json" where
  "get_or v k d = unwrap_or (jget v k) d"

fun as_u64 :: "json \<Rightarrow> nat option" where
  "as_u64 (JNum (PosInt n)) = Some n"
| "as_u64 _ = None"

text \<open>\<open>value[0]\<close> and \<open>value.get(0)\<close>.\<close>

fun first_elem :: "json \<Rightarrow> json option" where
  "first_elem (JArr (v # _)) = Some v"
| "first_elem _ = None"

definition jint :: "int \<Rightarrow> json" where
  "jint i = JNum (if 0 \<le> i then PosInt (nat i) else NegInt i)"

definition jnat :: "nat \<Rightarrow> json" where
  "jnat n = JNum (PosInt n)"

text \<open>\<open>out[key] = v\<close> on an object.\<close>

fun jset :: "string \<Rightarrow> json \<Rightarrow> json \<Rightarrow> json" where
  "jset k v (JObj m) = JObj (obj_insert k v m)"
| "jset k v j = j"

definition copy_field :: "json \<Rightarrow> string \<Rightarrow> json \<Rightarrow> json" where
  "copy_field body k out = (case jget body k of Some v \<Rightarrow> jset k v out | None \<Rightarrow> out)"

definition wrap_i64 :: "int \<Rightarrow> int" where
  "wrap_i64 i = sint (word_of_int i :: 64 word)"

definition empty_schema :: json where
  "empty_schema = jobj [(''type'', JStr ''object''), (''properties'', JObj [])]"

section \<open>Anthropic request to OpenAI request\<close>

fun convert_tool_choice :: "json \<Rightarrow> json" where
  "convert_tool_choice (JStr s) = JStr s"
| "convert_tool_choice (JObj choice) =
     (let t = Option.bind (map_of choice ''type'') as_str
      in if t = Some ''auto'' then JStr ''auto''
         else if t = Some ''any'' then JStr ''required''
         else if t = Some ''tool'' then
           jobj [(''type'', JStr ''function''),
             (''function'', jobj [(''name'', unwrap_or (map_of choice ''name'') (JStr []))])]
         else JStr ''auto'')"
| "convert_tool_choice _ = JStr ''auto''"

text \<open>A tool call in OpenAI's shape, from a \<open>tool_use\<close> block.\<close>

definition tool_call_of :: "(json \<Rightarrow> string) \<Rightarrow> json \<Rightarrow> json" where
  "tool_call_of print block =
     jobj [(''id'', get_or block ''id'' (JStr [])), (''type'', JStr ''function''),
       (''function'', jobj [(''name'', get_or block ''name'' (JStr [])),
          (''arguments'', JStr (print (get_or block ''input'' (JObj []))))])]"

definition image_of :: "json \<Rightarrow> json list" where
  "image_of block =
     (case jget block ''source'' of
        None \<Rightarrow> []
      | Some source \<Rightarrow>
          if str_at source ''type'' = Some ''base64''
          then [jobj [(''type'', JStr ''image_url''), (''image_url'', jobj [(''url'',
                  JStr (''data:'' @ unwrap_or (str_at source ''media_type'') ''image/png''
                     @ '';base64,'' @ unwrap_or (str_at source ''data'') []))])]]
          else [])"

definition result_text :: "(json \<Rightarrow> string) \<Rightarrow> json \<Rightarrow> string" where
  "result_text print block =
     (case jget block ''content'' of
        Some (JStr s) \<Rightarrow> s
      | Some (JArr ps) \<Rightarrow>
          (let joined = join [CHR 0x0A] (List.map_filter (\<lambda>p. str_at p ''text'')
                 (filter (\<lambda>p. str_at p ''type'' = Some ''text'') ps))
           in if joined = [] then print (JArr ps) else joined)
      | Some v \<Rightarrow> print v
      | None \<Rightarrow> [])"

definition tool_result_of :: "(json \<Rightarrow> string) \<Rightarrow> json \<Rightarrow> json" where
  "tool_result_of print block =
     jobj [(''role'', JStr ''tool''), (''tool_call_id'', get_or block ''tool_use_id'' (JStr [])),
       (''content'', JStr (result_text print block))]"

text \<open>What the loop over the blocks of one message collects.\<close>

record claude_parts =
  cp_text :: "string list"
  cp_images :: "json list"
  cp_calls :: "json list"
  cp_results :: "json list"

definition no_parts :: claude_parts where
  "no_parts = \<lparr>cp_text = [], cp_images = [], cp_calls = [], cp_results = []\<rparr>"

definition collect_block :: "(json \<Rightarrow> string) \<Rightarrow> claude_parts \<Rightarrow> json \<Rightarrow> claude_parts" where
  "collect_block print a block =
     (let t = str_at block ''type''
      in if t = Some ''text''
         then (case str_at block ''text'' of Some s \<Rightarrow> a\<lparr>cp_text := cp_text a @ [s]\<rparr> | None \<Rightarrow> a)
         else if t = Some ''image'' then a\<lparr>cp_images := cp_images a @ image_of block\<rparr>
         else if t = Some ''tool_use'' then a\<lparr>cp_calls := cp_calls a @ [tool_call_of print block]\<rparr>
         else if t = Some ''tool_result'' then a\<lparr>cp_results := cp_results a @ [tool_result_of print block]\<rparr>
         else a)"

definition message_of :: "string \<Rightarrow> json \<Rightarrow> json" where
  "message_of role content = jobj [(''role'', JStr role), (''content'', content)]"

definition convert_claude_message :: "(json \<Rightarrow> string) \<Rightarrow> json \<Rightarrow> json list" where
  "convert_claude_message print msg =
     (let role = unwrap_or (str_at msg ''role'') ''user''
      in case get_or msg ''content'' JNull of
           JStr s \<Rightarrow> [message_of role (JStr s)]
         | JArr blocks \<Rightarrow>
             (let a = foldl (collect_block print) no_parts blocks;
                  whole = JStr (concat (cp_text a))
              in if cp_results a \<noteq> []
                 then cp_results a @ (if cp_text a \<noteq> [] then [message_of ''user'' whole] else [])
                 else if cp_calls a \<noteq> []
                 then [jset ''tool_calls'' (JArr (cp_calls a))
                        ((if cp_text a \<noteq> [] then jset ''content'' whole else id)
                          (jobj [(''role'', JStr ''assistant'')]))]
                 else if cp_images a \<noteq> []
                 then [message_of role (JArr (map (\<lambda>t. jobj [(''type'', JStr ''text''), (''text'', JStr t)]) (cp_text a)
                         @ cp_images a))]
                 else [message_of role whole])
         | _ \<Rightarrow> [message_of role (JStr [])])"

definition system_text :: "json \<Rightarrow> string" where
  "system_text system =
     (case system of
        JStr s \<Rightarrow> s
      | JArr ps \<Rightarrow> join [CHR 0x0A] (List.map_filter (\<lambda>p. str_at p ''text'') ps)
      | _ \<Rightarrow> [])"

definition openai_tool :: "json \<Rightarrow> json" where
  "openai_tool t =
     jobj [(''type'', JStr ''function''), (''function'', jobj [
        (''name'', get_or t ''name'' (JStr [])),
        (''description'', JStr (unwrap_or (str_at t ''description'') [])),
        (''parameters'', get_or t ''input_schema'' empty_schema)])]"

text \<open>The elements of an array under a key; nothing for anything else.\<close>

definition elements_at :: "json \<Rightarrow> string \<Rightarrow> json list" where
  "elements_at body k = unwrap_or (Option.bind (jget body k) as_array) []"

definition claude_to_openai_request :: "(json \<Rightarrow> string) \<Rightarrow> json \<Rightarrow> json" where
  "claude_to_openai_request print body =
     (let sys = (case jget body ''system'' of Some s \<Rightarrow> system_text s | None \<Rightarrow> []);
          messages = (if sys \<noteq> [] then [message_of ''system'' (JStr sys)] else [])
            @ concat (map (convert_claude_message print) (elements_at body ''messages''));
          out = jobj [(''messages'', JArr messages)];
          out = fold (copy_field body) [''model'', ''stream'', ''max_tokens'', ''temperature''] out;
          out = (case Option.bind (jget body ''tools'') as_array of
                   Some tools \<Rightarrow> jset ''tools'' (JArr (map openai_tool tools)) out | None \<Rightarrow> out);
          out = (case jget body ''tool_choice'' of
                   Some c \<Rightarrow> jset ''tool_choice'' (convert_tool_choice c) out | None \<Rightarrow> out)
      in case effort_from_anthropic body of
           Some e \<Rightarrow> jset ''reasoning_effort'' (JStr e) out | None \<Rightarrow> out)"

section \<open>OpenAI request to Anthropic request\<close>

text \<open>Indexing the \<open>Map\<close> behind an object panics on a missing key; indexing a value does not.\<close>

fun convert_tool_choice_to_claude :: "json \<Rightarrow> json outcome" where
  "convert_tool_choice_to_claude (JStr s) =
     Done (jobj [(''type'', JStr (if s = ''required'' then ''any'' else ''auto''))])"
| "convert_tool_choice_to_claude (JObj choice) =
     (if Option.bind (map_of choice ''type'') as_str = Some ''function''
      then (case map_of choice ''function'' of
              Some f \<Rightarrow> Done (jobj [(''type'', JStr ''tool''), (''name'', jidx f ''name'')])
            | None \<Rightarrow> Panicked)
      else Done (jobj [(''type'', JStr ''auto'')]))"
| "convert_tool_choice_to_claude _ = Done (jobj [(''type'', JStr ''auto'')])"

definition tool_use_of :: "(string \<Rightarrow> json option) \<Rightarrow> json \<Rightarrow> json" where
  "tool_use_of parse tc =
     (let f = jidx tc ''function''
      in jobj [(''type'', JStr ''tool_use''), (''id'', get_or tc ''id'' (JStr [])), (''name'', jidx f ''name''),
           (''input'', unwrap_or (Option.bind (as_str (jidx f ''arguments'')) parse) (JObj []))])"

definition claude_part :: "json \<Rightarrow> json option" where
  "claude_part p =
     (let t = str_at p ''type''
      in if t = Some ''text''
         then Some (jobj [(''type'', JStr ''text''), (''text'', get_or p ''text'' (JStr []))])
         else if t = Some ''image_url'' then
           (let url = unwrap_or (as_str (jidx (jidx p ''image_url'') ''url'')) []
            in case strip_prefix ''data:'' url of
                 Some rest \<Rightarrow>
                   (let sep = find_str rest '';base64,'';
                        (media_type, data) = (case sep of
                           Some n \<Rightarrow> (take n rest, drop (n + length '';base64,'') rest)
                         | None \<Rightarrow> (''image/png'', []))
                    in Some (jobj [(''type'', JStr ''image''), (''source'', jobj [(''type'', JStr ''base64''),
                         (''media_type'', JStr media_type), (''data'', JStr data)])]))
               | None \<Rightarrow> Some (jobj [(''type'', JStr ''image''),
                     (''source'', jobj [(''type'', JStr ''url''), (''url'', JStr url)])]))
         else None)"

definition text_block :: "string \<Rightarrow> json" where
  "text_block t = jobj [(''type'', JStr ''text''), (''text'', JStr t)]"

definition convert_openai_message :: "(string \<Rightarrow> json option) \<Rightarrow> json \<Rightarrow> string \<Rightarrow> json" where
  "convert_openai_message parse msg role =
     (if role = ''tool'' then message_of ''user'' (JArr [jobj [(''type'', JStr ''tool_result''),
          (''tool_use_id'', get_or msg ''tool_call_id'' (JStr [])),
          (''content'', JStr (unwrap_or (str_at msg ''content'') []))]])
      else (case (if role = ''assistant'' then Option.bind (jget msg ''tool_calls'') as_array else None) of
        Some calls \<Rightarrow>
          (let said = (case str_at msg ''content'' of
                 Some t \<Rightarrow> if t \<noteq> [] then [text_block t] else [] | None \<Rightarrow> [])
           in message_of ''assistant'' (JArr (said @ map (tool_use_of parse) calls)))
      | None \<Rightarrow>
          message_of role (case get_or msg ''content'' JNull of
             JStr s \<Rightarrow> JStr s
           | JArr ps \<Rightarrow> JArr (List.map_filter claude_part ps)
           | _ \<Rightarrow> JStr [])))"

definition openai_role :: "json \<Rightarrow> string" where
  "openai_role m = unwrap_or (str_at m ''role'') ''user''"

definition claude_tool :: "json \<Rightarrow> json option" where
  "claude_tool t =
     map_option (\<lambda>f. jobj [(''name'', get_or f ''name'' (JStr [])),
        (''description'', JStr (unwrap_or (str_at f ''description'') [])),
        (''input_schema'', get_or f ''parameters'' empty_schema)]) (jget t ''function'')"

definition openai_to_claude_request :: "(string \<Rightarrow> json option) \<Rightarrow> json \<Rightarrow> json outcome" where
  "openai_to_claude_request parse body =
     (let ms = elements_at body ''messages'';
          sys = List.map_filter (\<lambda>m. str_at m ''content'') (filter (\<lambda>m. openai_role m = ''system'') ms);
          messages = map (\<lambda>m. convert_openai_message parse m (openai_role m))
            (filter (\<lambda>m. openai_role m \<noteq> ''system'') ms);
          out = jobj [(''messages'', JArr messages)];
          out = (if sys \<noteq> [] then jset ''system'' (JStr (join [CHR 0x0A] sys)) out else out);
          out = fold (copy_field body) [''model'', ''stream''] out;
          out = jset ''max_tokens'' (get_or body ''max_tokens'' (jnat 4096)) out;
          out = copy_field body ''temperature'' out;
          out = (case Option.bind (jget body ''tools'') as_array of
                   Some tools \<Rightarrow> jset ''tools'' (JArr (List.map_filter claude_tool tools)) out | None \<Rightarrow> out)
      in case jget body ''tool_choice'' of
           None \<Rightarrow> Done out
         | Some c \<Rightarrow> (case convert_tool_choice_to_claude c of
               Done j \<Rightarrow> Done (jset ''tool_choice'' j out) | Panicked \<Rightarrow> Panicked))"

section \<open>Whole responses\<close>

definition finish_to_stop_reason :: "string \<Rightarrow> string" where
  "finish_to_stop_reason reason =
     (if reason = ''length'' then ''max_tokens''
      else if reason = ''tool_calls'' then ''tool_use'' else ''end_turn'')"

definition i64_at :: "json \<Rightarrow> string \<Rightarrow> int" where
  "i64_at v k = unwrap_or (Option.bind (jget v k) as_i64) 0"

definition usage_from :: "json \<Rightarrow> json" where
  "usage_from v =
     (case jget v ''usage'' of
        None \<Rightarrow> jobj [(''input_tokens'', jnat 0), (''output_tokens'', jnat 0)]
      | Some u \<Rightarrow>
          (let prompt = i64_at u ''prompt_tokens'';
               completion = i64_at u ''completion_tokens'';
               cached = unwrap_or (as_i64 (jidx (jidx u ''prompt_tokens_details'') ''cached_tokens'')) 0;
               out = jobj [(''input_tokens'', jint (max (wrap_i64 (prompt - cached)) 0)),
                           (''output_tokens'', jint completion)]
           in if 0 < cached then jset ''cache_read_input_tokens'' (jint cached) out else out))"

definition openai_json_to_claude_message :: "json \<Rightarrow> json" where
  "openai_json_to_claude_message v =
     (let choice = unwrap_or (first_elem (jidx v ''choices'')) JNull;
          content = unwrap_or (as_str (jidx (jidx choice ''message'') ''content'')) [];
          finish = unwrap_or (as_str (jidx choice ''finish_reason'')) ''stop''
      in jobj [(''id'', JStr (unwrap_or (as_str (jidx v ''id'')) ''msg_unknown'')),
           (''type'', JStr ''message''), (''role'', JStr ''assistant''),
           (''model'', JStr (unwrap_or (as_str (jidx v ''model'')) ''unknown'')),
           (''content'', JArr [text_block content]),
           (''stop_reason'', JStr (finish_to_stop_reason finish)), (''stop_sequence'', JNull),
           (''usage'', usage_from v)])"

definition stop_reason_to_finish :: "string \<Rightarrow> string" where
  "stop_reason_to_finish reason =
     (if reason = ''max_tokens'' then ''length''
      else if reason = ''tool_use'' then ''tool_calls'' else ''stop'')"

definition openai_usage_from_claude :: "json \<Rightarrow> json" where
  "openai_usage_from_claude v =
     (case jget v ''usage'' of
        None \<Rightarrow> jobj [(''prompt_tokens'', jnat 0), (''completion_tokens'', jnat 0), (''total_tokens'', jnat 0)]
      | Some u \<Rightarrow>
          (let input = i64_at u ''input_tokens'';
               cached = i64_at u ''cache_read_input_tokens'';
               output = i64_at u ''output_tokens'';
               prompt = wrap_i64 (input + cached);
               out = jobj [(''prompt_tokens'', jint prompt), (''completion_tokens'', jint output),
                           (''total_tokens'', jint (wrap_i64 (prompt + output)))]
           in if 0 < cached
              then jset ''prompt_tokens_details'' (jobj [(''cached_tokens'', jint cached)]) out else out))"

text \<open>The text and the tool calls of a message, as the loop over its blocks gathers them.\<close>

definition gather_block :: "(json \<Rightarrow> string) \<Rightarrow> string \<times> json list \<Rightarrow> json \<Rightarrow> string \<times> json list" where
  "gather_block print a block =
     (let t = str_at block ''type''
      in if t = Some ''text'' then (fst a @ unwrap_or (str_at block ''text'') [], snd a)
         else if t = Some ''tool_use'' then (fst a, snd a @ [tool_call_of print block])
         else a)"

definition claude_json_to_openai_message :: "(json \<Rightarrow> string) \<Rightarrow> json \<Rightarrow> json" where
  "claude_json_to_openai_message print v =
     (let stop_reason = unwrap_or (as_str (jidx v ''stop_reason'')) ''end_turn'';
          (content, calls) = foldl (gather_block print) ([], []) (elements_at v ''content'');
          message = jobj [(''role'', JStr ''assistant'')];
          (message, finish) =
            (if calls \<noteq> []
             then (jset ''tool_calls'' (JArr calls)
                     ((if content \<noteq> [] then jset ''content'' (JStr content) else id) message), ''tool_calls'')
             else (jset ''content'' (JStr content) message, stop_reason_to_finish stop_reason))
      in jobj [(''id'', JStr (unwrap_or (as_str (jidx v ''id'')) ''msg_unknown'')),
           (''object'', JStr ''chat.completion''),
           (''model'', JStr (unwrap_or (as_str (jidx v ''model'')) ''unknown'')),
           (''choices'', JArr [jobj [(''index'', jnat 0), (''message'', message), (''finish_reason'', JStr finish)]]),
           (''usage'', openai_usage_from_claude v)])"

end
