(* ===== verification/Sse.thy ===== *)
theory Sse
  imports Utf8
begin

text \<open>
  \<open>src/providers/adapter/sse.rs\<close>: from a stream of bytes in arbitrary pieces to the
  blocks of a server-sent event stream.  The theory shows that the pieces are
  invisible: however the network cuts the bytes, the same blocks come out.
\<close>

section \<open>Decoding across pieces\<close>

function decode_loop :: "string \<Rightarrow> string \<times> string" where
  "decode_loop [] = ([], [])"
| "decode_loop (c # s) =
     (case utf8_front c s of
        Scalar n \<Rightarrow> (case decode_loop (drop n (c # s)) of (out, rest) \<Rightarrow> (take n (c # s) @ out, rest))
      | Broken n \<Rightarrow> (case decode_loop (drop n (c # s)) of (out, rest) \<Rightarrow> (replacement @ out, rest))
      | Short \<Rightarrow> ([], c # s))"
  by pat_completeness auto
termination
  by (relation "measure length") (auto dest: utf8_front_pos)

text \<open>\<open>Utf8Decoder::decode\<close>: what can be said now, and the bytes that wait.\<close>

definition utf8_decode :: "string \<Rightarrow> string \<Rightarrow> string \<times> string" where
  "utf8_decode pending bytes = decode_loop (pending @ bytes)"

section \<open>Blocks\<close>

definition MAX_SSE_BUFFER :: nat where
  "MAX_SSE_BUFFER = 16 * 1024 * 1024"

definition CR :: char where
  "CR = char_of (13 :: nat)"

definition LF :: char where
  "LF = char_of (10 :: nat)"

record sse_framer =
  fr_pending :: string
  fr_buf :: string
  fr_held_cr :: bool

definition new_framer :: sse_framer where
  "new_framer = \<lparr>fr_pending = [], fr_buf = [], fr_held_cr = False\<rparr>"

definition framer_push :: "sse_framer \<Rightarrow> string \<Rightarrow> bool \<times> sse_framer" where
  "framer_push f bytes =
     (case utf8_decode (fr_pending f) bytes of (decoded, pending) \<Rightarrow>
       let whole = (if fr_held_cr f then CR # decoded else decoded);
           held = ends_with whole [CR];
           chunk = (if held then butlast whole else whole);
           buf = fr_buf f @ replace_str [CR, LF] [LF] chunk
       in (length buf \<le> MAX_SSE_BUFFER, \<lparr>fr_pending = pending, fr_buf = buf, fr_held_cr = held\<rparr>))"

definition framer_next_block :: "sse_framer \<Rightarrow> string option \<times> sse_framer" where
  "framer_next_block f =
     (case find_str (fr_buf f) [LF, LF] of
        None \<Rightarrow> (None, f)
      | Some pos \<Rightarrow> (Some (take (pos + 2) (fr_buf f)), f\<lparr>fr_buf := drop (pos + 2) (fr_buf f)\<rparr>))"

definition framer_finish :: "sse_framer \<Rightarrow> string" where
  "framer_finish f = fr_buf f @ from_utf8_lossy (fr_pending f) @ (if fr_held_cr f then [CR] else [])"

text \<open>Taking every block that is complete.\<close>

lemma starts_with_length: "starts_with s p \<Longrightarrow> length p \<le> length s"
  by (metis starts_with_def length_take min.cobounded1)

lemma find_str_length: "find_str s p = Some n \<Longrightarrow> n + length p \<le> length s"
  by (induction s arbitrary: n) (auto dest: starts_with_length split: if_splits)

function framer_drain :: "sse_framer \<Rightarrow> string list \<times> sse_framer" where
  "framer_drain f =
     (case framer_next_block f of
        (None, f) \<Rightarrow> ([], f)
      | (Some block, f) \<Rightarrow> (case framer_drain f of (blocks, f) \<Rightarrow> (block # blocks, f)))"
  by pat_completeness auto
termination
  by (relation "measure (\<lambda>f. length (fr_buf f))")
    (auto simp: framer_next_block_def dest!: find_str_length split: option.splits)

declare framer_drain.simps [simp del]

definition framer_feed :: "sse_framer \<Rightarrow> string \<Rightarrow> string list \<times> sse_framer" where
  "framer_feed f bytes = framer_drain (snd (framer_push f bytes))"

fun framer_feeds :: "sse_framer \<Rightarrow> string list \<Rightarrow> string list \<times> sse_framer" where
  "framer_feeds f [] = ([], f)"
| "framer_feeds f (piece # pieces) =
     (case framer_feed f piece of (bs, f) \<Rightarrow>
       (case framer_feeds f pieces of (cs, f) \<Rightarrow> (bs @ cs, f)))"

section \<open>Decoding is one pass\<close>

lemma utf8_front_extend: "utf8_front c s \<noteq> Short \<Longrightarrow> utf8_front c (s @ t) = utf8_front c s"
  by (auto simp: utf8_front_def Let_def split: if_splits list.splits)

lemma decode_loop_append:
  "decode_loop (s @ t) =
     (case decode_loop s of (out1, rest) \<Rightarrow> (case decode_loop (rest @ t) of (out2, rest) \<Rightarrow> (out1 @ out2, rest)))"
proof (induction s rule: decode_loop.induct)
  case (2 c s)
  show ?case
  proof (cases "utf8_front c s")
    case (Scalar n)
    have n: "n \<le> length (c # s)" using utf8_front_pos(1) [OF Scalar] by simp
    have "utf8_front c (s @ t) = Scalar n" using utf8_front_extend [of c s t] Scalar by simp
    moreover have "take n (c # s @ t) = take n (c # s)" and "drop n (c # s @ t) = drop n (c # s) @ t"
      using take_append [of n "c # s" t] drop_append [of n "c # s" t] n by simp_all
    ultimately show ?thesis using Scalar 2(1) [OF Scalar] by (simp split: prod.splits)
  next
    case (Broken n)
    have n: "n \<le> length (c # s)" using utf8_front_pos(2) [OF Broken] by simp
    have "utf8_front c (s @ t) = Broken n" using utf8_front_extend [of c s t] Broken by simp
    moreover have "take n (c # s @ t) = take n (c # s)" and "drop n (c # s @ t) = drop n (c # s) @ t"
      using take_append [of n "c # s" t] drop_append [of n "c # s" t] n by simp_all
    ultimately show ?thesis using Broken 2(2) [OF Broken] by (simp split: prod.splits)
  next
    case Short
    then show ?thesis by (simp split: prod.splits)
  qed
qed (simp split: prod.splits)

text \<open>With nothing to follow, decoding is \<open>from_utf8_lossy\<close>.\<close>

lemma decode_loop_lossy: "decode_loop s = (out, rest) \<Longrightarrow> out @ from_utf8_lossy rest = from_utf8_lossy s"
proof (induction s arbitrary: out rest rule: decode_loop.induct)
  case (2 c s)
  then show ?case by (cases "utf8_front c s") (auto split: prod.splits)
qed simp

section \<open>Line ends\<close>

abbreviation unix_lines :: "string \<Rightarrow> string" where
  "unix_lines \<equiv> replace_str [CR, LF] [LF]"

lemma unix_lines_Nil [simp]: "unix_lines [] = []"
  by (simp add: replace_str_def split_str.simps starts_with_def)

lemma join_Cons_Nil: "ps \<noteq> [] \<Longrightarrow> join sep ([] # ps) = sep @ join sep ps"
  by (cases ps) simp_all

lemma split_str_not_Nil [simp]: "split_str sep s \<noteq> []"
  by (subst split_str.simps) (simp split: list.split)

lemma replace_str_step:
  "sep \<noteq> [] \<Longrightarrow> replace_str sep new (c # s) =
     (if starts_with (c # s) sep then new @ replace_str sep new (drop (length sep) (c # s))
      else c # replace_str sep new s)"
  unfolding replace_str_def
  by (subst split_str.simps) (auto simp: join_Cons_Nil join_Cons_char split: list.split)

lemma unix_lines_Cons:
  "unix_lines (c # s) =
     (if c = CR \<and> s \<noteq> [] \<and> hd s = LF then LF # unix_lines (tl s) else c # unix_lines s)"
  by (cases s) (auto simp: replace_str_step starts_with_def)

lemma unix_lines_append:
  "\<not> (s \<noteq> [] \<and> last s = CR \<and> t \<noteq> [] \<and> hd t = LF) \<Longrightarrow> unix_lines (s @ t) = unix_lines s @ unix_lines t"
proof (induction "length s" arbitrary: s rule: less_induct)
  case less
  show ?case
  proof (cases s)
    case (Cons c s')
    show ?thesis
    proof (cases "c = CR \<and> s' \<noteq> [] \<and> hd s' = LF")
      case True
      then obtain s'' where s': "s' = LF # s''" by (cases s') auto
      have "unix_lines (s'' @ t) = unix_lines s'' @ unix_lines t"
        by (rule less.hyps) (use less.prems in \<open>auto simp: Cons s'\<close>)
      with True show ?thesis by (simp add: Cons s' unix_lines_Cons)
    next
      case False
      have "unix_lines (s' @ t) = unix_lines s' @ unix_lines t"
        by (rule less.hyps) (use less.prems in \<open>auto simp: Cons\<close>)
      with False less.prems show ?thesis
        by (cases s') (auto simp: Cons unix_lines_Cons)
    qed
  qed simp
qed

section \<open>Cutting into blocks\<close>

lemma find_str_append:
  "find_str s p = Some n \<Longrightarrow> find_str (s @ t) p = Some n"
proof (induction s arbitrary: n)
  case Nil
  then show ?case by (cases t) (auto simp: starts_with_def split: if_splits)
next
  case (Cons c s)
  show ?case
  proof (cases "starts_with (c # s) p")
    case True
    then have "starts_with (c # s @ t) p"
      using prefix_prefix [of p "c # s" t] by (simp add: starts_with_iff)
    with True Cons.prems show ?thesis by simp
  next
    case False
    then obtain m where m: "find_str s p = Some m" "n = Suc m" using Cons.prems by auto
    from find_str_length [OF m(1)] have "length p \<le> length (c # s)" by simp
    then have "take (length p) ((c # s) @ t) = take (length p) (c # s)" unfolding take_append by simp
    then have "\<not> starts_with (c # s @ t) p" using False unfolding starts_with_def append_Cons by metis
    with m Cons.IH [OF m(1)] show ?thesis by simp
  qed
qed

lemma drain_buf:
  "find_str (fr_buf f) [LF, LF] = None \<Longrightarrow> framer_drain f = ([], f)"
  "find_str (fr_buf f) [LF, LF] = Some n \<Longrightarrow> framer_drain f =
     (case framer_drain (f\<lparr>fr_buf := drop (n + 2) (fr_buf f)\<rparr>) of (bs, g) \<Rightarrow> (take (n + 2) (fr_buf f) # bs, g))"
  by (subst framer_drain.simps, simp add: framer_next_block_def)+

text \<open>Draining early makes no difference to the blocks, nor to what is left.\<close>

lemma framer_drain_append:
  assumes "framer_drain f = (bs, g)"
  shows "framer_drain (f\<lparr>fr_buf := fr_buf f @ t\<rparr>) =
     (case framer_drain (g\<lparr>fr_buf := fr_buf g @ t\<rparr>) of (cs, g) \<Rightarrow> (bs @ cs, g))"
  using assms
proof (induction "length (fr_buf f)" arbitrary: f bs rule: less_induct)
  case less
  show ?case
  proof (cases "find_str (fr_buf f) [LF, LF]")
    case None
    with less.prems show ?thesis by (simp add: drain_buf split: prod.splits)
  next
    case (Some n)
    have n: "n + 2 \<le> length (fr_buf f)" using find_str_length [OF Some] by simp
    let ?f = "f\<lparr>fr_buf := drop (n + 2) (fr_buf f)\<rparr>"
    obtain bs' where drain: "framer_drain ?f = (bs', g)" and bs: "bs = take (n + 2) (fr_buf f) # bs'"
      using less.prems by (auto simp: drain_buf(2) [OF Some] split: prod.splits)
    have "framer_drain (?f\<lparr>fr_buf := fr_buf ?f @ t\<rparr>) =
      (case framer_drain (g\<lparr>fr_buf := fr_buf g @ t\<rparr>) of (cs, g) \<Rightarrow> (bs' @ cs, g))"
      by (rule less.hyps [OF _ drain]) (use n in simp)
    moreover have "find_str (fr_buf (f\<lparr>fr_buf := fr_buf f @ t\<rparr>)) [LF, LF] = Some n"
      using find_str_append [OF Some] by simp
    ultimately show ?thesis
      using n by (simp add: drain_buf(2) bs split: prod.splits)
  qed
qed

lemma framer_drain_fields:
  "framer_drain f = (bs, g) \<Longrightarrow> fr_pending g = fr_pending f \<and> fr_held_cr g = fr_held_cr f"
proof (induction "length (fr_buf f)" arbitrary: f bs rule: less_induct)
  case less
  show ?case
  proof (cases "find_str (fr_buf f) [LF, LF]")
    case None
    with less.prems show ?thesis by (simp add: drain_buf)
  next
    case (Some n)
    let ?f = "f\<lparr>fr_buf := drop (n + 2) (fr_buf f)\<rparr>"
    obtain bs' where drain: "framer_drain ?f = (bs', g)"
      using less.prems by (auto simp: drain_buf(2) [OF Some] split: prod.splits)
    have "fr_pending g = fr_pending ?f \<and> fr_held_cr g = fr_held_cr ?f"
      by (rule less.hyps [OF _ drain]) (use find_str_length [OF Some] in simp)
    then show ?thesis by simp
  qed
qed

lemma framer_commute:
  "f\<lparr>fr_pending := p, fr_held_cr := c, fr_buf := b\<rparr> = f\<lparr>fr_buf := b, fr_pending := p, fr_held_cr := c\<rparr>"
  by (cases f) simp

lemma framer_drain_frame:
  "framer_drain (f\<lparr>fr_pending := p, fr_held_cr := c\<rparr>) =
     (case framer_drain f of (bs, g) \<Rightarrow> (bs, g\<lparr>fr_pending := p, fr_held_cr := c\<rparr>))"
proof (induction "length (fr_buf f)" arbitrary: f rule: less_induct)
  case less
  show ?case
  proof (cases "find_str (fr_buf f) [LF, LF]")
    case None
    then show ?thesis by (simp add: drain_buf)
  next
    case (Some n)
    let ?f = "f\<lparr>fr_buf := drop (n + 2) (fr_buf f)\<rparr>"
    have "framer_drain (?f\<lparr>fr_pending := p, fr_held_cr := c\<rparr>) =
      (case framer_drain ?f of (bs, g) \<Rightarrow> (bs, g\<lparr>fr_pending := p, fr_held_cr := c\<rparr>))"
      by (rule less.hyps) (use find_str_length [OF Some] in simp)
    with Some show ?thesis by (simp add: drain_buf(2) framer_commute split: prod.splits)
  qed
qed

section \<open>Pieces do not matter\<close>

definition holds_cr :: "string \<Rightarrow> bool" where
  "holds_cr s \<longleftrightarrow> s \<noteq> [] \<and> last s = CR"

definition without_cr :: "string \<Rightarrow> string" where
  "without_cr s = (if holds_cr s then butlast s else s)"

lemma ends_with_CR: "ends_with s [CR] \<longleftrightarrow> holds_cr s"
  by (cases s rule: rev_cases) (auto simp: ends_with_def holds_cr_def)

lemma without_cr_split: "s = without_cr s @ (if holds_cr s then [CR] else [])"
  by (cases s rule: rev_cases) (auto simp: without_cr_def holds_cr_def)

definition held_text :: "sse_framer \<Rightarrow> string \<Rightarrow> string" where
  "held_text f decoded = (if fr_held_cr f then CR # decoded else decoded)"

lemma framer_push_eq:
  "utf8_decode (fr_pending f) bytes = (decoded, pending) \<Longrightarrow> snd (framer_push f bytes) =
     \<lparr>fr_pending = pending, fr_buf = fr_buf f @ unix_lines (without_cr (held_text f decoded)),
      fr_held_cr = holds_cr (held_text f decoded)\<rparr>"
  by (simp add: framer_push_def held_text_def without_cr_def ends_with_CR Let_def)

lemma without_cr_append:
  fixes s t :: string
  assumes "u = (if holds_cr s then CR # t else t)"
  shows "without_cr (s @ t) = without_cr s @ without_cr u" and "holds_cr (s @ t) = holds_cr u"
    and "unix_lines (without_cr (s @ t)) = unix_lines (without_cr s) @ unix_lines (without_cr u)"
proof -
  have st: "s @ t = without_cr s @ u"
    using assms without_cr_split [of s] by (auto simp: if_splits)
  have nil: "\<not> holds_cr (without_cr s)" if "u = []"
    using assms that by (auto simp: without_cr_def split: if_splits)
  show app: "without_cr (s @ t) = without_cr s @ without_cr u" and "holds_cr (s @ t) = holds_cr u"
    unfolding st using nil by (cases u rule: rev_cases; auto simp: without_cr_def holds_cr_def butlast_append)+
  have "\<not> (without_cr s \<noteq> [] \<and> last (without_cr s) = CR \<and> without_cr u \<noteq> [] \<and> hd (without_cr u) = LF)"
  proof (cases "holds_cr s")
    case True
    then have "without_cr u = [] \<or> hd (without_cr u) = CR"
      using assms by (cases t rule: rev_cases) (auto simp: without_cr_def)
    then show ?thesis by (auto simp: CR_def LF_def)
  next
    case False
    then show ?thesis by (auto simp: without_cr_def holds_cr_def)
  qed
  then show "unix_lines (without_cr (s @ t)) = unix_lines (without_cr s) @ unix_lines (without_cr u)"
    unfolding app by (rule unix_lines_append)
qed

lemma framer_feed_append:
  assumes "framer_feed f a = (bs, g)"
  shows "framer_feed f (a @ b) = (case framer_feed g b of (cs, g) \<Rightarrow> (bs @ cs, g))"
proof -
  obtain out1 p1 where d1: "utf8_decode (fr_pending f) a = (out1, p1)" by fastforce
  obtain out2 p2 where d2: "utf8_decode p1 b = (out2, p2)" by fastforce
  have d: "utf8_decode (fr_pending f) (a @ b) = (out1 @ out2, p2)"
    using d1 d2 decode_loop_append [of "fr_pending f @ a" b] by (simp add: utf8_decode_def)
  let ?s = "held_text f out1"
  let ?u = "if holds_cr ?s then CR # out2 else out2"
  let ?f1 = "snd (framer_push f a)"
  have f1: "?f1 = \<lparr>fr_pending = p1, fr_buf = fr_buf f @ unix_lines (without_cr ?s), fr_held_cr = holds_cr ?s\<rparr>"
    by (rule framer_push_eq [OF d1])
  have drain: "framer_drain ?f1 = (bs, g)" using assms by (simp add: framer_feed_def)
  have g: "fr_pending g = p1" "fr_held_cr g = holds_cr ?s"
    using framer_drain_fields [OF drain] by (simp_all add: f1)
  have u: "held_text g out2 = ?u" by (simp add: held_text_def g)
  have st: "held_text f (out1 @ out2) = ?s @ out2" by (simp add: held_text_def)
  have g2: "snd (framer_push g b) = g\<lparr>fr_pending := p2, fr_buf := fr_buf g @ unix_lines (without_cr ?u),
      fr_held_cr := holds_cr ?u\<rparr>"
    using framer_push_eq [of g b out2 p2] d2 by (simp add: g u)
  have f2: "snd (framer_push f (a @ b)) = \<lparr>fr_pending = p2,
      fr_buf = fr_buf ?f1 @ unix_lines (without_cr ?u), fr_held_cr = holds_cr ?u\<rparr>"
    using framer_push_eq [OF d] without_cr_append [of ?u ?s out2] by (simp add: f1 st)
  let ?set = "\<lambda>h. h\<lparr>fr_pending := p2, fr_held_cr := holds_cr ?u\<rparr>"
  have frame: "framer_drain (?set h) = (case framer_drain h of (bs, g) \<Rightarrow> (bs, ?set g))" for h
    by (rule framer_drain_frame)
  have "snd (framer_push f (a @ b)) = ?set (?f1\<lparr>fr_buf := fr_buf ?f1 @ unix_lines (without_cr ?u)\<rparr>)"
    by (simp add: f2)
  moreover have "snd (framer_push g b) = ?set (g\<lparr>fr_buf := fr_buf g @ unix_lines (without_cr ?u)\<rparr>)"
    by (simp add: g2)
  ultimately show ?thesis
    using framer_drain_append [OF drain, of "unix_lines (without_cr ?u)"]
    by (simp add: framer_feed_def frame split: prod.splits)
qed

lemma framer_feed_settled: "framer_feed f a = (bs, g) \<Longrightarrow> framer_feed g [] = ([], g)"
  using framer_feed_append [of f a bs g "[]"] by (auto split: prod.splits)

lemma framer_feeds_concat:
  "framer_feed f [] = ([], f) \<Longrightarrow> framer_feeds f pieces = framer_feed f (concat pieces)"
proof (induction pieces arbitrary: f)
  case (Cons p ps)
  obtain bs g where feed: "framer_feed f p = (bs, g)" by fastforce
  with Cons.IH [OF framer_feed_settled [OF feed]] framer_feed_append [OF feed, of "concat ps"]
  show ?case by simp
qed simp

lemma new_framer_settled: "framer_feed new_framer [] = ([], new_framer)"
  by (simp add: framer_feed_def framer_push_def new_framer_def utf8_decode_def ends_with_def drain_buf(1))

text \<open>Nothing is lost or added: blocks and remainder are the decoded text with its line ends normalised.\<close>

lemma framer_drain_content: "framer_drain f = (bs, g) \<Longrightarrow> concat bs @ fr_buf g = fr_buf f"
proof (induction "length (fr_buf f)" arbitrary: f bs rule: less_induct)
  case less
  show ?case
  proof (cases "find_str (fr_buf f) [LF, LF]")
    case None
    with less.prems show ?thesis by (simp add: drain_buf)
  next
    case (Some n)
    let ?f = "f\<lparr>fr_buf := drop (n + 2) (fr_buf f)\<rparr>"
    obtain bs' where drain: "framer_drain ?f = (bs', g)" and bs: "bs = take (n + 2) (fr_buf f) # bs'"
      using less.prems by (auto simp: drain_buf(2) [OF Some] split: prod.splits)
    have "concat bs' @ fr_buf g = fr_buf ?f"
      by (rule less.hyps [OF _ drain]) (use find_str_length [OF Some] in simp)
    then show ?thesis by (simp add: bs)
  qed
qed

lemma decode_rest: "decode_loop s = (out, rest) \<Longrightarrow> from_utf8_lossy rest = (if rest = [] then [] else replacement)"
proof (induction s arbitrary: out rest rule: decode_loop.induct)
  case (2 c s)
  then show ?case by (cases "utf8_front c s") (auto split: prod.splits)
qed simp

lemma framer_content:
  assumes "framer_feed new_framer bytes = (bs, f)" and "\<not> (fr_held_cr f \<and> fr_pending f \<noteq> [])"
  shows "concat bs @ framer_finish f = unix_lines (from_utf8_lossy bytes)"
proof -
  obtain out rest where d: "utf8_decode (fr_pending new_framer) bytes = (out, rest)" by fastforce
  then have loop: "decode_loop bytes = (out, rest)" by (simp add: utf8_decode_def new_framer_def)
  have drain: "framer_drain \<lparr>fr_pending = rest, fr_buf = unix_lines (without_cr out), fr_held_cr = holds_cr out\<rparr> = (bs, f)"
    using framer_push_eq [OF d] assms(1) by (simp add: framer_feed_def held_text_def new_framer_def)
  from framer_drain_content [OF drain] framer_drain_fields [OF drain]
  have f: "concat bs @ fr_buf f = unix_lines (without_cr out)" "fr_pending f = rest" "fr_held_cr f = holds_cr out"
    by simp_all
  have repl: "unix_lines replacement = replacement" "hd replacement \<noteq> LF" by code_simp+
  have "unix_lines (from_utf8_lossy bytes) = unix_lines (out @ from_utf8_lossy rest)"
    using decode_loop_lossy [OF loop] by simp
  also have "\<dots> = unix_lines out @ from_utf8_lossy rest"
    using unix_lines_append [of out "from_utf8_lossy rest"] decode_rest [OF loop] repl by (auto split: if_splits)
  also have "unix_lines out = unix_lines (without_cr out) @ (if holds_cr out then [CR] else [])"
  proof (cases "holds_cr out")
    case True
    then have "out = without_cr out @ [CR]" using without_cr_split [of out] by simp
    then have "unix_lines out = unix_lines (without_cr out @ [CR])" by simp
    also have "\<dots> = unix_lines (without_cr out) @ unix_lines [CR]"
      by (rule unix_lines_append) (simp add: CR_def LF_def)
    finally show ?thesis using True by (simp add: unix_lines_Cons)
  qed (simp add: without_cr_def)
  finally have "unix_lines (from_utf8_lossy bytes)
      = concat bs @ fr_buf f @ (if fr_held_cr f then [CR] else []) @ from_utf8_lossy rest"
    by (simp add: f)
  then show ?thesis using assms(2) f(2,3) decode_rest [OF loop]
    by (auto simp: framer_finish_def)
qed

text \<open>When a carriage return and a cut-off character both wait at the end, they come out swapped.\<close>

lemma finish_swaps_cr:
  "framer_finish (snd (framer_feed new_framer [CR, char_of (225 :: nat)])) = replacement @ [CR]"
  "from_utf8_lossy [CR, char_of (225 :: nat)] = [CR] @ replacement"
  by code_simp+

end
