(* ===== verification/BridgeStream.thy ===== *)
theory BridgeStream
  imports Bridge Sse
begin

text \<open>
  \<open>src/providers/adapter/codex/claude_bridge.rs\<close>, streams: OpenAI completion chunks
  become Anthropic events and the other way round, one at a time, with the state the
  translation has to remember.  A stream of bytes is the list of what it yields, an
  error (\<open>Inl\<close>) or bytes (\<open>Inr\<close>); the end of the list is the end of the stream.  The
  theory shows that the events that come out follow the order the Messages protocol
  prescribes, and that no text is lost.
\<close>

section \<open>OpenAI chunks to Anthropic events\<close>

text \<open>A \<open>BTreeMap\<close> with insertion in key order.\<close>

fun bt_insert :: "nat \<Rightarrow> 'v \<Rightarrow> (nat \<times> 'v) list \<Rightarrow> (nat \<times> 'v) list" where
  "bt_insert k v [] = [(k, v)]"
| "bt_insert k v ((k', v') # m) =
     (if k = k' then (k, v) # m else if k < k' then (k, v) # (k', v') # m else (k', v') # bt_insert k v m)"

text \<open>Block indices are \<open>u64\<close> counters far from their range; \<open>cs_tool_calls\<close> gives a tool's block.\<close>

record claude_stream_state =
  cs_message_start_sent :: bool
  cs_next_block_index :: nat
  cs_text_block_index :: nat
  cs_text_block_started :: bool
  cs_tool_calls :: "(nat \<times> nat) list"

definition new_claude_stream :: claude_stream_state where
  "new_claude_stream = \<lparr>cs_message_start_sent = False, cs_next_block_index = 0, cs_text_block_index = 0,
     cs_text_block_started = False, cs_tool_calls = []\<rparr>"

type_synonym event = "string \<times> json"

definition zero_usage :: json where
  "zero_usage = jobj [(''input_tokens'', jnat 0), (''output_tokens'', jnat 0)]"

definition message_start :: "json \<Rightarrow> event" where
  "message_start chunk =
     (''message_start'', jobj [(''type'', JStr ''message_start''), (''message'', jobj [
        (''id'', JStr (unwrap_or (opt_filter (\<lambda>s. s \<noteq> []) (as_str (jidx chunk ''id''))) ''msg_unknown'')),
        (''type'', JStr ''message''), (''role'', JStr ''assistant''),
        (''model'', JStr (unwrap_or (as_str (jidx chunk ''model'')) ''unknown'')),
        (''content'', JArr []), (''stop_reason'', JNull), (''stop_sequence'', JNull),
        (''usage'', zero_usage)])])"

definition block_start :: "nat \<Rightarrow> json \<Rightarrow> event" where
  "block_start i content_block =
     (''content_block_start'', jobj [(''type'', JStr ''content_block_start''), (''index'', jnat i),
        (''content_block'', content_block)])"

definition block_delta :: "nat \<Rightarrow> json \<Rightarrow> event" where
  "block_delta i delta =
     (''content_block_delta'', jobj [(''type'', JStr ''content_block_delta''), (''index'', jnat i),
        (''delta'', delta)])"

definition block_stop :: "nat \<Rightarrow> event" where
  "block_stop i =
     (''content_block_stop'', jobj [(''type'', JStr ''content_block_stop''), (''index'', jnat i)])"

definition text_delta :: "string \<Rightarrow> json" where
  "text_delta t = jobj [(''type'', JStr ''text_delta''), (''text'', JStr t)]"

definition input_delta :: "string \<Rightarrow> json" where
  "input_delta t = jobj [(''type'', JStr ''input_json_delta''), (''partial_json'', JStr t)]"

definition tool_block :: "string \<Rightarrow> string \<Rightarrow> json" where
  "tool_block i name = jobj [(''type'', JStr ''tool_use''), (''id'', JStr i), (''name'', JStr name), (''input'', JObj [])]"

definition start_events :: "json \<Rightarrow> claude_stream_state \<Rightarrow> event list \<times> claude_stream_state" where
  "start_events chunk st =
     (if cs_message_start_sent st then ([], st)
      else ([message_start chunk], st\<lparr>cs_message_start_sent := True\<rparr>))"

definition text_events :: "json \<Rightarrow> claude_stream_state \<Rightarrow> event list \<times> claude_stream_state" where
  "text_events delta st =
     (case opt_filter (\<lambda>t. t \<noteq> []) (str_at delta ''content'') of
        None \<Rightarrow> ([], st)
      | Some t \<Rightarrow>
          if cs_text_block_started st then ([block_delta (cs_text_block_index st) (text_delta t)], st)
          else (let i = cs_next_block_index st
            in ([block_start i (text_block []), block_delta i (text_delta t)],
                st\<lparr>cs_text_block_index := i, cs_next_block_index := i + 1, cs_text_block_started := True\<rparr>)))"

definition open_tool :: "json \<Rightarrow> nat \<Rightarrow> claude_stream_state \<Rightarrow> event list \<times> claude_stream_state" where
  "open_tool tc index st =
     (case str_at tc ''id'' of
        None \<Rightarrow> ([], st)
      | Some tool_id \<Rightarrow>
          if map_of (cs_tool_calls st) index \<noteq> None then ([], st)
          else (let i = cs_next_block_index st;
                    name = unwrap_or (as_str (jidx (jidx tc ''function'') ''name'')) []
            in ([block_start i (tool_block tool_id name)],
                st\<lparr>cs_next_block_index := i + 1, cs_tool_calls := bt_insert index i (cs_tool_calls st)\<rparr>)))"

definition tool_index :: "json \<Rightarrow> nat" where
  "tool_index tc = unwrap_or (Option.bind (jget tc ''index'') as_u64) 0"

definition tool_events :: "json \<Rightarrow> claude_stream_state \<Rightarrow> event list \<times> claude_stream_state" where
  "tool_events tc st =
     (case open_tool tc (tool_index tc) st of (opened, st) \<Rightarrow>
        (opened @
           (case (as_str (jidx (jidx tc ''function'') ''arguments''), map_of (cs_tool_calls st) (tool_index tc)) of
              (Some args, Some i) \<Rightarrow> [block_delta i (input_delta args)]
            | _ \<Rightarrow> []), st))"

fun all_tool_events :: "json list \<Rightarrow> claude_stream_state \<Rightarrow> event list \<times> claude_stream_state" where
  "all_tool_events [] st = ([], st)"
| "all_tool_events (tc # tcs) st =
     (case tool_events tc st of (es, st) \<Rightarrow>
        (case all_tool_events tcs st of (fs, st) \<Rightarrow> (es @ fs, st)))"

definition finish_events :: "json \<Rightarrow> string \<Rightarrow> claude_stream_state \<Rightarrow> event list" where
  "finish_events chunk finish st =
     (if cs_text_block_started st then [block_stop (cs_text_block_index st)] else [])
     @ map (\<lambda>(_, i). block_stop i) (cs_tool_calls st)
     @ [(''message_delta'', jobj [(''type'', JStr ''message_delta''),
          (''delta'', jobj [(''stop_reason'', JStr (finish_to_stop_reason finish)), (''stop_sequence'', JNull)]),
          (''usage'', usage_from chunk)]),
        (''message_stop'', jobj [(''type'', JStr ''message_stop'')])]"

definition openai_chunk_to_claude_events ::
  "json \<Rightarrow> claude_stream_state \<Rightarrow> event list \<times> claude_stream_state" where
  "openai_chunk_to_claude_events chunk st =
     (case first_elem (jidx chunk ''choices'') of
        None \<Rightarrow> ([], st)
      | Some choice \<Rightarrow>
          (let delta = jidx choice ''delta'';
               (es1, st) = start_events chunk st;
               (es2, st) = text_events delta st;
               (es3, st) = all_tool_events (elements_at delta ''tool_calls'') st;
               es4 = (case str_at choice ''finish_reason'' of
                        Some finish \<Rightarrow> finish_events chunk finish st | None \<Rightarrow> [])
           in (es1 @ es2 @ es3 @ es4, st)))"

section \<open>Anthropic events to OpenAI chunks\<close>

datatype openai_block_kind = TextBlock | ToolUseBlock

record openai_stream_state =
  os_id :: string
  os_model :: string
  os_block_kinds :: "(nat, openai_block_kind) dmap"
  os_tool_openai_index :: "(nat, nat) dmap"
  os_next_tool_index :: nat

definition new_openai_stream :: openai_stream_state where
  "new_openai_stream = \<lparr>os_id = [], os_model = [], os_block_kinds = [], os_tool_openai_index = [],
     os_next_tool_index = 0\<rparr>"

definition openai_chunk :: "openai_stream_state \<Rightarrow> json \<Rightarrow> string option \<Rightarrow> json" where
  "openai_chunk st delta finish =
     jobj [(''id'', JStr (os_id st)), (''object'', JStr ''chat.completion.chunk''), (''model'', JStr (os_model st)),
       (''choices'', JArr [jobj [(''index'', jnat 0), (''delta'', delta),
          (''finish_reason'', (case finish of Some f \<Rightarrow> JStr f | None \<Rightarrow> JNull))]])]"

definition block_index :: "json \<Rightarrow> nat" where
  "block_index data = unwrap_or (as_u64 (jidx data ''index'')) 0"

definition claude_event_to_openai_chunk ::
  "string \<Rightarrow> json \<Rightarrow> openai_stream_state \<Rightarrow> json option \<times> openai_stream_state" where
  "claude_event_to_openai_chunk event_type data st =
     (if event_type = ''message_start'' then
        (let m = jidx data ''message'';
             st = st\<lparr>os_id := unwrap_or (opt_filter (\<lambda>s. s \<noteq> []) (as_str (jidx m ''id''))) ''msg_unknown'',
                     os_model := unwrap_or (as_str (jidx m ''model'')) ''unknown''\<rparr>
         in (Some (openai_chunk st (message_of ''assistant'' (JStr [])) None), st))
      else if event_type = ''content_block_start'' then
        (let index = block_index data; block = jidx data ''content_block''
         in if as_str (jidx block ''type'') = Some ''tool_use'' then
              (let i = os_next_tool_index st;
                   st = st\<lparr>os_block_kinds := dm_put index ToolUseBlock (os_block_kinds st),
                           os_next_tool_index := i + 1,
                           os_tool_openai_index := dm_put index i (os_tool_openai_index st)\<rparr>
               in (Some (openai_chunk st (jobj [(''tool_calls'', JArr [jobj [(''index'', jnat i),
                     (''id'', jidx block ''id''), (''type'', JStr ''function''),
                     (''function'', jobj [(''name'', jidx block ''name''), (''arguments'', JStr [])])]])]) None), st))
            else (None, st\<lparr>os_block_kinds := dm_put index TextBlock (os_block_kinds st)\<rparr>))
      else if event_type = ''content_block_delta'' then
        (let index = block_index data; delta = jidx data ''delta''
         in if dm_get (os_block_kinds st) index = Some ToolUseBlock then
              (Some (openai_chunk st (jobj [(''tool_calls'', JArr [jobj [
                 (''index'', jnat (unwrap_or (dm_get (os_tool_openai_index st) index) 0)),
                 (''function'', jobj [(''arguments'', JStr (unwrap_or (as_str (jidx delta ''partial_json'')) []))])]])])
                 None), st)
            else (let t = unwrap_or (as_str (jidx delta ''text'')) []
              in if t = [] then (None, st) else (Some (openai_chunk st (jobj [(''content'', JStr t)]) None), st)))
      else if event_type = ''message_delta'' then
        (let stop_reason = unwrap_or (as_str (jidx (jidx data ''delta'') ''stop_reason'')) ''end_turn'';
             finish = (if os_tool_openai_index st \<noteq> [] then ''tool_calls'' else stop_reason_to_finish stop_reason);
             chunk = openai_chunk st (JObj []) (Some finish)
         in (Some (case jget data ''usage'' of
               Some u \<Rightarrow> jset ''usage'' (openai_usage_from_claude (jobj [(''usage'', u)])) chunk | None \<Rightarrow> chunk), st))
      else (None, st))"

section \<open>Streams of bytes\<close>

type_synonym 'e items = "('e + string) list"

definition nonblank :: "string \<Rightarrow> bool" where
  "nonblank s \<longleftrightarrow> trim s \<noteq> []"

definition rest_block :: "sse_framer \<Rightarrow> 'e items" where
  "rest_block f = (if nonblank (framer_finish f) then [Inr (framer_finish f)] else [])"

text \<open>One item per complete block; a stream that outgrows the buffer just ends.\<close>

fun reframe_sse_blocks :: "sse_framer \<Rightarrow> 'e items \<Rightarrow> 'e items" where
  "reframe_sse_blocks f [] = rest_block f"
| "reframe_sse_blocks f (Inl e # _) = Inl e # rest_block f"
| "reframe_sse_blocks f (Inr bytes # items) =
     (case framer_push f bytes of (ok, f) \<Rightarrow>
        if \<not> ok then []
        else (case framer_drain f of (blocks, f) \<Rightarrow>
          map Inr (filter nonblank blocks) @ reframe_sse_blocks f items))"

text \<open>\<open>str::lines\<close>.\<close>

definition strip_cr :: "string \<Rightarrow> string" where
  "strip_cr s = (if ends_with s [CR] then butlast s else s)"

definition str_lines :: "string \<Rightarrow> string list" where
  "str_lines s =
     (let ps = split_on LF s in map strip_cr (butlast ps) @ (if last ps = [] then [] else [last ps]))"

definition sse_line :: "string option \<times> string option \<Rightarrow> string \<Rightarrow> string option \<times> string option" where
  "sse_line a line =
     (case strip_prefix ''event:'' line of
        Some rest \<Rightarrow> (Some (trim rest), snd a)
      | None \<Rightarrow> (case strip_prefix ''data:'' line of
          Some rest \<Rightarrow> (fst a, Some (trim rest))
        | None \<Rightarrow> a))"

definition parse_claude_sse_block :: "(string \<Rightarrow> json option) \<Rightarrow> string \<Rightarrow> event option" where
  "parse_claude_sse_block parse block =
     (case foldl sse_line (None, None) (str_lines block) of (event_type, data_line) \<Rightarrow>
        map_option (\<lambda>data. (unwrap_or event_type [], data)) (Option.bind data_line parse))"

definition blank_line :: string where
  "blank_line = [LF, LF]"

definition done_marker :: string where
  "done_marker = ''data: [DONE]'' @ blank_line"

definition render_openai_chunk :: "(json \<Rightarrow> string) \<Rightarrow> json \<Rightarrow> string" where
  "render_openai_chunk print chunk = ''data: '' @ print chunk @ blank_line"

definition render_claude_event :: "(json \<Rightarrow> string) \<Rightarrow> event \<Rightarrow> string" where
  "render_claude_event print e = ''event: '' @ fst e @ [LF] @ ''data: '' @ print (snd e) @ blank_line"

fun convert_claude_sse_to_openai_sse ::
  "(string \<Rightarrow> json option) \<Rightarrow> (json \<Rightarrow> string) \<Rightarrow> openai_stream_state \<Rightarrow> 'e items \<Rightarrow> 'e items" where
  "convert_claude_sse_to_openai_sse parse print st [] = [Inr done_marker]"
| "convert_claude_sse_to_openai_sse parse print st (Inl e # _) = [Inl e]"
| "convert_claude_sse_to_openai_sse parse print st (Inr bytes # items) =
     (case parse_claude_sse_block parse (from_utf8_lossy bytes) of
        None \<Rightarrow> convert_claude_sse_to_openai_sse parse print st items
      | Some (event_type, data) \<Rightarrow>
          if event_type = ''message_stop'' then [Inr done_marker]
          else (case claude_event_to_openai_chunk event_type data st of
              (None, st) \<Rightarrow> convert_claude_sse_to_openai_sse parse print st items
            | (Some chunk, st) \<Rightarrow>
                Inr (render_openai_chunk print chunk) # convert_claude_sse_to_openai_sse parse print st items))"

text \<open>What one framed block of an OpenAI stream is: the end marker, a chunk, or nothing to translate.\<close>

datatype openai_block = DoneBlock | ChunkBlock json | OtherBlock

definition read_openai_block :: "(string \<Rightarrow> json option) \<Rightarrow> string \<Rightarrow> openai_block" where
  "read_openai_block parse bytes =
     (case strip_prefix ''data:'' (trim (from_utf8_lossy bytes)) of
        None \<Rightarrow> OtherBlock
      | Some rest \<Rightarrow>
          if trim rest = ''[DONE]'' then DoneBlock
          else (case parse (trim rest) of Some chunk \<Rightarrow> ChunkBlock chunk | None \<Rightarrow> OtherBlock))"

fun convert_openai_sse_to_claude_sse ::
  "(string \<Rightarrow> json option) \<Rightarrow> (json \<Rightarrow> string) \<Rightarrow> claude_stream_state \<Rightarrow> 'e items \<Rightarrow> 'e items" where
  "convert_openai_sse_to_claude_sse parse print st [] = []"
| "convert_openai_sse_to_claude_sse parse print st (Inl e # _) = [Inl e]"
| "convert_openai_sse_to_claude_sse parse print st (Inr bytes # items) =
     (case read_openai_block parse bytes of
        DoneBlock \<Rightarrow> []
      | OtherBlock \<Rightarrow> convert_openai_sse_to_claude_sse parse print st items
      | ChunkBlock chunk \<Rightarrow>
          (case openai_chunk_to_claude_events chunk st of (es, st) \<Rightarrow>
             map (\<lambda>e. Inr (render_claude_event print e)) es
             @ convert_openai_sse_to_claude_sse parse print st items))"

section \<open>The order of events\<close>

text \<open>
  The Messages protocol as an automaton: a message starts, opens blocks numbered
  from 0, adds to blocks that are open, closes every block once, and ends.
  \<open>Live n S\<close>: \<open>n\<close> blocks have been opened, those in \<open>S\<close> are closed.
\<close>

datatype proto = Idle | Live nat "nat set" | Closing | Finished

definition event_index :: "event \<Rightarrow> nat option" where
  "event_index e = Option.bind (jget (snd e) ''index'') as_u64"

fun protocol_step :: "proto \<Rightarrow> event \<Rightarrow> proto option" where
  "protocol_step Idle e = (if fst e = ''message_start'' then Some (Live 0 {}) else None)"
| "protocol_step (Live n S) e =
     (if fst e = ''message_delta'' then (if S = {..<n} then Some Closing else None)
      else (case event_index e of
        None \<Rightarrow> None
      | Some i \<Rightarrow>
          if fst e = ''content_block_start'' \<and> i = n then Some (Live (n + 1) S)
          else if fst e = ''content_block_delta'' \<and> i < n \<and> i \<notin> S then Some (Live n S)
          else if fst e = ''content_block_stop'' \<and> i < n \<and> i \<notin> S then Some (Live n (insert i S))
          else None))"
| "protocol_step Closing e = (if fst e = ''message_stop'' then Some Finished else None)"
| "protocol_step Finished e = None"

fun protocol_run :: "proto \<Rightarrow> event list \<Rightarrow> proto option" where
  "protocol_run p [] = Some p"
| "protocol_run p (e # es) = Option.bind (protocol_step p e) (\<lambda>p. protocol_run p es)"

lemma protocol_run_append:
  "protocol_run p (es @ fs) = Option.bind (protocol_run p es) (\<lambda>p. protocol_run p fs)"
  by (induction es arbitrary: p) (auto simp: bind_assoc)

lemma event_index_block [simp]:
  "event_index (block_start i b) = Some i" "event_index (block_delta i d) = Some i"
  "event_index (block_stop i) = Some i"
  by (simp_all add: event_index_def block_start_def block_delta_def block_stop_def jget_jobj jnat_def)

lemma event_type_block [simp]:
  "fst (block_start i b) = ''content_block_start''" "fst (block_delta i d) = ''content_block_delta''"
  "fst (block_stop i) = ''content_block_stop''" "fst (message_start c) = ''message_start''"
  by (simp_all add: block_start_def block_delta_def block_stop_def message_start_def)

text \<open>The blocks the translation has opened, in the order it will close them.\<close>

definition open_blocks :: "claude_stream_state \<Rightarrow> nat list" where
  "open_blocks st =
     (if cs_text_block_started st then [cs_text_block_index st] else []) @ map snd (cs_tool_calls st)"

definition stream_inv :: "claude_stream_state \<Rightarrow> bool" where
  "stream_inv st \<longleftrightarrow>
     mset (open_blocks st) = mset [0..<cs_next_block_index st]
   \<and> (\<not> cs_message_start_sent st \<longrightarrow> cs_next_block_index st = 0)"

definition proto_of :: "claude_stream_state \<Rightarrow> proto" where
  "proto_of st = (if cs_message_start_sent st then Live (cs_next_block_index st) {} else Idle)"

lemma stream_inv_blocks:
  assumes "stream_inv st"
  shows "distinct (open_blocks st)" and "set (open_blocks st) = {..<cs_next_block_index st}"
proof -
  have m: "mset (open_blocks st) = mset [0..<cs_next_block_index st]"
    using assms by (simp add: stream_inv_def)
  show "distinct (open_blocks st)" using mset_eq_imp_distinct_iff [OF m] by simp
  show "set (open_blocks st) = {..<cs_next_block_index st}"
    using mset_eq_setD [OF m] by (simp add: lessThan_atLeast0)
qed

lemma bt_insert_new:
  "map_of m k = None \<Longrightarrow> image_mset snd (mset (bt_insert k v m)) = add_mset v (image_mset snd (mset m))"
  by (induction m) (auto split: if_splits)

lemma map_of_bt_insert: "map_of (bt_insert k v m) = (map_of m)(k \<mapsto> v)"
  by (induction m) (auto simp: fun_eq_iff)

lemma stream_inv_new: "stream_inv new_claude_stream"
  by (simp add: stream_inv_def new_claude_stream_def open_blocks_def)

lemma upt_Suc_mset: "mset [0..<Suc n] = add_mset n (mset [0..<n])"
  by simp

lemma start_events_ok:
  assumes "start_events chunk st = (es, st')" and "stream_inv st"
  shows "stream_inv st'" and "cs_message_start_sent st'" and "protocol_run (proto_of st) es = Some (proto_of st')"
  using assms by (auto simp: start_events_def proto_of_def stream_inv_def open_blocks_def split: if_splits)

text \<open>One part of a chunk leads from one live state to another.\<close>

definition advances :: "(claude_stream_state \<Rightarrow> event list \<times> claude_stream_state) \<Rightarrow> bool" where
  "advances f \<longleftrightarrow> (\<forall>st es st'. f st = (es, st') \<longrightarrow> stream_inv st \<longrightarrow> cs_message_start_sent st \<longrightarrow>
     stream_inv st' \<and> cs_message_start_sent st' \<and> protocol_run (proto_of st) es = Some (proto_of st'))"

lemma advancesD:
  assumes "advances f" and "f st = (es, st')" and "stream_inv st" and "cs_message_start_sent st"
  shows "stream_inv st'" and "cs_message_start_sent st'" and "protocol_run (proto_of st) es = Some (proto_of st')"
  using assms unfolding advances_def by blast+

lemma open_block_index:
  assumes "stream_inv st"
  shows "cs_text_block_started st \<Longrightarrow> cs_text_block_index st < cs_next_block_index st"
    and "map_of (cs_tool_calls st) k = Some i \<Longrightarrow> i < cs_next_block_index st"
proof -
  note set_blocks = stream_inv_blocks(2) [OF assms]
  show "cs_text_block_started st \<Longrightarrow> cs_text_block_index st < cs_next_block_index st"
    using set_blocks by (auto simp: open_blocks_def)
  assume "map_of (cs_tool_calls st) k = Some i"
  then have "i \<in> set (open_blocks st)" by (force simp: open_blocks_def dest: map_of_SomeD)
  with set_blocks show "i < cs_next_block_index st" by auto
qed

lemma advances_text: "advances (text_events delta)"
  unfolding advances_def
proof (intro allI impI)
  fix st es st'
  assume run: "text_events delta st = (es, st')" and inv: "stream_inv st" and sent: "cs_message_start_sent st"
  show "stream_inv st' \<and> cs_message_start_sent st' \<and> protocol_run (proto_of st) es = Some (proto_of st')"
  proof (cases "opt_filter (\<lambda>t. t \<noteq> []) (str_at delta ''content'')")
    case None
    with run inv sent show ?thesis by (simp add: text_events_def)
  next
    case (Some t)
    show ?thesis
    proof (cases "cs_text_block_started st")
      case True
      with Some run inv sent open_block_index(1) [OF inv] show ?thesis
        by (auto simp: text_events_def proto_of_def)
    next
      case False
      with Some run have es: "es = [block_start (cs_next_block_index st) (text_block []),
            block_delta (cs_next_block_index st) (text_delta t)]"
        and st': "st' = st\<lparr>cs_text_block_index := cs_next_block_index st,
            cs_next_block_index := cs_next_block_index st + 1, cs_text_block_started := True\<rparr>"
        by (auto simp: text_events_def Let_def)
      have "stream_inv st'"
        using inv False sent by (simp add: stream_inv_def open_blocks_def st')
      then show ?thesis using sent by (simp add: es st' proto_of_def)
    qed
  qed
qed

lemma open_tool_ok: "advances (open_tool tc index)"
  unfolding advances_def
proof (intro allI impI)
  fix st es st'
  assume run: "open_tool tc index st = (es, st')" and inv: "stream_inv st" and sent: "cs_message_start_sent st"
  show "stream_inv st' \<and> cs_message_start_sent st' \<and> protocol_run (proto_of st) es = Some (proto_of st')"
  proof (cases "str_at tc ''id'' \<noteq> None \<and> map_of (cs_tool_calls st) index = None")
    case False
    with run inv sent show ?thesis by (auto simp: open_tool_def split: option.splits if_splits)
  next
    case True
    then obtain t where t: "str_at tc ''id'' = Some t" by auto
    let ?b = "tool_block t (unwrap_or (as_str (jidx (jidx tc ''function'') ''name'')) [])"
    have es: "es = [block_start (cs_next_block_index st) ?b]"
      and st': "st' = st\<lparr>cs_next_block_index := cs_next_block_index st + 1,
          cs_tool_calls := bt_insert index (cs_next_block_index st) (cs_tool_calls st)\<rparr>"
      using run t True by (simp_all add: open_tool_def Let_def)
    have "stream_inv st'"
      using inv True sent by (auto simp: stream_inv_def open_blocks_def st' bt_insert_new split: if_splits)
    then show ?thesis using sent by (simp add: es st' proto_of_def)
  qed
qed

lemma advances_tool: "advances (tool_events tc)"
  unfolding advances_def
proof (intro allI impI)
  fix st es st'
  assume run: "tool_events tc st = (es, st')" and inv: "stream_inv st" and sent: "cs_message_start_sent st"
  obtain os st1 where opened: "open_tool tc (tool_index tc) st = (os, st1)" by fastforce
  note ok = advancesD [OF open_tool_ok opened inv sent]
  from run opened obtain ds where st': "st' = st1" and es: "es = os @ ds"
    and ds: "ds = [] \<or> (\<exists>i a. map_of (cs_tool_calls st1) (tool_index tc) = Some i \<and> ds = [block_delta i (input_delta a)])"
    by (auto simp: tool_events_def split: option.splits)
  have "protocol_run (proto_of st1) ds = Some (proto_of st1)"
    using ds open_block_index(2) [OF ok(1)] ok(2) by (auto simp: proto_of_def)
  with ok show "stream_inv st' \<and> cs_message_start_sent st' \<and> protocol_run (proto_of st) es = Some (proto_of st')"
    by (simp add: st' es protocol_run_append)
qed

lemma advances_seq:
  assumes "advances f" and "advances g"
  shows "advances (\<lambda>st. case f st of (es, st) \<Rightarrow> (case g st of (fs, st) \<Rightarrow> (es @ fs, st)))"
  unfolding advances_def
proof (intro allI impI)
  fix st hs st'
  assume run: "(case f st of (es, st) \<Rightarrow> (case g st of (fs, st) \<Rightarrow> (es @ fs, st))) = (hs, st')"
    and pre: "stream_inv st" "cs_message_start_sent st"
  obtain es st1 where f: "f st = (es, st1)" by fastforce
  obtain fs st2 where g: "g st1 = (fs, st2)" by fastforce
  note a = advancesD [OF assms(1) f pre]
  note b = advancesD [OF assms(2) g a(1,2)]
  from run f g have "hs = es @ fs" "st' = st2" by simp_all
  with a b show "stream_inv st' \<and> cs_message_start_sent st' \<and> protocol_run (proto_of st) hs = Some (proto_of st')"
    by (simp add: protocol_run_append)
qed

lemma advances_tools: "advances (all_tool_events tcs)"
proof (induction tcs)
  case Nil
  show ?case by (simp add: advances_def)
next
  case (Cons tc tcs)
  from advances_seq [OF advances_tool Cons.IH] show ?case by simp
qed

lemma stops_run:
  "distinct is \<Longrightarrow> set is \<subseteq> {..<n} - S \<Longrightarrow> protocol_run (Live n S) (map block_stop is) = Some (Live n (S \<union> set is))"
proof (induction "is" arbitrary: S)
  case (Cons i "is")
  then have "protocol_run (Live n (insert i S)) (map block_stop is) = Some (Live n (insert i S \<union> set is))"
    by (intro Cons.IH) auto
  with Cons.prems show ?case by auto
qed simp

lemma finish_events_run:
  assumes "stream_inv st" and "cs_message_start_sent st"
  shows "protocol_run (proto_of st) (finish_events chunk finish st) = Some Finished"
proof -
  have events: "finish_events chunk finish st = map block_stop (open_blocks st)
    @ [(''message_delta'', snd (finish_events chunk finish st ! length (open_blocks st))),
       (''message_stop'', jobj [(''type'', JStr ''message_stop'')])]"
    by (auto simp: finish_events_def open_blocks_def case_prod_unfold nth_append comp_def)
  have "protocol_run (proto_of st) (map block_stop (open_blocks st)) = Some (Live (cs_next_block_index st) {..<cs_next_block_index st})"
    using stops_run [of "open_blocks st" "cs_next_block_index st" "{}"] stream_inv_blocks [OF assms(1)] assms(2)
    by (simp add: proto_of_def)
  then show ?thesis by (subst events) (simp add: protocol_run_append)
qed

definition finish_of :: "json \<Rightarrow> string option" where
  "finish_of chunk = Option.bind (first_elem (jidx chunk ''choices'')) (\<lambda>c. str_at c ''finish_reason'')"

lemma chunk_events_ok:
  assumes "openai_chunk_to_claude_events chunk st = (es, st')" and "stream_inv st"
  shows "finish_of chunk = None \<Longrightarrow> stream_inv st' \<and> protocol_run (proto_of st) es = Some (proto_of st')"
    and "finish_of chunk = Some f \<Longrightarrow> protocol_run (proto_of st) es = Some Finished"
    and "stream_inv st'"
proof -
  obtain es1 st1 where s1: "start_events chunk st = (es1, st1)" by fastforce
  note ok1 = start_events_ok [OF s1 assms(2)]
  let ?choice = "first_elem (jidx chunk ''choices'')"
  let ?delta = "jidx (the ?choice) ''delta''"
  obtain es2 st2 where s2: "text_events ?delta st1 = (es2, st2)" by fastforce
  note ok2 = advancesD [OF advances_text s2 ok1(1,2)]
  obtain es3 st3 where s3: "all_tool_events (elements_at ?delta ''tool_calls'') st2 = (es3, st3)" by fastforce
  note ok3 = advancesD [OF advances_tools s3 ok2(1,2)]
  have run: "protocol_run (proto_of st) (es1 @ es2 @ es3) = Some (proto_of st3)"
    using ok1 ok2 ok3 by (simp add: protocol_run_append)
  show "finish_of chunk = None \<Longrightarrow> stream_inv st' \<and> protocol_run (proto_of st) es = Some (proto_of st')"
  proof (cases ?choice)
    case None
    with assms show ?thesis by (simp add: openai_chunk_to_claude_events_def)
  next
    case (Some choice)
    assume "finish_of chunk = None"
    with Some assms(1) s1 s2 s3 have "es = es1 @ es2 @ es3" "st' = st3"
      by (auto simp: openai_chunk_to_claude_events_def finish_of_def)
    with run ok3(1) show ?thesis by simp
  qed
  show "stream_inv st'"
  proof (cases ?choice)
    case None
    with assms show ?thesis by (simp add: openai_chunk_to_claude_events_def)
  next
    case (Some choice)
    with assms(1) s1 s2 s3 have "st' = st3"
      by (simp add: openai_chunk_to_claude_events_def)
    with ok3(1) show ?thesis by simp
  qed
  assume f: "finish_of chunk = Some f"
  then obtain choice where c: "?choice = Some choice" "str_at choice ''finish_reason'' = Some f"
    by (auto simp: finish_of_def bind_eq_Some_conv)
  with assms(1) s1 s2 s3 have "es = (es1 @ es2 @ es3) @ finish_events chunk f st3"
    by (auto simp: openai_chunk_to_claude_events_def)
  then show "protocol_run (proto_of st) es = Some Finished"
    by (simp only: protocol_run_append [of _ "es1 @ es2 @ es3"] run finish_events_run [OF ok3(1,2)] Option.bind.simps)
qed

fun claude_events :: "json list \<Rightarrow> claude_stream_state \<Rightarrow> event list \<times> claude_stream_state" where
  "claude_events [] st = ([], st)"
| "claude_events (c # cs) st =
     (case openai_chunk_to_claude_events c st of (es, st) \<Rightarrow>
        (case claude_events cs st of (fs, st) \<Rightarrow> (es @ fs, st)))"

lemma claude_events_ok:
  "claude_events cs st = (es, st') \<Longrightarrow> stream_inv st \<Longrightarrow> list_all (\<lambda>c. finish_of c = None) cs \<Longrightarrow>
   stream_inv st' \<and> protocol_run (proto_of st) es = Some (proto_of st')"
proof (induction cs arbitrary: st es st')
  case (Cons c cs)
  obtain es1 st1 where c: "openai_chunk_to_claude_events c st = (es1, st1)" by fastforce
  obtain es2 st2 where cs: "claude_events cs st1 = (es2, st2)" by fastforce
  from Cons.prems c cs have es: "es = es1 @ es2" and st': "st' = st2" by auto
  from chunk_events_ok(1) [OF c Cons.prems(2)] Cons.prems(3)
  have one: "stream_inv st1" "protocol_run (proto_of st) es1 = Some (proto_of st1)" by auto
  with Cons.IH [OF cs one(1)] Cons.prems(3) show ?case by (simp add: es st' protocol_run_append)
qed simp

lemma claude_events_snoc:
  "claude_events cs st = (es, st1) \<Longrightarrow> claude_events (cs @ [c]) st =
     (case openai_chunk_to_claude_events c st1 of (fs, st2) \<Rightarrow> (es @ fs, st2))"
  by (induction cs arbitrary: st es) (auto split: prod.splits)

lemma proto_of_new [simp]: "proto_of new_claude_stream = Idle"
  by (simp add: proto_of_def new_claude_stream_def)

lemma claude_events_finished:
  assumes "list_all (\<lambda>c. finish_of c = None) cs" and "finish_of c = Some f"
  shows "protocol_run Idle (fst (claude_events (cs @ [c]) new_claude_stream)) = Some Finished"
proof -
  obtain es st where cs: "claude_events cs new_claude_stream = (es, st)" by fastforce
  obtain fs st' where c: "openai_chunk_to_claude_events c st = (fs, st')" by fastforce
  from claude_events_ok [OF cs stream_inv_new assms(1)]
  have ok: "stream_inv st" "protocol_run Idle es = Some (proto_of st)"
    by simp_all
  with chunk_events_ok(2) [OF c ok(1) assms(2)] show ?thesis
    by (simp add: claude_events_snoc [OF cs] c protocol_run_append)
qed

section \<open>What the events say\<close>

definition text_of_event :: "event \<Rightarrow> string" where
  "text_of_event e =
     (case jget (snd e) ''delta'' of
        Some d \<Rightarrow> if str_at d ''type'' = Some ''text_delta'' then unwrap_or (str_at d ''text'') [] else []
      | None \<Rightarrow> [])"

definition input_of_event :: "nat \<Rightarrow> event \<Rightarrow> string" where
  "input_of_event i e =
     (case jget (snd e) ''delta'' of
        Some d \<Rightarrow> if event_index e = Some i \<and> str_at d ''type'' = Some ''input_json_delta''
                  then unwrap_or (str_at d ''partial_json'') [] else []
      | None \<Rightarrow> [])"

abbreviation texts :: "event list \<Rightarrow> string" where
  "texts es \<equiv> concat (map text_of_event es)"

abbreviation inputs :: "nat \<Rightarrow> event list \<Rightarrow> string" where
  "inputs i es \<equiv> concat (map (input_of_event i) es)"

lemma text_of_block [simp]:
  "text_of_event (block_start i b) = []" "text_of_event (block_stop i) = []"
  "text_of_event (block_delta i (text_delta t)) = t" "text_of_event (block_delta i (input_delta t)) = []"
  "text_of_event (message_start c) = []"
  by (simp_all add: text_of_event_def block_start_def block_stop_def block_delta_def text_delta_def input_delta_def
      message_start_def jget_jobj str_at_def)

lemma input_of_block [simp]:
  "input_of_event j (block_start i b) = []" "input_of_event j (block_stop i) = []"
  "input_of_event j (block_delta i (text_delta t)) = []"
  "input_of_event j (block_delta i (input_delta t)) = (if i = j then t else [])"
  "input_of_event j (message_start c) = []"
  by (simp_all add: input_of_event_def event_index_def block_start_def block_stop_def block_delta_def text_delta_def
      input_delta_def message_start_def jget_jobj str_at_def jnat_def)

definition choice_delta :: "json \<Rightarrow> json" where
  "choice_delta chunk =
     (case first_elem (jidx chunk ''choices'') of Some c \<Rightarrow> jidx c ''delta'' | None \<Rightarrow> JNull)"

definition chunk_text :: "json \<Rightarrow> string" where
  "chunk_text chunk = unwrap_or (str_at (choice_delta chunk) ''content'') []"

definition chunk_calls :: "json \<Rightarrow> json list" where
  "chunk_calls chunk = elements_at (choice_delta chunk) ''tool_calls''"

definition call_args :: "json \<Rightarrow> string" where
  "call_args tc = unwrap_or (as_str (jidx (jidx tc ''function'') ''arguments'')) []"

lemma start_events_says:
  "start_events c st = (es, st') \<Longrightarrow> texts es = [] \<and> inputs i es = [] \<and> cs_tool_calls st' = cs_tool_calls st"
  by (auto simp: start_events_def split: if_splits)

lemma text_events_says:
  "text_events delta st = (es, st') \<Longrightarrow>
     texts es = unwrap_or (str_at delta ''content'') [] \<and> inputs i es = [] \<and> cs_tool_calls st' = cs_tool_calls st"
  by (cases "str_at delta ''content''") (auto simp: text_events_def Let_def split: if_splits)

lemma finish_events_says: "texts (finish_events c f st) = []" "inputs i (finish_events c f st) = []"
proof -
  let ?last = "(''message_delta'', jobj [(''type'', JStr ''message_delta''),
      (''delta'', jobj [(''stop_reason'', JStr (finish_to_stop_reason f)), (''stop_sequence'', JNull)]),
      (''usage'', usage_from c)])"
  have last_event: "text_of_event ?last = []" "input_of_event i ?last = []"
    "text_of_event (''message_stop'', jobj [(''type'', JStr ''message_stop'')]) = []"
    "input_of_event i (''message_stop'', jobj [(''type'', JStr ''message_stop'')]) = []"
    by (simp_all add: text_of_event_def input_of_event_def jget_jobj str_at_def)
  show "texts (finish_events c f st) = []" "inputs i (finish_events c f st) = []"
    by (simp_all add: finish_events_def last_event case_prod_unfold)
qed

text \<open>A list of tool call fragments names every tool before it goes on about it.\<close>

fun named_first :: "nat set \<Rightarrow> json list \<Rightarrow> bool" where
  "named_first K [] \<longleftrightarrow> True"
| "named_first K (tc # tcs) \<longleftrightarrow>
     (tool_index tc \<in> K \<or> str_at tc ''id'' \<noteq> None) \<and> named_first (insert (tool_index tc) K) tcs"

definition args_of :: "nat \<Rightarrow> json list \<Rightarrow> string" where
  "args_of k tcs = concat (map call_args (filter (\<lambda>tc. tool_index tc = k) tcs))"

lemma tool_events_says:
  assumes run: "tool_events tc st = (es, st')"
    and named: "tool_index tc \<in> dom (map_of (cs_tool_calls st)) \<or> str_at tc ''id'' \<noteq> None"
  shows "texts es = []"
    and "inputs i es = (if map_of (cs_tool_calls st') (tool_index tc) = Some i then call_args tc else [])"
    and "dom (map_of (cs_tool_calls st')) = insert (tool_index tc) (dom (map_of (cs_tool_calls st)))"
    and "map_of (cs_tool_calls st) \<subseteq>\<^sub>m map_of (cs_tool_calls st')"
proof -
  obtain os st1 where opened: "open_tool tc (tool_index tc) st = (os, st1)" by fastforce
  have st': "st' = st1"
    and es: "es = os @ (case (as_str (jidx (jidx tc ''function'') ''arguments''), map_of (cs_tool_calls st1) (tool_index tc)) of
              (Some args, Some i) \<Rightarrow> [block_delta i (input_delta args)] | _ \<Rightarrow> [])"
    using run opened by (auto simp: tool_events_def)
  have os: "texts os = [] \<and> inputs i os = []"
    and map: "map_of (cs_tool_calls st1) = (case map_of (cs_tool_calls st) (tool_index tc) of
        Some _ \<Rightarrow> map_of (cs_tool_calls st)
      | None \<Rightarrow> (map_of (cs_tool_calls st))(tool_index tc \<mapsto> cs_next_block_index st))" for i
    using opened named by (auto simp: open_tool_def Let_def map_of_bt_insert dom_def split: option.splits if_splits)
  show "texts es = []" using os by (auto simp: es split: option.splits)
  show "inputs i es = (if map_of (cs_tool_calls st') (tool_index tc) = Some i then call_args tc else [])"
    using os map by (auto simp: es st' call_args_def split: option.splits)
  show "dom (map_of (cs_tool_calls st')) = insert (tool_index tc) (dom (map_of (cs_tool_calls st)))"
    using map by (auto simp: st' dom_def split: option.splits)
  show "map_of (cs_tool_calls st) \<subseteq>\<^sub>m map_of (cs_tool_calls st')"
    using map by (auto simp: st' map_le_def split: option.splits)
qed

lemma named_first_append:
  "named_first K (xs @ ys) \<longleftrightarrow> named_first K xs \<and> named_first (K \<union> tool_index ` set xs) ys"
  by (induction xs arbitrary: K) auto

text \<open>In the final map \<open>F\<close> from tools to blocks every block belongs to one tool.\<close>

lemma all_tool_events_says:
  "all_tool_events tcs st = (es, st') \<Longrightarrow> named_first (dom (map_of (cs_tool_calls st))) tcs \<Longrightarrow>
     texts es = []
   \<and> dom (map_of (cs_tool_calls st')) = dom (map_of (cs_tool_calls st)) \<union> tool_index ` set tcs
   \<and> map_of (cs_tool_calls st) \<subseteq>\<^sub>m map_of (cs_tool_calls st')
   \<and> (map_of (cs_tool_calls st') \<subseteq>\<^sub>m F \<and> inj_on F (dom F) \<and> F k = Some i \<longrightarrow> inputs i es = args_of k tcs)"
proof (induction tcs arbitrary: st es)
  case (Cons tc tcs)
  obtain es1 st1 where one: "tool_events tc st = (es1, st1)" by fastforce
  obtain es2 where rest: "all_tool_events tcs st1 = (es2, st')" and es: "es = es1 @ es2"
    using Cons.prems(1) one by (auto split: prod.splits)
  have named: "tool_index tc \<in> dom (map_of (cs_tool_calls st)) \<or> str_at tc ''id'' \<noteq> None" using Cons.prems(2) by simp
  note says = tool_events_says [OF one named]
  have "named_first (dom (map_of (cs_tool_calls st1))) tcs" using Cons.prems(2) by (simp add: says(3))
  note ih = Cons.IH [OF rest this]
  have "inputs i es = args_of k (tc # tcs)"
    if F: "map_of (cs_tool_calls st') \<subseteq>\<^sub>m F" "inj_on F (dom F)" "F k = Some i"
  proof -
    have le: "map_of (cs_tool_calls st1) \<subseteq>\<^sub>m F" using ih F(1) by (blast intro: map_le_trans)
    obtain j where j: "map_of (cs_tool_calls st1) (tool_index tc) = Some j" using says(3) by blast
    with le have "F (tool_index tc) = Some j" by (force simp: map_le_def dom_def)
    with F(2,3) have "j = i \<longleftrightarrow> tool_index tc = k" by (metis domI inj_onD option.inject)
    with says(2) [of i] j have "inputs i es1 = (if tool_index tc = k then call_args tc else [])" by simp
    with ih F show ?thesis by (simp add: es args_of_def)
  qed
  with ih says(1,3,4) show ?case by (auto simp: es intro: map_le_trans)
qed (simp add: args_of_def)

lemma args_of_append: "args_of k (xs @ ys) = args_of k xs @ args_of k ys"
  by (simp add: args_of_def)

lemma chunk_events_says:
  assumes run: "openai_chunk_to_claude_events c st = (es, st')"
    and named: "named_first (dom (map_of (cs_tool_calls st))) (chunk_calls c)"
  shows "texts es = chunk_text c
   \<and> dom (map_of (cs_tool_calls st')) = dom (map_of (cs_tool_calls st)) \<union> tool_index ` set (chunk_calls c)
   \<and> map_of (cs_tool_calls st) \<subseteq>\<^sub>m map_of (cs_tool_calls st')
   \<and> (map_of (cs_tool_calls st') \<subseteq>\<^sub>m F \<and> inj_on F (dom F) \<and> F k = Some i \<longrightarrow> inputs i es = args_of k (chunk_calls c))"
proof (cases "first_elem (jidx c ''choices'')")
  case None
  with run show ?thesis
    by (simp add: openai_chunk_to_claude_events_def chunk_text_def chunk_calls_def choice_delta_def elements_at_def
        str_at_def args_of_def)
next
  case (Some choice)
  let ?delta = "jidx choice ''delta''"
  obtain es1 st1 where s1: "start_events c st = (es1, st1)" by fastforce
  obtain es2 st2 where s2: "text_events ?delta st1 = (es2, st2)" by fastforce
  obtain es3 st3 where s3: "all_tool_events (elements_at ?delta ''tool_calls'') st2 = (es3, st3)" by fastforce
  define es4 where "es4 = (case str_at choice ''finish_reason'' of Some f \<Rightarrow> finish_events c f st3 | None \<Rightarrow> [])"
  have "(es1 @ es2 @ es3 @ es4, st3) = (es, st')"
    using run by (simp only: openai_chunk_to_claude_events_def Some option.case Let_def s1 s2 s3 prod.case es4_def)
  then have es: "es = es1 @ es2 @ es3 @ es4" and st': "st' = st3" by simp_all
  have quiet: "texts es4 = [] \<and> inputs i es4 = []"
    by (cases "str_at choice ''finish_reason''") (simp_all add: es4_def finish_events_says)
  have calls: "chunk_calls c = elements_at ?delta ''tool_calls''" and said: "chunk_text c = unwrap_or (str_at ?delta ''content'') []"
    by (simp_all add: chunk_calls_def chunk_text_def choice_delta_def Some)
  from start_events_says [OF s1] text_events_says [OF s2]
  have same: "cs_tool_calls st2 = cs_tool_calls st" and before: "texts (es1 @ es2) = chunk_text c" "inputs i (es1 @ es2) = []"
    by (simp_all add: said)
  from all_tool_events_says [OF s3, of F k i] named
  have tools: "texts es3 = []
   \<and> dom (map_of (cs_tool_calls st3)) = dom (map_of (cs_tool_calls st)) \<union> tool_index ` set (chunk_calls c)
   \<and> map_of (cs_tool_calls st) \<subseteq>\<^sub>m map_of (cs_tool_calls st3)
   \<and> (map_of (cs_tool_calls st3) \<subseteq>\<^sub>m F \<and> inj_on F (dom F) \<and> F k = Some i \<longrightarrow> inputs i es3 = args_of k (chunk_calls c))"
    by (simp add: same calls)
  with before quiet show ?thesis by (simp add: es st' del: concat_eq_Nil_conv)
qed

lemma claude_events_say:
  "claude_events cs st = (es, st') \<Longrightarrow> named_first (dom (map_of (cs_tool_calls st))) (concat (map chunk_calls cs)) \<Longrightarrow>
     texts es = concat (map chunk_text cs)
   \<and> map_of (cs_tool_calls st) \<subseteq>\<^sub>m map_of (cs_tool_calls st')
   \<and> (map_of (cs_tool_calls st') \<subseteq>\<^sub>m F \<and> inj_on F (dom F) \<and> F k = Some i
        \<longrightarrow> inputs i es = args_of k (concat (map chunk_calls cs)))"
proof (induction cs arbitrary: st es)
  case (Cons c cs)
  obtain es1 st1 where one: "openai_chunk_to_claude_events c st = (es1, st1)" by fastforce
  obtain es2 where rest: "claude_events cs st1 = (es2, st')" and es: "es = es1 @ es2"
    using Cons.prems(1) one by (auto split: prod.splits)
  have named: "named_first (dom (map_of (cs_tool_calls st))) (chunk_calls c)"
    using Cons.prems(2) by (simp add: named_first_append)
  note says = chunk_events_says [OF one named, of F k i]
  have "named_first (dom (map_of (cs_tool_calls st1))) (concat (map chunk_calls cs))"
    using Cons.prems(2) says by (simp add: named_first_append)
  note ih = Cons.IH [OF rest this]
  have le: "map_of (cs_tool_calls st) \<subseteq>\<^sub>m map_of (cs_tool_calls st')"
    using ih says by (blast intro: map_le_trans)
  have "map_of (cs_tool_calls st1) \<subseteq>\<^sub>m F" if "map_of (cs_tool_calls st') \<subseteq>\<^sub>m F"
    using ih that by (blast intro: map_le_trans)
  with ih says le show ?case by (auto simp: es args_of_append)
qed (simp add: args_of_def)

lemma stream_inv_injective:
  assumes "stream_inv st"
  shows "inj_on (map_of (cs_tool_calls st)) (dom (map_of (cs_tool_calls st)))"
proof (rule inj_onI)
  fix k l assume "k \<in> dom (map_of (cs_tool_calls st))"
    and eq: "map_of (cs_tool_calls st) k = map_of (cs_tool_calls st) l"
  then obtain i where k: "map_of (cs_tool_calls st) k = Some i" by (auto simp only: dom_def mem_Collect_eq)
  then have l: "map_of (cs_tool_calls st) l = Some i" by (simp only: eq)
  from k l have mem: "(k, i) \<in> set (cs_tool_calls st)" "(l, i) \<in> set (cs_tool_calls st)"
    by (simp_all only: map_of_SomeD)
  have "distinct (map snd (cs_tool_calls st))"
    using stream_inv_blocks(1) [OF assms] by (simp add: open_blocks_def)
  then have "inj_on snd (set (cs_tool_calls st))" by (simp add: distinct_map)
  from inj_onD [OF this _ mem] show "k = l" by simp
qed

section \<open>Whole streams\<close>

text \<open>The chunks in the blocks of an OpenAI stream, up to the end marker.\<close>

fun stream_chunks :: "(string \<Rightarrow> json option) \<Rightarrow> string list \<Rightarrow> json list" where
  "stream_chunks parse [] = []"
| "stream_chunks parse (b # bs) =
     (case read_openai_block parse b of
        DoneBlock \<Rightarrow> []
      | OtherBlock \<Rightarrow> stream_chunks parse bs
      | ChunkBlock c \<Rightarrow> c # stream_chunks parse bs)"

lemma convert_openai_stream:
  "convert_openai_sse_to_claude_sse parse print st (map Inr bs) =
     map (\<lambda>e. Inr (render_claude_event print e)) (fst (claude_events (stream_chunks parse bs) st))"
proof (induction bs arbitrary: st)
  case (Cons b bs)
  show ?case
  proof (cases "read_openai_block parse b")
    case (ChunkBlock c)
    obtain es st1 where c: "openai_chunk_to_claude_events c st = (es, st1)" by fastforce
    show ?thesis using Cons.IH [of st1] by (simp add: ChunkBlock c split: prod.split)
  qed (use Cons.IH in simp_all)
qed simp

text \<open>An upstream that breaks off: what came before it is translated, its error handed on.\<close>

lemma convert_openai_stream_breaks:
  assumes "DoneBlock \<notin> set (map (read_openai_block parse) bs)"
  shows "convert_openai_sse_to_claude_sse parse print st (map Inr bs @ Inl e # items) =
     map (\<lambda>e. Inr (render_claude_event print e)) (fst (claude_events (stream_chunks parse bs) st)) @ [Inl e]"
  using assms
proof (induction bs arbitrary: st)
  case (Cons b bs)
  show ?case
  proof (cases "read_openai_block parse b")
    case (ChunkBlock c)
    obtain es st1 where c: "openai_chunk_to_claude_events c st = (es, st1)" by fastforce
    show ?thesis using Cons.IH [of st1] Cons.prems by (simp add: ChunkBlock c split: prod.split)
  qed (use Cons in simp_all)
qed simp

lemma dom_of_claude_events:
  "claude_events cs st = (es, st') \<Longrightarrow> named_first (dom (map_of (cs_tool_calls st))) (concat (map chunk_calls cs)) \<Longrightarrow>
     dom (map_of (cs_tool_calls st')) = dom (map_of (cs_tool_calls st)) \<union> tool_index ` set (concat (map chunk_calls cs))"
proof (induction cs arbitrary: st es)
  case (Cons c cs)
  obtain es1 st1 where one: "openai_chunk_to_claude_events c st = (es1, st1)" by fastforce
  obtain es2 where rest: "claude_events cs st1 = (es2, st')"
    using Cons.prems(1) one by (auto split: prod.splits)
  have "named_first (dom (map_of (cs_tool_calls st))) (chunk_calls c)"
    using Cons.prems(2) by (simp add: named_first_append)
  from chunk_events_says [OF one this]
  have dom1: "dom (map_of (cs_tool_calls st1)) = dom (map_of (cs_tool_calls st)) \<union> tool_index ` set (chunk_calls c)"
    by blast
  then have "named_first (dom (map_of (cs_tool_calls st1))) (concat (map chunk_calls cs))"
    using Cons.prems(2) by (simp add: named_first_append)
  from Cons.IH [OF rest this] show ?case by (simp add: dom1 image_Un Un_assoc)
qed simp

lemma claude_events_inv: "claude_events cs st = (es, st') \<Longrightarrow> stream_inv st \<Longrightarrow> stream_inv st'"
  by (induction cs arbitrary: st es) (auto split: prod.splits dest: chunk_events_ok(3))

text \<open>Each tool has a block of its own, and the block holds exactly its arguments.\<close>

lemma claude_events_faithful:
  assumes run: "claude_events cs new_claude_stream = (es, st')" and named: "named_first {} calls"
    and calls: "calls = concat (map chunk_calls cs)"
  shows "texts es = concat (map chunk_text cs)"
    and "inj_on (map_of (cs_tool_calls st')) (tool_index ` set calls)"
    and "k \<in> tool_index ` set calls \<Longrightarrow> \<exists>i. map_of (cs_tool_calls st') k = Some i \<and> inputs i es = args_of k calls"
proof -
  have dom0: "dom (map_of (cs_tool_calls new_claude_stream)) = {}" by (simp add: new_claude_stream_def)
  have named': "named_first (dom (map_of (cs_tool_calls new_claude_stream))) (concat (map chunk_calls cs))"
    using named by (simp add: dom0 calls)
  note says = claude_events_say [OF run named', of "map_of (cs_tool_calls st')"]
  have dom: "dom (map_of (cs_tool_calls st')) = tool_index ` set calls"
    using dom_of_claude_events [OF run named'] by (simp only: dom0 calls Un_empty_left)
  have inj: "inj_on (map_of (cs_tool_calls st')) (dom (map_of (cs_tool_calls st')))"
    by (rule stream_inv_injective [OF claude_events_inv [OF run stream_inv_new]])
  show "texts es = concat (map chunk_text cs)" using says by blast
  show "inj_on (map_of (cs_tool_calls st')) (tool_index ` set calls)" using inj by (simp only: dom)
  assume "k \<in> tool_index ` set calls"
  then obtain i where i: "map_of (cs_tool_calls st') k = Some i" using dom by blast
  with says [of k i] inj show "\<exists>i. map_of (cs_tool_calls st') k = Some i \<and> inputs i es = args_of k calls"
    by (simp add: calls)
qed

lemma claude_stream_conforms:
  assumes "stream_chunks parse blocks = cs @ [c]"
    and "list_all (\<lambda>c. finish_of c = None) cs" and "finish_of c = Some f"
  shows "\<exists>es. convert_openai_sse_to_claude_sse parse print new_claude_stream (map Inr blocks)
       = map (\<lambda>e. Inr (render_claude_event print e)) es
     \<and> protocol_run Idle es = Some Finished"
  using convert_openai_stream [of parse print new_claude_stream blocks] claude_events_finished [OF assms(2,3)]
  unfolding assms(1) by blast

end
