(* ===== verification/HttpAdapter.thy ===== *)
theory HttpAdapter
  imports BridgeStream
begin

text \<open>
  \<open>src/providers/adapter/http.rs\<close>: the adapter of providers that speak one of the two wire
  formats themselves.  \<open>libs\<close> is what all adapters use from outside the repository: the JSON
  parser and printer, the request builder's checks, the clock, random ids and the process
  environment.  What may differ between two uses is indexed by a tick, as in \<open>env\<close>.
\<close>

section \<open>Libraries\<close>

record libs =
  lb_parse :: "string \<Rightarrow> string + json"
  lb_print :: "json \<Rightarrow> string"
  lb_rejects :: "request \<Rightarrow> string option"
  lb_header_ok :: "string \<Rightarrow> bool"
  lb_text :: "upstream \<Rightarrow> string + string"
  lb_sha256 :: "string \<Rightarrow> u8 list"
  lb_uuid :: "nat \<Rightarrow> string"
  lb_today :: "nat \<Rightarrow> string"
  lb_timestamp :: "nat \<Rightarrow> int"
  lb_cwd :: string
  lb_environment :: string
  lb_version :: string
  lb_commandcode_base :: "string option"

definition lb_parse_ok :: "libs \<Rightarrow> string \<Rightarrow> json option" where
  "lb_parse_ok L s = (case lb_parse L s of Inr v \<Rightarrow> Some v | Inl _ \<Rightarrow> None)"

text \<open>What a response's byte stream yields.\<close>

definition bytes_stream :: "upstream \<Rightarrow> (string + string) list" where
  "bytes_stream up = map Inr (up_chunks up) @ (case up_error up of Some e \<Rightarrow> [Inl e] | None \<Rightarrow> [])"

text \<open>\<open>http.post(url).json(&json)\<close> with further headers, and its \<open>build()\<close>.\<close>

definition json_post :: "libs \<Rightarrow> string \<Rightarrow> json \<Rightarrow> headers \<Rightarrow> request" where
  "json_post L url j headers =
     \<lparr>rq_url = url, rq_headers = (''content-type'', ''application/json'') # headers, rq_body = lb_print L j\<rparr>"

definition built :: "libs \<Rightarrow> string \<Rightarrow> request \<Rightarrow> app_error + request" where
  "built L what rq =
     (case lb_rejects L rq of Some e \<Rightarrow> Inl (Internal (what @ ''request build failed: '' @ e)) | None \<Rightarrow> Inr rq)"

definition bearer :: "string \<Rightarrow> string \<times> string" where
  "bearer token = (''authorization'', ''Bearer '' @ token)"

definition invalid_body :: "string \<Rightarrow> app_error" where
  "invalid_body e = BadRequest (''invalid JSON body: '' @ e)"

definition json_answer :: "nat \<Rightarrow> headers \<Rightarrow> json \<Rightarrow> response" where
  "json_answer code h j =
     \<lparr>resp_status = code, resp_headers = hdr_insert ''content-type'' ''application/json'' h, resp_body = JsonBody j\<rparr>"

definition event_stream :: "nat \<Rightarrow> headers \<Rightarrow> (string + string) list \<Rightarrow> response" where
  "event_stream code h items =
     \<lparr>resp_status = code, resp_headers = hdr_insert ''content-type'' ''text/event-stream'' h,
      resp_body = StreamBody items\<rparr>"

section \<open>The request\<close>

definition translates :: "provider \<Rightarrow> wire_format \<Rightarrow> bool" where
  "translates p wire \<longleftrightarrow> wire \<noteq> prov_wire_format p"

definition upstream_json :: "libs \<Rightarrow> provider \<Rightarrow> wire_format \<Rightarrow> json \<Rightarrow> json outcome" where
  "upstream_json L p wire client =
     (if translates p wire
      then (case wire of
              Anthropic \<Rightarrow> Done (claude_to_openai_request (lb_print L) client)
            | OpenAi \<Rightarrow> openai_to_claude_request (lb_parse_ok L) client)
      else Done client)"

fun insert_model :: "string \<Rightarrow> json \<Rightarrow> json" where
  "insert_model m (JObj obj) = JObj (obj_insert ''model'' (JStr m) obj)"
| "insert_model m v = v"

definition inject_default :: "provider \<Rightarrow> json \<Rightarrow> json \<Rightarrow> json" where
  "inject_default p client j =
     (case effort_to_inject (prov_kind p) (prov_wire_format p) (prov_upstream_model p)
             (prov_default_reasoning_effort p) client of
        Some (OpenAiEffort, l) \<Rightarrow> inject_openai_effort j l
      | Some (AnthropicThinkingBudget, l) \<Rightarrow> inject_anthropic_thinking j l
      | _ \<Rightarrow> j)"

definition ANTHROPIC_VERSION :: string where
  "ANTHROPIC_VERSION = ''2023-06-01''"

definition key_headers :: "wire_format \<Rightarrow> string option \<Rightarrow> headers" where
  "key_headers wire key =
     (case key of
        None \<Rightarrow> []
      | Some k \<Rightarrow> (case wire of
          OpenAi \<Rightarrow> [bearer k]
        | Anthropic \<Rightarrow> [(''x-api-key'', k), (''anthropic-version'', ANTHROPIC_VERSION)]))"

definition http_build_request ::
  "libs \<Rightarrow> provider \<Rightarrow> wire_format \<Rightarrow> string \<Rightarrow> credentials \<Rightarrow> (app_error + request) outcome" where
  "http_build_request L p wire body creds =
     (case lb_parse L body of
        Inl e \<Rightarrow> Done (Inl (invalid_body e))
      | Inr client \<Rightarrow>
          (case upstream_json L p wire client of
             Panicked \<Rightarrow> Panicked
           | Done j \<Rightarrow>
               (let j = inject_default p client (insert_model (prov_upstream_model p) j)
                in case prov_base_url p of
                     None \<Rightarrow> Done (Inl (Internal ''passthrough provider missing base_url''))
                   | Some url \<Rightarrow>
                       Done (built L [] (json_post L url j (key_headers (prov_wire_format p) (cr_api_key creds)))))))"

section \<open>The response\<close>

definition relay_upstream_header :: "string \<Rightarrow> bool" where
  "relay_upstream_header name \<longleftrightarrow>
     name \<in> {''content-type'', ''retry-after'', ''x-request-id'', ''request-id'', ''openai-processing-ms''}
   \<or> starts_with name ''x-ratelimit-'' \<or> starts_with name ''anthropic-ratelimit-''"

definition relayed_headers :: "upstream \<Rightarrow> headers" where
  "relayed_headers up = filter (\<lambda>h. relay_upstream_header (fst h)) (up_headers up)"

text \<open>The two translated streams; each starts a framer and a state of its own.\<close>

definition claude_sse_of :: "libs \<Rightarrow> (string + string) list \<Rightarrow> (string + string) list" where
  "claude_sse_of L items = convert_openai_sse_to_claude_sse (lb_parse_ok L) (lb_print L) new_claude_stream items"

definition openai_sse_of :: "libs \<Rightarrow> (string + string) list \<Rightarrow> (string + string) list" where
  "openai_sse_of L items = convert_claude_sse_to_openai_sse (lb_parse_ok L) (lb_print L) new_openai_stream items"

definition http_transform_response ::
  "libs \<Rightarrow> provider \<Rightarrow> wire_format \<Rightarrow> upstream \<Rightarrow> bool \<Rightarrow> app_error + response" where
  "http_transform_response L p wire up client_wanted_stream =
     (let h = relayed_headers up
      in if \<not> translates p wire
         then Inr \<lparr>resp_status = up_status up, resp_headers = h, resp_body = StreamBody (bytes_stream up)\<rparr>
         else if client_wanted_stream
         then (let framed = reframe_sse_blocks new_framer (bytes_stream up)
               in Inr (event_stream (up_status up) h
                    (case wire of Anthropic \<Rightarrow> claude_sse_of L framed | OpenAi \<Rightarrow> openai_sse_of L framed)))
         else (case read_body_limited up MAX_BUFFERED_BODY of
             Inl e \<Rightarrow> Inl (Internal (''failed to read upstream body: '' @ e))
           | Inr bytes \<Rightarrow> (case lb_parse L bytes of
               Inl e \<Rightarrow> Inl (Internal (''invalid upstream JSON: '' @ e))
             | Inr v \<Rightarrow> Inr (json_answer (up_status up) h
                 (case wire of
                    Anthropic \<Rightarrow> openai_json_to_claude_message v
                  | OpenAi \<Rightarrow> claude_json_to_openai_message (lb_print L) v)))))"

definition http_adapter :: "libs \<Rightarrow> provider \<Rightarrow> wire_format \<Rightarrow> adapter" where
  "http_adapter L p wire =
     \<lparr>ad_build_request = (\<lambda>t transports body creds. http_build_request L p wire body creds),
      ad_transform_response = (\<lambda>t rq up wanted. http_transform_response L p wire up wanted)\<rparr>"

end
