(* ===== verification/ProviderRoutes.thy ===== *)
theory ProviderRoutes
  imports Flow HttpAdapter Quota
begin

text \<open>
  \<open>src/providers/routes.rs\<close>: what an administrator does to providers, the probes that try a
  provider out, and the discovery of the models it offers.  \<open>app\<close> is the part of \<open>AppState\<close>
  these handlers use, with the requests they sent and the discoveries they left to a background
  task.  \<open>outside\<close> is what they use from outside the repository: the client of the probes, which
  follows no redirect and gives up after ten seconds, the URL library, the body readers of
  \<open>reqwest\<close> and the environment variables.  A parsed URL is its text.
\<close>

section \<open>The state\<close>

datatype sent = Shared request | Dedicated request

record app =
  ap_world :: world
  ap_snapshot :: config_snapshot
  ap_discovered :: discovered_map
  ap_sent :: "sent list"
  ap_pending :: "provider list"

type_synonym 'a app_step = "(app, 'a) state"

type_synonym 'a handler = "(app, app_error + 'a) state"

record url_ops =
  uo_parse :: "string \<Rightarrow> string option"
  uo_has_path :: "string \<Rightarrow> bool"
  uo_pop_if_empty :: "string \<Rightarrow> string"
  uo_pop :: "string \<Rightarrow> string"
  uo_push :: "string \<Rightarrow> string \<Rightarrow> string"
  uo_clear_query :: "string \<Rightarrow> string"

record outside =
  ou_env :: env
  ou_url :: url_ops
  ou_rejects :: "request \<Rightarrow> string option"
  ou_client_error :: "string option"
  ou_probe :: "nat \<Rightarrow> request \<Rightarrow> (bool \<times> string) + upstream"
  ou_text :: "upstream \<Rightarrow> string"
  ou_json :: "upstream \<Rightarrow> string + json"
  ou_version_query :: "string \<Rightarrow> string \<Rightarrow> string"
  ou_rfc3339 :: "timestamp \<Rightarrow> string"
  ou_command_code_models_url :: "string option"
  ou_codex_models_url :: "string option"
  ou_codex_client_version :: "string option"

definition in_world :: "'a flow \<Rightarrow> 'a app_step" where
  "in_world m = State (\<lambda>a. case run_state m (ap_world a) of (r, w) \<Rightarrow> (r, a\<lparr>ap_world := w\<rparr>))"

text \<open>The same application state, as the configuration routes see it.\<close>

definition gateway_of :: "app \<Rightarrow> gateway" where
  "gateway_of a = \<lparr>gw_db = w_db (ap_world a), gw_snapshot = ap_snapshot a, gw_rotation = w_rotation (ap_world a)\<rparr>"

definition set_gateway :: "gateway \<Rightarrow> app \<Rightarrow> app" where
  "set_gateway g a = a\<lparr>ap_world := (ap_world a)\<lparr>w_db := gw_db g, w_rotation := gw_rotation g\<rparr>,
     ap_snapshot := gw_snapshot g\<rparr>"

definition in_gateway :: "'a route \<Rightarrow> 'a handler" where
  "in_gateway m = State (\<lambda>a. case run_state m (gateway_of a) of (r, g) \<Rightarrow> (r, set_gateway g a))"

definition stored :: "'a query \<Rightarrow> 'a handler" where
  "stored q = in_gateway (on_db q)"

definition set_runtime :: "(runtime_map \<Rightarrow> runtime_map) \<Rightarrow> unit app_step" where
  "set_runtime f = in_world (update_by (\<lambda>w. w\<lparr>w_runtime := f (w_runtime w)\<rparr>))"

definition heal :: "string \<Rightarrow> unit app_step" where
  "heal i = set_runtime (\<lambda>m. reset_provider_to_healthy m i)"

text \<open>\<open>?\<close> on a \<open>Result\<close> in code that may panic.\<close>

definition step :: "('e + 'a) outcome app_step \<Rightarrow> ('a \<Rightarrow> ('e + 'b) outcome app_step) \<Rightarrow> ('e + 'b) outcome app_step" where
  "step m f = do {
     r \<leftarrow> m;
     case r of Panicked \<Rightarrow> ret Panicked | Done (Inl e) \<Rightarrow> ret (Done (Inl e)) | Done (Inr a) \<Rightarrow> f a }"

definition sure :: "'a app_step \<Rightarrow> 'a outcome app_step" where
  "sure m = do { r \<leftarrow> m; ret (Done r) }"

section \<open>What an administrator sees of a provider\<close>

definition mask_key :: "string \<Rightarrow> string" where
  "mask_key k =
     (let n = length (chars k) in if n \<le> 8 then ''***'' else ''***'' @ concat (drop (n - 4) (chars k)))"

fun provider_kind_text :: "provider_kind \<Rightarrow> string" where
  "provider_kind_text Passthrough = ''passthrough''"
| "provider_kind_text OauthCodex = ''oauth_codex''"
| "provider_kind_text OauthCommandCode = ''oauth_command_code''"

fun effort_level_text :: "effort_level \<Rightarrow> string" where
  "effort_level_text Low = ''low''"
| "effort_level_text Medium = ''medium''"
| "effort_level_text High = ''high''"

definition credential_status :: "provider_kind \<Rightarrow> bool \<Rightarrow> string" where
  "credential_status kind configured =
     (case (kind, configured) of
        (Passthrough, True) \<Rightarrow> ''set''
      | (Passthrough, False) \<Rightarrow> ''none''
      | (_, True) \<Rightarrow> ''connected''
      | (_, False) \<Rightarrow> ''not_connected'')"

definition opt_json :: "string option \<Rightarrow> json" where
  "opt_json v = (case v of Some s \<Rightarrow> JStr s | None \<Rightarrow> JNull)"

definition mask_provider :: "(timestamp \<Rightarrow> string) \<Rightarrow> provider \<Rightarrow> bool \<Rightarrow> json" where
  "mask_provider rfc3339 p configured = jobj
     [(''id'', JStr (prov_id p)),
      (''name'', JStr (prov_name p)),
      (''wire_format'', JStr (wire_format_text (prov_wire_format p))),
      (''kind'', JStr (provider_kind_text (prov_kind p))),
      (''base_url'', opt_json (prov_base_url p)),
      (''api_key'', opt_json (map_option mask_key (prov_api_key p))),
      (''upstream_model'', JStr (prov_upstream_model p)),
      (''credential_configured'', JBool configured),
      (''dataset_logging'', JBool (prov_dataset_logging p)),
      (''default_reasoning_effort'', opt_json (map_option effort_level_text (prov_default_reasoning_effort p))),
      (''ready'', JBool (is_ready p configured)),
      (''credential_status'', JStr (credential_status (prov_kind p) configured)),
      (''created_at'', JStr (rfc3339 (prov_created_at p))),
      (''updated_at'', JStr (rfc3339 (prov_updated_at p)))]"

definition is_oauth_kind :: "provider_kind \<Rightarrow> bool" where
  "is_oauth_kind kind \<longleftrightarrow> kind = OauthCodex \<or> kind = OauthCommandCode"

definition masked :: "outside \<Rightarrow> provider \<Rightarrow> json handler" where
  "masked X p =
     (if is_oauth_kind (prov_kind p)
      then attempt (stored (oauth_credential_configured (prov_id p))) (\<lambda>configured.
        ok_ret (mask_provider (ou_rfc3339 X) p configured))
      else ok_ret (mask_provider (ou_rfc3339 X) p (prov_api_key p \<noteq> None)))"

definition listed_row :: "outside \<Rightarrow> string list \<Rightarrow> provider \<Rightarrow> json" where
  "listed_row X configured_ids p = mask_provider (ou_rfc3339 X) p
     (if is_oauth_kind (prov_kind p) then prov_id p \<in> set configured_ids else prov_api_key p \<noteq> None)"

definition providers_list :: "outside \<Rightarrow> json handler" where
  "providers_list X =
     attempt (stored list_providers) (\<lambda>ps.
     attempt (stored oauth_configured_provider_ids) (\<lambda>configured_ids.
     ok_ret (JArr (map (listed_row X configured_ids) ps))))"

definition provider_get_one :: "outside \<Rightarrow> string \<Rightarrow> json handler" where
  "provider_get_one X i = attempt (stored (get_provider i)) (masked X)"

definition state_json :: "string \<Rightarrow> runtime_state option \<Rightarrow> instant \<Rightarrow> json" where
  "state_json i entry now =
     (let (level, shown, until_secs) =
        (case entry of
           Some st \<Rightarrow> (unat (backoff_level st), provider_status_text (status st),
             map_option (\<lambda>u. as_secs (u - now)) (unavailable_until st))
         | None \<Rightarrow> (0, ''healthy'', None))
      in jobj
        [(''provider_id'', JStr i),
         (''backoff_level'', JNum (PosInt level)),
         (''status'', JStr shown),
         (''unavailable_in_secs'', case until_secs of Some n \<Rightarrow> JNum (PosInt n) | None \<Rightarrow> JNull)])"

definition state_stub :: "outside \<Rightarrow> string \<Rightarrow> json handler" where
  "state_stub X i =
     attempt (stored (get_provider i)) (\<lambda>_. do {
       entry \<leftarrow> in_world (gets (\<lambda>w. worst_provider_state (w_runtime w) i));
       now \<leftarrow> in_world (read_clock (ou_env X));
       ok_ret (state_json i entry now) })"

section \<open>Discovery of models\<close>

definition http_get :: "string \<Rightarrow> headers \<Rightarrow> request" where
  "http_get url h = \<lparr>rq_url = url, rq_headers = h, rq_body = []\<rparr>"

text \<open>\<open>s.http.execute(req)\<close>, and \<open>builder.send()\<close>, which builds the request first.\<close>

definition execute_shared :: "outside \<Rightarrow> request \<Rightarrow> (string + upstream) app_step" where
  "execute_shared X rq = do {
     update_by (\<lambda>a. a\<lparr>ap_sent := ap_sent a @ [Shared rq]\<rparr>);
     t \<leftarrow> in_world next_tick;
     ret (case env_execute (ou_env X) t rq of Inl e \<Rightarrow> Inl (he_text e) | Inr up \<Rightarrow> Inr up) }"

definition send_shared :: "outside \<Rightarrow> request \<Rightarrow> (string + upstream) app_step" where
  "send_shared X rq = (case ou_rejects X rq of Some e \<Rightarrow> fail_ret e | None \<Rightarrow> execute_shared X rq)"

definition snippet :: "string \<Rightarrow> string" where
  "snippet s = take_chars 300 s"

definition error_snippet :: "upstream \<Rightarrow> string" where
  "error_snippet up = snippet (read_text_truncated up MAX_ERROR_BODY)"

definition derive_models_url :: "url_ops \<Rightarrow> string \<Rightarrow> string" where
  "derive_models_url U base =
     (case strip_suffix ''/chat/completions'' base of
        Some p \<Rightarrow> p @ ''/models''
      | None \<Rightarrow> (case strip_suffix ''/messages'' base of
          Some p \<Rightarrow> p @ ''/models''
        | None \<Rightarrow> (case uo_parse U base of
            Some url \<Rightarrow>
              uo_clear_query U
                (if uo_has_path U url then uo_push U ''models'' (uo_pop U (uo_pop_if_empty U url)) else url)
          | None \<Rightarrow> base @ ''/models'')))"

definition dquoted :: "string \<Rightarrow> string" where
  "dquoted s = [CHR 0x22] @ s @ [CHR 0x22]"

definition parse_models_body :: "json \<Rightarrow> string + string list" where
  "parse_models_body body =
     (let models = (case Option.bind (jget body ''data'') as_array of
                      Some arr \<Rightarrow> List.map_filter (\<lambda>m. Option.bind (jget m ''id'') as_str) arr
                    | None \<Rightarrow> [])
      in if models = []
         then Inl (''response had no recognizable model list (expected {'' @ dquoted ''data'' @ '':[{'' @ dquoted ''id'' @ '':...}]})'')
         else Inr models)"

definition parse_codex_models_body :: "json \<Rightarrow> string + string list" where
  "parse_codex_models_body body =
     (let arr = opt_or (as_array body) (opt_or (Option.bind (jget body ''models'') as_array)
                  (Option.bind (jget body ''data'') as_array));
          models = (case arr of
             Some a \<Rightarrow> List.map_filter
               (\<lambda>m. opt_or (as_str m) (opt_or (Option.bind (jget m ''slug'') as_str) (Option.bind (jget m ''id'') as_str)))
               (filter (\<lambda>m. Option.bind (jget m ''visibility'') as_str \<noteq> Some ''hide'') a)
           | None \<Rightarrow> [])
      in if models = [] then Inl ''response had no recognizable Codex model list'' else Inr models)"

text \<open>The common end of the three fetches.\<close>

definition read_models :: "outside \<Rightarrow> (json \<Rightarrow> string + string list) \<Rightarrow> upstream \<Rightarrow> string + string list" where
  "read_models X parse up =
     (if \<not> is_success (up_status up) then Inl (''HTTP '' @ show_nat (up_status up) @ '': '' @ error_snippet up)
      else case ou_json X up of
             Inl e \<Rightarrow> Inl (''could not parse response as JSON: '' @ e)
           | Inr body \<Rightarrow> parse body)"

definition fetch_live_models :: "outside \<Rightarrow> provider \<Rightarrow> (string + string list) app_step" where
  "fetch_live_models X p =
     (case prov_base_url p of
        None \<Rightarrow> fail_ret ''provider has no base_url''
      | Some base \<Rightarrow>
          attempt (send_shared X (http_get (derive_models_url (ou_url X) base)
            (key_headers (prov_wire_format p) (prov_api_key p)))) (\<lambda>up.
          check (read_models X parse_models_body up)))"

definition DEFAULT_MODELS_URL :: string where
  "DEFAULT_MODELS_URL = ''https://api.commandcode.ai/provider/v1/models''"

definition fetch_commandcode_models :: "outside \<Rightarrow> (string + string list) app_step" where
  "fetch_commandcode_models X =
     attempt (send_shared X (http_get (unwrap_or (ou_command_code_models_url X) DEFAULT_MODELS_URL) [])) (\<lambda>up.
     check (read_models X parse_models_body up))"

definition CODEX_MODELS_URL :: string where
  "CODEX_MODELS_URL = ''https://chatgpt.com/backend-api/codex/models''"

definition CODEX_CLIENT_VERSION :: string where
  "CODEX_CLIENT_VERSION = ''0.160.0''"

definition codex_models_headers :: "string \<Rightarrow> string \<Rightarrow> json \<Rightarrow> headers" where
  "codex_models_headers access version data =
     [bearer access, (''originator'', ''codex_cli_rs''), (''version'', version),
      (''user-agent'', ''codex_cli_rs/'' @ version)]
     @ (case opt_filter (\<lambda>s. s \<noteq> []) (as_str (jidx data ''chatgpt_account_id'')) of
          Some i \<Rightarrow> [(''chatgpt-account-id'', i)] | None \<Rightarrow> [])"

definition fetch_codex_models :: "outside \<Rightarrow> credentials \<Rightarrow> (string + string list) app_step" where
  "fetch_codex_models X creds =
     (case cr_access_token creds of
        None \<Rightarrow> fail_ret ''Codex account is not connected yet''
      | Some access \<Rightarrow>
          (let url = unwrap_or (ou_codex_models_url X) CODEX_MODELS_URL;
               version = unwrap_or (ou_codex_client_version X) CODEX_CLIENT_VERSION
           in attempt (send_shared X (http_get (ou_version_query X url version)
                (codex_models_headers access version (cr_provider_data creds)))) (\<lambda>up.
              check (read_models X parse_codex_models_body up))))"

definition fetch_models :: "outside \<Rightarrow> provider \<Rightarrow> (string + string list) app_step" where
  "fetch_models X p =
     (case prov_kind p of
        Passthrough \<Rightarrow> fetch_live_models X p
      | OauthCommandCode \<Rightarrow> fetch_commandcode_models X
      | OauthCodex \<Rightarrow> do { creds \<leftarrow> in_world (credentials_for p); fetch_codex_models X creds })"

definition discover_and_cache_models :: "outside \<Rightarrow> provider \<Rightarrow> (string + string list) app_step" where
  "discover_and_cache_models X p =
     attempt (fetch_models X p) (\<lambda>models. do {
       update_by (\<lambda>a. a\<lparr>ap_discovered := dm_put (prov_id p) models (ap_discovered a)\<rparr>);
       ok_ret models })"

text \<open>
  \<open>tokio::spawn\<close> leaves a discovery to run later; it is dropped when five seconds pass first,
  and it writes nothing before its end.
\<close>

definition spawn_bounded_discovery :: "provider \<Rightarrow> unit app_step" where
  "spawn_bounded_discovery p = update_by (\<lambda>a. a\<lparr>ap_pending := ap_pending a @ [p]\<rparr>)"

definition background_discovery :: "outside \<Rightarrow> bool \<Rightarrow> unit app_step" where
  "background_discovery X in_time = do {
     pending \<leftarrow> gets ap_pending;
     case pending of
       [] \<Rightarrow> ret ()
     | p # rest \<Rightarrow> do {
         update_by (\<lambda>a. a\<lparr>ap_pending := rest\<rparr>);
         if in_time then do { r \<leftarrow> discover_and_cache_models X p; ret () } else ret () } }"

definition warm_discovered_models_cache :: "unit app_step" where
  "warm_discovered_models_cache = update_by (\<lambda>a. a\<lparr>ap_pending := ap_pending a @ snap_providers (ap_snapshot a)\<rparr>)"

definition models_answer :: "string + string list \<Rightarrow> json" where
  "models_answer r =
     (case r of
        Inr models \<Rightarrow> jobj [(''ok'', JBool True), (''models'', JArr (map JStr models))]
      | Inl reason \<Rightarrow> jobj [(''ok'', JBool False), (''reason'', JStr reason)])"

definition list_models :: "outside \<Rightarrow> string \<Rightarrow> json handler" where
  "list_models X i =
     attempt (stored (get_provider i)) (\<lambda>p. do {
       r \<leftarrow> discover_and_cache_models X p;
       ok_ret (models_answer r) })"

text \<open>A provider that is not stored: the form of the browser, under an empty id.\<close>

definition unsaved :: "string \<Rightarrow> wire_format \<Rightarrow> provider_kind \<Rightarrow> string option \<Rightarrow> string option \<Rightarrow> string \<Rightarrow> timestamp \<Rightarrow> provider" where
  "unsaved i wire kind base key model now =
     \<lparr>prov_id = i, prov_name = i, prov_wire_format = wire, prov_kind = kind, prov_base_url = base,
      prov_api_key = key, prov_upstream_model = model, prov_dataset_logging = False,
      prov_default_reasoning_effort = None, prov_created_at = now, prov_updated_at = now\<rparr>"

definition list_models_preview :: "outside \<Rightarrow> wire_format \<Rightarrow> string \<Rightarrow> string option \<Rightarrow> json handler" where
  "list_models_preview X wire base key = do {
     now \<leftarrow> in_world (read_wall (ou_env X));
     r \<leftarrow> fetch_live_models X (unsaved [] wire Passthrough (Some base) key [] now);
     ok_ret (models_answer r) }"

end
