(* ===== verification/ProviderProbes.thy ===== *)
theory ProviderProbes
  imports ProviderRoutes
begin

text \<open>
  The handlers of \<open>src/providers/routes.rs\<close> that change something: creating, editing, deleting
  and disconnecting a provider, and the probes.  A probe that was answered with a success clears
  the health flags of the provider; everything else a probe learns is only told.
\<close>

section \<open>Editing\<close>

record create_body =
  cb_id :: string
  cb_name :: string
  cb_wire_format :: wire_format
  cb_kind :: provider_kind
  cb_base_url :: "string option"
  cb_api_key :: "string option"
  cb_upstream_model :: string
  cb_dataset_logging :: bool
  cb_default_reasoning_effort :: "effort_level option"

definition created_row :: "create_body \<Rightarrow> timestamp \<Rightarrow> provider" where
  "created_row b now =
     \<lparr>prov_id = cb_id b, prov_name = cb_name b, prov_wire_format = cb_wire_format b, prov_kind = cb_kind b,
      prov_base_url = cb_base_url b, prov_api_key = cb_api_key b, prov_upstream_model = cb_upstream_model b,
      prov_dataset_logging = cb_dataset_logging b, prov_default_reasoning_effort = cb_default_reasoning_effort b,
      prov_created_at = now, prov_updated_at = now\<rparr>"

definition provider_create :: "outside \<Rightarrow> create_body \<Rightarrow> json handler" where
  "provider_create X b =
     attempt (check (validate_path_id (cb_id b))) (\<lambda>_. do {
       now \<leftarrow> in_world (read_wall (ou_env X));
       attempt (check (normalize_new (created_row b now))) (\<lambda>p.
       attempt (stored (insert_provider p)) (\<lambda>_. do {
         heal (prov_id p);
         attempt (in_gateway reload_snapshot) (\<lambda>_. do {
           spawn_bounded_discovery p;
           masked X p }) })) })"

definition provider_edit :: "outside \<Rightarrow> string \<Rightarrow> provider_patch \<Rightarrow> json handler" where
  "provider_edit X i patch = do {
     now \<leftarrow> in_world (read_wall (ou_env X));
     attempt (stored (update_provider now i patch)) (\<lambda>p. do {
       heal i;
       attempt (in_gateway reload_snapshot) (\<lambda>_. masked X p) }) }"

definition provider_remove :: "string \<Rightarrow> unit handler" where
  "provider_remove i =
     attempt (stored (delete_provider i)) (\<lambda>_. do {
       set_runtime (dm_retain (\<lambda>k _. \<not> starts_with k (runtime_key_prefix i)));
       attempt (in_gateway reload_snapshot) (\<lambda>_. ok_ret ()) })"

definition disconnect_oauth :: "string \<Rightarrow> unit handler" where
  "disconnect_oauth i =
     attempt (stored (get_provider i)) (\<lambda>p.
     if \<not> is_oauth_kind (prov_kind p) then fail_ret (BadRequest ''provider does not use OAuth'')
     else attempt (stored (clear_oauth_tokens i)) (\<lambda>_. do {
       heal i;
       attempt (in_gateway reload_snapshot) (\<lambda>_. ok_ret ()) }))"

section \<open>Probing an endpoint\<close>

record probe_result =
  pr_ok :: bool
  pr_category :: string
  pr_status :: "nat option"
  pr_message :: string

definition opt_num :: "nat option \<Rightarrow> json" where
  "opt_num v = (case v of Some n \<Rightarrow> JNum (PosInt n) | None \<Rightarrow> JNull)"

definition probe_json :: "probe_result \<Rightarrow> json" where
  "probe_json r = jobj
     [(''ok'', JBool (pr_ok r)), (''category'', JStr (pr_category r)), (''status'', opt_num (pr_status r)),
      (''message'', JStr (pr_message r))]"

definition classify_probe :: "nat \<Rightarrow> string \<Rightarrow> probe_result" where
  "classify_probe code body =
     (let text' = snippet body;
          (ok, category, message) =
            (if is_success code then (True, ''ok'', ''Endpoint reachable and accepted the request.'')
             else if code = 401 \<or> code = 403
             then (False, ''auth'', ''The endpoint rejected the API key (401/403).'')
             else if code = 404 \<or> code = 405
             then (False, ''wrong_path'', ''Endpoint path not found (404/405). Check the URL ends with the right path, e.g. /chat/completions or /messages.'')
             else if code = 400 \<or> code = 422
             then (False, ''bad_request'', ''Reachable, but the endpoint rejected the test request (check the upstream model name): '' @ text')
             else if code = 429
             then (True, ''rate_limited'', ''Reachable and authenticated, but rate limited (429).'')
             else if is_server_error code
             then (False, ''upstream_error'', ''Upstream error '' @ show_nat code @ '': '' @ text')
             else (False, ''unexpected'', ''Unexpected status '' @ show_nat code @ '': '' @ text'))
      in \<lparr>pr_ok = ok, pr_category = category, pr_status = Some code, pr_message = message\<rparr>)"

definition unanswered :: "string \<Rightarrow> string \<Rightarrow> probe_result" where
  "unanswered category message = \<lparr>pr_ok = False, pr_category = category, pr_status = None, pr_message = message\<rparr>"

definition oauth_probe :: "credentials \<Rightarrow> probe_result" where
  "oauth_probe creds =
     (if cr_access_token creds \<noteq> None \<or> cr_refresh_token creds \<noteq> None
      then \<lparr>pr_ok = True, pr_category = ''ok'', pr_status = None,
        pr_message = ''Account connected (live probe skipped to avoid consuming quota).''\<rparr>
      else unanswered ''not_connected'' ''Account not connected yet.'')"

definition probe_body :: "wire_format \<Rightarrow> json" where
  "probe_body wire = jobj
     ([(''messages'', JArr [jobj [(''role'', JStr ''user''), (''content'', JStr ''ping'')]])]
      @ (if wire = Anthropic then [(''max_tokens'', JNum (PosInt 1))] else []))"

definition adapter_for :: "outside \<Rightarrow> provider \<Rightarrow> adapter" where
  "adapter_for X p = env_adapter (ou_env X) p (prov_wire_format p) []"

definition build_with :: "outside \<Rightarrow> provider \<Rightarrow> string \<Rightarrow> credentials \<Rightarrow> (app_error + request) outcome app_step" where
  "build_with X p body creds = do {
     t \<leftarrow> in_world next_tick;
     transports \<leftarrow> in_world (gets w_transports);
     ret (ad_build_request (adapter_for X p) t transports body creds) }"

definition execute_dedicated :: "outside \<Rightarrow> request \<Rightarrow> ((bool \<times> string) + upstream) app_step" where
  "execute_dedicated X rq = do {
     update_by (\<lambda>a. a\<lparr>ap_sent := ap_sent a @ [Dedicated rq]\<rparr>);
     t \<leftarrow> in_world next_tick;
     ret (ou_probe X t rq) }"

definition probed :: "outside \<Rightarrow> (bool \<times> string) + upstream \<Rightarrow> probe_result" where
  "probed X r =
     (case r of
        Inr up \<Rightarrow> classify_probe (up_status up) (ou_text X up)
      | Inl (timed_out, e) \<Rightarrow>
          if timed_out then unanswered ''unreachable'' ''Timed out after 10s.''
          else unanswered ''unreachable'' (''Could not connect: '' @ e))"

definition probe_built :: "outside \<Rightarrow> (app_error + request) outcome \<Rightarrow> probe_result outcome app_step" where
  "probe_built X outcome =
     (case outcome of
        Panicked \<Rightarrow> ret Panicked
      | Done (Inl e) \<Rightarrow> ret (Done (unanswered ''invalid_url''
          (''Could not build request: '' @ app_error_text (env_status_text (ou_env X)) e)))
      | Done (Inr rq) \<Rightarrow> do { r \<leftarrow> execute_dedicated X rq; ret (Done (probed X r)) })"

definition probe_provider :: "outside \<Rightarrow> provider \<Rightarrow> credentials \<Rightarrow> probe_result outcome app_step" where
  "probe_provider X p creds =
     (if is_oauth_kind (prov_kind p) then ret (Done (oauth_probe creds))
      else if (case prov_base_url p of Some u \<Rightarrow> u = [] | None \<Rightarrow> True)
      then ret (Done (unanswered ''no_endpoint'' ''No endpoint URL configured.''))
      else (case ou_client_error X of
          Some e \<Rightarrow> ret (Done (unanswered ''internal'' e))
        | None \<Rightarrow> do {
            b \<leftarrow> build_with X p (env_print_json (ou_env X) (probe_body (prov_wire_format p))) creds;
            probe_built X b }))"

definition key_only :: "string option \<Rightarrow> credentials" where
  "key_only key = \<lparr>cr_api_key = key, cr_access_token = None, cr_refresh_token = None, cr_id_token = None,
     cr_access_expires_at = None, cr_provider_data = JNull\<rparr>"

definition probe_credentials :: "provider \<Rightarrow> app_error + oauth_state option \<Rightarrow> credentials" where
  "probe_credentials p r =
     (case r of
        Inr (Some os) \<Rightarrow> (key_only (prov_api_key p))\<lparr>cr_access_token := os_access_token os,
          cr_refresh_token := os_refresh_token os\<rparr>
      | _ \<Rightarrow> key_only (prov_api_key p))"

definition test_stub :: "outside \<Rightarrow> string \<Rightarrow> (app_error + json) outcome app_step" where
  "test_stub X i =
     step (sure (stored (get_provider i))) (\<lambda>p. do {
       os \<leftarrow> stored (get_oauth_state i);
       r \<leftarrow> probe_provider X p (probe_credentials p os);
       case r of
         Panicked \<Rightarrow> ret Panicked
       | Done res \<Rightarrow> do {
           (if pr_category res = ''ok'' \<and> pr_status res \<noteq> None then heal i else ret ());
           ret (Done (Inr (probe_json res))) } })"

record draft_body =
  dr_wire_format :: wire_format
  dr_kind :: provider_kind
  dr_base_url :: "string option"
  dr_api_key :: "string option"
  dr_upstream_model :: string

definition draft_provider :: "draft_body \<Rightarrow> timestamp \<Rightarrow> provider" where
  "draft_provider b now = unsaved ''draft'' (dr_wire_format b) (dr_kind b) (dr_base_url b) (dr_api_key b)
     (if trim (dr_upstream_model b) = [] then ''draft-model'' else dr_upstream_model b) now"

definition test_draft :: "outside \<Rightarrow> draft_body \<Rightarrow> (app_error + json) outcome app_step" where
  "test_draft X b = do {
     now \<leftarrow> in_world (read_wall (ou_env X));
     step (sure (check (normalize_new (draft_provider b now)))) (\<lambda>p. do {
       r \<leftarrow> probe_provider X p (key_only (prov_api_key p));
       ret (case r of Panicked \<Rightarrow> Panicked | Done res \<Rightarrow> Done (Inr (probe_json res))) }) }"

section \<open>Trying a model\<close>

definition hello_body :: "string \<Rightarrow> json" where
  "hello_body model = jobj
     [(''model'', JStr model),
      (''messages'', JArr [jobj [(''role'', JStr ''user''), (''content'', JStr ''hi'')]]),
      (''max_tokens'', JNum (PosInt 8))]"

definition refused :: "string \<Rightarrow> json" where
  "refused message = jobj [(''ok'', JBool False), (''message'', JStr message)]"

definition refused_with :: "upstream \<Rightarrow> json" where
  "refused_with up = jobj [(''ok'', JBool False), (''status'', JNum (PosInt (up_status up))),
     (''message'', JStr (error_snippet up))]"

definition accepted :: "nat \<Rightarrow> json" where
  "accepted code = jobj [(''ok'', JBool True), (''status'', JNum (PosInt code))]"

definition verdict :: "string + upstream \<Rightarrow> json + nat" where
  "verdict r =
     (case r of
        Inl e \<Rightarrow> Inl (refused e)
      | Inr up \<Rightarrow> if is_success (up_status up) then Inr (up_status up) else Inl (refused_with up))"

definition retry_generate :: "outside \<Rightarrow> provider \<Rightarrow> credentials \<Rightarrow> string \<Rightarrow> (json + nat) outcome app_step" where
  "retry_generate X p creds body = do {
     in_world (update_by (\<lambda>w. w\<lparr>w_transports := dm_put (prov_id p) GenerateTransport (w_transports w)\<rparr>));
     b \<leftarrow> build_with X p body creds;
     case b of
       Panicked \<Rightarrow> ret Panicked
     | Done (Inl e) \<Rightarrow> ret (Done (Inl (refused (''retry request build failed: '' @ app_error_text (env_status_text (ou_env X)) e))))
     | Done (Inr rq) \<Rightarrow> do { r \<leftarrow> execute_shared X rq; ret (Done (verdict r)) } }"

definition probe_response ::
  "outside \<Rightarrow> provider \<Rightarrow> credentials \<Rightarrow> string \<Rightarrow> request \<Rightarrow> (json + nat) outcome app_step" where
  "probe_response X p creds body rq = do {
     r \<leftarrow> execute_shared X rq;
     transports \<leftarrow> in_world (gets w_transports);
     case r of
       Inr up \<Rightarrow>
         if \<not> is_success (up_status up) \<and> prov_kind p = OauthCommandCode
           \<and> transport_of transports (prov_id p) = ProviderTransport
           \<and> is_upgrade_required (up_status up) (read_text_truncated up MAX_ERROR_BODY)
         then retry_generate X p creds body
         else ret (Done (verdict r))
     | Inl e \<Rightarrow> ret (Done (verdict r)) }"

definition model_to_try :: "string option \<Rightarrow> provider \<Rightarrow> string" where
  "model_to_try model p = unwrap_or (opt_filter (\<lambda>m. trim m \<noteq> []) model) (prov_upstream_model p)"

definition validate_model :: "outside \<Rightarrow> string \<Rightarrow> string option \<Rightarrow> (app_error + json) outcome app_step" where
  "validate_model X i model =
     step (sure (stored (get_provider i))) (\<lambda>p. do {
       let probe = p\<lparr>prov_upstream_model := model_to_try model p\<rparr>;
       let body = env_print_json (ou_env X) (hello_body (prov_upstream_model probe));
       creds \<leftarrow> in_world (credentials_for probe);
       step (build_with X probe body creds) (\<lambda>rq. do {
         r \<leftarrow> probe_response X probe creds body rq;
         case r of
           Panicked \<Rightarrow> ret Panicked
         | Done (Inr code) \<Rightarrow> do { heal i; ret (Done (Inr (accepted code))) }
         | Done (Inl outcome) \<Rightarrow> ret (Done (Inr outcome)) }) })"

definition validate_model_preview ::
  "outside \<Rightarrow> wire_format \<Rightarrow> string \<Rightarrow> string option \<Rightarrow> string \<Rightarrow> (app_error + json) outcome app_step" where
  "validate_model_preview X wire base key model = do {
     now \<leftarrow> in_world (read_wall (ou_env X));
     let probe = unsaved [] wire Passthrough (Some base) key model now;
     step (build_with X probe (env_print_json (ou_env X) (hello_body model)) (key_only key)) (\<lambda>rq. do {
       r \<leftarrow> execute_shared X rq;
       ret (Done (Inr (case verdict r of Inr code \<Rightarrow> accepted code | Inl outcome \<Rightarrow> outcome))) }) }"

section \<open>The router\<close>

text \<open>What a client of the provider routes asks, and what it is told.\<close>

datatype provider_request =
    ListProviders
  | GetProvider string
  | ProviderState string
  | CreateProvider create_body
  | EditProvider string provider_patch
  | RemoveProvider string
  | Disconnect string

definition no_content :: "unit handler \<Rightarrow> json handler" where
  "no_content m = attempt m (\<lambda>_. ok_ret JNull)"

fun serve_provider :: "outside \<Rightarrow> provider_request \<Rightarrow> json handler" where
  "serve_provider X ListProviders = providers_list X"
| "serve_provider X (GetProvider i) = provider_get_one X i"
| "serve_provider X (ProviderState i) = state_stub X i"
| "serve_provider X (CreateProvider b) = provider_create X b"
| "serve_provider X (EditProvider i patch) = provider_edit X i patch"
| "serve_provider X (RemoveProvider i) = no_content (provider_remove i)"
| "serve_provider X (Disconnect i) = no_content (disconnect_oauth i)"

fun serve_providers :: "outside \<Rightarrow> provider_request list \<Rightarrow> (app_error + json) list app_step" where
  "serve_providers X [] = ret []"
| "serve_providers X (r # rs) = do { v \<leftarrow> serve_provider X r; vs \<leftarrow> serve_providers X rs; ret (v # vs) }"

end
