(* ===== verification/CodexTransform.thy ===== *)
theory CodexTransform
  imports BridgeStream
begin

text \<open>
  \<open>src/providers/adapter/codex/transform.rs\<close>: a Chat Completions body becomes a request
  of the Responses API, and the events of a Responses stream become Chat Completions
  chunks, or one whole answer.
\<close>

section \<open>The request\<close>

definition DISALLOWED :: "string list" where
  "DISALLOWED = [''temperature'', ''top_p'', ''max_tokens'', ''max_output_tokens'', ''user'', ''n'',
     ''presence_penalty'', ''frequency_penalty'', ''logprobs'', ''top_logprobs'', ''logit_bias'', ''seed'', ''stop'',
     ''response_format'', ''stream_options'', ''parallel_tool_calls'', ''service_tier'', ''reasoning_effort'']"

definition message_text :: "json \<Rightarrow> string" where
  "message_text m =
     (case jget m ''content'' of
        Some (JStr s) \<Rightarrow> s
      | Some (JArr ps) \<Rightarrow> concat (List.map_filter (\<lambda>p. str_at p ''text'') ps)
      | _ \<Rightarrow> [])"

definition content_part :: "string \<Rightarrow> bool \<Rightarrow> json \<Rightarrow> json option" where
  "content_part text_type allow_images p =
     (let kind = unwrap_or (str_at p ''type'') []
      in if kind = ''image_url'' \<or> kind = ''input_image''
         then (if \<not> allow_images then None
               else (let img = jget p ''image_url''
                 in case or_else (Option.bind img as_str) (Option.bind img (\<lambda>i. str_at i ''url'')) of
                      None \<Rightarrow> None
                    | Some url \<Rightarrow>
                        (let detail = unwrap_or (Option.bind
                             (or_else (jget p ''detail'') (Option.bind img (\<lambda>i. jget i ''detail''))) as_str) ''auto''
                         in Some (jobj [(''type'', JStr ''input_image''), (''image_url'', JStr url),
                              (''detail'', JStr detail)]))))
         else map_option (\<lambda>t. jobj [(''type'', JStr text_type), (''text'', JStr t)]) (str_at p ''text''))"

definition message_content_parts :: "json \<Rightarrow> string \<Rightarrow> bool \<Rightarrow> json list" where
  "message_content_parts m text_type allow_images =
     (case jget m ''content'' of
        Some (JArr ps) \<Rightarrow>
          (let out = List.map_filter (content_part text_type allow_images) ps
           in if out = [] then [jobj [(''type'', JStr text_type), (''text'', JStr [])]] else out)
      | _ \<Rightarrow> [jobj [(''type'', JStr text_type), (''text'', JStr (message_text m))]])"

text \<open>Removing the \<open>id\<close> before or after the other entries are visited is the same.\<close>

primrec strip_ids :: "json \<Rightarrow> json" where
  "strip_ids JNull = JNull"
| "strip_ids (JBool b) = JBool b"
| "strip_ids (JNum n) = JNum n"
| "strip_ids (JStr s) = JStr s"
| "strip_ids (JArr vs) = JArr (map strip_ids vs)"
| "strip_ids (JObj m) = JObj (obj_remove ''id'' (map (map_prod id strip_ids) m))"

text \<open>A function under \<open>function\<close> is spread over the object that held it.\<close>

fun flatten_function_shape :: "json \<Rightarrow> json" where
  "flatten_function_shape (JObj m) =
     (if Option.bind (map_of m ''type'') as_str \<noteq> Some ''function'' then JObj m
      else (case map_of m ''function'' of
              Some (JObj f) \<Rightarrow> JObj (fold (\<lambda>(k, v). obj_insert k v) f (obj_remove ''function'' m))
            | _ \<Rightarrow> JObj (obj_remove ''function'' m)))"
| "flatten_function_shape v = v"

text \<open>The client's own effort, in either of the two places.\<close>

definition client_effort :: "json \<Rightarrow> string option" where
  "client_effort body =
     or_else (str_at body ''reasoning_effort'')
       (Option.bind (Option.bind (jget body ''reasoning'') (\<lambda>r. jget r ''effort'')) as_str)"

definition developer_role :: "json \<Rightarrow> json" where
  "developer_role m = (if str_at m ''role'' = Some ''system'' then jset ''role'' (JStr ''developer'') m else m)"

definition function_call_item :: "json \<Rightarrow> json" where
  "function_call_item tc =
     jobj [(''type'', JStr ''function_call''), (''call_id'', get_or tc ''id'' (JStr [])),
       (''name'', JStr (unwrap_or (as_str (jidx (jidx tc ''function'') ''name'')) [])),
       (''arguments'', JStr (unwrap_or (as_str (jidx (jidx tc ''function'') ''arguments'')) ''{}''))]"

definition message_item :: "string \<Rightarrow> json list \<Rightarrow> json" where
  "message_item role parts =
     jobj [(''type'', JStr ''message''), (''role'', JStr role), (''content'', JArr parts)]"

definition input_items :: "json \<Rightarrow> json list" where
  "input_items m =
     (let role = openai_role m
      in case (if role = ''assistant'' then Option.bind (jget m ''tool_calls'') as_array else None) of
           Some calls \<Rightarrow>
             (if message_text m \<noteq> []
              then [message_item ''assistant'' [jobj [(''type'', JStr ''output_text''), (''text'', JStr (message_text m))]]]
              else [])
             @ map function_call_item calls
         | None \<Rightarrow>
             if role = ''tool''
             then [jobj [(''type'', JStr ''function_call_output''), (''call_id'', get_or m ''tool_call_id'' (JStr [])),
                     (''output'', JStr (message_text m))]]
             else [message_item role (message_content_parts m
                     (if role = ''assistant'' then ''output_text'' else ''input_text'') (role \<noteq> ''assistant''))])"

text \<open>\<open>messages\<close> goes away; \<open>input\<close> is built from it unless the client sent one.\<close>

definition move_messages :: "(string \<times> json) list \<Rightarrow> (string \<times> json) list" where
  "move_messages obj =
     (let rest = obj_remove ''messages'' obj
      in case map_of obj ''messages'' of
           Some (JArr ms) \<Rightarrow>
             if map_of rest ''input'' \<noteq> None then rest
             else obj_insert ''input'' (JArr (concat (map input_items (map developer_role ms)))) rest
         | _ \<Rightarrow> rest)"

definition update_key :: "string \<Rightarrow> (json \<Rightarrow> json) \<Rightarrow> (string \<times> json) list \<Rightarrow> (string \<times> json) list" where
  "update_key k f obj = (case map_of obj k of Some v \<Rightarrow> obj_insert k (f v) obj | None \<Rightarrow> obj)"

definition map_array :: "(json \<Rightarrow> json) \<Rightarrow> json \<Rightarrow> json" where
  "map_array f v = (case v of JArr vs \<Rightarrow> JArr (map f vs) | _ \<Rightarrow> v)"

definition effort_of :: "json \<Rightarrow> effort_level option \<Rightarrow> string" where
  "effort_of body default_effort =
     (case client_effort body of
        Some e \<Rightarrow> e
      | None \<Rightarrow> (case default_effort of Some l \<Rightarrow> openai_effort_str l | None \<Rightarrow> ''medium''))"

definition transform_object ::
  "(string \<times> json) list \<Rightarrow> string \<Rightarrow> effort_level option \<Rightarrow> (string \<times> json) list" where
  "transform_object body session_id default_effort =
     (let obj = move_messages (fold obj_remove DISALLOWED body);
          obj = update_key ''input'' strip_ids obj;
          obj = update_key ''tools'' (map_array flatten_function_shape) obj;
          obj = update_key ''tool_choice'' flatten_function_shape obj;
          obj = obj_insert ''store'' (JBool False) obj;
          obj = obj_insert ''stream'' (JBool True) obj;
          obj = obj_insert ''prompt_cache_key'' (JStr session_id) obj;
          reasoning = (case map_of obj ''reasoning'' of
             Some (JObj r) \<Rightarrow> r | _ \<Rightarrow> []);
          obj = obj_insert ''reasoning''
             (JObj (obj_insert ''effort'' (JStr (effort_of (JObj body) default_effort)) reasoning)) obj
      in obj_insert ''include'' (JArr [JStr ''reasoning.encrypted_content'']) obj)"

fun transform_request :: "json \<Rightarrow> string \<Rightarrow> effort_level option \<Rightarrow> json" where
  "transform_request (JObj body) session_id default_effort = JObj (transform_object body session_id default_effort)"
| "transform_request v session_id default_effort = v"

section \<open>Events\<close>

definition codex_line :: "string \<times> string \<Rightarrow> string \<Rightarrow> string \<times> string" where
  "codex_line a line =
     (case strip_prefix ''event:'' line of
        Some rest \<Rightarrow> (trim rest, snd a)
      | None \<Rightarrow> (case strip_prefix ''data:'' line of
          Some rest \<Rightarrow> (fst a, snd a @ trim rest)
        | None \<Rightarrow> a))"

definition parse_sse_block :: "(string \<Rightarrow> json option) \<Rightarrow> string \<Rightarrow> event option" where
  "parse_sse_block parse block =
     (case foldl codex_line ([], []) (str_lines block) of (event, data) \<Rightarrow>
        if data = [] then None else map_option (\<lambda>j. (event, j)) (parse data))"

definition sse_events :: "(string \<Rightarrow> json option) \<Rightarrow> string \<Rightarrow> event list" where
  "sse_events parse body = List.map_filter (parse_sse_block parse) (split_str [LF, LF] body)"

definition chat_completions_usage :: "json \<Rightarrow> json option" where
  "chat_completions_usage usage =
     (if \<not> is_object usage then None
      else (let prompt = i64_at usage ''input_tokens'';
                completion = i64_at usage ''output_tokens'';
                cached = unwrap_or (Option.bind (Option.bind (jget usage ''input_tokens_details'')
                  (\<lambda>d. jget d ''cached_tokens'')) as_i64) 0;
                out = jobj [(''prompt_tokens'', jint prompt), (''completion_tokens'', jint completion),
                            (''total_tokens'', jint (wrap_i64 (prompt + completion)))]
            in Some (if 0 < cached then jset ''prompt_tokens_details'' (jobj [(''cached_tokens'', jint cached)]) out
                     else out)))"

record sse_summary =
  sm_content :: string
  sm_id :: string
  sm_usage :: "json option"

definition summarise :: "sse_summary \<Rightarrow> event \<Rightarrow> sse_summary" where
  "summarise a e =
     (case e of (event, data) \<Rightarrow>
        if ends_with event ''output_text.delta''
        then a\<lparr>sm_content := sm_content a @ unwrap_or (as_str (jidx data ''delta'')) []\<rparr>
        else if ends_with event ''completed''
        then a\<lparr>sm_id := unwrap_or (as_str (jidx (jidx data ''response'') ''id'')) (sm_id a),
               sm_usage := chat_completions_usage (jidx (jidx data ''response'') ''usage'')\<rparr>
        else a)"

definition aggregate_events :: "event list \<Rightarrow> string \<Rightarrow> json" where
  "aggregate_events events model =
     (let a = foldl summarise \<lparr>sm_content = [], sm_id = [], sm_usage = None\<rparr> events;
          out = jobj [(''id'', JStr (sm_id a)), (''object'', JStr ''chat.completion''), (''model'', JStr model),
            (''choices'', JArr [jobj [(''index'', jnat 0),
               (''message'', message_of ''assistant'' (JStr (sm_content a))),
               (''finish_reason'', JStr ''stop'')]])]
      in case sm_usage a of Some u \<Rightarrow> jset ''usage'' u out | None \<Rightarrow> out)"

definition aggregate_sse :: "(string \<Rightarrow> json option) \<Rightarrow> string \<Rightarrow> string \<Rightarrow> json" where
  "aggregate_sse parse body model = aggregate_events (sse_events parse body) model"

definition is_error_event :: "event \<Rightarrow> bool" where
  "is_error_event e \<longleftrightarrow> contains (fst e) ''failed'' \<or> contains (fst e) ''error''
     \<or> \<not> is_null (jidx (snd e) ''error'')"

definition sse_embedded_error :: "(string \<Rightarrow> json option) \<Rightarrow> string \<Rightarrow> string option" where
  "sse_embedded_error parse body =
     map_option (\<lambda>e. unwrap_or (as_str (jidx (jidx (snd e) ''error'') ''type'')) ''upstream_error'')
       (find is_error_event (sse_events parse body))"

section \<open>Streaming\<close>

record sse_chunk_state =
  ch_id :: string
  ch_created :: int
  ch_saw_tool_call :: bool
  ch_args_sent :: "nat list"

definition new_chunk_state :: sse_chunk_state where
  "new_chunk_state = \<lparr>ch_id = [], ch_created = 0, ch_saw_tool_call = False, ch_args_sent = []\<rparr>"

definition chat_chunk :: "sse_chunk_state \<Rightarrow> string \<Rightarrow> json \<Rightarrow> string option \<Rightarrow> json" where
  "chat_chunk st model delta finish =
     jobj [(''id'', JStr (ch_id st)), (''object'', JStr ''chat.completion.chunk''), (''created'', jint (ch_created st)),
       (''model'', JStr model),
       (''choices'', JArr [jobj [(''index'', jnat 0), (''delta'', delta),
          (''finish_reason'', (case finish of Some f \<Rightarrow> JStr f | None \<Rightarrow> JNull))]])]"

definition tool_delta :: "(string \<times> json) list \<Rightarrow> json" where
  "tool_delta kvs = jobj [(''tool_calls'', JArr [jobj kvs])]"

definition args_delta :: "nat \<Rightarrow> string \<Rightarrow> json" where
  "args_delta index args = tool_delta [(''index'', jnat index), (''function'', jobj [(''arguments'', JStr args)])]"

definition output_index :: "json \<Rightarrow> nat" where
  "output_index data = unwrap_or (as_u64 (jidx data ''output_index'')) 0"

definition str_of :: "json \<Rightarrow> string \<Rightarrow> string" where
  "str_of v k = unwrap_or (as_str (jidx v k)) []"

text \<open>The arguments a \<open>.done\<close> event carries, when they are those of a call.\<close>

definition done_args :: "string \<Rightarrow> json \<Rightarrow> string" where
  "done_args event data =
     (if event = ''response.output_item.done''
      then (if as_str (jidx (jidx data ''item'') ''type'') = Some ''function_call''
            then str_of (jidx data ''item'') ''arguments'' else [])
      else str_of data ''arguments'')"

definition chat_chunk_for_event ::
  "sse_chunk_state \<Rightarrow> string \<Rightarrow> json \<Rightarrow> string \<Rightarrow> json option \<times> sse_chunk_state" where
  "chat_chunk_for_event st event data model =
     (if event = ''response.created'' then
        (let r = jidx data ''response'';
             st = st\<lparr>ch_id := str_of r ''id'', ch_created := unwrap_or (as_i64 (jidx r ''created_at'')) 0\<rparr>
         in (Some (chat_chunk st model (message_of ''assistant'' (JStr [])) None), st))
      else if event = ''response.output_text.delta'' then
        (Some (chat_chunk st model (jobj [(''content'', JStr (str_of data ''delta''))]) None), st)
      else if event = ''response.output_item.added'' then
        (let item = jidx data ''item''
         in if as_str (jidx item ''type'') \<noteq> Some ''function_call'' then (None, st)
            else (let index = output_index data; args = str_of item ''arguments'';
                      st = st\<lparr>ch_saw_tool_call := True,
                              ch_args_sent := (if args \<noteq> [] then List.insert index (ch_args_sent st) else ch_args_sent st)\<rparr>
              in (Some (chat_chunk st model (tool_delta [(''index'', jnat index), (''id'', JStr (str_of item ''call_id'')),
                    (''type'', JStr ''function''),
                    (''function'', jobj [(''name'', JStr (str_of item ''name'')), (''arguments'', JStr args)])]) None), st)))
      else if event = ''response.function_call_arguments.done'' \<or> event = ''response.output_item.done'' then
        (let index = output_index data; args = done_args event data
         in if args = [] \<or> index \<in> set (ch_args_sent st) then (None, st)
            else (let st = st\<lparr>ch_args_sent := List.insert index (ch_args_sent st)\<rparr>
              in (Some (chat_chunk st model (args_delta index args) None), st)))
      else if event = ''response.function_call_arguments.delta'' then
        (let index = output_index data;
             st = st\<lparr>ch_args_sent := List.insert index (ch_args_sent st)\<rparr>
         in (Some (chat_chunk st model (args_delta index (str_of data ''delta'')) None), st))
      else if event = ''response.completed'' then
        (let chunk = chat_chunk st model (JObj []) (Some (if ch_saw_tool_call st then ''tool_calls'' else ''stop''))
         in (Some (case chat_completions_usage (jidx (jidx data ''response'') ''usage'') of
               Some u \<Rightarrow> jset ''usage'' u chunk | None \<Rightarrow> chunk), st))
      else (None, st))"

text \<open>\<open>trim_end_matches\<close> of a two-byte pattern.\<close>

fun trim_blank_lines_rev :: "string \<Rightarrow> string" where
  "trim_blank_lines_rev (c # d # s) = (if c = LF \<and> d = LF then trim_blank_lines_rev s else c # d # s)"
| "trim_blank_lines_rev s = s"

definition trim_blank_lines :: "string \<Rightarrow> string" where
  "trim_blank_lines s = rev (trim_blank_lines_rev (rev s))"

text \<open>The chunks of a list of events, and of the blocks of a stream.\<close>

fun codex_chunks :: "string \<Rightarrow> sse_chunk_state \<Rightarrow> event list \<Rightarrow> json list \<times> sse_chunk_state" where
  "codex_chunks model st [] = ([], st)"
| "codex_chunks model st ((event, data) # es) =
     (case chat_chunk_for_event st event data model of (c, st) \<Rightarrow>
        (case codex_chunks model st es of (cs, st) \<Rightarrow>
           ((case c of Some c \<Rightarrow> c # cs | None \<Rightarrow> cs), st)))"

definition block_events :: "(string \<Rightarrow> json option) \<Rightarrow> string list \<Rightarrow> event list" where
  "block_events parse blocks = List.map_filter (\<lambda>b. parse_sse_block parse (trim_blank_lines b)) blocks"

fun convert_sse_stream ::
  "(string \<Rightarrow> json option) \<Rightarrow> (json \<Rightarrow> string) \<Rightarrow> string \<Rightarrow> sse_framer \<Rightarrow> sse_chunk_state \<Rightarrow> 'e items \<Rightarrow> 'e items" where
  "convert_sse_stream parse print model f st [] = [Inr done_marker]"
| "convert_sse_stream parse print model f st (Inl e # _) = [Inl e]"
| "convert_sse_stream parse print model f st (Inr bytes # items) =
     (case framer_push f bytes of (ok, f) \<Rightarrow>
        if \<not> ok then []
        else (case framer_drain f of (blocks, f) \<Rightarrow>
          (case codex_chunks model st (block_events parse blocks) of (cs, st) \<Rightarrow>
             map (\<lambda>c. Inr (render_openai_chunk print c)) cs
             @ convert_sse_stream parse print model f st items)))"

end
