(* ===== verification/Responses.thy ===== *)
theory Responses
  imports CodexTransform HttpAdapter Flow
begin

text \<open>
  \<open>src/proxy/responses.rs\<close>, \<open>src/proxy/routes.rs\<close> and \<open>src/proxy/body.rs\<close>: the routes of
  \<open>/v1\<close>.  The Responses API is served by translating the request to Chat Completions, running
  it through the failover loop, and translating the answer back.
\<close>

section \<open>Bodies\<close>

text \<open>What a body yields: its chunks, or the error it breaks off with.\<close>

fun buffer_items :: "nat \<Rightarrow> string \<Rightarrow> (string + string) list \<Rightarrow> app_error + string" where
  "buffer_items room buf [] = Inr buf"
| "buffer_items room buf (Inl e # _) = Inl (BadRequest (''failed to read body: '' @ e))"
| "buffer_items room buf (Inr chunk # items) =
     (if room < length chunk then Inl (BadRequest ''request body exceeds limit'')
      else buffer_items (room - length chunk) (buf @ chunk) items)"

definition buffer_body :: "(string + string) list \<Rightarrow> nat \<Rightarrow> app_error + string" where
  "buffer_body body cap = buffer_items cap [] body"

definition body_items :: "(json \<Rightarrow> string) \<Rightarrow> body \<Rightarrow> (string + string) list" where
  "body_items print b =
     (case b of JsonBody j \<Rightarrow> [Inr (print j)] | RawBody s \<Rightarrow> [Inr s] | StreamBody items \<Rightarrow> items)"

section \<open>Namespaces\<close>

definition flat_name :: "string \<Rightarrow> string \<Rightarrow> string" where
  "flat_name ns name = ns @ ''__'' @ name"

text \<open>The latest entry of a name comes first.\<close>

type_synonym namespace_map = "(string \<times> (string \<times> string)) list"

definition function_names :: "json \<Rightarrow> string list" where
  "function_names t =
     List.map_filter (\<lambda>i. if str_at i ''type'' = Some ''function'' then str_at i ''name'' else None)
       (elements_at t ''tools'')"

definition namespaces_of :: "json \<Rightarrow> namespace_map" where
  "namespaces_of req =
     rev (concat (map (\<lambda>t.
        if str_at t ''type'' \<noteq> Some ''namespace'' then []
        else (case str_at t ''name'' of
                None \<Rightarrow> []
              | Some ns \<Rightarrow> map (\<lambda>n. (flat_name ns n, ns, n)) (function_names t)))
        (elements_at req ''tools'')))"

definition with_namespace :: "namespace_map \<Rightarrow> json \<Rightarrow> json" where
  "with_namespace m item =
     (case Option.bind (str_at item ''name'') (map_of m) of
        Some (ns, name) \<Rightarrow> jset ''name'' (JStr name) (jset ''namespace'' (JStr ns) item)
      | None \<Rightarrow> item)"

section \<open>The request\<close>

definition text_of_parts :: "json \<Rightarrow> string" where
  "text_of_parts content =
     (case content of
        JStr s \<Rightarrow> s
      | JArr ps \<Rightarrow> concat (List.map_filter (\<lambda>p. str_at p ''text'') ps)
      | _ \<Rightarrow> [])"

definition chat_part :: "json \<Rightarrow> json option" where
  "chat_part p =
     (if str_at p ''type'' = Some ''input_image''
      then (let url = get_or p ''image_url'' JNull
        in Some (jobj [(''type'', JStr ''image_url''),
             (''image_url'', (case url of JStr s \<Rightarrow> jobj [(''url'', JStr s)] | v \<Rightarrow> v))]))
      else map_option text_block (str_at p ''text''))"

definition chat_content :: "json \<Rightarrow> json" where
  "chat_content content =
     (case content of
        JArr ps \<Rightarrow>
          (let out = List.map_filter chat_part ps
           in if list_all (\<lambda>p. str_at p ''type'' = Some ''text'') out
              then JStr (concat (List.map_filter (\<lambda>p. str_at p ''text'') out)) else JArr out)
      | _ \<Rightarrow> JStr (text_of_parts content))"

definition push_tool_call :: "json list \<Rightarrow> json \<Rightarrow> json list" where
  "push_tool_call messages call =
     (if messages \<noteq> [] \<and> str_at (last messages) ''role'' = Some ''assistant''
      then butlast messages
        @ [jset ''tool_calls''
             (JArr ((case Option.bind (jget (last messages) ''tool_calls'') as_array of
                       Some calls \<Rightarrow> calls | None \<Rightarrow> []) @ [call])) (last messages)]
      else messages @ [jobj [(''role'', JStr ''assistant''), (''content'', JNull), (''tool_calls'', JArr [call])]])"

text \<open>The name of a tool, a call or a choice that may sit in a namespace.\<close>

definition tool_label :: "string option \<Rightarrow> json \<Rightarrow> json" where
  "tool_label ns v =
     (case (ns, str_at v ''name'') of
        (Some ns, Some n) \<Rightarrow> JStr (flat_name ns n) | _ \<Rightarrow> get_or v ''name'' JNull)"

definition call_of_item :: "json \<Rightarrow> json" where
  "call_of_item item =
     jobj [(''id'', JStr (unwrap_or (Option.bind (or_else (jget item ''call_id'') (jget item ''id'')) as_str) ''call_0'')),
       (''type'', JStr ''function''),
       (''function'', jobj [(''name'', tool_label (str_at item ''namespace'') item),
          (''arguments'', get_or item ''arguments'' (JStr ''{}''))])]"

definition output_of_item :: "(json \<Rightarrow> string) \<Rightarrow> json \<Rightarrow> string" where
  "output_of_item print item =
     (case jget item ''output'' of
        Some (JStr s) \<Rightarrow> s
      | Some (JArr vs) \<Rightarrow> text_of_parts (JArr vs)
      | Some v \<Rightarrow> print v
      | None \<Rightarrow> [])"

definition item_role :: "json \<Rightarrow> string" where
  "item_role item =
     (let r = unwrap_or (str_at item ''role'') ''user'' in if r = ''developer'' then ''system'' else r)"

text \<open>One item of the input; \<open>messages\<close> is what came before it.\<close>

definition push_item :: "(json \<Rightarrow> string) \<Rightarrow> json list \<Rightarrow> json \<Rightarrow> json list" where
  "push_item print messages item =
     (let kind = str_at item ''type''
      in if kind = Some ''function_call'' then push_tool_call messages (call_of_item item)
         else if kind = Some ''function_call_output''
         then messages @ [jobj [(''role'', JStr ''tool''), (''tool_call_id'', get_or item ''call_id'' JNull),
                (''content'', JStr (output_of_item print item))]]
         else if kind = Some ''message'' \<or> kind = None
         then (let role = item_role item; content = get_or item ''content'' JNull
               in messages @ [message_of role
                    (if role = ''assistant'' then JStr (text_of_parts content) else chat_content content)])
         else messages)"

definition instructions :: "json \<Rightarrow> json list" where
  "instructions req =
     (case opt_filter (\<lambda>s. s \<noteq> []) (str_at req ''instructions'') of
        Some s \<Rightarrow> [message_of ''system'' (JStr s)] | None \<Rightarrow> [])"

definition input_messages :: "(json \<Rightarrow> string) \<Rightarrow> json \<Rightarrow> string + json list" where
  "input_messages print req =
     (case jget req ''input'' of
        Some (JStr s) \<Rightarrow> Inr (instructions req @ [message_of ''user'' (JStr s)])
      | Some (JArr items) \<Rightarrow> Inr (foldl (push_item print) (instructions req) items)
      | _ \<Rightarrow> Inl (''missing '' @ quoted ''input'' @ '' field''))"

text \<open>The functions among the tools, each with the namespace it sits in.\<close>

definition flat_tools :: "json list \<Rightarrow> (string option \<times> json) list" where
  "flat_tools tools =
     concat (map (\<lambda>t.
       if str_at t ''type'' = Some ''function'' then [(None, t)]
       else if str_at t ''type'' = Some ''namespace''
       then map (\<lambda>i. (str_at t ''name'', i))
              (filter (\<lambda>i. str_at i ''type'' = Some ''function'') (elements_at t ''tools''))
       else []) tools)"

definition chat_tool :: "string option \<times> json \<Rightarrow> json" where
  "chat_tool t =
     jobj [(''type'', JStr ''function''), (''function'', jobj [(''name'', tool_label (fst t) (snd t)),
       (''description'', get_or (snd t) ''description'' JNull),
       (''parameters'', get_or (snd t) ''parameters'' empty_schema)])]"

definition chat_choice :: "json \<Rightarrow> json option" where
  "chat_choice req =
     (case jget req ''tool_choice'' of
        Some (JStr s) \<Rightarrow> Some (JStr s)
      | Some v \<Rightarrow>
          if str_at v ''type'' = Some ''function''
          then Some (jobj [(''type'', JStr ''function''), (''function'', jobj [(''name'', tool_label (str_at v ''namespace'') v)])])
          else None
      | None \<Rightarrow> None)"

definition entry_if :: "string \<Rightarrow> json option \<Rightarrow> (string \<times> json) list" where
  "entry_if k v = (case v of Some j \<Rightarrow> [(k, j)] | None \<Rightarrow> [])"

definition chat_tools :: "json \<Rightarrow> (string \<times> json) list" where
  "chat_tools req =
     (case Option.bind (jget req ''tools'') as_array of
        None \<Rightarrow> []
      | Some ts \<Rightarrow>
          (let tools = map chat_tool (flat_tools ts)
           in if tools = [] then []
              else [(''tools'', JArr tools)] @ entry_if ''tool_choice'' (chat_choice req)
                   @ entry_if ''parallel_tool_calls'' (jget req ''parallel_tool_calls'')))"

definition wants_stream :: "json \<Rightarrow> bool" where
  "wants_stream req = unwrap_or (Option.bind (jget req ''stream'') as_bool) False"

definition request_to_chat :: "(json \<Rightarrow> string) \<Rightarrow> json \<Rightarrow> string + json" where
  "request_to_chat print req =
     (case str_at req ''model'' of
        None \<Rightarrow> Inl (''missing '' @ quoted ''model'' @ '' field'')
      | Some model \<Rightarrow>
          (case input_messages print req of
             Inl e \<Rightarrow> Inl e
           | Inr messages \<Rightarrow> Inr (jobj ([(''model'', JStr model), (''messages'', JArr messages)]
               @ (if wants_stream req
                  then [(''stream'', JBool True), (''stream_options'', jobj [(''include_usage'', JBool True)])] else [])
               @ chat_tools req
               @ entry_if ''max_tokens'' (jget req ''max_output_tokens'')
               @ entry_if ''temperature'' (jget req ''temperature'') @ entry_if ''top_p'' (jget req ''top_p'')
               @ entry_if ''prompt_cache_key'' (map_option JStr (str_at req ''prompt_cache_key''))
               @ entry_if ''reasoning_effort'' (map_option JStr (effort_from_responses req))))))"

section \<open>The buffered answer\<close>

text \<open>\<open>draw n\<close> is the \<open>n\<close>-th random id; an operation takes the number of the next one.\<close>

definition new_id :: "(nat \<Rightarrow> string) \<Rightarrow> string \<Rightarrow> nat \<Rightarrow> string" where
  "new_id draw pre n = pre @ ''_'' @ draw n"

definition responses_usage :: "json \<Rightarrow> json" where
  "responses_usage chat =
     (let u = jidx chat ''usage''; i = i64_at u ''prompt_tokens''; p = i64_at u ''completion_tokens''
      in jobj [(''input_tokens'', jint i), (''output_tokens'', jint p),
           (''total_tokens'', jint (unwrap_or (as_i64 (jidx u ''total_tokens'')) (wrap_i64 (i + p))))])"

definition output_text_part :: "string \<Rightarrow> json" where
  "output_text_part t = jobj [(''type'', JStr ''output_text''), (''text'', JStr t), (''annotations'', JArr [])]"

definition message_output :: "string \<Rightarrow> string \<Rightarrow> json" where
  "message_output i t =
     jobj [(''type'', JStr ''message''), (''id'', JStr i), (''status'', JStr ''completed''), (''role'', JStr ''assistant''),
       (''content'', JArr [output_text_part t])]"

definition call_output :: "string \<Rightarrow> string \<Rightarrow> string \<Rightarrow> json \<Rightarrow> string \<Rightarrow> json" where
  "call_output i phase call_id name args =
     jobj [(''type'', JStr ''function_call''), (''id'', JStr i), (''status'', JStr phase),
       (''call_id'', JStr call_id), (''name'', name), (''arguments'', JStr args)]"

fun call_outputs :: "(nat \<Rightarrow> string) \<Rightarrow> namespace_map \<Rightarrow> nat \<Rightarrow> json list \<Rightarrow> json list \<times> nat" where
  "call_outputs draw ns n [] = ([], n)"
| "call_outputs draw ns n (c # cs) =
     (let (call_id, n) = (case str_at c ''id'' of Some i \<Rightarrow> (i, n) | None \<Rightarrow> (new_id draw ''call'' n, Suc n));
          item = with_namespace ns (call_output (new_id draw ''fc'' n) ''completed'' call_id
             (jidx (jidx c ''function'') ''name'')
             (unwrap_or (as_str (jidx (jidx c ''function'') ''arguments'')) ''{}''))
      in case call_outputs draw ns (Suc n) cs of (items, n) \<Rightarrow> (item # items, n))"

definition first_choice :: "json \<Rightarrow> json" where
  "first_choice v = unwrap_or (first_elem (jidx v ''choices'')) JNull"

definition cut_short :: "json \<Rightarrow> bool" where
  "cut_short choice \<longleftrightarrow> str_at choice ''finish_reason'' = Some ''length''"

definition incomplete_details :: "bool \<Rightarrow> json" where
  "incomplete_details truncated = (if truncated then jobj [(''reason'', JStr ''max_output_tokens'')] else JNull)"

definition chat_to_response :: "(nat \<Rightarrow> string) \<Rightarrow> int \<Rightarrow> json \<Rightarrow> string \<Rightarrow> namespace_map \<Rightarrow> json" where
  "chat_to_response draw now chat model ns =
     (let choice = first_choice chat; msg = jidx choice ''message'';
          said = unwrap_or (as_str (jidx msg ''content'')) [];
          (messages, n) = (if said \<noteq> [] then ([message_output (new_id draw ''msg'' 0) said], 1) else ([], 0));
          (calls, n) = call_outputs draw ns n (unwrap_or (as_array (jidx msg ''tool_calls'')) []);
          truncated = cut_short choice
      in jobj [(''id'', JStr (new_id draw ''resp'' n)), (''object'', JStr ''response''), (''created_at'', jint now),
           (''status'', JStr (if truncated then ''incomplete'' else ''completed'')),
           (''incomplete_details'', incomplete_details truncated), (''error'', JNull),
           (''model'', JStr (unwrap_or (as_str (jidx chat ''model'')) model)),
           (''output'', JArr (messages @ calls)), (''usage'', responses_usage chat)])"

section \<open>The stream\<close>

record open_item =
  oi_index :: nat
  oi_id :: string
  oi_tool :: "int option"
  oi_call_id :: string
  oi_name :: string
  oi_buf :: string

text \<open>\<open>rs_out\<close>: the events emitted so far; \<open>rs_drawn\<close>: how many random ids were drawn.\<close>

record resp_stream =
  rs_seq :: nat
  rs_id :: string
  rs_model :: string
  rs_created :: int
  rs_started :: bool
  rs_next :: nat
  rs_text :: "open_item option"
  rs_calls :: "open_item list"
  rs_items :: "json list"
  rs_usage :: json
  rs_truncated :: bool
  rs_finished :: bool
  rs_ns :: namespace_map
  rs_drawn :: nat
  rs_out :: "event list"

definition new_resp_stream :: "(nat \<Rightarrow> string) \<Rightarrow> int \<Rightarrow> string \<Rightarrow> namespace_map \<Rightarrow> resp_stream" where
  "new_resp_stream draw now model ns =
     \<lparr>rs_seq = 0, rs_id = new_id draw ''resp'' 0, rs_model = model, rs_created = now, rs_started = False, rs_next = 0,
      rs_text = None, rs_calls = [], rs_items = [],
      rs_usage = jobj [(''input_tokens'', jnat 0), (''output_tokens'', jnat 0), (''total_tokens'', jnat 0)],
      rs_truncated = False, rs_finished = False, rs_ns = ns, rs_drawn = 1, rs_out = []\<rparr>"

definition emit :: "string \<Rightarrow> (string \<times> json) list \<Rightarrow> resp_stream \<Rightarrow> resp_stream" where
  "emit ev data st =
     st\<lparr>rs_seq := Suc (rs_seq st),
        rs_out := rs_out st @ [(ev, jobj (data @ [(''type'', JStr ev), (''sequence_number'', jnat (rs_seq st))]))]\<rparr>"

definition response_obj :: "resp_stream \<Rightarrow> string \<Rightarrow> json list \<Rightarrow> json" where
  "response_obj st phase output =
     jobj [(''id'', JStr (rs_id st)), (''object'', JStr ''response''), (''created_at'', jint (rs_created st)),
       (''status'', JStr phase), (''incomplete_details'', incomplete_details (phase = ''incomplete'')),
       (''error'', JNull), (''model'', JStr (rs_model st)), (''output'', JArr output), (''usage'', rs_usage st)]"

definition start_response :: "resp_stream \<Rightarrow> resp_stream" where
  "start_response st =
     (if rs_started st then st
      else (let st = st\<lparr>rs_started := True\<rparr>; r = response_obj st ''in_progress'' []
        in emit ''response.in_progress'' [(''response'', r)] (emit ''response.created'' [(''response'', r)] st)))"

definition close_text :: "resp_stream \<Rightarrow> resp_stream" where
  "close_text st =
     (case rs_text st of
        None \<Rightarrow> st
      | Some t \<Rightarrow>
          (let item = message_output (oi_id t) (oi_buf t);
               place = [(''item_id'', JStr (oi_id t)), (''output_index'', jnat (oi_index t)), (''content_index'', jnat 0)];
               st = st\<lparr>rs_text := None\<rparr>;
               st = emit ''response.output_text.done'' (place @ [(''text'', JStr (oi_buf t))]) st;
               st = emit ''response.content_part.done'' (place @ [(''part'', output_text_part (oi_buf t))]) st;
               st = emit ''response.output_item.done'' [(''output_index'', jnat (oi_index t)), (''item'', item)] st
           in st\<lparr>rs_items := rs_items st @ [item]\<rparr>))"

definition close_call :: "resp_stream \<Rightarrow> open_item \<Rightarrow> resp_stream" where
  "close_call st c =
     (let item = with_namespace (rs_ns st)
            (call_output (oi_id c) ''completed'' (oi_call_id c) (JStr (oi_name c)) (oi_buf c));
          st = emit ''response.function_call_arguments.done''
            [(''item_id'', JStr (oi_id c)), (''output_index'', jnat (oi_index c)), (''arguments'', JStr (oi_buf c))] st;
          st = emit ''response.output_item.done'' [(''output_index'', jnat (oi_index c)), (''item'', item)] st
      in st\<lparr>rs_items := rs_items st @ [item]\<rparr>)"

definition open_text :: "(nat \<Rightarrow> string) \<Rightarrow> resp_stream \<Rightarrow> resp_stream" where
  "open_text draw st =
     (let idx = rs_next st; i = new_id draw ''msg'' (rs_drawn st);
          st = st\<lparr>rs_next := Suc idx, rs_drawn := Suc (rs_drawn st)\<rparr>;
          st = emit ''response.output_item.added'' [(''output_index'', jnat idx),
            (''item'', jobj [(''type'', JStr ''message''), (''id'', JStr i), (''status'', JStr ''in_progress''),
               (''role'', JStr ''assistant''), (''content'', JArr [])])] st;
          st = emit ''response.content_part.added'' [(''item_id'', JStr i), (''output_index'', jnat idx),
            (''content_index'', jnat 0), (''part'', output_text_part [])] st
      in st\<lparr>rs_text := Some \<lparr>oi_index = idx, oi_id = i, oi_tool = None, oi_call_id = [], oi_name = [], oi_buf = []\<rparr>\<rparr>)"

definition feed_text :: "(nat \<Rightarrow> string) \<Rightarrow> string \<Rightarrow> resp_stream \<Rightarrow> resp_stream" where
  "feed_text draw said st =
     (let st = (if rs_text st = None then open_text draw st else st)
      in case rs_text st of
           None \<Rightarrow> st
         | Some t \<Rightarrow> emit ''response.output_text.delta'' [(''item_id'', JStr (oi_id t)),
             (''output_index'', jnat (oi_index t)), (''content_index'', jnat 0), (''delta'', JStr said)]
             (st\<lparr>rs_text := Some (t\<lparr>oi_buf := oi_buf t @ said\<rparr>)\<rparr>))"

definition chat_call_index :: "json \<Rightarrow> int" where
  "chat_call_index c = unwrap_or (as_i64 (jidx c ''index'')) 0"

definition open_call :: "(nat \<Rightarrow> string) \<Rightarrow> json \<Rightarrow> resp_stream \<Rightarrow> resp_stream" where
  "open_call draw c st =
     (let idx = rs_next st; i = new_id draw ''fc'' (rs_drawn st); n = Suc (rs_drawn st);
          (call_id, n) = (case str_at c ''id'' of Some i \<Rightarrow> (i, n) | None \<Rightarrow> (new_id draw ''call'' n, Suc n));
          name = unwrap_or (as_str (jidx (jidx c ''function'') ''name'')) [];
          st = st\<lparr>rs_next := Suc idx, rs_drawn := n\<rparr>;
          st = emit ''response.output_item.added'' [(''output_index'', jnat idx),
            (''item'', with_namespace (rs_ns st) (call_output i ''in_progress'' call_id (JStr name) []))] st
      in st\<lparr>rs_calls := rs_calls st @ [\<lparr>oi_index = idx, oi_id = i, oi_tool = Some (chat_call_index c),
             oi_call_id = call_id, oi_name = name, oi_buf = []\<rparr>]\<rparr>)"

fun find_call :: "int \<Rightarrow> open_item list \<Rightarrow> open_item option" where
  "find_call ti [] = None"
| "find_call ti (o1 # os) = (if oi_tool o1 = Some ti then Some o1 else find_call ti os)"

fun add_args :: "int \<Rightarrow> string \<Rightarrow> open_item list \<Rightarrow> open_item list" where
  "add_args ti a [] = []"
| "add_args ti a (o1 # os) =
     (if oi_tool o1 = Some ti then o1\<lparr>oi_buf := oi_buf o1 @ a\<rparr> # os else o1 # add_args ti a os)"

definition feed_call :: "(nat \<Rightarrow> string) \<Rightarrow> resp_stream \<Rightarrow> json \<Rightarrow> resp_stream" where
  "feed_call draw st c =
     (let ti = chat_call_index c;
          st = (if find_call ti (rs_calls st) = None then open_call draw c st else st);
          args = unwrap_or (as_str (jidx (jidx c ''function'') ''arguments'')) []
      in case find_call ti (rs_calls st) of
           None \<Rightarrow> st
         | Some o1 \<Rightarrow>
             if args = [] then st
             else emit ''response.function_call_arguments.delta'' [(''item_id'', JStr (oi_id o1)),
                    (''output_index'', jnat (oi_index o1)), (''delta'', JStr args)]
                    (st\<lparr>rs_calls := add_args ti args (rs_calls st)\<rparr>))"

definition feed_calls :: "(nat \<Rightarrow> string) \<Rightarrow> json \<Rightarrow> resp_stream \<Rightarrow> resp_stream" where
  "feed_calls draw delta st =
     (case Option.bind (jget delta ''tool_calls'') as_array of
        None \<Rightarrow> st | Some cs \<Rightarrow> foldl (feed_call draw) (close_text st) cs)"

definition feed :: "(nat \<Rightarrow> string) \<Rightarrow> resp_stream \<Rightarrow> json \<Rightarrow> resp_stream" where
  "feed draw st chunk =
     (if rs_finished st then st
      else (let st = start_response st;
                st = (case str_at chunk ''model'' of Some m \<Rightarrow> st\<lparr>rs_model := m\<rparr> | None \<Rightarrow> st);
                st = (if is_object (jidx chunk ''usage'') then st\<lparr>rs_usage := responses_usage chunk\<rparr> else st);
                delta = jidx (first_choice chunk) ''delta'';
                said = unwrap_or (str_at delta ''content'') [];
                st = (if said = [] then st else feed_text draw said st);
                st = feed_calls draw delta st
            in if cut_short (first_choice chunk) then st\<lparr>rs_truncated := True\<rparr> else st))"

definition finish_response :: "resp_stream \<Rightarrow> resp_stream" where
  "finish_response st =
     (if rs_finished st then st
      else (let st = close_text (start_response st);
                st = foldl close_call (st\<lparr>rs_calls := []\<rparr>) (rs_calls st);
                items = rs_items st;
                st = st\<lparr>rs_finished := True, rs_items := []\<rparr>;
                (phase, ev) = (if rs_truncated st then (''incomplete'', ''response.incomplete'')
                                else (''completed'', ''response.completed''))
            in emit ev [(''response'', response_obj st phase items)] st))"

definition feed_line :: "(string \<Rightarrow> json option) \<Rightarrow> (nat \<Rightarrow> string) \<Rightarrow> resp_stream \<Rightarrow> string \<Rightarrow> resp_stream" where
  "feed_line parse draw st line =
     (case map_option trim (strip_prefix ''data:'' line) of
        None \<Rightarrow> st
      | Some data \<Rightarrow>
          if data = [] \<or> data = ''[DONE]'' then st
          else (case parse data of Some v \<Rightarrow> feed draw st v | None \<Rightarrow> st))"

definition feed_block :: "(string \<Rightarrow> json option) \<Rightarrow> (nat \<Rightarrow> string) \<Rightarrow> resp_stream \<Rightarrow> string \<Rightarrow> resp_stream" where
  "feed_block parse draw st block = foldl (feed_line parse draw) st (str_lines block)"

fun run_stream ::
  "(string \<Rightarrow> json option) \<Rightarrow> (nat \<Rightarrow> string) \<Rightarrow> sse_framer \<Rightarrow> resp_stream \<Rightarrow> (string + string) list \<Rightarrow> resp_stream" where
  "run_stream parse draw f st (Inr chunk # items) =
     (case framer_push f chunk of (ok, f) \<Rightarrow>
        (case framer_drain f of (blocks, f) \<Rightarrow>
          let st = foldl (feed_block parse draw) st blocks
          in if ok then run_stream parse draw f st items else finish_response st))"
| "run_stream parse draw f st items = finish_response (feed_block parse draw st (framer_finish f))"

text \<open>Every upstream error ends the stream like its end does, so no item is an error.\<close>

definition translate_stream ::
  "(string \<Rightarrow> json option) \<Rightarrow> (json \<Rightarrow> string) \<Rightarrow> (nat \<Rightarrow> string) \<Rightarrow> int \<Rightarrow> string \<Rightarrow> namespace_map \<Rightarrow>
     (string + string) list \<Rightarrow> (string + string) list" where
  "translate_stream parse print draw now model ns items =
     map (\<lambda>e. Inr (render_claude_event print e))
       (rs_out (run_stream parse draw new_framer (new_resp_stream draw now model ns) items))"

section \<open>The routes\<close>

text \<open>The one chunk a buffered answer to a streaming request is replayed as.\<close>

definition replayed_chunk :: "json \<Rightarrow> json" where
  "replayed_chunk chat =
     (let choice = first_choice chat; msg = jidx choice ''message''
      in jobj [(''model'', jidx chat ''model''), (''usage'', jidx chat ''usage''),
           (''choices'', JArr [jobj [(''delta'', jobj [(''content'', jidx msg ''content''),
              (''tool_calls'', (case as_array (jidx msg ''tool_calls'') of
                 None \<Rightarrow> JNull
               | Some cs \<Rightarrow> JArr (map (\<lambda>(i, c). jobj [(''index'', jnat i), (''id'', jidx c ''id''),
                   (''function'', jidx c ''function'')]) (enumerate 0 cs))))]),
              (''finish_reason'', jidx choice ''finish_reason'')]])])"

definition MAX_REPLY_BYTES :: nat where
  "MAX_REPLY_BYTES = 64 * 1024 * 1024"

definition responses_error :: "nat \<Rightarrow> string \<Rightarrow> response" where
  "responses_error code msg = wire_error OpenAi code msg"

definition answered_as_sse :: "response \<Rightarrow> bool \<Rightarrow> bool" where
  "answered_as_sse resp wanted_stream \<longleftrightarrow>
     (let ctype = unwrap_or (hdr_text (resp_headers resp) ''content-type'') []
      in contains ctype ''text/event-stream'' \<or> wanted_stream \<and> \<not> contains ctype ''json'')"

definition translate_reply ::
  "(string \<Rightarrow> json option) \<Rightarrow> (json \<Rightarrow> string) \<Rightarrow> (nat \<Rightarrow> string) \<Rightarrow> int \<Rightarrow> response \<Rightarrow> string \<Rightarrow> bool \<Rightarrow>
     namespace_map \<Rightarrow> response" where
  "translate_reply parse print draw now resp model wanted_stream ns =
     (if \<not> is_success (resp_status resp) then resp
      else (let h = hdr_remove ''content-length'' (resp_headers resp); items = body_items print (resp_body resp)
        in if answered_as_sse resp wanted_stream
           then resp\<lparr>resp_headers := h, resp_body := StreamBody (translate_stream parse print draw now model ns items)\<rparr>
           else (case buffer_body items MAX_REPLY_BYTES of
               Inl _ \<Rightarrow> responses_error 502 ''upstream reply too large''
             | Inr bytes \<Rightarrow> (case parse bytes of
                 None \<Rightarrow> responses_error 502 ''upstream returned non-JSON reply''
               | Some chat \<Rightarrow>
                   if wanted_stream
                   then resp\<lparr>resp_headers := hdr_insert ''content-type'' ''text/event-stream'' h,
                          resp_body := RawBody (concat (map (render_claude_event print)
                            (rs_out (finish_response (feed draw (new_resp_stream draw now model ns) (replayed_chunk chat))))))\<rparr>
                   else resp\<lparr>resp_headers := hdr_insert ''content-type'' ''application/json'' h,
                          resp_body := RawBody (print (chat_to_response draw now chat model ns))\<rparr>))))"

end
