(* ===== verification/RateLimit.thy ===== *)
theory RateLimit
  imports Backoff
begin

text \<open>
  \<open>src/admin/auth/rate_limit.rs\<close>: the limiter of admin login attempts, one bucket
  per IPv4 address or IPv6 /64.  An attempt reserves a slot before the slow
  password check and gives it back when its guard is dropped.  The theory models
  the operations, then every interleaving of concurrent attempts as a step
  relation that also counts the guards alive per bucket.
\<close>

unbundle bit_operations_syntax

section \<open>Addresses and buckets\<close>

datatype ip_addr = V4 "32 word" | V6 "128 word"

text \<open>\<open>to_ipv4_mapped\<close>: \<open>::ffff:a.b.c.d\<close>; otherwise the upper four of eight segments.\<close>

definition to_ipv4_mapped :: "128 word \<Rightarrow> 32 word option" where
  "to_ipv4_mapped v = (if drop_bit 32 v = 0xFFFF then Some (ucast v) else None)"

fun limit_key :: "ip_addr \<Rightarrow> ip_addr" where
  "limit_key (V4 a) = V4 a"
| "limit_key (V6 v) =
     (case to_ipv4_mapped v of
        Some v4 \<Rightarrow> V4 v4
      | None \<Rightarrow> V6 (push_bit 64 (drop_bit 64 v)))"

section \<open>Attempts\<close>

text \<open>The \<open>u32\<close> counters never come near their range and are natural numbers.\<close>

record attempt_state =
  failures :: nat
  locked_until :: "instant option"
  in_flight :: nat
  last_failure :: "instant option"

type_synonym attempt_map = "(ip_addr, attempt_state) dmap"

definition default_attempt :: attempt_state where
  "default_attempt = \<lparr>failures = 0, locked_until = None, in_flight = 0, last_failure = None\<rparr>"

definition FAILURE_THRESHOLD :: nat where
  "FAILURE_THRESHOLD = 5"

definition MAX_LOCKOUT :: duration where
  "MAX_LOCKOUT = from_secs (5 * 60)"

definition STALE_AFTER :: duration where
  "STALE_AFTER = from_secs (15 * 60)"

definition lockout_for :: "nat \<Rightarrow> duration" where
  "lockout_for failures_over_threshold =
     (let level = max failures_over_threshold 1;
          secs = sat_u64 (2 * sat_u64 (2 ^ min (level - 1) 15))
      in min (from_secs secs) MAX_LOCKOUT)"

definition locked_at :: "attempt_state \<Rightarrow> instant \<Rightarrow> bool" where
  "locked_at s now = (case locked_until s of Some until \<Rightarrow> now < until | None \<Rightarrow> False)"

definition is_locked_out :: "attempt_map \<Rightarrow> ip_addr \<Rightarrow> instant \<Rightarrow> bool" where
  "is_locked_out m ip now =
     (case dm_get m (limit_key ip) of Some s \<Rightarrow> locked_at s now | None \<Rightarrow> False)"

text \<open>May one more attempt start in this bucket?\<close>

definition admits :: "attempt_state \<Rightarrow> instant \<Rightarrow> bool" where
  "admits s now \<longleftrightarrow>
     \<not> locked_at s now \<and>
     (if FAILURE_THRESHOLD \<le> failures s then in_flight s = 0
      else failures s + in_flight s < FAILURE_THRESHOLD)"

text \<open>
  \<open>try_begin_attempt\<close>: the bucket entry exists afterwards even when the attempt is
  refused (\<open>entry(..).or_default()\<close>); the flag says whether a guard was handed out.
\<close>

definition try_begin_attempt :: "attempt_map \<Rightarrow> ip_addr \<Rightarrow> instant \<Rightarrow> bool \<times> attempt_map" where
  "try_begin_attempt m ip now =
     (let key = limit_key ip;
          s = unwrap_or (dm_get m key) default_attempt
      in if admits s now
         then (True, dm_put key (s\<lparr>in_flight := in_flight s + 1\<rparr>) m)
         else (False, dm_put key s m))"

text \<open>Dropping the guard: \<open>saturating_sub\<close> on the entry, if it is still there.\<close>

definition drop_guard :: "attempt_map \<Rightarrow> ip_addr \<Rightarrow> attempt_map" where
  "drop_guard m ip = dm_modify (\<lambda>s. s\<lparr>in_flight := in_flight s - 1\<rparr>) (limit_key ip) m"

definition failed :: "instant \<Rightarrow> attempt_state \<Rightarrow> attempt_state" where
  "failed now s =
     (let s = s\<lparr>failures := failures s + 1, last_failure := Some now\<rparr>
      in if FAILURE_THRESHOLD \<le> failures s
         then s\<lparr>locked_until := Some (now + lockout_for (failures s - FAILURE_THRESHOLD))\<rparr>
         else s)"

definition record_failure :: "attempt_map \<Rightarrow> ip_addr \<Rightarrow> instant \<Rightarrow> attempt_map" where
  "record_failure m ip now = dm_upsert default_attempt (failed now) (limit_key ip) m"

definition record_login_success :: "attempt_map \<Rightarrow> ip_addr \<Rightarrow> attempt_map" where
  "record_login_success m ip =
     dm_modify (\<lambda>s. s\<lparr>failures := 0, locked_until := None\<rparr>) (limit_key ip) m"

definition fresh_or_busy :: "instant \<Rightarrow> attempt_state \<Rightarrow> bool" where
  "fresh_or_busy now s \<longleftrightarrow>
     locked_at s now
   \<or> (case last_failure s of Some t \<Rightarrow> now < t + STALE_AFTER | None \<Rightarrow> False)
   \<or> 0 < in_flight s"

definition prune_stale :: "attempt_map \<Rightarrow> instant \<Rightarrow> attempt_map \<times> nat" where
  "prune_stale m now =
     (let m' = dm_retain (\<lambda>_ s. fresh_or_busy now s) m in (m', length m - length m'))"

section \<open>The lockout schedule\<close>

lemma lockout_for_eq: "lockout_for n = from_secs (min 300 (2 ^ min (max n 1) 16))"
proof -
  let ?e = "min (max n 1 - 1) 15"
  have "(2::nat) ^ ?e \<le> 2 ^ 15" by (rule power_increasing) simp_all
  then have small: "(2::nat) ^ ?e < 2 ^ 16" by simp
  then have "sat_u64 (2 * sat_u64 (2 ^ ?e)) = 2 ^ Suc ?e"
    by (simp add: sat_u64_small)
  moreover have "Suc ?e = min (max n 1) 16" by simp
  ultimately have s: "sat_u64 (2 * sat_u64 (2 ^ ?e)) = 2 ^ min (max n 1) 16"
    by (simp only:)
  show ?thesis
    by (simp only: lockout_for_def Let_def s MAX_LOCKOUT_def) (simp add: min_def from_secs_def)
qed

interpretation lk: cooldown_schedule lockout_for MAX_LOCKOUT
proof unfold_locales
  fix m n :: nat
  have "(2::nat) ^ 1 \<le> 2 ^ min (max n 1) 16" by (rule power_increasing) simp_all
  then show "from_secs 2 \<le> lockout_for n" by (simp add: lockout_for_eq)
  show "lockout_for n \<le> MAX_LOCKOUT" by (simp add: lockout_for_eq MAX_LOCKOUT_def)
  assume "m \<le> n"
  then have "min (max m 1) 16 \<le> min (max n 1) 16" by linarith
  then have "(2::nat) ^ min (max m 1) 16 \<le> 2 ^ min (max n 1) 16"
    by (rule power_increasing) simp
  then show "lockout_for m \<le> lockout_for n" by (simp add: lockout_for_eq min_le_iff_disj)
qed

section \<open>Buckets\<close>

lemma limit_key_idem [simp]: "limit_key (limit_key ip) = limit_key ip"
proof (cases ip)
  case (V4 a)
  then show ?thesis by simp
next
  case (V6 v)
  show ?thesis
  proof (cases "to_ipv4_mapped v")
    case None
    have "drop_bit 32 (push_bit 64 (drop_bit 64 v)) \<noteq> 0xFFFF"
    proof
      assume "drop_bit 32 (push_bit 64 (drop_bit 64 v)) = 0xFFFF"
      then have "bit (drop_bit 32 (push_bit 64 (drop_bit 64 v))) 0 = bit (0xFFFF :: 128 word) 0"
        by simp
      then show False by (simp add: bit_simps)
    qed
    moreover have "push_bit 64 (drop_bit 64 (push_bit 64 (drop_bit 64 v))) = push_bit 64 (drop_bit 64 v)"
      by (rule bit_word_eqI) (auto simp: bit_simps)
    ultimately show ?thesis using V6 None by (simp add: to_ipv4_mapped_def)
  qed (use V6 in simp)
qed

lemma limit_key_same_64:
  assumes "to_ipv4_mapped a = None" and "to_ipv4_mapped b = None"
  shows "limit_key (V6 a) = limit_key (V6 b) \<longleftrightarrow> drop_bit 64 a = drop_bit 64 b"
proof
  assume "limit_key (V6 a) = limit_key (V6 b)"
  with assms have "push_bit 64 (drop_bit 64 a) = push_bit 64 (drop_bit 64 b)" by simp
  then have e: "\<And>n. bit (push_bit 64 (drop_bit 64 a)) n = bit (push_bit 64 (drop_bit 64 b)) n"
    by simp
  show "drop_bit 64 a = drop_bit 64 b"
  proof (rule bit_word_eqI)
    fix n assume "n < LENGTH(128)"
    show "bit (drop_bit 64 a) n = bit (drop_bit 64 b) n"
      using e [of "64 + n"] by (cases "64 + n < 128") (auto simp: bit_simps dest: bit_imp_le_length)
  qed
qed (use assms in simp)

section \<open>Operations on a bucket\<close>

definition bucket :: "attempt_map \<Rightarrow> ip_addr \<Rightarrow> attempt_state" where
  "bucket m k = unwrap_or (dm_get m k) default_attempt"

lemma default_attempt_simps [simp]:
  "failures default_attempt = 0" "locked_until default_attempt = None"
  "in_flight default_attempt = 0" "last_failure default_attempt = None"
  by (simp_all add: default_attempt_def)

lemma is_locked_out_bucket: "is_locked_out m ip now = locked_at (bucket m (limit_key ip)) now"
  by (auto simp: is_locked_out_def bucket_def locked_at_def split: option.splits)

lemma bucket_begin:
  assumes "dm_ok m"
  shows "bucket (snd (try_begin_attempt m ip now)) k =
     (if k = limit_key ip \<and> admits (bucket m k) now
      then (bucket m k)\<lparr>in_flight := in_flight (bucket m k) + 1\<rparr> else bucket m k)"
  using assms by (auto simp: try_begin_attempt_def bucket_def Let_def store_simps)

lemma fst_begin: "fst (try_begin_attempt m ip now) = admits (bucket m (limit_key ip)) now"
  by (simp add: try_begin_attempt_def bucket_def Let_def)

lemma bucket_drop:
  assumes "dm_ok m"
  shows "bucket (drop_guard m ip) k =
     (if k = limit_key ip then (bucket m k)\<lparr>in_flight := in_flight (bucket m k) - 1\<rparr>
      else bucket m k)"
  using assms
  by (cases "dm_get m k") (auto simp: drop_guard_def bucket_def store_simps default_attempt_def)

lemma bucket_failure:
  "dm_ok m \<Longrightarrow> bucket (record_failure m ip now) k =
     (if k = limit_key ip then failed now (bucket m k) else bucket m k)"
  by (simp add: record_failure_def bucket_def store_simps)

lemma bucket_success:
  "dm_ok m \<Longrightarrow> bucket (record_login_success m ip) k =
     (if k = limit_key ip then (bucket m k)\<lparr>failures := 0, locked_until := None\<rparr> else bucket m k)"
  by (cases "dm_get m k")
    (auto simp: record_login_success_def bucket_def store_simps default_attempt_def)

lemma bucket_prune:
  "dm_ok m \<Longrightarrow> bucket (fst (prune_stale m now)) k =
     (if fresh_or_busy now (bucket m k) then bucket m k else default_attempt)"
  by (cases "dm_get m k") (auto simp: prune_stale_def bucket_def Let_def store_simps)

lemmas bucket_simps = bucket_begin bucket_drop bucket_failure bucket_success bucket_prune

lemma dm_ok_attempts [simp, intro]:
  "dm_ok m \<Longrightarrow> dm_ok (snd (try_begin_attempt m ip now))"
  "dm_ok m \<Longrightarrow> dm_ok (drop_guard m ip)"
  "dm_ok m \<Longrightarrow> dm_ok (record_failure m ip now)"
  "dm_ok m \<Longrightarrow> dm_ok (record_login_success m ip)"
  "dm_ok m \<Longrightarrow> dm_ok (fst (prune_stale m now))"
  by (auto simp: try_begin_attempt_def drop_guard_def record_failure_def record_login_success_def
      prune_stale_def Let_def)

lemma locked_at_in_flight [simp]: "locked_at (s\<lparr>in_flight := n\<rparr>) t = locked_at s t"
  by (simp add: locked_at_def)

lemma failed_simps:
  "in_flight (failed now s) = in_flight s"
  "failures (failed now s) = failures s + 1"
  "last_failure (failed now s) = Some now"
  by (simp_all add: failed_def Let_def)

lemma failed_locked:
  "FAILURE_THRESHOLD \<le> failures s + 1 \<Longrightarrow>
     locked_at (failed now s) t \<longleftrightarrow> t < now + lockout_for (failures s + 1 - FAILURE_THRESHOLD)"
  by (simp add: failed_def Let_def locked_at_def)

section \<open>The interface the login and bearer checks use\<close>

text \<open>
  A locked client is refused; starting or finishing an attempt never locks or
  unlocks anybody; forgiving a client unlocks it; no operation on one client's
  bucket changes another's.
\<close>

locale attempt_limiter =
  fixes locked :: "'m \<Rightarrow> 'a \<Rightarrow> instant \<Rightarrow> bool"
    and start :: "'m \<Rightarrow> 'a \<Rightarrow> instant \<Rightarrow> bool \<times> 'm"
    and release :: "'m \<Rightarrow> 'a \<Rightarrow> 'm"
    and fail :: "'m \<Rightarrow> 'a \<Rightarrow> instant \<Rightarrow> 'm"
    and forgive :: "'m \<Rightarrow> 'a \<Rightarrow> 'm"
    and same :: "'a \<Rightarrow> 'a \<Rightarrow> bool"
    and wf :: "'m \<Rightarrow> bool"
  assumes locked_refused: "locked m a t \<Longrightarrow> \<not> fst (start m a t)"
    and start_locks: "wf m \<Longrightarrow> locked (snd (start m a t)) b u = locked m b u"
    and release_locks: "wf m \<Longrightarrow> locked (release m a) b u = locked m b u"
    and fail_other: "wf m \<Longrightarrow> \<not> same a b \<Longrightarrow> locked (fail m a t) b u = locked m b u"
    and forgive_unlocks: "wf m \<Longrightarrow> \<not> locked (forgive m a) a u"
    and forgive_other: "wf m \<Longrightarrow> \<not> same a b \<Longrightarrow> locked (forgive m a) b u = locked m b u"
    and wf_start: "wf m \<Longrightarrow> wf (snd (start m a t))"
    and wf_release: "wf m \<Longrightarrow> wf (release m a)"
    and wf_fail: "wf m \<Longrightarrow> wf (fail m a t)"
    and wf_forgive: "wf m \<Longrightarrow> wf (forgive m a)"
begin

text \<open>A whole failed attempt of one client: others are locked exactly as before.\<close>

lemma failed_attempt_other:
  "wf m \<Longrightarrow> \<not> same a b \<Longrightarrow>
     locked (release (fail (snd (start m a t)) a t') a) b u = locked m b u"
  by (simp add: release_locks fail_other start_locks wf_start wf_fail)

lemma successful_attempt_unlocks:
  "wf m \<Longrightarrow> \<not> locked (release (forgive (snd (start m a t)) a) a) a u"
  by (simp add: release_locks forgive_unlocks wf_start wf_forgive)

text \<open>A refused client is refused again as long as it is locked.\<close>

lemma refused_stays_refused:
  "wf m \<Longrightarrow> locked m a u \<Longrightarrow> \<not> fst (start (snd (start m b t)) a u)"
  by (intro locked_refused) (simp add: start_locks)

end

interpretation lim: attempt_limiter is_locked_out try_begin_attempt drop_guard record_failure
  record_login_success "\<lambda>a b. limit_key a = limit_key b" dm_ok
proof unfold_locales
  fix m :: attempt_map and a b t u
  show "is_locked_out m a t \<Longrightarrow> \<not> fst (try_begin_attempt m a t)"
    by (simp add: fst_begin admits_def is_locked_out_bucket)
  assume ok: "dm_ok m"
  show "is_locked_out (snd (try_begin_attempt m a t)) b u = is_locked_out m b u"
    by (simp add: is_locked_out_bucket bucket_begin [OF ok])
  show "is_locked_out (drop_guard m a) b u = is_locked_out m b u"
    by (simp add: is_locked_out_bucket bucket_drop [OF ok])
  show "limit_key a \<noteq> limit_key b \<Longrightarrow> is_locked_out (record_failure m a t) b u = is_locked_out m b u"
    by (simp add: is_locked_out_bucket bucket_failure [OF ok])
  show "\<not> is_locked_out (record_login_success m a) a u"
    by (simp add: is_locked_out_bucket bucket_success [OF ok] locked_at_def)
  show "limit_key a \<noteq> limit_key b \<Longrightarrow> is_locked_out (record_login_success m a) b u = is_locked_out m b u"
    by (simp add: is_locked_out_bucket bucket_success [OF ok])
qed auto

section \<open>Interleaved attempts\<close>

text \<open>
  The state is the map, the number of guards alive per bucket, and the clock.
  A handler admits or is refused, records its outcome while it holds its guard,
  and releases; admin bearer requests record failures without a guard; the
  cleanup task prunes.  All of these may interleave in any order.
\<close>

record limiter =
  lim_map :: attempt_map
  lim_guards :: "ip_addr \<Rightarrow> nat"
  lim_now :: instant

inductive limiter_step :: "limiter \<Rightarrow> limiter \<Rightarrow> bool" where
  admit: "lim_now s \<le> t \<Longrightarrow> try_begin_attempt (lim_map s) ip t = (True, m') \<Longrightarrow>
    limiter_step s \<lparr>lim_map = m',
      lim_guards = (lim_guards s)(limit_key ip := lim_guards s (limit_key ip) + 1), lim_now = t\<rparr>"
| refuse: "lim_now s \<le> t \<Longrightarrow> try_begin_attempt (lim_map s) ip t = (False, m') \<Longrightarrow>
    limiter_step s (s\<lparr>lim_map := m', lim_now := t\<rparr>)"
| failure: "lim_now s \<le> t \<Longrightarrow>
    limiter_step s (s\<lparr>lim_map := record_failure (lim_map s) ip t, lim_now := t\<rparr>)"
| success: "lim_now s \<le> t \<Longrightarrow>
    limiter_step s (s\<lparr>lim_map := record_login_success (lim_map s) ip, lim_now := t\<rparr>)"
| release: "lim_now s \<le> t \<Longrightarrow> 0 < lim_guards s (limit_key ip) \<Longrightarrow>
    limiter_step s \<lparr>lim_map = drop_guard (lim_map s) ip,
      lim_guards = (lim_guards s)(limit_key ip := lim_guards s (limit_key ip) - 1), lim_now = t\<rparr>"
| prune: "lim_now s \<le> t \<Longrightarrow>
    limiter_step s (s\<lparr>lim_map := fst (prune_stale (lim_map s) t), lim_now := t\<rparr>)"

inductive limiter_reachable :: "limiter \<Rightarrow> bool" where
  start: "limiter_reachable \<lparr>lim_map = [], lim_guards = (\<lambda>_. 0), lim_now = t\<rparr>"
| step: "limiter_reachable s \<Longrightarrow> limiter_step s s' \<Longrightarrow> limiter_reachable s'"

definition limiter_inv :: "limiter \<Rightarrow> bool" where
  "limiter_inv s \<longleftrightarrow> dm_ok (lim_map s) \<and>
     (\<forall>k. in_flight (bucket (lim_map s) k) = lim_guards s k \<and> lim_guards s k \<le> FAILURE_THRESHOLD)"

lemma limiter_invD:
  "limiter_inv s \<Longrightarrow> dm_ok (lim_map s)"
  "limiter_inv s \<Longrightarrow> in_flight (bucket (lim_map s) k) = lim_guards s k"
  "limiter_inv s \<Longrightarrow> lim_guards s k \<le> FAILURE_THRESHOLD"
  by (auto simp: limiter_inv_def)

lemma admits_room: "admits s now \<Longrightarrow> in_flight s < FAILURE_THRESHOLD"
  by (auto simp: admits_def FAILURE_THRESHOLD_def split: if_splits)

lemma limiter_step_inv:
  assumes "limiter_step s s'" and inv: "limiter_inv s"
  shows "limiter_inv s'"
  using assms(1)
proof cases
  case (admit t ip m')
  note ok = limiter_invD(1) [OF inv] and fl = limiter_invD(2) [OF inv]
    and le = limiter_invD(3) [OF inv]
  from admit(3) have m': "m' = snd (try_begin_attempt (lim_map s) ip t)"
    and ad: "admits (bucket (lim_map s) (limit_key ip)) t"
    using fst_begin [of "lim_map s" ip t] by simp_all
  have "lim_guards s (limit_key ip) < FAILURE_THRESHOLD"
    using admits_room [OF ad] by (simp add: fl)
  with ok fl le ad show ?thesis
    by (auto simp: limiter_inv_def admit(1) m' bucket_begin Suc_le_eq)
next
  case (refuse t ip m')
  from refuse(3) have m': "m' = snd (try_begin_attempt (lim_map s) ip t)"
    and ad: "\<not> admits (bucket (lim_map s) (limit_key ip)) t"
    using fst_begin [of "lim_map s" ip t] by simp_all
  with inv show ?thesis
    by (auto simp: limiter_inv_def refuse(1) m' bucket_begin)
next
  case (release t ip)
  with inv show ?thesis
    by (auto simp: limiter_inv_def bucket_drop intro: le_trans [OF diff_le_self])
next
  case (prune t)
  have "in_flight (bucket (lim_map s) k) = 0" if "\<not> fresh_or_busy t (bucket (lim_map s) k)" for k
    using that by (simp add: fresh_or_busy_def)
  with prune inv show ?thesis
    by (auto simp: limiter_inv_def bucket_prune)
qed (use inv in \<open>auto simp: limiter_inv_def bucket_simps failed_simps\<close>)

lemma limiter_reachable_inv: "limiter_reachable s \<Longrightarrow> limiter_inv s"
proof (induction rule: limiter_reachable.induct)
  case (start t)
  show ?case by (simp add: limiter_inv_def bucket_def dm_get_def dm_ok_def FAILURE_THRESHOLD_def)
qed (rule limiter_step_inv)

lemma lockout_deadline:
  assumes "dm_ok m" and "4 \<le> failures (bucket m (limit_key ip))"
  defines "n \<equiv> failures (bucket m (limit_key ip)) - 4"
  shows "(is_locked_out (record_failure m ip now) ip t \<longleftrightarrow> t < now + from_secs (min 300 (2 ^ min (max n 1) 16)))
     \<and> (is_locked_out (record_failure m ip now) ip t \<longrightarrow> \<not> fst (try_begin_attempt (record_failure m ip now) ip t))"
proof -
  have "is_locked_out (record_failure m ip now) ip t \<longleftrightarrow> t < now + from_secs (min 300 (2 ^ min (max n 1) 16))"
    using assms failed_locked [of "bucket m (limit_key ip)" now t]
    by (simp add: is_locked_out_bucket bucket_failure FAILURE_THRESHOLD_def lockout_for_eq Suc_diff_le)
  then show ?thesis using lim.locked_refused by blast
qed

lemma attempts_in_flight:
  assumes "limiter_reachable s"
  shows "in_flight (bucket (lim_map s) k) = lim_guards s k \<and> lim_guards s k \<le> 5"
  using limiter_invD [OF limiter_reachable_inv [OF assms]] by (simp add: FAILURE_THRESHOLD_def)

end
