(* ===== verification/CfAccess.thy ===== *)
theory CfAccess
  imports Users RateLimit
begin

text \<open>
  \<open>src/auth/cf_access.rs\<close>: a Cloudflare Access token as one more credential.  Base64,
  JSON decoding into a struct and RSA verification are crates, hence parameters
  (\<open>cf_env\<close>), as are the clocks and what a fetch of the published keys brings.
  The theory shows what an accepted identity rests on, and that tokens with unknown
  key ids cannot make the gateway fetch the keys more often than twice a minute.
\<close>

section \<open>Configuration\<close>

definition MAX_TOKEN_LEN :: nat where
  "MAX_TOKEN_LEN = 8 * 1024"

definition CLOCK_LEEWAY_SECS :: "64 word" where
  "CLOCK_LEEWAY_SECS = 30"

definition MIN_REFRESH_INTERVAL :: duration where
  "MIN_REFRESH_INTERVAL = from_secs 30"

record cf_access_config =
  cfg_team_domain :: string
  cfg_aud :: string
  cfg_admin_emails :: "string list"
  cfg_jwks_url :: string

definition normalize_team_domain :: "string \<Rightarrow> string" where
  "normalize_team_domain raw =
     (let t = to_ascii_lowercase (trim_end_char (CHR ''/'')
                (trim_start_str ''http://'' (trim_start_str ''https://'' (trim raw))))
      in if t = [] \<or> contains t ''.'' then t else t @ ''.cloudflareaccess.com'')"

definition new_cf_config :: "string \<Rightarrow> string \<Rightarrow> string \<Rightarrow> string + cf_access_config" where
  "new_cf_config team_domain aud admin_emails =
     (let team = normalize_team_domain team_domain
      in if team = [] then Inl ''ROUTER_CF_ACCESS_TEAM_DOMAIN is empty''
         else if trim aud = [] then Inl ''ROUTER_CF_ACCESS_AUD is empty''
         else Inr \<lparr>cfg_team_domain = team, cfg_aud = trim aud,
           cfg_admin_emails = filter (\<lambda>e. e \<noteq> [])
             (map (\<lambda>e. to_ascii_lowercase (trim e)) (split_on (CHR '','') admin_emails)),
           cfg_jwks_url = ''https://'' @ team @ ''/cdn-cgi/access/certs''\<rparr>)"

definition issuer :: "cf_access_config \<Rightarrow> string" where
  "issuer c = ''https://'' @ cfg_team_domain c"

section \<open>Tokens and keys\<close>

record jwk =
  jwk_kid :: string
  jwk_kty :: string
  jwk_n :: string
  jwk_e :: string

record jwt_header =
  jh_alg :: string
  jh_kid :: "string option"

datatype aud = AudOne string | AudMany "string list"

record jwt_claims =
  cl_iss :: string
  cl_aud :: aud
  cl_exp :: "64 word"
  cl_nbf :: "64 word option"
  cl_email :: "string option"
  cl_common_name :: "string option"

record cf_identity =
  cid_email :: "string option"
  cid_common_name :: "string option"

definition caller_id :: "cf_identity \<Rightarrow> string option" where
  "caller_id i = map_option (\<lambda>n. ''cf:'' @ n) (opt_or (cid_email i) (cid_common_name i))"

text \<open>
  The state of \<open>CfAccess\<close>.  \<open>cfa_fetches\<close> is the trace of the requests it has sent,
  with their times.
\<close>

record cf_access =
  cfa_cfg :: cf_access_config
  cfa_keys :: "jwk list"
  cfa_last_fetch :: "instant option"
  cfa_fetches :: "(instant \<times> string) list"

record cf_env =
  ce_base64 :: "string \<Rightarrow> string option"
  ce_header :: "string \<Rightarrow> jwt_header option"
  ce_claims :: "string \<Rightarrow> jwt_claims option"
  ce_rsa_verify :: "string \<Rightarrow> string \<Rightarrow> string \<Rightarrow> string \<Rightarrow> bool"
  ce_unix_now :: "64 word"
  ce_elapsed_at :: instant
  ce_fetched_at :: instant
  ce_published :: "jwk list option"

definition new_cf_access :: "cf_access_config \<Rightarrow> cf_access" where
  "new_cf_access c = \<lparr>cfa_cfg = c, cfa_keys = [], cfa_last_fetch = None, cfa_fetches = []\<rparr>"

text \<open>\<open>from_env\<close>, given the three variables as set in the environment.\<close>

definition cf_from_env ::
  "string option \<Rightarrow> string option \<Rightarrow> string option \<Rightarrow> string + cf_access option" where
  "cf_from_env team aud admins =
     (let present = opt_filter (\<lambda>v. trim v \<noteq> [])
      in case (present team, present aud) of
           (None, None) \<Rightarrow> Inr None
         | (Some team, Some aud) \<Rightarrow>
             map_sum id (\<lambda>cfg. Some (new_cf_access cfg)) (new_cf_config team aud (unwrap_or (present admins) []))
         | _ \<Rightarrow> Inl ''ROUTER_CF_ACCESS_TEAM_DOMAIN and ROUTER_CF_ACCESS_AUD must be set together'')"

definition cf_is_admin :: "cf_access \<Rightarrow> cf_identity \<Rightarrow> bool" where
  "cf_is_admin cf i =
     (case cid_email i of Some e \<Rightarrow> e \<in> set (cfg_admin_emails (cfa_cfg cf)) | None \<Rightarrow> False)"

section \<open>Verification\<close>

record parts =
  header_b64 :: string
  payload_b64 :: string
  sig_b64 :: string
  signing_input :: string

definition split_parts :: "string \<Rightarrow> parts option" where
  "split_parts token =
     (case split_on (CHR ''.'') token of
        [h, p, s] \<Rightarrow> Some \<lparr>header_b64 = h, payload_b64 = p, sig_b64 = s,
                        signing_input = take (length h + 1 + length p) token\<rparr>
      | _ \<Rightarrow> None)"

definition parts_header :: "cf_env \<Rightarrow> parts \<Rightarrow> jwt_header option" where
  "parts_header E p = Option.bind (ce_base64 E (header_b64 p)) (ce_header E)"

definition parts_claims :: "cf_env \<Rightarrow> parts \<Rightarrow> jwt_claims option" where
  "parts_claims E p = Option.bind (ce_base64 E (payload_b64 p)) (ce_claims E)"

definition signature_ok :: "cf_env \<Rightarrow> parts \<Rightarrow> jwk \<Rightarrow> bool" where
  "signature_ok E p key =
     (case (ce_base64 E (jwk_n key), ce_base64 E (jwk_e key), ce_base64 E (sig_b64 p)) of
        (Some n, Some e, Some sig) \<Rightarrow> ce_rsa_verify E n e (signing_input p) sig
      | _ \<Rightarrow> False)"

text \<open>The \<open>i64\<close> arithmetic wraps in a release build.\<close>

definition claims_ok :: "cf_access_config \<Rightarrow> jwt_claims \<Rightarrow> 64 word \<Rightarrow> bool" where
  "claims_ok cfg c now \<longleftrightarrow>
     (let aud_ok = (case cl_aud c of
            AudOne a \<Rightarrow> a = cfg_aud cfg
          | AudMany v \<Rightarrow> list_ex (\<lambda>a. a = cfg_aud cfg) v)
      in cl_iss c = issuer cfg \<and> aud_ok
       \<and> sint now < sint (cl_exp c + CLOCK_LEEWAY_SECS)
       \<and> (case cl_nbf c of Some n \<Rightarrow> sint (n - CLOCK_LEEWAY_SECS) \<le> sint now | None \<Rightarrow> True))"

definition find_key :: "jwk list \<Rightarrow> string \<Rightarrow> jwk option" where
  "find_key keys kid = find (\<lambda>k. jwk_kid k = kid \<and> jwk_kty k = ''RSA'') keys"

definition refresh_keys :: "cf_env \<Rightarrow> (cf_access, unit) state" where
  "refresh_keys E = do {
     recent \<leftarrow> gets cfa_last_fetch;
     if (case recent of Some t \<Rightarrow> ce_elapsed_at E - t < MIN_REFRESH_INTERVAL | None \<Rightarrow> False)
     then ret ()
     else do {
       update_by (\<lambda>cf. cf\<lparr>cfa_last_fetch := Some (ce_fetched_at E)\<rparr>);
       update_by (\<lambda>cf. cf\<lparr>cfa_fetches := cfa_fetches cf @ [(ce_fetched_at E, cfg_jwks_url (cfa_cfg cf))]\<rparr>);
       case ce_published E of
         Some keys \<Rightarrow> update_by (\<lambda>cf. cf\<lparr>cfa_keys := keys\<rparr>)
       | None \<Rightarrow> ret () } }"

definition key_for :: "cf_env \<Rightarrow> string \<Rightarrow> (cf_access, jwk option) state" where
  "key_for E kid = do {
     keys \<leftarrow> gets cfa_keys;
     case find_key keys kid of
       Some k \<Rightarrow> ret (Some k)
     | None \<Rightarrow> do {
         refresh_keys E;
         keys \<leftarrow> gets cfa_keys;
         ret (find_key keys kid) } }"

text \<open>What an identity makes of verified claims.\<close>

definition identity_of :: "jwt_claims \<Rightarrow> cf_identity option" where
  "identity_of c =
     (let email = opt_filter (\<lambda>e. e \<noteq> []) (map_option (\<lambda>e. to_ascii_lowercase (trim e)) (cl_email c));
          common_name = opt_filter (\<lambda>n. trim n \<noteq> []) (cl_common_name c)
      in if email = None \<and> common_name = None then None
         else Some \<lparr>cid_email = email, cid_common_name = common_name\<rparr>)"

definition presented_token :: "headers \<Rightarrow> string option" where
  "presented_token h =
     opt_filter (\<lambda>t. t \<noteq> [] \<and> length t \<le> MAX_TOKEN_LEN)
       (map_option trim (hdr_text h ''cf-access-jwt-assertion''))"

text \<open>Everything an identity needs before the key: the parts, the claims and the key id.\<close>

definition unverified :: "cf_env \<Rightarrow> cf_access_config \<Rightarrow> headers \<Rightarrow> (parts \<times> jwt_claims \<times> string) option" where
  "unverified E cfg h =
     Option.bind (presented_token h) (\<lambda>token.
     Option.bind (split_parts token) (\<lambda>ps.
     Option.bind (parts_header E ps) (\<lambda>hd.
     if jh_alg hd \<noteq> ''RS256'' then None
     else Option.bind (parts_claims E ps) (\<lambda>claims.
       if \<not> claims_ok cfg claims (ce_unix_now E) then None
       else map_option (\<lambda>kid. (ps, claims, kid)) (jh_kid hd)))))"

definition identity :: "cf_env \<Rightarrow> headers \<Rightarrow> (cf_access, cf_identity option) state" where
  "identity E h = do {
     cfg \<leftarrow> gets cfa_cfg;
     case unverified E cfg h of
       None \<Rightarrow> ret None
     | Some (ps, claims, kid) \<Rightarrow> do {
         key \<leftarrow> key_for E kid;
         ret (case key of
                None \<Rightarrow> None
              | Some k \<Rightarrow> if signature_ok E ps k then identity_of claims else None) } }"

section \<open>Addresses in text\<close>

text \<open>
  \<open>str::parse::<IpAddr>\<close> of the standard library: a reader takes what it can from
  the front of the text and gives the rest back, or fails without consuming.
\<close>

definition digit_value :: "nat \<Rightarrow> char \<Rightarrow> nat option" where
  "digit_value radix c =
     (let b = byte_of c;
          v = (if 48 \<le> b \<and> b \<le> 57 then b - 48
               else if 97 \<le> b \<and> b \<le> 122 then b - 87
               else if 65 \<le> b \<and> b \<le> 90 then b - 55 else radix)
      in if v < radix then Some v else None)"

definition read_number :: "nat \<Rightarrow> nat \<Rightarrow> bool \<Rightarrow> string \<Rightarrow> (nat \<times> string) option" where
  "read_number radix max_digits allow_zero_prefix s =
     (let ds = takeWhile (\<lambda>c. digit_value radix c \<noteq> None) s
      in if ds = [] \<or> max_digits < length ds
            \<or> (\<not> allow_zero_prefix \<and> hd ds = CHR ''0'' \<and> 1 < length ds) then None
         else Some (foldl (\<lambda>n c. n * radix + unwrap_or (digit_value radix c) 0) 0 ds, drop (length ds) s))"

definition read_char :: "char \<Rightarrow> string \<Rightarrow> string option" where
  "read_char c s = (case s of x # xs \<Rightarrow> if x = c then Some xs else None | [] \<Rightarrow> None)"

definition read_octet :: "string \<Rightarrow> (nat \<times> string) option" where
  "read_octet s = opt_filter (\<lambda>(n, _). n < 256) (read_number 10 3 False s)"

definition read_ipv4 :: "string \<Rightarrow> (nat \<times> string) option" where
  "read_ipv4 s =
     Option.bind (read_octet s) (\<lambda>(a, s). Option.bind (read_char (CHR ''.'') s) (\<lambda>s.
     Option.bind (read_octet s) (\<lambda>(b, s). Option.bind (read_char (CHR ''.'') s) (\<lambda>s.
     Option.bind (read_octet s) (\<lambda>(c, s). Option.bind (read_char (CHR ''.'') s) (\<lambda>s.
     Option.bind (read_octet s) (\<lambda>(d, s).
     Some (((a * 256 + b) * 256 + c) * 256 + d, s))))))))"

text \<open>A reader behind a colon, except at the first place.\<close>

definition separated :: "bool \<Rightarrow> (string \<Rightarrow> 'a option) \<Rightarrow> string \<Rightarrow> 'a option" where
  "separated first reader s =
     (if first then reader s else Option.bind (read_char (CHR '':'') s) reader)"

text \<open>
  \<open>read_groups\<close>: up to \<open>room\<close> groups, the last two of which may be written as an
  IPv4 address; the flag says whether they were.
\<close>

fun read_groups :: "bool \<Rightarrow> nat \<Rightarrow> string \<Rightarrow> nat list \<times> bool \<times> string" where
  "read_groups first 0 s = ([], False, s)"
| "read_groups first (Suc room) s =
     (case (if 0 < room then separated first read_ipv4 s else None) of
        Some (v4, rest) \<Rightarrow> ([v4 div 65536, v4 mod 65536], True, rest)
      | None \<Rightarrow>
          (case separated first (read_number 16 4 True) s of
             Some (g, rest) \<Rightarrow> (case read_groups False room rest of (gs, v4, rest) \<Rightarrow> (g # gs, v4, rest))
           | None \<Rightarrow> ([], False, s)))"

definition segments :: "nat list \<Rightarrow> 128 word" where
  "segments gs = word_of_nat (foldl (\<lambda>n g. n * 65536 + g) 0 gs)"

definition read_ipv6 :: "string \<Rightarrow> (128 word \<times> string) option" where
  "read_ipv6 s =
     (case read_groups True 8 s of (head, v4, rest) \<Rightarrow>
        if length head = 8 then Some (segments head, rest)
        else if v4 then None
        else Option.bind (strip_prefix ''::'' rest) (\<lambda>rest.
          case read_groups True (8 - (length head + 1)) rest of (tail, _, rest) \<Rightarrow>
            Some (segments (head @ replicate (8 - length head - length tail) 0 @ tail), rest)))"

definition parse_ip :: "string \<Rightarrow> ip_addr option" where
  "parse_ip s =
     map_option fst (opt_filter (\<lambda>(_, rest). rest = [])
       (case read_ipv4 s of
          Some (v4, rest) \<Rightarrow> Some (V4 (word_of_nat v4), rest)
        | None \<Rightarrow> map_option (\<lambda>(v6, rest). (V6 v6, rest)) (read_ipv6 s)))"

fun is_loopback :: "ip_addr \<Rightarrow> bool" where
  "is_loopback (V4 a) \<longleftrightarrow> drop_bit 24 a = 127"
| "is_loopback (V6 a) \<longleftrightarrow> a = 1"

text \<open>Behind the tunnel every peer is loopback and the edge names the client.\<close>

definition effective_ip :: "cf_access option \<Rightarrow> ip_addr \<Rightarrow> headers \<Rightarrow> ip_addr" where
  "effective_ip cf peer h =
     (if cf \<noteq> None \<and> is_loopback peer
      then unwrap_or (Option.bind (hdr_text h ''cf-connecting-ip'') (\<lambda>v. parse_ip (trim v))) peer
      else peer)"

lemma parse_ip_examples:
  "parse_ip ''203.0.113.7'' = Some (V4 0xCB007107)"
  "parse_ip ''2001:db8::1'' = Some (V6 0x20010DB8000000000000000000000001)"
  "parse_ip ''::ffff:10.0.0.1'' = Some (V6 0xFFFF0A000001)"
  "parse_ip ''1:2:3:4:5:6:7:8'' = Some (V6 0x00010002000300040005000600070008)"
  "parse_ip ''010.0.0.1'' = None" "parse_ip ''1.2.3'' = None" "parse_ip ''1.2.3.256'' = None"
  "parse_ip ''::1 '' = None" "parse_ip ''1::2::3'' = None"
  by code_simp+

section \<open>Fetching the keys\<close>

definition recently_fetched :: "cf_env \<Rightarrow> cf_access \<Rightarrow> bool" where
  "recently_fetched E cf =
     (case cfa_last_fetch cf of Some t \<Rightarrow> ce_elapsed_at E - t < MIN_REFRESH_INTERVAL | None \<Rightarrow> False)"

definition fetched :: "cf_env \<Rightarrow> cf_access \<Rightarrow> cf_access" where
  "fetched E cf =
     cf\<lparr>cfa_last_fetch := Some (ce_fetched_at E),
        cfa_fetches := cfa_fetches cf @ [(ce_fetched_at E, cfg_jwks_url (cfa_cfg cf))],
        cfa_keys := unwrap_or (ce_published E) (cfa_keys cf)\<rparr>"

lemma run_refresh_keys [simp]:
  "run_state (refresh_keys E) cf = ((), if recently_fetched E cf then cf else fetched E cf)"
  by (simp add: refresh_keys_def recently_fetched_def fetched_def split: option.split)

lemma fetched_simps [simp]:
  "cfa_cfg (fetched E cf) = cfa_cfg cf"
  "cfa_keys (fetched E cf) = unwrap_or (ce_published E) (cfa_keys cf)"
  "cfa_last_fetch (fetched E cf) = Some (ce_fetched_at E)"
  "cfa_fetches (fetched E cf) = cfa_fetches cf @ [(ce_fetched_at E, cfg_jwks_url (cfa_cfg cf))]"
  by (simp_all add: fetched_def)

lemma key_for_state: "snd (run_state (key_for E kid) cf) \<in> {cf, fetched E cf}"
  "snd (run_state (key_for E kid) cf) = fetched E cf \<Longrightarrow> fetched E cf \<noteq> cf \<Longrightarrow> \<not> recently_fetched E cf"
  by (auto simp: key_for_def split: option.splits if_splits)

lemma identity_state:
  "snd (run_state (identity E h) cf) = cf
   \<or> (\<not> recently_fetched E cf \<and> snd (run_state (identity E h) cf) = fetched E cf)"
  by (auto simp: identity_def key_for_def split: option.splits prod.splits if_splits)

text \<open>The requests so far are far enough apart and the newest is remembered.\<close>

definition fetches_ok :: "cf_access \<Rightarrow> bool" where
  "fetches_ok cf \<longleftrightarrow>
     sorted_wrt (\<lambda>a b. fst a + MIN_REFRESH_INTERVAL \<le> fst b) (cfa_fetches cf)
   \<and> cfa_last_fetch cf = (if cfa_fetches cf = [] then None else Some (fst (last (cfa_fetches cf))))
   \<and> snd ` set (cfa_fetches cf) \<subseteq> {cfg_jwks_url (cfa_cfg cf)}"

lemma sorted_wrt_snoc_last:
  assumes "sorted_wrt R xs" and "transp R" and "xs \<noteq> [] \<Longrightarrow> R (last xs) y"
  shows "sorted_wrt R (xs @ [y])"
proof (cases xs rule: rev_cases)
  case (snoc zs z)
  with assms show ?thesis by (auto simp: sorted_wrt_append dest: transpD)
qed simp

lemma MIN_REFRESH_INTERVAL_pos: "0 < MIN_REFRESH_INTERVAL"
  by (simp add: MIN_REFRESH_INTERVAL_def from_secs_def)

lemma fetched_ok:
  assumes ok: "fetches_ok cf" and "\<not> recently_fetched E cf" and "ce_elapsed_at E \<le> ce_fetched_at E"
  shows "fetches_ok (fetched E cf)"
proof -
  have "fst (last (cfa_fetches cf)) + MIN_REFRESH_INTERVAL \<le> ce_fetched_at E" if "cfa_fetches cf \<noteq> []"
    using assms that MIN_REFRESH_INTERVAL_pos by (auto simp: fetches_ok_def recently_fetched_def)
  then have "sorted_wrt (\<lambda>a b. fst a + MIN_REFRESH_INTERVAL \<le> fst b)
      (cfa_fetches cf @ [(ce_fetched_at E, cfg_jwks_url (cfa_cfg cf))])"
    using ok by (intro sorted_wrt_snoc_last) (auto simp: fetches_ok_def transp_def)
  with ok show ?thesis by (auto simp: fetches_ok_def)
qed

text \<open>A sequence of requests, each with its own clocks and its own answer of the key server.\<close>

fun identities :: "(cf_env \<times> headers) list \<Rightarrow> (cf_access, cf_identity option list) state" where
  "identities [] = ret []"
| "identities ((E, h) # rs) = do { i \<leftarrow> identity E h; is \<leftarrow> identities rs; ret (i # is) }"

lemma identities_ok:
  "fetches_ok cf \<Longrightarrow> list_all (\<lambda>(E, _). ce_elapsed_at E \<le> ce_fetched_at E) rs \<Longrightarrow>
   fetches_ok (snd (run_state (identities rs) cf))"
proof (induction rs arbitrary: cf)
  case (Cons r rs)
  obtain E h where r: "r = (E, h)" by (cases r)
  obtain i cf1 where run: "run_state (identity E h) cf = (i, cf1)" by fastforce
  have "fetches_ok cf1"
    using identity_state [of E h cf] Cons.prems fetched_ok [of cf E] by (auto simp: r run)
  with Cons.IH [of cf1] Cons.prems(2) show ?case
    by (cases "run_state (identities rs) cf1") (simp add: r run)
qed simp

lemma identities_cfg: "cfa_cfg (snd (run_state (identities rs) cf)) = cfa_cfg cf"
proof (induction rs arbitrary: cf)
  case (Cons r rs)
  obtain E h where r: "r = (E, h)" by (cases r)
  obtain i cf1 where run: "run_state (identity E h) cf = (i, cf1)" by fastforce
  have "cfa_cfg cf1 = cfa_cfg cf" using identity_state [of E h cf] by (auto simp: run)
  with Cons.IH [of cf1] show ?case
    by (cases "run_state (identities rs) cf1") (simp add: r run)
qed simp

lemma fetches_ok_new: "fetches_ok (new_cf_access cfg)"
  by (simp add: fetches_ok_def new_cf_access_def)

section \<open>What an identity rests on\<close>

lemma key_for_Some:
  assumes "run_state (key_for E kid) cf = (Some k, cf')"
  shows "k \<in> set (cfa_keys cf')" and "jwk_kid k = kid" and "jwk_kty k = ''RSA''"
proof -
  have "find_key (cfa_keys cf') kid = Some k"
    using assms by (auto simp: key_for_def split: option.splits if_splits)
  then show "k \<in> set (cfa_keys cf')" "jwk_kid k = kid" "jwk_kty k = ''RSA''"
    by (auto simp: find_key_def dest: find_Some_iff_mem)
qed

lemma sint_leeway: "sint CLOCK_LEEWAY_SECS = 30"
  by (simp add: CLOCK_LEEWAY_SECS_def)

lemma sint_bounds_64: "- (2 ^ 63) \<le> sint (e :: 64 word)" "sint (e :: 64 word) < 2 ^ 63"
  using sint_range_size [of e] by (simp_all add: word_size)

lemma sint_add_leeway: "sint (e + CLOCK_LEEWAY_SECS) \<le> sint e + 30"
proof (cases "sint e + 30 < 2 ^ 63")
  case True
  with sint_bounds_64(1) [of e] have "signed_take_bit 63 (sint e + 30) = sint e + 30"
    by (intro signed_take_bit_int_eq_self) simp_all
  then show ?thesis by (simp add: sint_word_ariths(1) sint_leeway)
next
  case False
  then have "signed_take_bit 63 (sint e + 30) \<le> sint e + 30 - 2 ^ Suc 63"
    by (intro signed_take_bit_int_less_eq) simp
  then show ?thesis by (simp add: sint_word_ariths(1) sint_leeway)
qed

lemma sint_sub_leeway: "sint n - 30 \<le> sint (n - CLOCK_LEEWAY_SECS)"
proof (cases "- (2 ^ 63) \<le> sint n - 30")
  case True
  with sint_bounds_64(2) [of n] have "signed_take_bit 63 (sint n - 30) = sint n - 30"
    by (intro signed_take_bit_int_eq_self) simp_all
  then show ?thesis by (simp add: sint_word_ariths(2) sint_leeway)
next
  case False
  then have "sint n - 30 + 2 ^ Suc 63 \<le> signed_take_bit 63 (sint n - 30)"
    by (intro signed_take_bit_int_greater_eq) simp
  then show ?thesis by (simp add: sint_word_ariths(2) sint_leeway)
qed

text \<open>The contract of the token check: what an accepted set of claims says at time \<open>now\<close>.\<close>

definition claims_current :: "cf_access_config \<Rightarrow> jwt_claims \<Rightarrow> int \<Rightarrow> bool" where
  "claims_current cfg c now \<longleftrightarrow>
     cl_iss c = ''https://'' @ cfg_team_domain cfg
   \<and> (cl_aud c = AudOne (cfg_aud cfg) \<or> (\<exists>as. cl_aud c = AudMany as \<and> cfg_aud cfg \<in> set as))
   \<and> now < sint (cl_exp c) + 30
   \<and> (cl_nbf c = None \<or> sint (the (cl_nbf c)) - 30 \<le> now)"

lemma claims_ok_current: "claims_ok cfg c now \<Longrightarrow> claims_current cfg c (sint now)"
  using sint_add_leeway [of "cl_exp c"] sint_sub_leeway [of "the (cl_nbf c)"]
  by (auto simp: claims_ok_def claims_current_def issuer_def Let_def list_ex_iff
      split: aud.splits option.splits)

lemma split_on_join: "join [c] (split_on c s) = s"
proof (induction s)
  case (Cons x xs)
  then show ?case
    by (cases "split_when (\<lambda>y. y = c) xs") (auto simp: split_on_def neq_Nil_conv join_Cons_char split: list.splits)
qed (simp add: split_on_def)

lemma split_parts_Some:
  assumes "split_parts token = Some ps"
  shows "token = header_b64 ps @ ''.'' @ payload_b64 ps @ ''.'' @ sig_b64 ps"
    and "signing_input ps = header_b64 ps @ ''.'' @ payload_b64 ps"
proof -
  from assms obtain h p s where split: "split_on (CHR ''.'') token = [h, p, s]"
    and ps: "ps = \<lparr>header_b64 = h, payload_b64 = p, sig_b64 = s, signing_input = take (length h + 1 + length p) token\<rparr>"
    by (auto simp: split_parts_def split: list.splits)
  have token: "token = h @ ''.'' @ p @ ''.'' @ s"
    using split_on_join [of "CHR ''.''" token] by (simp add: split)
  with ps show "token = header_b64 ps @ ''.'' @ payload_b64 ps @ ''.'' @ sig_b64 ps" by simp
  from token ps show "signing_input ps = header_b64 ps @ ''.'' @ payload_b64 ps" by simp
qed

lemma unverified_Some:
  assumes "unverified E cfg h = Some (ps, c, kid)"
  obtains hd where "presented_token h = Some (header_b64 ps @ ''.'' @ payload_b64 ps @ ''.'' @ sig_b64 ps)"
    and "parts_header E ps = Some hd" and "jh_alg hd = ''RS256''" and "jh_kid hd = Some kid"
    and "parts_claims E ps = Some c" and "claims_current cfg c (sint (ce_unix_now E))"
    and "signing_input ps = header_b64 ps @ ''.'' @ payload_b64 ps"
  using assms split_parts_Some claims_ok_current
  by (auto simp: unverified_def bind_eq_Some_conv split: if_splits)

lemma identity_Some:
  assumes "run_state (identity E h) cf = (Some i, cf')"
  obtains ps c kid k where "unverified E (cfa_cfg cf) h = Some (ps, c, kid)"
    and "run_state (key_for E kid) cf = (Some k, cf')" and "signature_ok E ps k" and "identity_of c = Some i"
  using assms by (auto simp: identity_def split: option.splits prod.splits if_splits)

lemma identity_of_Some:
  assumes "identity_of c = Some i"
  shows "caller_id i \<noteq> None"
    and "cid_email i = Some e \<Longrightarrow> \<exists>raw. cl_email c = Some raw \<and> e = to_ascii_lowercase (trim raw)"
  using assms by (auto simp: identity_of_def caller_id_def Let_def split: if_splits) (auto simp: opt_or_def split: option.splits)

lemma caller_id_prefix: "caller_id i = Some n \<Longrightarrow> prefix ''cf:'' n"
  by (auto simp: caller_id_def prefix_def)
lemma jwks_fetches_spaced:
  assumes "list_all (\<lambda>(E, h). ce_elapsed_at E \<le> ce_fetched_at E) rs"
  shows "sorted_wrt (\<lambda>(s, u) (t, v). s + from_secs 30 \<le> t)
       (cfa_fetches (snd (run_state (identities rs) (new_cf_access cfg))))
     \<and> snd ` set (cfa_fetches (snd (run_state (identities rs) (new_cf_access cfg)))) \<subseteq> {cfg_jwks_url cfg}"
proof -
  have "list_all (\<lambda>(E, _). ce_elapsed_at E \<le> ce_fetched_at E) rs" using assms .
  from identities_ok [OF fetches_ok_new [of cfg] this] identities_cfg [of rs "new_cf_access cfg"] show ?thesis
    by (simp add: fetches_ok_def MIN_REFRESH_INTERVAL_def case_prod_unfold new_cf_access_def [of cfg])
qed

end
