(* ===== verification/Sessions.thy ===== *)
theory Sessions
  imports CfAccess
begin

text \<open>
  The administrator's login: \<open>src/admin/auth/session.rs\<close>, \<open>routes.rs\<close>, \<open>password.rs\<close> and
  \<open>cleanup.rs\<close>.  SHA-256 is the parameter \<open>sha\<close>; argon2 is \<open>verify hash plain\<close> and the
  hash of a new password is an argument, as are random bytes and clock readings.
  Sessions are rows keyed by the hash of a token that only the browser has.
\<close>

section \<open>Session rows\<close>

definition SESSION_TTL :: int where
  "SESSION_TTL = 24 * 60 * 60 * int nanos_per_sec"

definition ABSOLUTE_LIFETIME :: int where
  "ABSOLUTE_LIFETIME = 7 * 24 * 60 * 60 * int nanos_per_sec"

definition insert_session_row :: "session_row \<Rightarrow> database \<Rightarrow> sql_error + unit \<times> database" where
  "insert_session_row r db =
     (if ses_token_hash r \<in> ses_token_hash ` set (t_sessions db) then Inl UniqueViolation
      else Inr ((), db\<lparr>t_sessions := t_sessions db @ [r]\<rparr>))"

definition create_session ::
  "(string \<Rightarrow> string) \<Rightarrow> u8 list \<Rightarrow> timestamp \<Rightarrow> (string \<times> timestamp) query" where
  "create_session sha rnd now =
     (let raw_token = concat (map hex_byte rnd);
          expires_at = now + SESSION_TTL
      in attempt (query_stmt (insert_session_row \<lparr>ses_token_hash = sha raw_token, ses_created_at = now,
             ses_expires_at = expires_at\<rparr>))
           (\<lambda>_. ok_ret (raw_token, expires_at)))"

definition validate_session ::
  "(string \<Rightarrow> string) \<Rightarrow> timestamp \<Rightarrow> string \<Rightarrow> session_row option query" where
  "validate_session sha now raw_token =
     attempt (fetch (\<lambda>db. row_with ses_token_hash (sha raw_token) (t_sessions db)))
       (\<lambda>row. ok_ret (opt_filter (\<lambda>r. now < ses_expires_at r) row))"

definition set_expiry :: "timestamp \<Rightarrow> session_row \<Rightarrow> session_row" where
  "set_expiry t r = r\<lparr>ses_expires_at := t\<rparr>"

text \<open>Half of the window must be over, and no renewal goes past the absolute cap.\<close>

definition renew_if_needed :: "timestamp \<Rightarrow> string \<Rightarrow> timestamp \<Rightarrow> timestamp \<Rightarrow> unit query" where
  "renew_if_needed now token_hash created_at expires_at =
     (let remaining = expires_at - now;
          full_window = expires_at - created_at
      in if full_window < remaining * 2 then ok_ret ()
         else (let absolute_cap = created_at + ABSOLUTE_LIFETIME;
                   candidate = now + SESSION_TTL;
                   new_expiry = min candidate absolute_cap
               in if new_expiry \<le> expires_at then ok_ret ()
                  else execute_stmt (\<lambda>db. db\<lparr>t_sessions :=
                    update_where (\<lambda>r. ses_token_hash r = token_hash) (set_expiry new_expiry) (t_sessions db)\<rparr>)))"

definition delete_all_sessions :: "unit query" where
  "delete_all_sessions = execute_stmt (\<lambda>db. db\<lparr>t_sessions := []\<rparr>)"

definition delete_all_sessions_except :: "string \<Rightarrow> unit query" where
  "delete_all_sessions_except keep =
     execute_stmt (\<lambda>db. db\<lparr>t_sessions := filter (\<lambda>r. ses_token_hash r = keep) (t_sessions db)\<rparr>)"

definition delete_expired :: "timestamp \<Rightarrow> nat query" where
  "delete_expired now =
     query_stmt (\<lambda>db. let kept = filter (\<lambda>r. \<not> ses_expires_at r < now) (t_sessions db)
       in Inr (length (t_sessions db) - length kept, db\<lparr>t_sessions := kept\<rparr>))"

section \<open>Cookies\<close>

definition is_https :: "headers \<Rightarrow> bool" where
  "is_https h =
     (case hdr_text h ''x-forwarded-proto'' of
        Some v \<Rightarrow> eq_ignore_ascii_case v ''https'' | None \<Rightarrow> False)"

definition cookie_name :: "bool \<Rightarrow> string" where
  "cookie_name https = (if https then ''__Host-admin_session'' else ''admin_session'')"

definition cookie_attributes :: "int \<Rightarrow> bool \<Rightarrow> string" where
  "cookie_attributes max_age https =
     ''; Path=/; HttpOnly; SameSite=Strict; Max-Age='' @ show_int max_age
     @ (if https then ''; Secure'' else [])"

definition build_set_cookie :: "timestamp \<Rightarrow> string \<Rightarrow> timestamp \<Rightarrow> bool \<Rightarrow> string" where
  "build_set_cookie now raw_token expires_at https =
     cookie_name https @ ''='' @ raw_token
     @ cookie_attributes (max 0 ((expires_at - now) div int nanos_per_sec)) https"

definition build_clear_cookie :: "bool \<Rightarrow> string" where
  "build_clear_cookie https = cookie_name https @ ''='' @ cookie_attributes 0 https"

definition cookie_value :: "string \<Rightarrow> string \<Rightarrow> string option" where
  "cookie_value name part =
     (case split_once (CHR ''='') part of
        Some (k, v) \<Rightarrow> if k = name then Some v else None
      | None \<Rightarrow> None)"

definition extract_cookie :: "headers \<Rightarrow> bool \<Rightarrow> string option" where
  "extract_cookie h https =
     (case hdr_text h ''cookie'' of
        None \<Rightarrow> None
      | Some raw \<Rightarrow>
          (case List.map_filter (cookie_value (cookie_name https)) (split_str ''; '' raw) of
             v # _ \<Rightarrow> Some v
           | [] \<Rightarrow> None))"

section \<open>Login, logout, password\<close>

text \<open>The part of \<open>AppState\<close> the administrator's requests use.\<close>

datatype secret_origin = SecretEnv | SidecarFile

datatype auth_mode_origin = ModeEnv | ModeDb | ModeDefault

text \<open>\<open>gt_sidecar\<close> is the content of the \<open>.router_secret\<close> file, \<open>None\<close> where there is none.\<close>

record gate =
  gt_db :: database
  gt_attempts :: attempt_map
  gt_runtime :: runtime_map
  gt_cf :: "cf_access option"
  gt_secret :: string
  gt_secret_origin :: secret_origin
  gt_require :: bool
  gt_mode_origin :: auth_mode_origin
  gt_images :: bool
  gt_sidecar :: "string option"

type_synonym 'a admin = "(gate, 'a) state"

definition in_gate :: "'a query \<Rightarrow> (gate, app_error + 'a) state" where
  "in_gate q = State (\<lambda>g. case run_state q (gt_db g) of (r, db) \<Rightarrow> (r, g\<lparr>gt_db := db\<rparr>))"

definition error_body :: "string \<Rightarrow> json" where
  "error_body msg = jobj [(''error'', jobj [(''message'', JStr msg)])]"

definition json_response :: "nat \<Rightarrow> headers \<Rightarrow> json \<Rightarrow> response" where
  "json_response code extra j =
     \<lparr>resp_status = code, resp_headers = (''content-type'', ''application/json'') # extra, resp_body = JsonBody j\<rparr>"

definition app_error_response :: "app_error \<Rightarrow> response" where
  "app_error_response e = (case app_error_parts e of (code, msg) \<Rightarrow> json_response code [] (error_body msg))"

definition verify_password_async :: "(string \<Rightarrow> string \<Rightarrow> bool) \<Rightarrow> string option \<Rightarrow> string \<Rightarrow> bool" where
  "verify_password_async verify hash plain =
     (case hash of Some h \<Rightarrow> verify h plain | None \<Rightarrow> False)"

definition ok_body :: json where
  "ok_body = jobj [(''ok'', JBool True)]"

text \<open>What a login needs from outside: the clocks at its four readings and the random bytes.\<close>

record login_env =
  lg_began :: instant
  lg_failed :: instant
  lg_now :: timestamp
  lg_answered :: timestamp
  lg_random :: "u8 list"

definition login_admitted ::
  "(string \<Rightarrow> string) \<Rightarrow> (string \<Rightarrow> string \<Rightarrow> bool) \<Rightarrow> login_env \<Rightarrow> ip_addr \<Rightarrow> headers \<Rightarrow> string \<Rightarrow> string \<Rightarrow>
     response admin" where
  "login_admitted sha verify L ip h username password = do {
     row \<leftarrow> in_gate (fetch t_admin);
     case row of
       Inl e \<Rightarrow> ret (app_error_response e)
     | Inr row \<Rightarrow>
         (let hash = map_option adm_password_hash (opt_filter (\<lambda>r. adm_username r = username) row)
          in if \<not> verify_password_async verify hash password
             then do {
               update_by (\<lambda>g. g\<lparr>gt_attempts := record_failure (gt_attempts g) ip (lg_failed L)\<rparr>);
               ret (json_response 401 [] (error_body ''invalid username or password'')) }
             else do {
               update_by (\<lambda>g. g\<lparr>gt_attempts := record_login_success (gt_attempts g) ip\<rparr>);
               created \<leftarrow> in_gate (create_session sha (lg_random L) (lg_now L));
               case created of
                 Inl e \<Rightarrow> ret (app_error_response e)
               | Inr (raw_token, expires_at) \<Rightarrow>
                   ret (json_response 200
                     [(''set-cookie'', build_set_cookie (lg_answered L) raw_token expires_at (is_https h))]
                     ok_body) }) }"

text \<open>The guard is dropped at every return.\<close>

definition login ::
  "(string \<Rightarrow> string) \<Rightarrow> (string \<Rightarrow> string \<Rightarrow> bool) \<Rightarrow> login_env \<Rightarrow> ip_addr \<Rightarrow> headers \<Rightarrow> string \<Rightarrow> string \<Rightarrow>
     response admin" where
  "login sha verify L peer h username password = do {
     ip \<leftarrow> gets (\<lambda>g. effective_ip (gt_cf g) peer h);
     admitted \<leftarrow> State (\<lambda>g. case try_begin_attempt (gt_attempts g) ip (lg_began L) of
       (ok, m) \<Rightarrow> (ok, g\<lparr>gt_attempts := m\<rparr>));
     if \<not> admitted
     then ret (json_response 429 [] (error_body ''too many failed attempts, try again later''))
     else do {
       r \<leftarrow> login_admitted sha verify L ip h username password;
       update_by (\<lambda>g. g\<lparr>gt_attempts := drop_guard (gt_attempts g) ip\<rparr>);
       ret r } }"

definition logout :: "headers \<Rightarrow> response admin" where
  "logout h = do {
     r \<leftarrow> in_gate delete_all_sessions;
     ret (case r of
            Inl e \<Rightarrow> app_error_response e
          | Inr _ \<Rightarrow> json_response 200 [(''set-cookie'', build_clear_cookie (is_https h))] ok_body) }"

text \<open>\<open>hash_password\<close> may fail; \<open>hashed\<close> is what it returns for the new password.\<close>

definition change_password ::
  "(string \<Rightarrow> string \<Rightarrow> bool) \<Rightarrow> timestamp \<Rightarrow> string option \<Rightarrow> string \<Rightarrow> string \<Rightarrow> string + string \<Rightarrow>
     json query" where
  "change_password verify now session current new_password hashed =
     attempt (fetch t_admin) (\<lambda>row.
     case row of
       None \<Rightarrow> fail_ret (Internal ''admin_users row missing'')
     | Some r \<Rightarrow>
         if \<not> verify_password_async verify (Some (adm_password_hash r)) current then fail_ret Unauthorized
         else if trim new_password = [] then fail_ret (BadRequest ''new_password cannot be empty'')
         else (case hashed of
                 Inl e \<Rightarrow> fail_ret (Internal e)
               | Inr new_hash \<Rightarrow>
                   attempt (execute_stmt (\<lambda>db. db\<lparr>t_admin := map_option
                       (\<lambda>a. a\<lparr>adm_password_hash := new_hash, adm_updated_at := now\<rparr>) (t_admin db)\<rparr>)) (\<lambda>_.
                   attempt (case session of
                       Some keep \<Rightarrow> delete_all_sessions_except keep
                     | None \<Rightarrow> delete_all_sessions) (\<lambda>_.
                   ok_ret ok_body))))"

text \<open>One tick of the cleanup task.\<close>

definition cleanup_tick :: "timestamp \<Rightarrow> instant \<Rightarrow> instant \<Rightarrow> unit admin" where
  "cleanup_tick now t1 t2 = do {
     _ \<leftarrow> in_gate (delete_expired now);
     update_by (\<lambda>g. g\<lparr>gt_runtime := fst (prune_idle (gt_runtime g) t1 RUNTIME_IDLE_RETENTION)\<rparr>);
     update_by (\<lambda>g. g\<lparr>gt_attempts := fst (prune_stale (gt_attempts g) t2)\<rparr>) }"

section \<open>The life of a session\<close>

text \<open>What each operation can do to the rows, whatever the faults.\<close>

lemma sessions_execute:
  "t_sessions (snd (run_state (execute_stmt f) db)) \<in> {t_sessions db, t_sessions (f (db\<lparr>db_faults := tl (db_faults db)\<rparr>))}"
  by (rule run_query_stmt_cases [of "\<lambda>db. Inr ((), f db)" db]) (auto simp: execute_stmt_def)

lemma sessions_create:
  assumes "run_state (create_session sha rnd now) db = (r, db')"
  shows "t_sessions db' = t_sessions db \<or>
    t_sessions db' = t_sessions db @ [\<lparr>ses_token_hash = sha (concat (map hex_byte rnd)), ses_created_at = now,
      ses_expires_at = now + SESSION_TTL\<rparr>]"
  by (rule run_query_stmt_cases [of "insert_session_row \<lparr>ses_token_hash = sha (concat (map hex_byte rnd)),
        ses_created_at = now, ses_expires_at = now + SESSION_TTL\<rparr>" db])
    (use assms in \<open>auto simp: create_session_def Let_def run_attempt insert_session_row_def split: if_splits\<close>)

lemma sessions_renew:
  "t_sessions (snd (run_state (renew_if_needed now h created expires) db)) = t_sessions db \<or>
     (\<exists>t\<le>created + ABSOLUTE_LIFETIME. t_sessions (snd (run_state (renew_if_needed now h created expires) db))
        = update_where (\<lambda>r. ses_token_hash r = h) (set_expiry t) (t_sessions db))"
proof (cases "expires - created < (expires - now) * 2 \<or> min (now + SESSION_TTL) (created + ABSOLUTE_LIFETIME) \<le> expires")
  case True
  then show ?thesis by (auto simp: renew_if_needed_def Let_def)
next
  case False
  let ?t = "min (now + SESSION_TTL) (created + ABSOLUTE_LIFETIME)"
  have "renew_if_needed now h created expires = execute_stmt (\<lambda>db. db\<lparr>t_sessions :=
      update_where (\<lambda>r. ses_token_hash r = h) (set_expiry ?t) (t_sessions db)\<rparr>)"
    using False by (simp add: renew_if_needed_def Let_def)
  with sessions_execute [of "\<lambda>db. db\<lparr>t_sessions :=
      update_where (\<lambda>r. ses_token_hash r = h) (set_expiry ?t) (t_sessions db)\<rparr>" db]
  show ?thesis by (auto intro!: exI [of _ ?t])
qed

text \<open>
  Everything that happens to the rows, with the sessions ever issued as a ghost.  A
  renewal works on a row read earlier, which may be gone by the time it writes; fresh
  tokens are random and never repeat.
\<close>

type_synonym session_world = "database \<times> (string \<times> timestamp) set"

inductive session_step :: "(string \<Rightarrow> string) \<Rightarrow> session_world \<Rightarrow> session_world \<Rightarrow> bool" for sha where
  opened: "sha (concat (map hex_byte rnd)) \<notin> fst ` iss \<Longrightarrow>
     run_state (create_session sha rnd now) (db\<lparr>db_faults := fs\<rparr>) = (r, db') \<Longrightarrow>
     session_step sha (db, iss) (db', insert (sha (concat (map hex_byte rnd)), now) iss)"
| renewed: "(h, created) \<in> iss \<Longrightarrow>
     session_step sha (db, iss) (snd (run_state (renew_if_needed now h created expires) (db\<lparr>db_faults := fs\<rparr>)), iss)"
| closed: "session_step sha (db, iss) (snd (run_state delete_all_sessions (db\<lparr>db_faults := fs\<rparr>)), iss)"
| kept: "session_step sha (db, iss) (snd (run_state (delete_all_sessions_except h) (db\<lparr>db_faults := fs\<rparr>)), iss)"
| swept: "session_step sha (db, iss) (snd (run_state (delete_expired now) (db\<lparr>db_faults := fs\<rparr>)), iss)"
| elsewhere: "t_sessions db' = t_sessions db \<Longrightarrow> session_step sha (db, iss) (db', iss)"

inductive session_reachable :: "(string \<Rightarrow> string) \<Rightarrow> session_world \<Rightarrow> bool" for sha where
  start: "session_reachable sha (empty_db, {})"
| step: "session_reachable sha s \<Longrightarrow> session_step sha s s' \<Longrightarrow> session_reachable sha s'"

inductive_cases session_step_cases: "session_step sha (db, iss) s'"

text \<open>Rows are issued sessions, at most one per token, and die with the absolute lifetime.\<close>

definition session_ok :: "(string \<times> timestamp) set \<Rightarrow> session_row \<Rightarrow> bool" where
  "session_ok iss r \<longleftrightarrow>
     (ses_token_hash r, ses_created_at r) \<in> iss \<and> ses_expires_at r \<le> ses_created_at r + ABSOLUTE_LIFETIME"

definition sessions_inv :: "session_world \<Rightarrow> bool" where
  "sessions_inv s \<longleftrightarrow> inj_on fst (snd s) \<and> list_all (session_ok (snd s)) (t_sessions (fst s))"

lemma sessions_delete:
  "set (t_sessions (snd (run_state delete_all_sessions db))) \<subseteq> set (t_sessions db)"
  "set (t_sessions (snd (run_state (delete_all_sessions_except h) db))) \<subseteq> set (t_sessions db)"
  "set (t_sessions (snd (run_state (delete_expired now) db))) \<subseteq> set (t_sessions db)"
proof -
  show "set (t_sessions (snd (run_state delete_all_sessions db))) \<subseteq> set (t_sessions db)"
    using sessions_execute [of "\<lambda>db. db\<lparr>t_sessions := []\<rparr>" db] by (auto simp: delete_all_sessions_def)
  show "set (t_sessions (snd (run_state (delete_all_sessions_except h) db))) \<subseteq> set (t_sessions db)"
    using sessions_execute [of "\<lambda>db. db\<lparr>t_sessions := filter (\<lambda>r. ses_token_hash r = h) (t_sessions db)\<rparr>" db]
    by (auto simp: delete_all_sessions_except_def)
  let ?f = "\<lambda>db. let kept = filter (\<lambda>r. \<not> ses_expires_at r < now) (t_sessions db)
       in Inr (length (t_sessions db) - length kept, db\<lparr>t_sessions := kept\<rparr>)"
  show "set (t_sessions (snd (run_state (delete_expired now) db))) \<subseteq> set (t_sessions db)"
    by (rule run_query_stmt_cases [of ?f db]) (auto simp: delete_expired_def Let_def)
qed

lemma session_ok_mono: "session_ok iss r \<Longrightarrow> iss \<subseteq> iss' \<Longrightarrow> session_ok iss' r"
  by (auto simp: session_ok_def)

lemma session_step_inv:
  assumes "session_step sha s s'" and "sessions_inv s"
  shows "sessions_inv s'"
  using assms
proof (cases rule: session_step.cases)
  case (opened rnd iss now fs db r db')
  let ?h = "sha (concat (map hex_byte rnd))"
  let ?row = "\<lparr>ses_token_hash = ?h, ses_created_at = now, ses_expires_at = now + SESSION_TTL\<rparr>"
  from sessions_create [OF opened(4)] have rows: "set (t_sessions db') \<subseteq> insert ?row (set (t_sessions db))" by auto
  have row: "session_ok (insert (?h, now) iss) ?row"
    by (simp add: session_ok_def SESSION_TTL_def ABSOLUTE_LIFETIME_def)
  have old: "list_all (session_ok iss) (t_sessions db)" and inj: "inj_on fst iss"
    using assms(2) opened(1) by (simp_all add: sessions_inv_def)
  have "session_ok (insert (?h, now) iss) r" if "r \<in> set (t_sessions db')" for r
  proof (cases "r = ?row")
    case True
    with row show ?thesis by simp
  next
    case False
    with that rows have "r \<in> set (t_sessions db)" by blast
    with old have "session_ok iss r" by (simp add: list_all_iff)
    then show ?thesis by (rule session_ok_mono) blast
  qed
  then have "list_all (session_ok (insert (?h, now) iss)) (t_sessions db')" by (simp add: list_all_iff)
  moreover have "inj_on fst (insert (?h, now) iss)"
    using inj opened(3) by (auto simp: inj_on_insert)
  ultimately show ?thesis by (simp add: sessions_inv_def opened(2))
next
  case (renewed h created iss db now expires fs)
  let ?db = "snd (run_state (renew_if_needed now h created expires) (db\<lparr>db_faults := fs\<rparr>))"
  have old: "list_all (session_ok iss) (t_sessions db)" and inj: "inj_on fst iss"
    using assms(2) renewed(1) by (simp_all add: sessions_inv_def)
  from sessions_renew [of now h created expires "db\<lparr>db_faults := fs\<rparr>"]
  have "list_all (session_ok iss) (t_sessions ?db)"
  proof (elim disjE exE conjE)
    assume "t_sessions ?db = t_sessions (db\<lparr>db_faults := fs\<rparr>)"
    with old show ?thesis by simp
  next
    fix t assume t: "t \<le> created + ABSOLUTE_LIFETIME"
      and upd: "t_sessions ?db = update_where (\<lambda>r. ses_token_hash r = h) (set_expiry t) (t_sessions (db\<lparr>db_faults := fs\<rparr>))"
    have "session_ok iss (set_expiry t r)" if "session_ok iss r" "ses_token_hash r = h" for r
    proof -
      from that have issued: "(h, ses_created_at r) \<in> iss" by (auto simp: session_ok_def)
      have "(h, ses_created_at r) = (h, created)"
        by (rule inj_onD [OF inj _ issued renewed(3)]) simp
      then have "ses_created_at r = created" by simp
      with that t show ?thesis by (simp add: session_ok_def set_expiry_def)
    qed
    with old show ?thesis by (auto simp: upd list_all_iff set_update_where)
  qed
  with inj show ?thesis by (simp add: sessions_inv_def renewed(2))
next
  case (closed db iss fs)
  with assms(2) sessions_delete(1) [of "db\<lparr>db_faults := fs\<rparr>"] show ?thesis
    by (auto simp: sessions_inv_def list_all_iff)
next
  case (kept db iss h fs)
  with assms(2) sessions_delete(2) [of h "db\<lparr>db_faults := fs\<rparr>"] show ?thesis
    by (auto simp: sessions_inv_def list_all_iff)
next
  case (swept db iss now fs)
  with assms(2) sessions_delete(3) [of now "db\<lparr>db_faults := fs\<rparr>"] show ?thesis
    by (auto simp: sessions_inv_def list_all_iff)
next
  case (elsewhere db' db iss)
  with assms(2) show ?thesis by (simp add: sessions_inv_def)
qed

lemma session_reachable_inv: "session_reachable sha s \<Longrightarrow> sessions_inv s"
proof (induction rule: session_reachable.induct)
  case start
  show ?case by (simp add: sessions_inv_def empty_db_def)
next
  case (step s s')
  then show ?case by (blast intro: session_step_inv)
qed

lemma run_validate_Some:
  assumes "run_state (validate_session sha now raw) db = (Inr (Some r), db')"
  shows "r \<in> set (t_sessions db)" and "ses_token_hash r = sha raw" and "now < ses_expires_at r"
proof -
  let ?q = "\<lambda>db. Inr (row_with ses_token_hash (sha raw) (t_sessions db), db)"
  from assms obtain db1 where q: "run_state (query_stmt ?q) db = (Inr (Some r), db1)"
    and fresh: "now < ses_expires_at r"
    by (auto simp: validate_session_def fetch_def run_attempt opt_filter_Some_iff split: prod.splits sum.splits)
  show "now < ses_expires_at r" by (rule fresh)
  have row: "row_with ses_token_hash (sha raw) (t_sessions db) = Some r"
    by (rule run_query_stmt_cases [of ?q db]) (use q in auto)
  show "r \<in> set (t_sessions db)" "ses_token_hash r = sha raw"
    using row_with_SomeD [OF row] by simp_all
qed


text \<open>A token that was drawn once and has no row any more never gets one again.\<close>

definition ended :: "string \<Rightarrow> session_world \<Rightarrow> bool" where
  "ended h s \<longleftrightarrow> h \<in> fst ` snd s \<and> h \<notin> ses_token_hash ` set (t_sessions (fst s))"

lemma session_step_ended:
  assumes "session_step sha s s'" and "ended h s"
  shows "ended h s'"
  using assms
proof (cases rule: session_step.cases)
  case (opened rnd iss now fs db r db')
  from assms(2) have "h \<in> fst ` iss" and "h \<notin> ses_token_hash ` set (t_sessions db)"
    by (simp_all add: ended_def opened(1))
  moreover from this opened(3) have "h \<noteq> sha (concat (map hex_byte rnd))" by blast
  ultimately show ?thesis using sessions_create [OF opened(4)] by (auto simp: ended_def opened(2))
next
  case (renewed h' created iss db now expires fs)
  with sessions_renew [of now h' created expires "db\<lparr>db_faults := fs\<rparr>"] assms(2) show ?thesis
    by (elim disjE exE conjE) (auto simp: ended_def set_update_where set_expiry_def image_iff)
next
  case (closed db iss fs)
  with assms(2) sessions_delete(1) [of "db\<lparr>db_faults := fs\<rparr>"] show ?thesis by (auto simp: ended_def)
next
  case (kept db iss h' fs)
  with assms(2) sessions_delete(2) [of h' "db\<lparr>db_faults := fs\<rparr>"] show ?thesis by (auto simp: ended_def)
next
  case (swept db iss now fs)
  with assms(2) sessions_delete(3) [of now "db\<lparr>db_faults := fs\<rparr>"] show ?thesis by (auto simp: ended_def)
next
  case (elsewhere db' db iss)
  with assms(2) show ?thesis by (simp add: ended_def)
qed

lemma session_steps_ended: "(session_step sha)\<^sup>*\<^sup>* s s' \<Longrightarrow> ended h s \<Longrightarrow> ended h s'"
  by (induction rule: rtranclp_induct) (auto intro: session_step_ended)

lemma logout_clears:
  assumes "run_state (logout h) g = (resp, g')" and "resp_status resp = 200"
  shows "t_sessions (gt_db g') = []"
  by (rule run_query_stmt_cases [of "\<lambda>db. Inr ((), db\<lparr>t_sessions := []\<rparr>)" "gt_db g"])
    (use assms in \<open>auto simp: logout_def in_gate_def delete_all_sessions_def execute_stmt_def app_error_response_def json_response_def\<close>)

section \<open>The cookie a browser keeps\<close>

text \<open>The header a browser sends for the cookies it has, and what it keeps of \<open>Set-Cookie\<close>.\<close>

definition cookie_header :: "(string \<times> string) list \<Rightarrow> string" where
  "cookie_header jar = join ''; '' (map (\<lambda>(k, v). k @ ''='' @ v) jar)"

definition cookie_char :: "char \<Rightarrow> bool" where
  "cookie_char c \<longleftrightarrow> 33 \<le> byte_of c \<and> byte_of c < 127 \<and> c \<noteq> CHR '';''"

definition jar_ok :: "(string \<times> string) list \<Rightarrow> bool" where
  "jar_ok jar \<longleftrightarrow> list_all (\<lambda>(k, v). list_all (\<lambda>c. cookie_char c \<and> c \<noteq> CHR ''='') k \<and> list_all cookie_char v) jar"

definition kept_pair :: "string \<Rightarrow> (string \<times> string) option" where
  "kept_pair set_cookie = split_once (CHR ''='') (takeWhile (\<lambda>c. c \<noteq> CHR '';'') set_cookie)"

lemma set_join_subset: "set (join sep ps) \<subseteq> set sep \<union> \<Union> (set ` set ps)"
  by (induction sep ps rule: join.induct) auto

lemma jar_okD:
  assumes "jar_ok jar" and "(k, v) \<in> set jar"
  shows "CHR '';'' \<notin> set (k @ ''='' @ v)"
proof -
  have "list_all cookie_char k" and "list_all cookie_char v"
    using assms unfolding jar_ok_def list_all_iff by fast+
  moreover have "\<not> cookie_char (CHR '';'')" by (simp add: cookie_char_def)
  ultimately have "CHR '';'' \<notin> set k" and "CHR '';'' \<notin> set v" unfolding list_all_iff by blast+
  then show ?thesis by simp
qed

lemma header_text_cookies:
  assumes "jar_ok jar"
  shows "header_text (cookie_header jar) = Some (cookie_header jar)"
proof -
  have "32 \<le> byte_of c \<and> byte_of c < 127" if "c \<in> set (cookie_header jar)" for c
  proof -
    have "c \<in> set ''; '' \<union> \<Union> (set ` set (map (\<lambda>(k, v). k @ ''='' @ v) jar))"
      using that set_join_subset unfolding cookie_header_def by blast
    then consider "c \<in> set ''; ''" | "c = CHR ''=''" | k v where "(k, v) \<in> set jar" "c \<in> set k \<or> c \<in> set v"
      by auto
    then show ?thesis
    proof cases
      case 3
      then have "cookie_char c" using assms by (force simp: jar_ok_def list_all_iff)
      then show ?thesis by (simp add: cookie_char_def)
    qed (auto simp: byte_of_def)
  qed
  then show ?thesis by (auto simp: header_text_def list_all_iff)
qed

lemma first_cookie:
  "jar_ok jar \<Longrightarrow>
   (case List.map_filter (cookie_value n) (map (\<lambda>(k, v). k @ ''='' @ v) jar) of v # _ \<Rightarrow> Some v | [] \<Rightarrow> None)
     = map_of jar n"
proof (induction jar)
  case (Cons kv jar)
  obtain k v where kv: "kv = (k, v)" by (cases kv)
  have "CHR ''='' \<notin> set k" using Cons.prems by (auto simp: kv jar_ok_def list_all_iff)
  then have "split_once (CHR ''='') (k @ ''='' @ v) = Some (k, v)" by (simp add: split_once_Some_iff)
  then show ?case using Cons by (simp add: kv cookie_value_def map_filter_simps jar_ok_def)
qed (simp add: map_filter_simps)

lemma extract_cookie_jar:
  assumes "jar_ok jar" and "jar \<noteq> []"
  shows "extract_cookie [(''cookie'', cookie_header jar)] https = map_of jar (cookie_name https)"
proof -
  have "split_str ''; '' (cookie_header jar) = map (\<lambda>(k, v). k @ ''='' @ v) jar"
    unfolding cookie_header_def
  proof (rule split_str_join)
    show "\<forall>p\<in>set (map (\<lambda>(k, v). k @ ''='' @ v) jar). CHR '';'' \<notin> set p"
      using jar_okD [OF assms(1)] by fastforce
  qed (simp add: assms(2))
  with header_text_cookies [OF assms(1)] first_cookie [OF assms(1)] show ?thesis
    by (simp add: extract_cookie_def hdr_text_def hdr_get_def)
qed


section \<open>A login that succeeds\<close>

lemma db_error_status [simp]: "resp_status (app_error_response (DbError e)) = 500"
  by (simp add: app_error_response_def json_response_def)

lemma run_create_session_cases:
  obtains e db' where "run_state (create_session sha rnd now) db = (Inl (DbError e), db')"
  | db' where "run_state (create_session sha rnd now) db = (Inr (concat (map hex_byte rnd), now + SESSION_TTL), db')"
      "sha (concat (map hex_byte rnd)) \<notin> ses_token_hash ` set (t_sessions db)"
      "t_sessions db' = t_sessions db @ [\<lparr>ses_token_hash = sha (concat (map hex_byte rnd)), ses_created_at = now,
         ses_expires_at = now + SESSION_TTL\<rparr>]"
proof (rule run_query_stmt_cases [of "insert_session_row \<lparr>ses_token_hash = sha (concat (map hex_byte rnd)),
    ses_created_at = now, ses_expires_at = now + SESSION_TTL\<rparr>" db])
  fix e
  assume "run_state (query_stmt (insert_session_row \<lparr>ses_token_hash = sha (concat (map hex_byte rnd)),
    ses_created_at = now, ses_expires_at = now + SESSION_TTL\<rparr>)) db = (Inl (DbError e), db\<lparr>db_faults := tl (db_faults db)\<rparr>)"
  then show thesis by (intro that(1)) (simp add: create_session_def Let_def run_attempt)
next
  fix a db'
  assume "run_state (query_stmt (insert_session_row \<lparr>ses_token_hash = sha (concat (map hex_byte rnd)),
      ses_created_at = now, ses_expires_at = now + SESSION_TTL\<rparr>)) db = (Inr a, db')"
    and "insert_session_row \<lparr>ses_token_hash = sha (concat (map hex_byte rnd)),
      ses_created_at = now, ses_expires_at = now + SESSION_TTL\<rparr> (db\<lparr>db_faults := tl (db_faults db)\<rparr>) = Inr (a, db')"
  then show thesis
    by (intro that(2)) (auto simp: create_session_def Let_def run_attempt insert_session_row_def split: if_splits)
qed

lemma create_session_Inr:
  assumes "run_state (create_session sha rnd now) db = (Inr (raw, expires), db')"
  shows "raw = concat (map hex_byte rnd)" and "expires = now + SESSION_TTL"
    and "sha raw \<notin> ses_token_hash ` set (t_sessions db)"
    and "t_sessions db' = t_sessions db @ [\<lparr>ses_token_hash = sha raw, ses_created_at = now, ses_expires_at = expires\<rparr>]"
  using run_create_session_cases [of sha rnd now db] assms by auto

lemma login_admitted_success:
  assumes "run_state (login_admitted sha verify L ip h username password) g = (resp, g')" and "resp_status resp = 200"
  obtains adm raw expires db where "t_admin (gt_db g) = Some adm" and "adm_username adm = username"
    and "verify (adm_password_hash adm) password"
    and "t_sessions db = t_sessions (gt_db g)"
    and "run_state (create_session sha (lg_random L) (lg_now L)) db = (Inr (raw, expires), gt_db g')"
    and "hdr_get (resp_headers resp) ''set-cookie'' = Some (build_set_cookie (lg_answered L) raw expires (is_https h))"
proof (rule run_query_stmt_cases [of "\<lambda>db. Inr (t_admin db, db)" "gt_db g"])
  fix e
  assume "run_state (query_stmt (\<lambda>db. Inr (t_admin db, db))) (gt_db g)
    = (Inl (DbError e), (gt_db g)\<lparr>db_faults := tl (db_faults (gt_db g))\<rparr>)"
  then have "resp = app_error_response (DbError e)"
    using assms(1) by (simp add: login_admitted_def in_gate_def fetch_def)
  with assms(2) show thesis by simp
next
  fix a db'
  let ?db = "(gt_db g)\<lparr>db_faults := tl (db_faults (gt_db g))\<rparr>"
  assume run: "run_state (query_stmt (\<lambda>db. Inr (t_admin db, db))) (gt_db g) = (Inr a, db')"
    and "Inr (t_admin ?db, ?db) = (Inr (a, db') :: sql_error + _)"
  then have ad: "a = t_admin (gt_db g)" "db' = ?db" by simp_all
  let ?hash = "map_option adm_password_hash (opt_filter (\<lambda>r. adm_username r = username) (t_admin (gt_db g)))"
  show thesis
  proof (cases "verify_password_async verify ?hash password")
    case False
    then have "resp_status resp = 401"
      using assms(1) by (auto simp: login_admitted_def in_gate_def fetch_def run ad json_response_def)
    with assms(2) show thesis by simp
  next
    case True
    then obtain adm where adm: "t_admin (gt_db g) = Some adm" "adm_username adm = username"
        "verify (adm_password_hash adm) password"
      by (auto simp: verify_password_async_def split: option.splits)
    obtain c db2 where c: "run_state (create_session sha (lg_random L) (lg_now L)) ?db = (c, db2)"
      and err: "\<And>e. c = Inl e \<Longrightarrow> \<exists>t. e = DbError t"
      by (rule run_create_session_cases [of sha "lg_random L" "lg_now L" ?db]) auto
    with True assms(1) have resp: "resp = (case c of Inl e \<Rightarrow> app_error_response e
        | Inr (raw_token, expires_at) \<Rightarrow> json_response 200
            [(''set-cookie'', build_set_cookie (lg_answered L) raw_token expires_at (is_https h))] ok_body)"
      and g': "gt_db g' = db2"
      by (auto simp: login_admitted_def in_gate_def fetch_def run ad Let_def split: sum.splits prod.splits)
    from resp assms(2) obtain raw expires where "c = Inr (raw, expires)"
      by (cases c) (auto dest: err)
    with resp c g' show thesis
      by (intro that [OF adm, of ?db]) (simp_all add: json_response_def hdr_get_def)
  qed
qed

lemma hex_text_chars: "c \<in> set (concat (map hex_byte bs)) \<Longrightarrow> c \<in> set ''0123456789abcdef''"
proof -
  assume "c \<in> set (concat (map hex_byte bs))"
  then obtain b where b: "b \<in> set bs" "c \<in> set (hex_byte b)" by auto
  then obtain n where "c = hex_digit n" "n = unat b div 16 \<or> n = unat b mod 16" by (auto simp: hex_byte_def)
  moreover have "unat b mod 16 < 16" by simp
  moreover have "unat b div 16 < 16" using unsigned_less [of b, where ?'a = nat] by simp
  moreover have "hex_digit n \<in> set ''0123456789abcdef''" if "n < 16" for n
    unfolding hex_digit_def using that by (intro nth_mem) simp
  ultimately show ?thesis by metis
qed

lemma hex_text_no_semicolon: "CHR '';'' \<notin> set (concat (map hex_byte bs))"
proof
  assume "CHR '';'' \<in> set (concat (map hex_byte bs))"
  from hex_text_chars [OF this] show False by simp
qed

lemma kept_pair_set_cookie:
  assumes "CHR '';'' \<notin> set raw"
  shows "kept_pair (build_set_cookie now raw expires https) = Some (cookie_name https, raw)"
proof -
  have "\<forall>c\<in>set (cookie_name https @ ''='' @ raw). c \<noteq> CHR '';''"
    using assms by (auto simp: cookie_name_def)
  then have "takeWhile (\<lambda>c. c \<noteq> CHR '';'') ((cookie_name https @ ''='' @ raw) @ CHR '';'' # rest)
      = cookie_name https @ ''='' @ raw" for rest
    by (subst takeWhile_append2) auto
  then have "takeWhile (\<lambda>c. c \<noteq> CHR '';'') (build_set_cookie now raw expires https) = cookie_name https @ ''='' @ raw"
    by (simp add: build_set_cookie_def cookie_attributes_def)
  then show ?thesis by (auto simp: kept_pair_def split_once_Some_iff cookie_name_def)
qed

lemma login_success:
  assumes "run_state (login sha verify L peer h username password) g = (resp, g')" and "resp_status resp = 200"
  obtains adm raw row where "t_admin (gt_db g) = Some adm" and "adm_username adm = username"
    and "verify (adm_password_hash adm) password"
    and "hdr_get (resp_headers resp) ''set-cookie''
      = Some (build_set_cookie (lg_answered L) raw (lg_now L + SESSION_TTL) (is_https h))"
    and "CHR '';'' \<notin> set raw" and "ses_token_hash row = sha raw" and "ses_created_at row = lg_now L"
    and "ses_expires_at row = lg_now L + SESSION_TTL"
    and "t_sessions (gt_db g') = t_sessions (gt_db g) @ [row]"
    and "sha raw \<notin> ses_token_hash ` set (t_sessions (gt_db g))"
proof -
  let ?ip = "effective_ip (gt_cf g) peer h"
  obtain ok m where att: "try_begin_attempt (gt_attempts g) ?ip (lg_began L) = (ok, m)" by fastforce
  have ok: "ok"
    using assms by (auto simp: login_def att json_response_def split: if_splits)
  obtain r g1 where run: "run_state (login_admitted sha verify L ?ip h username password) (g\<lparr>gt_attempts := m\<rparr>) = (r, g1)"
    by fastforce
  with assms(1) ok have r: "r = resp" and g': "gt_db g' = gt_db g1"
    by (auto simp: login_def att)
  from run assms(2) r obtain adm raw expires db where adm: "t_admin (gt_db g) = Some adm" "adm_username adm = username"
      "verify (adm_password_hash adm) password"
    and db: "t_sessions db = t_sessions (gt_db g)"
    and new: "run_state (create_session sha (lg_random L) (lg_now L)) db = (Inr (raw, expires), gt_db g1)"
    and cookie: "hdr_get (resp_headers resp) ''set-cookie'' = Some (build_set_cookie (lg_answered L) raw expires (is_https h))"
    by (elim login_admitted_success) simp_all
  note created = create_session_Inr [OF new]
  show thesis
    by (rule that [OF adm, of raw "\<lparr>ses_token_hash = sha raw, ses_created_at = lg_now L, ses_expires_at = expires\<rparr>"])
      (use cookie created db g' hex_text_no_semicolon in simp_all)
qed

lemma validate_stored:
  assumes "db_faults db = []" and "t_sessions db = rows @ [row]" and "sha raw \<notin> ses_token_hash ` set rows"
    and "ses_token_hash row = sha raw" and "now < ses_expires_at row"
  shows "run_state (validate_session sha now raw) db = (Inr (Some row), db)"
proof -
  have "row_with ses_token_hash (sha raw) (t_sessions db) = Some row"
    using assms(2-4) by (simp add: row_with_append row_with_None [THEN iffD2])
  with assms(1,5) show ?thesis by (simp add: validate_session_def run_attempt)
qed

lemma login_opens_session:
  assumes "run_state (login sha verify L peer h username password) g = (resp, g')" and "resp_status resp = 200"
    and "Option.bind (hdr_get (resp_headers resp) ''set-cookie'') kept_pair = Some (k, v)"
    and "jar_ok jar" and "map_of jar k = Some v" and "now < lg_now L + SESSION_TTL"
  shows "\<exists>adm row raw. t_admin (gt_db g) = Some adm \<and> adm_username adm = username
     \<and> verify (adm_password_hash adm) password
     \<and> extract_cookie [(''cookie'', cookie_header jar)] (is_https h) = Some raw
     \<and> fst (run_state (validate_session sha now raw) (gt_db g'\<lparr>db_faults := []\<rparr>)) = Inr (Some row)
     \<and> ses_created_at row = lg_now L"
  using assms(1,2)
proof (rule login_success)
  fix adm raw row
  assume adm: "t_admin (gt_db g) = Some adm" "adm_username adm = username" "verify (adm_password_hash adm) password"
    and cookie: "hdr_get (resp_headers resp) ''set-cookie''
      = Some (build_set_cookie (lg_answered L) raw (lg_now L + SESSION_TTL) (is_https h))"
    and raw: "CHR '';'' \<notin> set raw"
    and row: "ses_token_hash row = sha raw" "ses_created_at row = lg_now L" "ses_expires_at row = lg_now L + SESSION_TTL"
      "t_sessions (gt_db g') = t_sessions (gt_db g) @ [row]" "sha raw \<notin> ses_token_hash ` set (t_sessions (gt_db g))"
  have kv: "k = cookie_name (is_https h)" "v = raw"
    using assms(3) by (simp_all add: cookie kept_pair_set_cookie [OF raw])
  have "jar \<noteq> []" using assms(5) by auto
  then have "extract_cookie [(''cookie'', cookie_header jar)] (is_https h) = Some raw"
    using extract_cookie_jar [OF assms(4)] assms(5) by (simp add: kv)
  moreover have "run_state (validate_session sha now raw) (gt_db g'\<lparr>db_faults := []\<rparr>)
      = (Inr (Some row), gt_db g'\<lparr>db_faults := []\<rparr>)"
    by (rule validate_stored [of _ "t_sessions (gt_db g)"]) (use row assms(6) in simp_all)
  ultimately show ?thesis using adm row(2) by auto
qed

lemma logout_is_final:
  assumes "run_state (logout h) g = (resp, g')" and "resp_status resp = 200"
    and "(session_step sha)\<^sup>*\<^sup>* (gt_db g', iss) (db', iss')" and "sha raw \<in> fst ` iss"
  shows "fst (run_state (validate_session sha now raw) db') \<noteq> Inr (Some r)"
proof
  assume run: "fst (run_state (validate_session sha now raw) db') = Inr (Some r)"
  have "ended (sha raw) (gt_db g', iss)"
    using logout_clears [OF assms(1,2)] assms(4) by (simp add: ended_def)
  then have "ended (sha raw) (db', iss')" by (rule session_steps_ended [OF assms(3)])
  moreover obtain db2 where "run_state (validate_session sha now raw) db' = (Inr (Some r), db2)"
    using run by (cases "run_state (validate_session sha now raw) db'") auto
  ultimately show False
    using run_validate_Some [of sha now raw db' r db2] by (auto simp: ended_def)
qed

end
