(* ===== verification/ProxyRoutes.thy ===== *)
theory ProxyRoutes
  imports Responses Sessions
begin

text \<open>
  \<open>src/proxy/routes.rs\<close> and the entry of \<open>src/proxy/responses.rs\<close>: what a client of \<open>/v1\<close> calls.
  \<open>cap\<close> is \<open>max_body_bytes\<close>; \<open>draw\<close> gives the random ids of one answer.
\<close>

definition model_from_body :: "(string \<Rightarrow> json option) \<Rightarrow> string \<Rightarrow> string option" where
  "model_from_body parse bytes = Option.bind (parse bytes) (\<lambda>v. str_at v ''model'')"

definition parsed :: "env \<Rightarrow> string \<Rightarrow> json option" where
  "parsed E s = (case env_parse_json E s of Inr v \<Rightarrow> Some v | Inl _ \<Rightarrow> None)"

definition proxy_entry ::
  "env \<Rightarrow> config_snapshot \<Rightarrow> discovered_map \<Rightarrow> nat \<Rightarrow> wire_format \<Rightarrow> caller \<Rightarrow> (string + string) list \<Rightarrow>
     response outcome flow" where
  "proxy_entry E s discovered cap wire c body =
     (case buffer_body body cap of
        Inl e \<Rightarrow> ret (Done (app_error_response e))
      | Inr bytes \<Rightarrow>
          (case model_from_body (parsed E) bytes of
             None \<Rightarrow> ret (Done (wire_error wire 400 (''missing '' @ quoted ''model'' @ '' field'')))
           | Some m \<Rightarrow> handle_proxy E s discovered wire m c bytes))"

definition chat_completions ::
  "env \<Rightarrow> config_snapshot \<Rightarrow> discovered_map \<Rightarrow> nat \<Rightarrow> caller \<Rightarrow> (string + string) list \<Rightarrow> response outcome flow" where
  "chat_completions E s discovered cap c body = proxy_entry E s discovered cap OpenAi c body"

definition messages_route ::
  "env \<Rightarrow> config_snapshot \<Rightarrow> discovered_map \<Rightarrow> nat \<Rightarrow> caller \<Rightarrow> (string + string) list \<Rightarrow> response outcome flow" where
  "messages_route E s discovered cap c body = proxy_entry E s discovered cap Anthropic c body"

text \<open>The clock is read after the answer of the loop, for the creation time of the response.\<close>

definition responses_entry ::
  "env \<Rightarrow> config_snapshot \<Rightarrow> discovered_map \<Rightarrow> nat \<Rightarrow> (nat \<Rightarrow> string) \<Rightarrow> caller \<Rightarrow> (string + string) list \<Rightarrow>
     response outcome flow" where
  "responses_entry E s discovered cap draw c body =
     (case buffer_body body cap of
        Inl e \<Rightarrow> ret (Done (app_error_response e))
      | Inr bytes \<Rightarrow>
          (case parsed E bytes of
             None \<Rightarrow> ret (Done (responses_error 400 ''request body is not valid JSON''))
           | Some req \<Rightarrow>
               (case request_to_chat (env_print_json E) req of
                  Inl msg \<Rightarrow> ret (Done (responses_error 400 msg))
                | Inr chat \<Rightarrow> do {
                    let model = str_of chat ''model'';
                    r \<leftarrow> handle_proxy E s discovered OpenAi model c (env_print_json E chat);
                    now \<leftarrow> read_wall E;
                    ret (case r of
                           Done resp \<Rightarrow> Done (translate_reply (parsed E) (env_print_json E) draw
                             (now div int nanos_per_sec) resp model (wants_stream chat) (namespaces_of req))
                         | Panicked \<Rightarrow> Panicked) })))"

definition model_entry :: "string \<Rightarrow> json" where
  "model_entry i = jobj [(''id'', JStr i), (''object'', JStr ''model''), (''owned_by'', JStr ''1router'')]"

definition listed_models :: "config_snapshot \<Rightarrow> discovered_map \<Rightarrow> bool \<Rightarrow> string list" where
  "listed_models s discovered images =
     map (\<lambda>p. pool_id (pwm_pool p)) (filter (\<lambda>p. pool_modality (pwm_pool p) = Chat \<or> images) (snap_pools s))
     @ concat (map (\<lambda>(p, ms). map (\<lambda>m. p @ ''/'' @ m) ms) discovered)"

definition models_route :: "config_snapshot \<Rightarrow> discovered_map \<Rightarrow> bool \<Rightarrow> json" where
  "models_route s discovered images =
     jobj [(''object'', JStr ''list''), (''data'', JArr (map model_entry (listed_models s discovered images)))]"

end
