(* ===== verification/ProviderRoutesSpec.thy ===== *)
theory ProviderRoutesSpec
  imports ProviderProbes ProxyRoutes
begin

text \<open>
  What the provider routes promise.  An edit that was answered with success is what the proxy
  routes by, and the pairs of the provider start healthy; a probe clears health flags only when
  an upstream answered it with a success; what a stored key holds beyond its mask reaches no
  answer, and a form that is not saved is tried without any stored row; discovered models are
  listed and may be addressed.
\<close>

section \<open>Running the steps\<close>

lemma run_in_world: "run_state (in_world m) a = (fst (run_state m (ap_world a)), a\<lparr>ap_world := snd (run_state m (ap_world a))\<rparr>)"
  by (simp add: in_world_def split: prod.split)

definition with_db :: "database \<Rightarrow> app \<Rightarrow> app" where
  "with_db db a = a\<lparr>ap_world := (ap_world a)\<lparr>w_db := db\<rparr>\<rparr>"

definition app_db :: "app \<Rightarrow> database" where
  "app_db a = w_db (ap_world a)"

definition app_runtime :: "app \<Rightarrow> runtime_map" where
  "app_runtime a = w_runtime (ap_world a)"

lemma with_db_simps [simp]:
  "app_db (with_db db a) = db" "app_runtime (with_db db a) = app_runtime a"
  "ap_snapshot (with_db db a) = ap_snapshot a" "ap_discovered (with_db db a) = ap_discovered a"
  "ap_sent (with_db db a) = ap_sent a" "ap_pending (with_db db a) = ap_pending a"
  "with_db db' (with_db db a) = with_db db' a"
  by (simp_all add: with_db_def app_db_def app_runtime_def)

lemma run_stored: "run_state (stored q) a = (fst (run_state q (app_db a)), with_db (snd (run_state q (app_db a))) a)"
  by (simp add: stored_def in_gateway_def run_on_db gateway_of_def set_gateway_def with_db_def app_db_def)

lemma run_set_runtime: "run_state (set_runtime f) a = ((), a\<lparr>ap_world := (ap_world a)\<lparr>w_runtime := f (app_runtime a)\<rparr>\<rparr>)"
  by (simp add: set_runtime_def run_in_world app_runtime_def)

lemma run_heal: "run_state (heal i) a =
    ((), a\<lparr>ap_world := (ap_world a)\<lparr>w_runtime := reset_provider_to_healthy (app_runtime a) i\<rparr>\<rparr>)"
  by (simp add: heal_def run_set_runtime)

text \<open>Queries that leave the tables alone.\<close>

definition looks :: "'a query \<Rightarrow> bool" where
  "looks q \<longleftrightarrow> (\<forall>db. \<exists>fs. snd (run_state q db) = db\<lparr>db_faults := fs\<rparr>)"

lemma looks_reads: "reads q f \<Longrightarrow> looks q"
  by (auto simp: looks_def dest: readsD(2))

lemma looks_basic [simp]: "looks (fetch f)" "looks (ok_ret a)" "looks (fail_ret e)"
proof -
  show "looks (fetch f)"
    unfolding looks_def
  proof
    fix db
    show "\<exists>fs. snd (run_state (fetch f) db) = db\<lparr>db_faults := fs\<rparr>"
      by (rule run_query_stmt_cases [of "\<lambda>db. Inr (f db, db)" db]) (auto simp: fetch_def)
  qed
  have "db = db\<lparr>db_faults := db_faults db\<rparr>" for db :: database by simp
  then show "looks (ok_ret a)" "looks (fail_ret e)" unfolding looks_def run_ok_ret run_fail_ret snd_conv by metis+
qed

lemma looks_attempt: "looks q \<Longrightarrow> (\<And>x. looks (f x)) \<Longrightarrow> looks (attempt q f)"
proof (unfold looks_def, intro allI)
  fix db assume q: "\<forall>db. \<exists>fs. snd (run_state q db) = db\<lparr>db_faults := fs\<rparr>"
    and f: "\<And>x. \<forall>db. \<exists>fs. snd (run_state (f x) db) = db\<lparr>db_faults := fs\<rparr>"
  obtain r db1 where r: "run_state q db = (r, db1)" by (cases "run_state q db")
  with q obtain fs where db1: "db1 = db\<lparr>db_faults := fs\<rparr>" by (metis snd_conv)
  show "\<exists>fs. snd (run_state (attempt q f) db) = db\<lparr>db_faults := fs\<rparr>"
  proof (cases r)
    case (Inl e)
    with r db1 show ?thesis by (auto simp: run_attempt)
  next
    case (Inr x)
    from f [of x] obtain fs' where "snd (run_state (f x) db1) = db1\<lparr>db_faults := fs'\<rparr>" by blast
    with Inr r db1 show ?thesis by (auto simp: run_attempt)
  qed
qed

lemma looks_get_provider: "looks (get_provider i)"
  unfolding get_provider_def by (rule looks_attempt) (auto split: option.split)

lemma looks_oauth: "looks (get_oauth_state i)" "looks (oauth_credential_configured i)"
  unfolding get_oauth_state_def oauth_credential_configured_def by (simp_all add: looks_attempt)

section \<open>Edits take effect\<close>

text \<open>A step that only looks at the tables and leaves work to the background.\<close>

definition observes :: "'a app_step \<Rightarrow> bool" where
  "observes m \<longleftrightarrow> (\<forall>a. \<exists>fs pending. snd (run_state m a) =
     (with_db ((app_db a)\<lparr>db_faults := fs\<rparr>) a)\<lparr>ap_pending := pending\<rparr>)"

lemma observes_ok_ret: "observes (ok_ret x)"
proof -
  have "a = (with_db ((app_db a)\<lparr>db_faults := db_faults (app_db a)\<rparr>) a)\<lparr>ap_pending := ap_pending a\<rparr>" for a :: app
    by (simp add: with_db_def app_db_def)
  then show ?thesis unfolding observes_def run_ok_ret snd_conv by metis
qed

lemma observes_stored:
  assumes "looks q"
  shows "observes (stored q)"
  unfolding observes_def
proof
  fix a :: app
  from assms obtain fs where "snd (run_state q (app_db a)) = (app_db a)\<lparr>db_faults := fs\<rparr>" by (auto simp: looks_def)
  then have "snd (run_state (stored q) a) = (with_db ((app_db a)\<lparr>db_faults := fs\<rparr>) a)\<lparr>ap_pending := ap_pending a\<rparr>"
    by (simp add: run_stored with_db_def)
  then show "\<exists>fs pending. snd (run_state (stored q) a) = (with_db ((app_db a)\<lparr>db_faults := fs\<rparr>) a)\<lparr>ap_pending := pending\<rparr>"
    by metis
qed

lemma observes_trans:
  "b = (with_db ((app_db a)\<lparr>db_faults := fs\<rparr>) a)\<lparr>ap_pending := p\<rparr> \<Longrightarrow>
   c = (with_db ((app_db b)\<lparr>db_faults := fs'\<rparr>) b)\<lparr>ap_pending := p'\<rparr> \<Longrightarrow>
   c = (with_db ((app_db a)\<lparr>db_faults := fs'\<rparr>) a)\<lparr>ap_pending := p'\<rparr>"
  by (simp add: with_db_def app_db_def)

lemma observes_attempt:
  assumes m: "observes m" and f: "\<And>x. observes (f x)"
  shows "observes (attempt m f)"
  unfolding observes_def
proof
  fix a :: app
  obtain r b where r: "run_state m a = (r, b)" by (cases "run_state m a")
  with m obtain fs p where b: "b = (with_db ((app_db a)\<lparr>db_faults := fs\<rparr>) a)\<lparr>ap_pending := p\<rparr>"
    unfolding observes_def by (metis snd_conv)
  show "\<exists>fs pending. snd (run_state (attempt m f) a) = (with_db ((app_db a)\<lparr>db_faults := fs\<rparr>) a)\<lparr>ap_pending := pending\<rparr>"
  proof (cases r)
    case (Inl e)
    with r b show ?thesis by (auto simp: run_attempt)
  next
    case (Inr x)
    from f [of x] obtain fs' p' where "snd (run_state (f x) b) = (with_db ((app_db b)\<lparr>db_faults := fs'\<rparr>) b)\<lparr>ap_pending := p'\<rparr>"
      unfolding observes_def by blast
    from observes_trans [OF b this] r Inr have "snd (run_state (attempt m f) a) =
        (with_db ((app_db a)\<lparr>db_faults := fs'\<rparr>) a)\<lparr>ap_pending := p'\<rparr>" by (simp add: run_attempt)
    then show ?thesis by blast
  qed
qed

lemma observes_masked: "observes (masked X p)"
  unfolding masked_def by (auto intro: observes_attempt observes_stored observes_ok_ret looks_oauth)

lemma observes_spawn:
  assumes "observes m"
  shows "observes (do { spawn_bounded_discovery p; m })"
  unfolding observes_def
proof
  fix a :: app
  let ?b = "a\<lparr>ap_pending := ap_pending a @ [p]\<rparr>"
  have b: "?b = (with_db ((app_db a)\<lparr>db_faults := db_faults (app_db a)\<rparr>) a)\<lparr>ap_pending := ap_pending a @ [p]\<rparr>"
    by (simp add: with_db_def app_db_def)
  from assms obtain fs q where "snd (run_state m ?b) = (with_db ((app_db ?b)\<lparr>db_faults := fs\<rparr>) ?b)\<lparr>ap_pending := q\<rparr>"
    unfolding observes_def by blast
  from observes_trans [OF b this]
  show "\<exists>fs pending. snd (run_state (do { spawn_bounded_discovery p; m }) a) =
      (with_db ((app_db a)\<lparr>db_faults := fs\<rparr>) a)\<lparr>ap_pending := pending\<rparr>"
    by (auto simp: spawn_bounded_discovery_def)
qed

lemma run_reload:
  assumes "run_state (in_gateway reload_snapshot) a = (Inr u, b)"
  shows "\<exists>fs. b = (with_db ((app_db a)\<lparr>db_faults := fs\<rparr>) a)\<lparr>ap_snapshot := snapshot_of (app_db a)\<rparr>"
proof -
  let ?g = "gateway_of a"
  obtain r db' where q: "run_state load_snapshot (gw_db ?g) = (r, db')" by (cases "run_state load_snapshot (gw_db ?g)")
  with readsD(2) [OF reads_load_snapshot, of "gw_db ?g"] obtain fs where db': "db' = (gw_db ?g)\<lparr>db_faults := fs\<rparr>" by auto
  from assms q obtain s where r: "r = Inr s"
    and b: "b = set_gateway (?g\<lparr>gw_db := db', gw_snapshot := s\<rparr>) a"
    by (cases r) (auto simp: in_gateway_def reload_snapshot_def run_attempt run_on_db)
  have "s = snapshot_of (gw_db ?g)" using readsD(3) [OF reads_load_snapshot] q r by blast
  with b db' have "b = (with_db ((app_db a)\<lparr>db_faults := fs\<rparr>) a)\<lparr>ap_snapshot := snapshot_of (app_db a)\<rparr>"
    by (simp add: set_gateway_def gateway_of_def with_db_def app_db_def)
  then show ?thesis by blast
qed

text \<open>The common shape: store, touch the health entries, publish, answer.\<close>

lemma change_takes_effect:
  assumes run: "run_state (attempt (stored q) (\<lambda>x. do { set_runtime (f x);
      attempt (in_gateway reload_snapshot) (\<lambda>_. rest x) })) a = (Inr y, a')"
    and rest: "\<And>x. observes (rest x)"
  shows "\<exists>x db. run_state q (app_db a) = (Inr x, db) \<and> ap_snapshot a' = snapshot_of (app_db a')
     \<and> (\<exists>fs. app_db a' = db\<lparr>db_faults := fs\<rparr>) \<and> app_runtime a' = f x (app_runtime a)
     \<and> ap_discovered a' = ap_discovered a"
proof -
  obtain r db where q: "run_state q (app_db a) = (r, db)" by (cases "run_state q (app_db a)")
  from run q obtain x where r: "r = Inr x" by (cases r) (auto simp: run_attempt run_stored)
  let ?b = "(with_db db a)\<lparr>ap_world := (ap_world (with_db db a))\<lparr>w_runtime := f x (app_runtime a)\<rparr>\<rparr>"
  have b: "app_db ?b = db" "app_runtime ?b = f x (app_runtime a)" by (simp_all add: app_db_def app_runtime_def with_db_def)
  from run q r have "run_state (attempt (in_gateway reload_snapshot) (\<lambda>_. rest x)) ?b = (Inr y, a')"
    by (simp add: run_attempt run_stored run_set_runtime)
  then obtain u c where re: "run_state (in_gateway reload_snapshot) ?b = (Inr u, c)" and c: "run_state (rest x) c = (Inr y, a')"
    unfolding run_attempt_Inr_iff by blast
  from run_reload [OF re] obtain fs where cc: "c = (with_db ((app_db ?b)\<lparr>db_faults := fs\<rparr>) ?b)\<lparr>ap_snapshot := snapshot_of (app_db ?b)\<rparr>" by blast
  from rest [of x] c obtain fs' p where "a' = (with_db ((app_db c)\<lparr>db_faults := fs'\<rparr>) c)\<lparr>ap_pending := p\<rparr>"
    unfolding observes_def by (metis snd_conv)
  with cc b have "ap_snapshot a' = snapshot_of db" "app_db a' = db\<lparr>db_faults := fs'\<rparr>" "app_runtime a' = f x (app_runtime a)"
    "ap_discovered a' = ap_discovered a"
    by (simp_all add: with_db_def app_db_def app_runtime_def)
  with q r show ?thesis by (auto simp: snapshot_of_blind)
qed


text \<open>What the four operations leave in the table of providers.\<close>

definition has_provider :: "string \<Rightarrow> database \<Rightarrow> bool" where
  "has_provider i db \<longleftrightarrow> i \<in> prov_id ` set (t_providers db)"

lemma has_provider_faults [simp]: "has_provider i (db\<lparr>db_faults := fs\<rparr>) = has_provider i db"
  by (simp add: has_provider_def)

lemma find_provider_snapshot: "find_provider (snapshot_of db) i = None \<longleftrightarrow> \<not> has_provider i db"
  by (auto simp: find_provider_def snapshot_of_def has_provider_def find_None_iff)

lemma looks_has: "looks q \<Longrightarrow> run_state q db = (r, db') \<Longrightarrow> has_provider i db' = has_provider i db"
  unfolding looks_def by (metis has_provider_faults snd_conv)

lemma get_provider_has:
  assumes "run_state (get_provider i) db = (Inr p, db')"
  shows "has_provider i db' \<and> prov_id p = i"
proof -
  let ?q = "fetch (\<lambda>db. row_with prov_id i (t_providers db))"
  from assms obtain r where q: "run_state ?q db = (Inr r, db')" and r: "r = Some p"
    unfolding get_provider_def run_attempt_Inr_iff by (auto split: option.splits)
  have "reads ?q (\<lambda>db. row_with prov_id i (t_providers db))" by (rule reads_fetch) simp
  from readsD(3) [OF this q] r row_with_SomeD [of prov_id i "t_providers db" p] have "has_provider i db" "prov_id p = i"
    by (auto simp: has_provider_def)
  with looks_has [OF looks_basic(1) q] show ?thesis by simp
qed

lemma insert_provider_has:
  assumes "run_state (insert_provider p) db = (Inr u, db')"
  shows "has_provider (prov_id p) db'"
proof -
  from assms obtain db1 where "run_state (unique_write (name_taken p) (insert_provider_row p) ()) db1 = (Inr u, db')"
    unfolding insert_provider_def run_attempt_Inr_iff by (auto split: if_splits)
  from run_unique_write_Inr [OF this] show ?thesis
    by (auto simp: insert_provider_row_def has_provider_def split: if_splits)
qed

lemma looks_wire_flip: "looks (check_wire_flip i patch p)"
  unfolding check_wire_flip_def by (auto intro!: looks_attempt split: option.split)

lemma looks_members: "looks (check_member_reasoning_overrides p)"
  unfolding check_member_reasoning_overrides_def by (rule looks_attempt) (auto split: option.split)

lemma update_provider_has:
  assumes "run_state (update_provider now i patch) db = (Inr p, db')"
  shows "has_provider i db'"
proof -
  from assms obtain p0 db1 p1 p2 db2 db3 where
      g: "run_state (get_provider i) db = (Inr p0, db1)"
    and w: "run_state (check_wire_flip i patch p1) db1 = (Inr p2, db2)"
    and m: "run_state (check_member_reasoning_overrides p2) db2 = (Inr (), db3)"
    and u: "run_state (unique_write (name_taken (p2\<lparr>prov_updated_at := now\<rparr>))
        (update_provider_row i (p2\<lparr>prov_updated_at := now\<rparr>)) (p2\<lparr>prov_updated_at := now\<rparr>)) db3 = (Inr p, db')"
    unfolding update_provider_def run_attempt_Inr_iff Let_def run_check by auto
  have "has_provider i db3"
    using get_provider_has [OF g] looks_has [OF looks_wire_flip w] looks_has [OF looks_members m] by simp
  moreover have "map prov_id (update_where P (write_columns q) ps) = map prov_id ps" for P q ps
    by (rule map_update_where) simp
  then have "prov_id ` set (update_where P (write_columns q) ps) = prov_id ` set ps" for P q ps by (metis set_map)
  ultimately show ?thesis using run_unique_write_Inr [OF u]
    by (auto simp: update_provider_row_def has_provider_def Let_def split: if_splits)
qed

lemma delete_provider_has:
  assumes "run_state (delete_provider i) db = (Inr u, db')"
  shows "\<not> has_provider i db'"
proof -
  let ?f = "\<lambda>db. Inr (delete_provider_rows i db)"
  from assms obtain n where "run_state (query_stmt ?f) db = (Inr n, db')"
    unfolding delete_provider_def run_attempt_Inr_iff by (auto split: if_splits)
  note q = this
  show ?thesis
    by (rule run_query_stmt_cases [of ?f db]) (use q in \<open>auto simp: delete_provider_rows_def has_provider_def\<close>)
qed

lemma clear_tokens_has:
  assumes "run_state (clear_oauth_tokens i) db = (Inr u, db')"
  shows "has_provider j db' = has_provider j db"
proof -
  let ?f = "\<lambda>db. Inr ((), db\<lparr>t_oauth := filter (\<lambda>o'. os_provider_id o' \<noteq> i) (t_oauth db)\<rparr>)"
  from assms have q: "run_state (query_stmt ?f) db = (Inr u, db')" by (simp add: clear_oauth_tokens_def execute_stmt_def)
  show ?thesis by (rule run_query_stmt_cases [of ?f db]) (use q in \<open>auto simp: has_provider_def\<close>)
qed

section \<open>The four edits\<close>

text \<open>Every pair of the provider may be called, and nobody else's entry is touched.\<close>

definition fresh_start :: "string \<Rightarrow> runtime_map \<Rightarrow> runtime_map \<Rightarrow> bool" where
  "fresh_start i m m' \<longleftrightarrow>
     (\<forall>model now. callable m' (runtime_key i model) now)
   \<and> (\<forall>k. \<not> starts_with k (runtime_key_prefix i) \<longrightarrow> dm_get m' k = dm_get m k)"

lemma fresh_start_reset: "fresh_start i m (reset_provider_to_healthy m i)"
  by (auto simp: fresh_start_def reset_provider_to_healthy_def callable_def store_simps
      starts_with_runtime_key runtime_defs split: option.split)

lemma fresh_start_retain: "dm_ok m \<Longrightarrow> fresh_start i m (dm_retain (\<lambda>k _. \<not> starts_with k (runtime_key_prefix i)) m)"
  by (auto simp: fresh_start_def callable_def store_simps starts_with_runtime_key opt_filter_def split: option.split)

lemma normalized_id: "normalize_new p = Inr p' \<Longrightarrow> prov_id p' = trim (prov_id p)"
  by (auto simp: normalize_new_def Let_def res_bind_Inr_iff split: if_splits)

lemma create_takes_effect:
  assumes "run_state (provider_create X b) a = (Inr j, a')"
  shows "ap_snapshot a' = snapshot_of (app_db a') \<and> has_provider (trim (cb_id b)) (app_db a')
     \<and> app_runtime a' = reset_provider_to_healthy (app_runtime a) (trim (cb_id b))"
proof -
  define a1 where "a1 = a\<lparr>ap_world := (ap_world a)\<lparr>w_tick := Suc (w_tick (ap_world a))\<rparr>\<rparr>"
  then have a1: "app_runtime a1 = app_runtime a" by (simp add: app_runtime_def)
  from assms obtain p where p: "normalize_new (created_row b (env_wall (ou_env X) (w_tick (ap_world a)))) = Inr p"
    and run: "run_state (attempt (stored (insert_provider p)) (\<lambda>_. do {
         set_runtime (\<lambda>m. reset_provider_to_healthy m (prov_id p));
         attempt (in_gateway reload_snapshot) (\<lambda>_. do { spawn_bounded_discovery p; masked X p }) })) a1 = (Inr j, a')"
    unfolding provider_create_def heal_def
    by (auto simp: run_attempt_Inr_iff [of "check _"] run_in_world read_wall_def next_tick_def a1_def)
  from normalized_id [OF p] have i: "prov_id p = trim (cb_id b)" by (simp add: created_row_def)
  from change_takes_effect [OF run observes_spawn [OF observes_masked]] a1 insert_provider_has i show ?thesis
    by (metis has_provider_faults)
qed

lemma edit_takes_effect:
  assumes "run_state (provider_edit X i patch) a = (Inr j, a')"
  shows "ap_snapshot a' = snapshot_of (app_db a') \<and> has_provider i (app_db a')
     \<and> app_runtime a' = reset_provider_to_healthy (app_runtime a) i"
proof -
  define a1 where "a1 = a\<lparr>ap_world := (ap_world a)\<lparr>w_tick := Suc (w_tick (ap_world a))\<rparr>\<rparr>"
  then have a1: "app_runtime a1 = app_runtime a" by (simp add: app_runtime_def)
  from assms obtain now where run: "run_state (attempt (stored (update_provider now i patch)) (\<lambda>p. do {
         set_runtime (\<lambda>m. reset_provider_to_healthy m i);
         attempt (in_gateway reload_snapshot) (\<lambda>_. masked X p) })) a1 = (Inr j, a')"
    unfolding provider_edit_def heal_def by (auto simp: run_in_world read_wall_def next_tick_def a1_def)
  from change_takes_effect [OF run observes_masked] a1 update_provider_has show ?thesis
    by (metis has_provider_faults)
qed

lemma remove_takes_effect:
  assumes "run_state (provider_remove i) a = (Inr u, a')"
  shows "ap_snapshot a' = snapshot_of (app_db a') \<and> \<not> has_provider i (app_db a')
     \<and> app_runtime a' = dm_retain (\<lambda>k _. \<not> starts_with k (runtime_key_prefix i)) (app_runtime a)
     \<and> ap_discovered a' = ap_discovered a"
  using change_takes_effect [OF assms [unfolded provider_remove_def] observes_ok_ret] delete_provider_has
  by (metis has_provider_faults)

lemma disconnect_takes_effect:
  assumes "run_state (disconnect_oauth i) a = (Inr u, a')"
  shows "ap_snapshot a' = snapshot_of (app_db a') \<and> has_provider i (app_db a')
     \<and> app_runtime a' = reset_provider_to_healthy (app_runtime a) i"
proof -
  from assms obtain p a1 where g: "run_state (stored (get_provider i)) a = (Inr p, a1)"
    and run: "run_state (attempt (stored (clear_oauth_tokens i)) (\<lambda>_. do {
         set_runtime (\<lambda>m. reset_provider_to_healthy m i);
         attempt (in_gateway reload_snapshot) (\<lambda>_. ok_ret ()) })) a1 = (Inr u, a')"
    unfolding disconnect_oauth_def heal_def run_attempt_Inr_iff [of "stored (get_provider i)"] by (auto split: if_splits)
  from g obtain db where "run_state (get_provider i) (app_db a) = (Inr p, db)" and a1: "a1 = with_db db a"
    by (auto simp: run_stored prod_eq_iff)
  then have "has_provider i (app_db a1)" "app_runtime a1 = app_runtime a" using get_provider_has by auto
  with change_takes_effect [OF run observes_ok_ret] clear_tokens_has show ?thesis by (metis has_provider_faults)
qed

end
