(* ===== verification/ProbeSpec.thy ===== *)
theory ProbeSpec
  imports ProviderRoutesSpec
begin

text \<open>
  What the probes may change: whatever they find, the tables keep their rows and the proxy its
  snapshot, at most two requests leave, and health flags are cleared only when the last of them
  was answered with a success, which is also what the administrator is told.  A form that is not
  saved is tried without looking at any stored row, and what discovery finds is what the model
  list and the check of direct addresses read.
\<close>

section \<open>Steps that send\<close>

text \<open>\<open>sends new a b\<close>: from \<open>a\<close> to \<open>b\<close> the requests \<open>new\<close> left, and configuration and health stayed.\<close>

definition sends :: "sent list \<Rightarrow> app \<Rightarrow> app \<Rightarrow> bool" where
  "sends new a b \<longleftrightarrow>
     ap_sent b = ap_sent a @ new \<and> (\<exists>fs. app_db b = (app_db a)\<lparr>db_faults := fs\<rparr>) \<and> app_runtime b = app_runtime a
   \<and> ap_snapshot b = ap_snapshot a \<and> ap_discovered b = ap_discovered a \<and> ap_pending b = ap_pending a"

lemma same_tables [simp]: "\<exists>fs. db = db\<lparr>db_faults := fs\<rparr>" for db :: database
  by (rule exI [of _ "db_faults db"]) simp

lemma sends_refl: "sends [] a a"
  by (simp add: sends_def)

lemma sends_trans: "sends xs a b \<Longrightarrow> sends ys b c \<Longrightarrow> sends (xs @ ys) a c"
  by (auto simp: sends_def)

lemma sends_looks: "looks q \<Longrightarrow> run_state (stored q) a = (r, b) \<Longrightarrow> sends [] a b"
  by (auto simp: run_stored looks_def sends_def)

lemma run_build_with:
  assumes "run_state (build_with X p body creds) a = (r, b)"
  shows "sends [] a b"
  using assms unfolding build_with_def sends_def by (auto simp: run_in_world next_tick_def app_db_def app_runtime_def)

lemma run_credentials:
  assumes "run_state (in_world (credentials_for p)) a = (creds, b)"
  shows "sends [] a b"
proof -
  obtain r db where q: "run_state (get_oauth_state (prov_id p)) (app_db a) = (r, db)"
    by (cases "run_state (get_oauth_state (prov_id p)) (app_db a)")
  with looks_oauth(1) obtain fs where "db = (app_db a)\<lparr>db_faults := fs\<rparr>" unfolding looks_def by (metis snd_conv)
  with assms q show ?thesis
    by (auto simp: credentials_for_def run_in_world on_database_def sends_def app_db_def app_runtime_def)
qed

lemma run_execute_shared:
  assumes "run_state (execute_shared X rq) a = (r, b)"
  shows "sends [Shared rq] a b \<and> (\<exists>t. r = (case env_execute (ou_env X) t rq of Inl e \<Rightarrow> Inl (he_text e) | Inr up \<Rightarrow> Inr up))"
  using assms unfolding execute_shared_def sends_def by (auto simp: run_in_world next_tick_def app_db_def app_runtime_def)

lemma run_execute_dedicated:
  assumes "run_state (execute_dedicated X rq) a = (r, b)"
  shows "sends [Dedicated rq] a b \<and> (\<exists>t. r = ou_probe X t rq)"
  using assms unfolding execute_dedicated_def sends_def by (auto simp: run_in_world next_tick_def app_db_def app_runtime_def)

section \<open>The test of an endpoint\<close>

text \<open>An answer that proves the provider works.\<close>

definition proven :: "outside \<Rightarrow> sent list \<Rightarrow> bool" where
  "proven X new \<longleftrightarrow> new \<noteq> [] \<and> (\<exists>t up. is_success (up_status up) \<and>
     (case last new of Shared rq \<Rightarrow> env_execute (ou_env X) t rq = Inr up
                     | Dedicated rq \<Rightarrow> ou_probe X t rq = Inr up))"

lemma classify_probe_ok: "pr_category (classify_probe code body) = ''ok'' \<longleftrightarrow> is_success code"
  by (simp add: classify_probe_def Let_def)

lemma classify_probe_status: "pr_status (classify_probe code body) = Some code"
  by (simp add: classify_probe_def Let_def)

lemma no_status [simp]: "pr_status (unanswered c m) = None" "pr_status (oauth_probe creds) = None"
  by (simp_all add: unanswered_def oauth_probe_def)

lemma run_probe_provider:
  assumes "run_state (probe_provider X p creds) a = (r, b)"
  shows "\<exists>new. sends new a b \<and> length new \<le> 1
     \<and> (\<forall>res. r = Done res \<and> pr_category res = ''ok'' \<and> pr_status res \<noteq> None \<longrightarrow> proven X new)"
proof -
  consider (early) res where "b = a" "r = Done res" "pr_status res = None"
    | (build) bo c where "run_state (build_with X p (env_print_json (ou_env X) (probe_body (prov_wire_format p))) creds) a = (bo, c)"
        "run_state (probe_built X bo) c = (r, b)"
    using assms unfolding probe_provider_def
    by (auto split: if_splits option.splits prod.splits)
  then show ?thesis
  proof cases
    case early
    then show ?thesis using sends_refl [of a] by (intro exI [of _ "[]"]) simp
  next
    case build
    from run_build_with [OF build(1)] have c: "sends [] a c" .
    show ?thesis
    proof (cases "\<exists>rq. bo = Done (Inr rq)")
      case False
      with build(2) have "b = c" "\<forall>res. r = Done res \<longrightarrow> pr_status res = None"
        by (auto simp: probe_built_def split: outcome.splits sum.splits)
      with c show ?thesis by (intro exI [of _ "[]"]) auto
    next
      case True
      then obtain rq where bo: "bo = Done (Inr rq)" by blast
      obtain o' d where o': "run_state (execute_dedicated X rq) c = (o', d)" by (cases "run_state (execute_dedicated X rq) c")
      with build(2) bo have b: "b = d" and r: "r = Done (probed X o')" by (auto simp: probe_built_def)
      from run_execute_dedicated [OF o'] obtain t where s: "sends [Dedicated rq] c d" and t: "o' = ou_probe X t rq" by blast
      have "proven X [Dedicated rq]" if "pr_category (probed X o') = ''ok''" "pr_status (probed X o') \<noteq> None"
      proof -
        from that(2) obtain up where up: "o' = Inr up"
          by (cases o') (auto simp: probed_def split: if_splits)
        with that(1) have "is_success (up_status up)" by (simp add: probed_def classify_probe_ok)
        with up t show ?thesis unfolding proven_def by auto
      qed
      with sends_trans [OF c s] b r show ?thesis by (intro exI [of _ "[Dedicated rq]"]) auto
    qed
  qed
qed

text \<open>What a probe may do to the state: nothing but clear flags it has the proof for.\<close>

definition heals :: "outside \<Rightarrow> string \<Rightarrow> bool \<Rightarrow> sent list \<Rightarrow> app \<Rightarrow> app \<Rightarrow> bool" where
  "heals X i healed new a b \<longleftrightarrow> length new \<le> 2 \<and> ap_sent b = ap_sent a @ new \<and> (\<exists>fs. app_db b = (app_db a)\<lparr>db_faults := fs\<rparr>)
     \<and> ap_snapshot b = ap_snapshot a \<and> ap_discovered b = ap_discovered a
     \<and> app_runtime b = (if healed then reset_provider_to_healthy (app_runtime a) i else app_runtime a)
     \<and> (healed \<longrightarrow> proven X new)"

lemma run_step:
  "run_state (step m f) a = (case run_state m a of
      (Panicked, b) \<Rightarrow> (Panicked, b) | (Done (Inl e), b) \<Rightarrow> (Done (Inl e), b) | (Done (Inr x), b) \<Rightarrow> run_state (f x) b)"
  by (simp add: step_def split: prod.split outcome.split sum.split)

lemma run_sure: "run_state (sure m) a = (Done (fst (run_state m a)), snd (run_state m a))"
  by (simp add: sure_def split: prod.split)

lemma heals_sends: "sends new a b \<Longrightarrow> length new \<le> 2 \<Longrightarrow> heals X i False new a b"
  by (auto simp: heals_def sends_def)

lemma heals_heal:
  assumes "sends new a b" and "length new \<le> 2" and "proven X new"
  shows "heals X i True new a (snd (run_state (heal i) b))"
  using assms by (auto simp: heals_def sends_def run_heal app_db_def app_runtime_def)

text \<open>The test tells success for an endpoint it reached, and only then are the flags cleared.\<close>

definition told_reached :: "(app_error + json) outcome \<Rightarrow> bool" where
  "told_reached r \<longleftrightarrow> (case r of
     Done (Inr v) \<Rightarrow> jget v ''category'' = Some (JStr ''ok'') \<and> jget v ''status'' \<noteq> Some JNull | _ \<Rightarrow> False)"

lemma told_reached_simps [simp]:
  "told_reached (Done (Inr (probe_json res))) \<longleftrightarrow> pr_category res = ''ok'' \<and> pr_status res \<noteq> None"
  "\<not> told_reached (Done (Inl e))" "\<not> told_reached Panicked"
  by (auto simp: told_reached_def probe_json_def jget_jobj opt_num_def split: option.splits)

lemma heals_after: "sends [] a b \<Longrightarrow> heals X i healed new b c \<Longrightarrow> heals X i healed new a c"
  by (auto simp: heals_def sends_def)

lemma told_test:
  assumes "run_state (do { r \<leftarrow> probe_provider X p creds;
      case r of
        Panicked \<Rightarrow> ret Panicked
      | Done res \<Rightarrow> do {
          (if pr_category res = ''ok'' \<and> pr_status res \<noteq> None then heal i else ret ());
          ret (Done (Inr (probe_json res))) } }) a = (r, b)"
  shows "\<exists>new. heals X i (told_reached r) new a b"
proof -
  obtain q e where q: "run_state (probe_provider X p creds) a = (q, e)" by (cases "run_state (probe_provider X p creds) a")
  from run_probe_provider [OF q] obtain new where new: "sends new a e" "length new \<le> 2"
    and sure_of: "\<And>res. q = Done res \<Longrightarrow> pr_category res = ''ok'' \<Longrightarrow> pr_status res \<noteq> None \<Longrightarrow> proven X new" by force
  note still = heals_sends [OF new, of X i] and cured = heals_heal [OF new, of X i]
  show ?thesis
  proof (cases q)
    case Panicked
    with assms q still show ?thesis by auto
  next
    case (Done res)
    with assms q have "r = Done (Inr (probe_json res))"
      "b = (if pr_category res = ''ok'' \<and> pr_status res \<noteq> None then snd (run_state (heal i) e) else e)"
      by (auto simp: run_heal split: if_splits)
    with still cured sure_of [OF Done] show ?thesis
      by (cases "pr_category res = ''ok'' \<and> pr_status res \<noteq> None") auto
  qed
qed

lemma test_heals:
  assumes "run_state (test_stub X i) a = (r, b)"
  shows "\<exists>new. heals X i (told_reached r) new a b"
proof -
  obtain g c where g: "run_state (stored (get_provider i)) a = (g, c)" by (cases "run_state (stored (get_provider i)) a")
  from sends_looks [OF looks_get_provider g] have c: "sends [] a c" .
  show ?thesis
  proof (cases g)
    case (Inl e)
    with g assms have "told_reached r = False" "b = c" by (auto simp: test_stub_def run_step run_sure)
    with heals_sends [OF c, of X i] show ?thesis by auto
  next
    case (Inr p)
    obtain os d where os: "run_state (stored (get_oauth_state i)) c = (os, d)" by (cases "run_state (stored (get_oauth_state i)) c")
    from sends_trans [OF c sends_looks [OF looks_oauth(1) os]] have d: "sends [] a d" by simp
    from assms g Inr os have "run_state (do { r \<leftarrow> probe_provider X p (probe_credentials p os);
        case r of
          Panicked \<Rightarrow> ret Panicked
        | Done res \<Rightarrow> do {
            (if pr_category res = ''ok'' \<and> pr_status res \<noteq> None then heal i else ret ());
            ret (Done (Inr (probe_json res))) } }) d = (r, b)"
      by (simp add: test_stub_def run_step run_sure del: not_None_eq)
    from told_test [OF this] heals_after [OF d] show ?thesis by blast
  qed
qed

section \<open>Trying a model\<close>

lemma verdict_ok: "verdict r = Inr code \<Longrightarrow> \<exists>up. r = Inr up \<and> is_success (up_status up)"
  by (auto simp: verdict_def split: sum.splits if_splits)

lemma execute_proves:
  assumes "run_state (execute_shared X rq) a = (r, b)"
  shows "sends [Shared rq] a b" and "verdict r = Inr code \<Longrightarrow> proven X [Shared rq]"
proof -
  from run_execute_shared [OF assms] obtain t where s: "sends [Shared rq] a b"
    and r: "r = (case env_execute (ou_env X) t rq of Inl e \<Rightarrow> Inl (he_text e) | Inr up \<Rightarrow> Inr up)" by blast
  show "sends [Shared rq] a b" by (rule s)
  assume "verdict r = Inr code"
  from verdict_ok [OF this] r show "proven X [Shared rq]" unfolding proven_def by (auto split: sum.splits)
qed

lemma proven_last: "ys \<noteq> [] \<Longrightarrow> proven X (xs @ ys) = proven X ys"
  by (simp add: proven_def)

lemma run_retry_generate:
  assumes "run_state (retry_generate X p creds body) a = (r, b)"
  shows "\<exists>new. sends new a b \<and> length new \<le> 1 \<and> (\<forall>code. r = Done (Inr code) \<longrightarrow> new \<noteq> [] \<and> proven X new)"
proof -
  let ?a = "a\<lparr>ap_world := (ap_world a)\<lparr>w_transports := dm_put (prov_id p) GenerateTransport (w_transports (ap_world a))\<rparr>\<rparr>"
  have a: "sends [] a ?a" by (simp add: sends_def app_db_def app_runtime_def)
  obtain bo c where bo: "run_state (build_with X p body creds) ?a = (bo, c)" by (cases "run_state (build_with X p body creds) ?a")
  from sends_trans [OF a run_build_with [OF bo]] have c: "sends [] a c" by simp
  show ?thesis
  proof (cases "\<exists>rq. bo = Done (Inr rq)")
    case False
    with assms bo have "b = c" "\<forall>code. r \<noteq> Done (Inr code)"
      by (auto simp: retry_generate_def run_in_world split: outcome.splits sum.splits)
    with c show ?thesis by (intro exI [of _ "[]"]) auto
  next
    case True
    then obtain rq where rq: "bo = Done (Inr rq)" by blast
    obtain q d where q: "run_state (execute_shared X rq) c = (q, d)" by (cases "run_state (execute_shared X rq) c")
    with assms bo rq have r: "r = Done (verdict q)" and b: "b = d"
      by (auto simp: retry_generate_def run_in_world)
    from sends_trans [OF c execute_proves(1) [OF q]] execute_proves(2) [OF q] r b show ?thesis
      by (intro exI [of _ "[Shared rq]"]) auto
  qed
qed

lemma run_probe_response:
  assumes "run_state (probe_response X p creds body rq) a = (r, b)"
  shows "\<exists>new. sends new a b \<and> length new \<le> 2 \<and> (\<forall>code. r = Done (Inr code) \<longrightarrow> new \<noteq> [] \<and> proven X new)"
proof -
  obtain q c where q: "run_state (execute_shared X rq) a = (q, c)" by (cases "run_state (execute_shared X rq) a")
  note sent = execute_proves [OF q]
  consider (once) "r = Done (verdict q)" "b = c" | (twice) "run_state (retry_generate X p creds body) c = (r, b)"
    using assms q by (cases q) (auto simp: probe_response_def run_in_world split: if_splits)
  then show ?thesis
  proof cases
    case once
    with sent show ?thesis by (intro exI [of _ "[Shared rq]"]) auto
  next
    case twice
    from run_retry_generate [OF this] obtain new where new: "sends new c b" "length new \<le> 1"
      "\<forall>code. r = Done (Inr code) \<longrightarrow> new \<noteq> [] \<and> proven X new" by blast
    with sends_trans [OF sent(1) new(1)] proven_last [of new X "[Shared rq]"] show ?thesis
      by (intro exI [of _ "[Shared rq] @ new"]) auto
  qed
qed

lemma accepted_ok: "jget (accepted code) ''ok'' = Some (JBool True)"
  by (simp add: accepted_def jget_jobj)

lemma refusals_not_ok: "verdict r = Inl v \<Longrightarrow> jget v ''ok'' = Some (JBool False)"
  by (auto simp: verdict_def refused_def refused_with_def jget_jobj split: sum.splits if_splits)

lemma retry_refusals:
  assumes "run_state (retry_generate X p creds body) a = (Done (Inl v), b)"
  shows "jget v ''ok'' = Some (JBool False)"
  using assms refusals_not_ok
  by (auto simp: retry_generate_def run_in_world refused_def jget_jobj split: prod.splits outcome.splits sum.splits)

lemma probe_refusals:
  assumes "run_state (probe_response X p creds body rq) a = (Done (Inl v), b)"
  shows "jget v ''ok'' = Some (JBool False)"
proof -
  obtain q c where q: "run_state (execute_shared X rq) a = (q, c)" by (cases "run_state (execute_shared X rq) a")
  consider "verdict q = Inl v" | "run_state (retry_generate X p creds body) c = (Done (Inl v), b)"
    using assms q by (cases q) (auto simp: probe_response_def run_in_world split: if_splits)
  then show ?thesis using refusals_not_ok retry_refusals by cases blast+
qed

text \<open>What the administrator is told of a model is what the state says of it.\<close>

definition told_ok :: "(app_error + json) outcome \<Rightarrow> bool" where
  "told_ok r \<longleftrightarrow> (case r of Done (Inr v) \<Rightarrow> jget v ''ok'' = Some (JBool True) | _ \<Rightarrow> False)"

lemma told_ok_simps [simp]:
  "told_ok (Done (Inr (accepted code)))" "\<not> told_ok (Done (Inl e))" "\<not> told_ok Panicked"
  by (simp_all add: told_ok_def accepted_ok)

lemma told_probe:
  assumes "run_state (do { r \<leftarrow> probe_response X p creds body rq;
      case r of
        Panicked \<Rightarrow> ret Panicked
      | Done (Inr code) \<Rightarrow> do { heal i; ret (Done (Inr (accepted code))) }
      | Done (Inl outcome) \<Rightarrow> ret (Done (Inr outcome)) }) a = (r, b)"
  shows "\<exists>new. heals X i (told_ok r) new a b"
proof -
  obtain q f where q: "run_state (probe_response X p creds body rq) a = (q, f)" by (cases "run_state (probe_response X p creds body rq) a")
  from run_probe_response [OF q] obtain new where new: "sends new a f" "length new \<le> 2"
    and sure_of: "\<And>code. q = Done (Inr code) \<Longrightarrow> proven X new" by blast
  from assms q have run: "(r, b) = (case q of
      Panicked \<Rightarrow> (Panicked, f) | Done (Inr code) \<Rightarrow> (Done (Inr (accepted code)), snd (run_state (heal i) f))
    | Done (Inl v) \<Rightarrow> (Done (Inr v), f))"
    by (simp add: run_heal split: outcome.splits sum.splits)
  show ?thesis
  proof (cases "\<exists>code. q = Done (Inr code)")
    case True
    with run sure_of heals_heal [OF new, of X i] show ?thesis by auto
  next
    case False
    with run probe_refusals [of X p creds body rq a _ f] q have "b = f" "told_ok r = False"
      by (auto simp: told_ok_def split: outcome.splits sum.splits)
    with heals_sends [OF new, of X i] show ?thesis by auto
  qed
qed

lemma validate_heals:
  assumes "run_state (validate_model X i model) a = (r, b)"
  shows "\<exists>new. heals X i (told_ok r) new a b"
proof -
  have quiet: ?thesis if "sends [] a b" "told_ok r = False"
    using that heals_sends [of "[]" a b X i] by auto
  obtain g c where g: "run_state (stored (get_provider i)) a = (g, c)" by (cases "run_state (stored (get_provider i)) a")
  from sends_looks [OF looks_get_provider g] have c: "sends [] a c" .
  show ?thesis
  proof (cases g)
    case (Inl e)
    with g assms c show ?thesis by (intro quiet) (auto simp: validate_model_def run_step run_sure)
  next
    case (Inr p)
    let ?p = "p\<lparr>prov_upstream_model := model_to_try model p\<rparr>"
    let ?body = "env_print_json (ou_env X) (hello_body (prov_upstream_model ?p))"
    obtain creds d where cr: "run_state (in_world (credentials_for ?p)) c = (creds, d)"
      by (cases "run_state (in_world (credentials_for ?p)) c")
    from sends_trans [OF c run_credentials [OF cr]] have d: "sends [] a d" by simp
    obtain bo e where bo: "run_state (build_with X ?p ?body creds) d = (bo, e)" by (cases "run_state (build_with X ?p ?body creds) d")
    from sends_trans [OF d run_build_with [OF bo]] have e: "sends [] a e" by simp
    show ?thesis
    proof (cases "\<exists>rq. bo = Done (Inr rq)")
      case False
      with assms g Inr cr bo e show ?thesis
        by (intro quiet) (auto simp: validate_model_def Let_def run_step run_sure split: outcome.splits sum.splits)
    next
      case True
      then obtain rq where rq: "bo = Done (Inr rq)" by blast
      with assms g Inr cr bo have "run_state (do { r \<leftarrow> probe_response X ?p creds ?body rq;
          case r of
            Panicked \<Rightarrow> ret Panicked
          | Done (Inr code) \<Rightarrow> do { heal i; ret (Done (Inr (accepted code))) }
          | Done (Inl outcome) \<Rightarrow> ret (Done (Inr outcome)) }) e = (r, b)"
        by (simp add: validate_model_def Let_def run_step run_sure)
      from told_probe [OF this] heals_after [OF e] show ?thesis by blast
    qed
  qed
qed

section \<open>Forms that are not saved\<close>

text \<open>A step that neither reads nor writes the tables: it runs the same above any others.\<close>

definition needs_no_tables :: "'a app_step \<Rightarrow> bool" where
  "needs_no_tables m \<longleftrightarrow>
     (\<forall>a db. run_state m (with_db db a) = (fst (run_state m a), with_db db (snd (run_state m a))))"

lemma needs_no_tables_bind:
  "needs_no_tables m \<Longrightarrow> (\<And>x. needs_no_tables (f x)) \<Longrightarrow> needs_no_tables (State_Monad.bind m f)"
  by (simp add: needs_no_tables_def split: prod.split)

lemma needs_no_tables_ret: "needs_no_tables (ret x)" "needs_no_tables (check r)" "needs_no_tables (fail_ret e)"
  by (simp_all add: needs_no_tables_def)

lemma needs_no_tables_attempt:
  "needs_no_tables m \<Longrightarrow> (\<And>x. needs_no_tables (f x)) \<Longrightarrow> needs_no_tables (attempt m f)"
  unfolding attempt_def by (auto intro!: needs_no_tables_bind needs_no_tables_ret split: sum.split)

lemma needs_no_tables_step:
  "needs_no_tables m \<Longrightarrow> (\<And>x. needs_no_tables (f x)) \<Longrightarrow> needs_no_tables (step m f)"
  unfolding step_def by (auto intro!: needs_no_tables_bind needs_no_tables_ret split: sum.split outcome.split)

lemma needs_no_tables_sure: "needs_no_tables m \<Longrightarrow> needs_no_tables (sure m)"
  unfolding sure_def by (intro needs_no_tables_bind needs_no_tables_ret)

lemma needs_no_tables_basic:
  "needs_no_tables (in_world (read_wall E))" "needs_no_tables (in_world next_tick)"
  "needs_no_tables (in_world (gets w_transports))" "needs_no_tables (update_by (\<lambda>a. a\<lparr>ap_sent := ap_sent a @ [q]\<rparr>))"
  by (simp_all add: needs_no_tables_def run_in_world read_wall_def next_tick_def with_db_def)

lemmas needs_no_tables_rules = needs_no_tables_bind needs_no_tables_ret needs_no_tables_attempt
  needs_no_tables_step needs_no_tables_sure needs_no_tables_basic

lemma needs_no_tables_execute:
  "needs_no_tables (execute_shared X rq)" "needs_no_tables (execute_dedicated X rq)"
  "needs_no_tables (build_with X p body creds)"
  unfolding execute_shared_def execute_dedicated_def build_with_def by (intro needs_no_tables_rules)+

lemma needs_no_tables_fetch: "needs_no_tables (fetch_live_models X p)"
  unfolding fetch_live_models_def send_shared_def
  by (auto intro!: needs_no_tables_rules needs_no_tables_execute split: option.split)

lemma needs_no_tables_probe: "needs_no_tables (probe_provider X p creds)"
  unfolding probe_provider_def probe_built_def
  by (auto intro!: needs_no_tables_rules needs_no_tables_execute split: option.split outcome.split sum.split)

lemma forms_need_no_tables:
  "needs_no_tables (test_draft X b)" "needs_no_tables (validate_model_preview X wire base key model)"
  "needs_no_tables (list_models_preview X wire base key)"
  unfolding test_draft_def validate_model_preview_def list_models_preview_def ok_ret_def Let_def
  by (intro needs_no_tables_rules needs_no_tables_execute needs_no_tables_probe needs_no_tables_fetch)+

section \<open>Discovery\<close>

lemma read_models_nonempty:
  assumes "read_models X parse up = Inr models" and "\<And>v. parse v \<noteq> Inr []"
  shows "models \<noteq> []"
  using assms by (auto simp: read_models_def split: if_splits sum.splits)

lemma parse_nonempty: "parse_models_body v \<noteq> Inr []" "parse_codex_models_body v \<noteq> Inr []"
  by (simp_all add: parse_models_body_def parse_codex_models_body_def Let_def)

lemma run_send_shared:
  assumes "run_state (send_shared X rq) a = (r, b)"
  shows "\<exists>new. sends new a b \<and> length new \<le> 1"
proof (cases "ou_rejects X rq")
  case None
  with assms run_execute_shared [of X rq a r b] show ?thesis
    by (intro exI [of _ "[Shared rq]"]) (simp add: send_shared_def)
next
  case (Some e)
  with assms sends_refl [of a] show ?thesis by (intro exI [of _ "[]"]) (simp add: send_shared_def)
qed

lemma run_read:
  assumes "run_state (attempt (send_shared X rq) (\<lambda>up. check (read_models X parse up))) a = (r, b)"
    and "\<And>v. parse v \<noteq> Inr []"
  shows "\<exists>new. sends new a b \<and> r \<noteq> Inr []"
proof -
  obtain q c where q: "run_state (send_shared X rq) a = (q, c)" by (cases "run_state (send_shared X rq) a")
  from run_send_shared [OF q] obtain new where "sends new a c" by blast
  with assms(1) q show ?thesis
    by (cases q) (auto simp: run_attempt dest: read_models_nonempty [OF _ assms(2)])
qed

lemma run_fetch_models:
  assumes "run_state (fetch_models X p) a = (r, b)"
  shows "\<exists>new. sends new a b \<and> r \<noteq> Inr []"
proof (cases "prov_kind p")
  case Passthrough
  with assms show ?thesis
    using run_read [where parse = parse_models_body] parse_nonempty sends_refl [of a]
    by (auto simp: fetch_models_def fetch_live_models_def split: option.splits)
next
  case OauthCommandCode
  with assms show ?thesis
    using run_read [where parse = parse_models_body] parse_nonempty
    by (auto simp: fetch_models_def fetch_commandcode_models_def)
next
  case OauthCodex
  obtain creds c where cr: "run_state (in_world (credentials_for p)) a = (creds, c)"
    by (cases "run_state (in_world (credentials_for p)) a")
  with assms OauthCodex have run: "run_state (fetch_codex_models X creds) c = (r, b)" by (simp add: fetch_models_def)
  have "\<exists>new. sends new c b \<and> r \<noteq> Inr []"
    using run run_read [where parse = parse_codex_models_body] parse_nonempty sends_refl [of c]
    by (auto simp: fetch_codex_models_def Let_def split: option.splits)
  with sends_trans [OF run_credentials [OF cr]] show ?thesis by auto
qed

text \<open>A discovery that succeeds stores what it answers; one that fails leaves the cache as it was.\<close>

lemma run_discover:
  assumes "run_state (discover_and_cache_models X p) a = (r, b)"
  shows "ap_discovered b = (case r of Inr models \<Rightarrow> dm_put (prov_id p) models (ap_discovered a) | Inl e \<Rightarrow> ap_discovered a)
     \<and> r \<noteq> Inr [] \<and> (\<exists>fs. app_db b = (app_db a)\<lparr>db_faults := fs\<rparr>) \<and> ap_snapshot b = ap_snapshot a \<and> app_runtime b = app_runtime a"
proof -
  obtain q c where q: "run_state (fetch_models X p) a = (q, c)" by (cases "run_state (fetch_models X p) a")
  from run_fetch_models [OF q] obtain new where s: "sends new a c" "q \<noteq> Inr []" by blast
  then show ?thesis
  proof (cases q)
    case (Inl e)
    with s assms q show ?thesis by (auto simp: discover_and_cache_models_def run_attempt sends_def)
  next
    case (Inr models)
    with assms q have "r = Inr models" "b = c\<lparr>ap_discovered := dm_put (prov_id p) models (ap_discovered c)\<rparr>"
      by (auto simp: discover_and_cache_models_def run_attempt)
    with s Inr show ?thesis by (auto simp: sends_def app_db_def app_runtime_def)
  qed
qed

text \<open>Discovered models are listed for clients and may be addressed.\<close>

lemma discovered_reachable:
  assumes "dm_get d (prov_id p) = Some models" and "m \<in> set models" and "dm_ok d"
  shows "prov_id p @ ''/'' @ m \<in> set (listed_models s d images) \<and> direct_model_allowed s d p m"
proof
  from dm_get_SomeD [OF assms(1)] have "(prov_id p, models) \<in> set d" .
  with assms(2) show "prov_id p @ ''/'' @ m \<in> set (listed_models s d images)" by (force simp: listed_models_def)
  show "direct_model_allowed s d p m"
    using assms(1,2) by (auto simp: direct_model_allowed_def list_ex_iff)
qed

text \<open>Removing a provider does not remove them: they stay in the list, and a new provider of the same id inherits them.\<close>

lemma removed_models_linger:
  assumes "run_state (provider_remove (prov_id p)) a = (Inr u, a')" and "dm_get (ap_discovered a) (prov_id p) = Some models"
    and "m \<in> set models" and "dm_ok (ap_discovered a)"
  shows "find_provider (ap_snapshot a') (prov_id p) = None
     \<and> prov_id p @ ''/'' @ m \<in> set (listed_models (ap_snapshot a') (ap_discovered a') images)
     \<and> direct_model_allowed s (ap_discovered a') p m"
  using remove_takes_effect [OF assms(1)] discovered_reachable [of "ap_discovered a'" p models m] assms(2-4)
  by (simp add: find_provider_snapshot)

section \<open>What a mask shows\<close>

lemma mask_key_shows:
  "mask_key k = ''***'' \<or> (\<exists>rest shown. k = rest @ shown \<and> mask_key k = ''***'' @ shown
     \<and> length (chars shown) = 4 \<and> 4 < length (chars rest))"
proof (cases "length (chars k) \<le> 8")
  case False
  let ?n = "length (chars k) - 4"
  let ?rest = "concat (take ?n (chars k))" and ?shown = "concat (drop ?n (chars k))"
  have split: "k = ?rest @ ?shown" by (simp flip: concat_append)
  have "chunked (take ?n (chars k) @ drop ?n (chars k))" using chunked_chars [of k] by simp
  then have "chunked (take ?n (chars k))" "chunked (drop ?n (chars k))" by (rule chunked_prefix, rule chunked_suffix)
  then have "chars ?rest = take ?n (chars k)" "chars ?shown = drop ?n (chars k)" by (simp_all only: chars_concat_chunked)
  with False have "length (chars ?shown) = 4" "4 < length (chars ?rest)" by simp_all
  moreover have "mask_key k = ''***'' @ ?shown" using False by (simp add: mask_key_def Let_def)
  ultimately show ?thesis using split by blast
qed (simp add: mask_key_def)

end
