(* ===== verification/KeyVeil.thy ===== *)
theory KeyVeil
  imports ProbeSpec
begin

text \<open>
  What a stored key holds beyond its mask, and what a token holds at all, shows in no answer of
  the provider routes.  Two states that differ only there are told apart by no sequence of them:
  the routes are related to themselves by a relational judgement, \<open>related A R m1 m2\<close>, which says
  that from states related by \<open>A\<close> the runs return values related by \<open>R\<close> and end in states related
  by \<open>A\<close>.
\<close>

section \<open>The judgement\<close>

definition related :: "('s \<Rightarrow> 's \<Rightarrow> bool) \<Rightarrow> ('a \<Rightarrow> 'b \<Rightarrow> bool) \<Rightarrow> ('s, 'a) state \<Rightarrow> ('s, 'b) state \<Rightarrow> bool" where
  "related A R m1 m2 \<longleftrightarrow> (\<forall>s t. A s t \<longrightarrow>
     R (fst (run_state m1 s)) (fst (run_state m2 t)) \<and> A (snd (run_state m1 s)) (snd (run_state m2 t)))"

abbreviation results :: "('a \<Rightarrow> 'b \<Rightarrow> bool) \<Rightarrow> 'e + 'a \<Rightarrow> 'e + 'b \<Rightarrow> bool" where
  "results R \<equiv> rel_sum (=) R"

lemma relatedD:
  "related A R m1 m2 \<Longrightarrow> A s t \<Longrightarrow> R (fst (run_state m1 s)) (fst (run_state m2 t)) \<and> A (snd (run_state m1 s)) (snd (run_state m2 t))"
  by (simp add: related_def)

lemma related_bind:
  assumes "related A R m1 m2" and "\<And>x y. R x y \<Longrightarrow> related A S (f x) (g y)"
  shows "related A S (State_Monad.bind m1 f) (State_Monad.bind m2 g)"
  unfolding related_def
proof (intro allI impI)
  fix s t assume "A s t"
  from relatedD [OF assms(1) this]
  have "R (fst (run_state m1 s)) (fst (run_state m2 t))" "A (snd (run_state m1 s)) (snd (run_state m2 t))" by simp_all
  from relatedD [OF assms(2) [OF this(1)] this(2)]
  show "S (fst (run_state (State_Monad.bind m1 f) s)) (fst (run_state (State_Monad.bind m2 g) t))
      \<and> A (snd (run_state (State_Monad.bind m1 f) s)) (snd (run_state (State_Monad.bind m2 g) t))"
    by (simp add: case_prod_unfold)
qed

lemma related_ret: "R x y \<Longrightarrow> related A R (ret x) (ret y)"
  by (simp add: related_def)

lemma related_ok_ret: "R x y \<Longrightarrow> related A (results R) (ok_ret x) (ok_ret y)"
  by (simp add: related_def)

lemma related_fail_ret: "related A (results R) (fail_ret e) (fail_ret e)"
  by (simp add: related_def)

lemma related_check: "results R x y \<Longrightarrow> related A (results R) (check x) (check y)"
  by (simp add: related_def)

lemma related_attempt:
  assumes "related A (results R) m1 m2" and "\<And>x y. R x y \<Longrightarrow> related A (results S) (f x) (g y)"
  shows "related A (results S) (attempt m1 f) (attempt m2 g)"
  unfolding attempt_def
  by (rule related_bind [OF assms(1)]) (auto elim!: rel_sum.cases intro!: assms(2) related_ret)

lemma related_attempt_eq:
  "related A (results (=)) m1 m2 \<Longrightarrow> (\<And>x. related A (results S) (f x) (g x)) \<Longrightarrow>
     related A (results S) (attempt m1 f) (attempt m2 g)"
  by (erule related_attempt) simp

lemma related_gets: "(\<And>s t. A s t \<Longrightarrow> R (f s) (g t)) \<Longrightarrow> related A R (gets f) (gets g)"
  by (simp add: related_def)

lemma related_update: "(\<And>s t. A s t \<Longrightarrow> A (f s) (g t)) \<Longrightarrow> related A (=) (update_by f) (update_by g)"
  by (simp add: related_def)

section \<open>States that look the same\<close>

definition same_row :: "provider \<Rightarrow> provider \<Rightarrow> bool" where
  "same_row p q \<longleftrightarrow> q = p\<lparr>prov_api_key := prov_api_key q\<rparr>
     \<and> map_option mask_key (prov_api_key q) = map_option mask_key (prov_api_key p)"

definition same_tokens :: "oauth_state \<Rightarrow> oauth_state \<Rightarrow> bool" where
  "same_tokens o1 o2 \<longleftrightarrow> os_provider_id o1 = os_provider_id o2
     \<and> (os_access_token o1 = None \<longleftrightarrow> os_access_token o2 = None)
     \<and> (os_refresh_token o1 = None \<longleftrightarrow> os_refresh_token o2 = None)"

definition same_tables :: "database \<Rightarrow> database \<Rightarrow> bool" where
  "same_tables d e \<longleftrightarrow>
     list_all2 same_row (t_providers d) (t_providers e) \<and> list_all2 same_tokens (t_oauth d) (t_oauth e)
   \<and> t_pools e = t_pools d \<and> t_members e = t_members d \<and> t_admin e = t_admin d \<and> t_sessions e = t_sessions d
   \<and> t_secrets e = t_secrets d \<and> t_users e = t_users d \<and> db_faults e = db_faults d"

definition same_snapshot :: "config_snapshot \<Rightarrow> config_snapshot \<Rightarrow> bool" where
  "same_snapshot s t \<longleftrightarrow> list_all2 same_row (snap_providers s) (snap_providers t) \<and> snap_pools t = snap_pools s"

definition same_app :: "app \<Rightarrow> app \<Rightarrow> bool" where
  "same_app a b \<longleftrightarrow>
     ap_world b = (ap_world a)\<lparr>w_db := app_db b\<rparr> \<and> same_tables (app_db a) (app_db b)
   \<and> same_snapshot (ap_snapshot a) (ap_snapshot b) \<and> list_all2 same_row (ap_pending a) (ap_pending b)
   \<and> ap_discovered b = ap_discovered a \<and> ap_sent b = ap_sent a"

lemma same_row_refl [simp]: "same_row p p"
  by (simp add: same_row_def)

lemma same_row_fields:
  assumes "same_row p q"
  shows "prov_id q = prov_id p" "prov_name q = prov_name p" "prov_wire_format q = prov_wire_format p"
    "prov_kind q = prov_kind p" "prov_base_url q = prov_base_url p" "prov_upstream_model q = prov_upstream_model p"
    "prov_dataset_logging q = prov_dataset_logging p"
    "prov_default_reasoning_effort q = prov_default_reasoning_effort p"
    "prov_created_at q = prov_created_at p" "prov_updated_at q = prov_updated_at p"
    "map_option mask_key (prov_api_key q) = map_option mask_key (prov_api_key p)"
    "prov_api_key q = None \<longleftrightarrow> prov_api_key p = None"
  using assms by (cases p; cases q; auto simp: same_row_def)+

lemma same_row_ready: "same_row p q \<Longrightarrow> is_ready q c = is_ready p c"
  using same_row_fields [of p q] by (auto simp: is_ready_def split: provider_kind.split option.split)

lemma same_row_mask: "same_row p q \<Longrightarrow> mask_provider f q c = mask_provider f p c"
  using same_row_fields [of p q] same_row_ready [of p q c] by (simp add: mask_provider_def)

lemma same_tablesD:
  assumes "same_tables d e"
  shows "list_all2 same_row (t_providers d) (t_providers e)" "list_all2 same_tokens (t_oauth d) (t_oauth e)"
    "t_pools e = t_pools d" "t_members e = t_members d" "db_faults e = db_faults d"
  using assms by (auto simp: same_tables_def)

lemma same_tables_faults: "same_tables d e \<Longrightarrow> same_tables (d\<lparr>db_faults := fs\<rparr>) (e\<lparr>db_faults := fs\<rparr>)"
  by (simp add: same_tables_def)

lemma same_tables_set:
  assumes "same_tables d e"
  shows "list_all2 same_row ps qs \<Longrightarrow> same_tables (d\<lparr>t_providers := ps\<rparr>) (e\<lparr>t_providers := qs\<rparr>)"
    and "list_all2 same_tokens os os' \<Longrightarrow> same_tables (d\<lparr>t_oauth := os\<rparr>) (e\<lparr>t_oauth := os'\<rparr>)"
    and "same_tables (d\<lparr>t_members := ms\<rparr>) (e\<lparr>t_members := ms\<rparr>)"
  using assms by (simp_all add: same_tables_def)

section \<open>Statements\<close>

lemma related_statement:
  assumes "\<And>d e. same_tables d e \<Longrightarrow> results (rel_prod R same_tables) (f d) (g e)"
  shows "related same_tables (results R) (statement f) (statement g)"
  unfolding related_def
proof (intro allI impI)
  fix d e assume "same_tables d e"
  then have s: "same_tables (d\<lparr>db_faults := tl (db_faults d)\<rparr>) (e\<lparr>db_faults := tl (db_faults d)\<rparr>)"
    and eq: "db_faults e = db_faults d"
    by (simp_all add: same_tables_def)
  let ?d = "d\<lparr>db_faults := tl (db_faults d)\<rparr>" and ?e = "e\<lparr>db_faults := tl (db_faults d)\<rparr>"
  show "results R (fst (run_state (statement f) d)) (fst (run_state (statement g) e))
      \<and> same_tables (snd (run_state (statement f) d)) (snd (run_state (statement g) e))"
  proof (cases "\<exists>x fs. db_faults d = Some x # fs")
    case True
    then obtain x fs where "db_faults d = Some x # fs" by blast
    with eq have "run_state (statement f) d = (Inl (OtherError x), ?d)" "run_state (statement g) e = (Inl (OtherError x), ?e)"
      by (simp_all add: run_statement Let_def)
    with s show ?thesis by simp
  next
    case False
    then have "run_state (statement f) d = (case f ?d of Inl e \<Rightarrow> (Inl e, ?d) | Inr (a, db) \<Rightarrow> (Inr a, db))"
      "run_state (statement g) e = (case g ?e of Inl e' \<Rightarrow> (Inl e', ?e) | Inr (a, db) \<Rightarrow> (Inr a, db))"
      by (auto simp: run_statement Let_def eq split: list.split option.split)
    with assms [OF s] s show ?thesis by (cases "f ?d"; cases "g ?e") (simp_all add: rel_prod_sel case_prod_unfold)
  qed
qed

lemma related_query_stmt:
  assumes "\<And>d e. same_tables d e \<Longrightarrow> results (rel_prod R same_tables) (f d) (g e)"
  shows "related same_tables (results R) (query_stmt f) (query_stmt g)"
  unfolding query_stmt_def
  by (rule related_bind [OF related_statement [OF assms]])
    (auto elim!: rel_sum.cases intro: related_ok_ret related_fail_ret)

lemma related_fetch:
  assumes "\<And>d e. same_tables d e \<Longrightarrow> R (f d) (g e)"
  shows "related same_tables (results R) (fetch f) (fetch g)"
  unfolding fetch_def by (rule related_query_stmt) (simp add: assms)

lemma related_unique_write:
  assumes "\<And>d e. same_tables d e \<Longrightarrow> results (rel_prod (=) same_tables) (f d) (g e)" and "R x y"
  shows "related same_tables (results R) (unique_write taken f x) (unique_write taken g y)"
  unfolding unique_write_def
proof (rule related_bind [OF related_statement [OF assms(1)]])
  fix r r' :: "sql_error + unit" assume "results (=) r r'"
  then have "r' = r" by (auto elim: rel_sum.cases)
  then show "related same_tables (results R)
      (case r of Inr _ \<Rightarrow> ok_ret x | Inl UniqueViolation \<Rightarrow> fail_ret taken | Inl e \<Rightarrow> fail_ret (db_error e))
      (case r' of Inr _ \<Rightarrow> ok_ret y | Inl UniqueViolation \<Rightarrow> fail_ret taken | Inl e \<Rightarrow> fail_ret (db_error e))"
    using assms(2) by (auto intro: related_ok_ret related_fail_ret split: sum.split sql_error.split)
qed

section \<open>Rows\<close>

lemma list_all2_sort_key:
  assumes "list_all2 R xs ys" and "\<And>x y. R x y \<Longrightarrow> g y = f x"
  shows "list_all2 R (sort_key f xs) (sort_key g ys)"
proof -
  have ins: "list_all2 R (insort_key f x xs) (insort_key g y ys)" if "R x y" "list_all2 R xs ys" for x y xs ys
    using that(2) that(1) by (induction xs ys rule: list_all2_induct) (simp_all add: assms(2))
  show ?thesis using assms(1) by (induction xs ys rule: list_all2_induct) (simp_all add: ins)
qed

lemma same_rows_map: "list_all2 same_row ps qs \<Longrightarrow> (\<And>p q. same_row p q \<Longrightarrow> g q = f p) \<Longrightarrow> map g qs = map f ps"
  by (induction ps qs rule: list_all2_induct) simp_all

lemma same_rows_with:
  "list_all2 same_row ps qs \<Longrightarrow> rel_option same_row (row_with prov_id i ps) (row_with prov_id i qs)"
  by (induction ps qs rule: list_all2_induct) (simp_all add: row_with_def same_row_fields)

lemma same_tokens_with:
  "list_all2 same_tokens os ps \<Longrightarrow> rel_option same_tokens (row_with os_provider_id i os) (row_with os_provider_id i ps)"
  by (induction os ps rule: list_all2_induct) (simp_all add: row_with_def same_tokens_def)

lemma same_tokens_ids:
  "list_all2 same_tokens os ps \<Longrightarrow>
     map os_provider_id (filter (\<lambda>s. os_access_token s \<noteq> None \<or> os_refresh_token s \<noteq> None) ps) =
     map os_provider_id (filter (\<lambda>s. os_access_token s \<noteq> None \<or> os_refresh_token s \<noteq> None) os)"
  by (induction os ps rule: list_all2_induct) (auto simp: same_tokens_def)

section \<open>Queries\<close>

lemma related_get_provider: "related same_tables (results same_row) (get_provider i) (get_provider i)"
  unfolding get_provider_def
proof (rule related_attempt [where R = "rel_option same_row"])
  show "related same_tables (results (rel_option same_row)) (fetch (\<lambda>db. row_with prov_id i (t_providers db)))
      (fetch (\<lambda>db. row_with prov_id i (t_providers db)))"
    by (rule related_fetch) (simp add: same_rows_with same_tablesD(1))
qed (auto elim!: option.rel_cases intro: related_ok_ret related_fail_ret)

lemma related_oauth_configured: "related same_tables (results (=)) (oauth_credential_configured i) (oauth_credential_configured i)"
  unfolding oauth_credential_configured_def get_oauth_state_def
proof (rule related_attempt [where R = "rel_option same_tokens"])
  show "related same_tables (results (rel_option same_tokens)) (fetch (\<lambda>db. row_with os_provider_id i (t_oauth db)))
      (fetch (\<lambda>db. row_with os_provider_id i (t_oauth db)))"
    by (rule related_fetch) (simp add: same_tokens_with same_tablesD(2))
qed (auto elim!: option.rel_cases intro!: related_ok_ret simp: same_tokens_def)

lemma related_lists:
  "related same_tables (results (list_all2 same_row)) list_providers list_providers"
  "related same_tables (results (=)) oauth_configured_provider_ids oauth_configured_provider_ids"
  "related same_tables (results (=)) list_pools list_pools"
  "related same_tables (results (=)) (list_members i) (list_members i)"
  unfolding list_providers_def oauth_configured_provider_ids_def list_pools_def list_members_def
     apply (rule related_fetch, simp add: list_all2_sort_key same_row_fields same_tablesD)
    apply (rule related_fetch, rule same_tokens_ids [symmetric], simp add: same_tablesD)
   apply (rule related_fetch, simp add: same_tablesD)
  by (rule related_fetch, simp add: same_tablesD members_of_def)

lemma related_load_members: "related same_tables (results (=)) (load_members ps) (load_members ps)"
proof (induction ps)
  case Nil
  show ?case by (simp add: related_ok_ret)
next
  case (Cons p ps)
  show ?case
    unfolding load_members.simps
    by (rule related_attempt_eq [OF related_lists(4)], rule related_attempt_eq [OF Cons.IH]) (simp add: related_ok_ret)
qed

lemma related_load_snapshot: "related same_tables (results same_snapshot) load_snapshot load_snapshot"
  unfolding load_snapshot_def
  by (rule related_attempt [OF related_lists(1)], rule related_attempt_eq [OF related_lists(3)],
      rule related_attempt_eq [OF related_load_members])
    (auto intro!: related_ok_ret simp: same_snapshot_def)

section \<open>Editing a row\<close>

lemma same_row_updates:
  assumes "same_row p q"
  shows "same_row (p\<lparr>prov_name := n\<rparr>) (q\<lparr>prov_name := n\<rparr>)" "same_row (p\<lparr>prov_base_url := u\<rparr>) (q\<lparr>prov_base_url := u\<rparr>)"
    "same_row (p\<lparr>prov_upstream_model := m\<rparr>) (q\<lparr>prov_upstream_model := m\<rparr>)"
    "same_row (p\<lparr>prov_wire_format := w\<rparr>) (q\<lparr>prov_wire_format := w\<rparr>)"
    "same_row (p\<lparr>prov_dataset_logging := l\<rparr>) (q\<lparr>prov_dataset_logging := l\<rparr>)"
    "same_row (p\<lparr>prov_default_reasoning_effort := e\<rparr>) (q\<lparr>prov_default_reasoning_effort := e\<rparr>)"
    "same_row (p\<lparr>prov_updated_at := t\<rparr>) (q\<lparr>prov_updated_at := t\<rparr>)"
    "same_row (p\<lparr>prov_api_key := k\<rparr>) (q\<lparr>prov_api_key := k\<rparr>)"
  using assms by (cases p; cases q; auto simp: same_row_def)+

lemma related_patch_stages:
  assumes "same_row p q"
  shows "results same_row (patch_the_name patch p) (patch_the_name patch q)"
    "results same_row (patch_the_endpoint patch p) (patch_the_endpoint patch q)"
    "results same_row (patch_the_model patch p) (patch_the_model patch q)"
    "same_row (patch_the_key patch p) (patch_the_key patch q)"
    "same_row (patch_the_rest patch p) (patch_the_rest patch q)"
proof -
  have codex: "is_codex q = is_codex p" using assms by (simp add: is_codex_def same_row_fields)
  show "results same_row (patch_the_name patch p) (patch_the_name patch q)"
    "results same_row (patch_the_model patch p) (patch_the_model patch q)"
    using same_row_updates [OF assms] assms by (simp_all add: patch_the_name_def patch_the_model_def split: option.split)
  show "results same_row (patch_the_endpoint patch p) (patch_the_endpoint patch q)"
    using same_row_updates [OF assms] assms
    by (cases "opt_filter (\<lambda>_. \<not> is_codex p) (patch_base_url patch)")
      (auto simp: patch_the_endpoint_def codex validate_endpoint_def split: option.split)
  show "same_row (patch_the_key patch p) (patch_the_key patch q)"
    using same_row_updates [OF assms] assms by (auto simp: patch_the_key_def codex split: option.split)
  show "same_row (patch_the_rest patch p) (patch_the_rest patch q)"
    using same_row_updates assms by (auto simp: patch_the_rest_def Let_def split: option.split)
qed

lemma results_bind:
  "results R x y \<Longrightarrow> (\<And>a b. R a b \<Longrightarrow> results S (f a) (g b)) \<Longrightarrow> results S (res_bind x f) (res_bind y g)"
  by (auto elim!: rel_sum.cases)

lemma related_patch_fields: "same_row p q \<Longrightarrow> results same_row (patch_fields patch p) (patch_fields patch q)"
  unfolding patch_fields_def
  by (intro results_bind [where R = same_row]) (simp_all add: related_patch_stages)

lemma related_wire_flip: "same_row p q \<Longrightarrow> related same_tables (results same_row) (check_wire_flip i patch p) (check_wire_flip i patch q)"
proof -
  assume row: "same_row p q"
  have "related same_tables (results (=)) (fetch (mismatched_pools i w)) (fetch (mismatched_pools i w))" for w
    by (rule related_fetch) (simp add: mismatched_pools_def same_tablesD)
  moreover have "same_row p (q\<lparr>prov_wire_format := prov_wire_format p\<rparr>)" using row by (cases p; cases q) (auto simp: same_row_def)
  ultimately show ?thesis
    using same_row_updates(4) [OF row] row
    by (auto simp: check_wire_flip_def same_row_fields [OF row] intro!: related_attempt_eq related_ok_ret related_fail_ret
        split: option.split)
qed

lemma same_row_efforts:
  assumes "same_row p q"
  shows "check_provider_reasoning_effort q = check_provider_reasoning_effort p"
    "check_member_reasoning_overrides q = check_member_reasoning_overrides p" "name_taken q = name_taken p"
proof -
  note f = same_row_fields [OF assms]
  show "check_provider_reasoning_effort q = check_provider_reasoning_effort p" "name_taken q = name_taken p"
    by (simp_all add: check_provider_reasoning_effort_def name_taken_def f split: option.split)
  have m: "effective_model_of q = effective_model_of p" by (rule ext) (simp add: effective_model_of_def f)
  have "member_effort_ok q = member_effort_ok p" by (rule ext) (simp add: member_effort_ok_def m f)
  with m show "check_member_reasoning_overrides q = check_member_reasoning_overrides p"
    by (simp add: check_member_reasoning_overrides_def f cong: option.case_cong)
qed

lemma related_members: "related same_tables (results (=)) (check_member_reasoning_overrides p) (check_member_reasoning_overrides p)"
proof -
  have "related same_tables (results (=)) (fetch (\<lambda>db. filter (P p) (t_members db))) (fetch (\<lambda>db. filter (P p) (t_members db)))" for P
    by (rule related_fetch) (simp add: same_tablesD)
  then show ?thesis unfolding check_member_reasoning_overrides_def
    by (rule related_attempt_eq) (auto intro: related_ok_ret related_fail_ret split: option.split)
qed

lemma same_row_written: "same_row p q \<Longrightarrow> same_row r s \<Longrightarrow> same_row (write_columns p r) (write_columns q s)"
  by (cases p; cases q; cases r; cases s) (auto simp: same_row_def write_columns_def)

lemma same_rows_written:
  "same_row p q \<Longrightarrow> list_all2 same_row ps qs \<Longrightarrow>
     list_all2 same_row (update_where (\<lambda>r. prov_id r = i) (write_columns p) ps) (update_where (\<lambda>r. prov_id r = i) (write_columns q) qs)"
proof -
  assume row: "same_row p q" and "list_all2 same_row ps qs"
  from this(2) show ?thesis
    by (induction ps qs rule: list_all2_induct) (auto simp: update_where_def same_row_written [OF row] same_row_fields)
qed

lemma related_update_row:
  assumes "same_row p q" and "same_tables d e"
  shows "results (rel_prod (=) same_tables) (update_provider_row i p d) (update_provider_row i q e)"
proof -
  from same_rows_written [OF assms(1) same_tablesD(1) [OF assms(2)]]
  have l: "list_all2 same_row (update_where (\<lambda>r. prov_id r = i) (write_columns p) (t_providers d))
      (update_where (\<lambda>r. prov_id r = i) (write_columns q) (t_providers e))" .
  then have "map prov_name (update_where (\<lambda>r. prov_id r = i) (write_columns q) (t_providers e))
      = map prov_name (update_where (\<lambda>r. prov_id r = i) (write_columns p) (t_providers d))"
    by (rule same_rows_map) (rule same_row_fields)
  with same_tables_set(1) [OF assms(2) l] show ?thesis by (simp add: update_provider_row_def Let_def)
qed

lemma related_update_provider: "related same_tables (results same_row) (update_provider now i patch) (update_provider now i patch)"
  unfolding update_provider_def
proof (rule related_attempt [OF related_get_provider])
  fix p q assume "same_row p q"
  then show "related same_tables (results same_row)
     (attempt (check (patch_fields patch p)) (\<lambda>p. attempt (check_wire_flip i patch p) (\<lambda>p.
        attempt (check (check_provider_reasoning_effort p)) (\<lambda>_. attempt (check_member_reasoning_overrides p) (\<lambda>_.
        let p = p\<lparr>prov_updated_at := now\<rparr> in unique_write (name_taken p) (update_provider_row i p) p)))))
     (attempt (check (patch_fields patch q)) (\<lambda>p. attempt (check_wire_flip i patch p) (\<lambda>p.
        attempt (check (check_provider_reasoning_effort p)) (\<lambda>_. attempt (check_member_reasoning_overrides p) (\<lambda>_.
        let p = p\<lparr>prov_updated_at := now\<rparr> in unique_write (name_taken p) (update_provider_row i p) p)))))"
  proof (rule related_attempt [OF related_check [OF related_patch_fields]], intro related_attempt [OF related_wire_flip])
    fix p q assume row: "same_row p q"
    have "related same_tables (results same_row)
      (unique_write (name_taken (p\<lparr>prov_updated_at := now\<rparr>)) (update_provider_row i (p\<lparr>prov_updated_at := now\<rparr>)) (p\<lparr>prov_updated_at := now\<rparr>))
      (unique_write (name_taken (q\<lparr>prov_updated_at := now\<rparr>)) (update_provider_row i (q\<lparr>prov_updated_at := now\<rparr>)) (q\<lparr>prov_updated_at := now\<rparr>))"
      unfolding same_row_efforts(3) [OF same_row_updates(7) [OF row]]
      by (rule related_unique_write [OF related_update_row]) (simp_all add: same_row_updates(7) [OF row])
    then show "related same_tables (results same_row)
       (attempt (check (check_provider_reasoning_effort p)) (\<lambda>_. attempt (check_member_reasoning_overrides p) (\<lambda>_.
          let p = p\<lparr>prov_updated_at := now\<rparr> in unique_write (name_taken p) (update_provider_row i p) p)))
       (attempt (check (check_provider_reasoning_effort q)) (\<lambda>_. attempt (check_member_reasoning_overrides q) (\<lambda>_.
          let p = q\<lparr>prov_updated_at := now\<rparr> in unique_write (name_taken p) (update_provider_row i p) p)))"
      unfolding Let_def same_row_efforts(1,2) [OF row]
      by (intro related_attempt_eq [OF related_check] related_attempt_eq [OF related_members]) (auto intro: sum.rel_refl)
  qed
qed

section \<open>The routes\<close>

lemma same_app_world: "same_app a b \<Longrightarrow> (ap_world b)\<lparr>w_db := d\<rparr> = (ap_world a)\<lparr>w_db := d\<rparr>"
proof -
  assume "same_app a b"
  then have w: "ap_world b = (ap_world a)\<lparr>w_db := app_db b\<rparr>" by (simp add: same_app_def)
  show ?thesis by (subst w) simp
qed

lemma related_stored:
  assumes "related same_tables R q1 q2"
  shows "related same_app R (stored q1) (stored q2)"
  unfolding related_def
proof (intro allI impI)
  fix a b assume ab: "same_app a b"
  then have "same_tables (app_db a) (app_db b)" by (simp add: same_app_def)
  from relatedD [OF assms this] ab same_app_world [OF ab]
  show "R (fst (run_state (stored q1) a)) (fst (run_state (stored q2) b))
      \<and> same_app (snd (run_state (stored q1) a)) (snd (run_state (stored q2) b))"
    by (simp add: run_stored same_app_def with_db_def app_db_def)
qed

text \<open>Steps that leave the tables alone and do not read them.\<close>

lemma related_world:
  assumes "\<And>w db. run_state m (w\<lparr>w_db := db\<rparr>) = (fst (run_state m w), (snd (run_state m w))\<lparr>w_db := db\<rparr>)"
  shows "related same_app (=) (in_world m) (in_world m)"
  unfolding related_def
proof (intro allI impI)
  fix a b assume ab: "same_app a b"
  then have w: "ap_world b = (ap_world a)\<lparr>w_db := app_db b\<rparr>" by (simp add: same_app_def)
  have "run_state m (ap_world a) = (fst (run_state m (ap_world a)), (snd (run_state m (ap_world a)))\<lparr>w_db := app_db a\<rparr>)"
    using assms [where w = "ap_world a" and db = "app_db a"] by (simp add: app_db_def)
  then have "w_db (snd (run_state m (ap_world a))) = app_db a" by (metis snd_conv world.select_convs(1) world.surjective world.update_convs(1))
  moreover have "run_state m (ap_world b) = (fst (run_state m (ap_world a)), (snd (run_state m (ap_world a)))\<lparr>w_db := app_db b\<rparr>)"
    by (subst w) (rule assms)
  ultimately show "fst (run_state (in_world m) a) = fst (run_state (in_world m) b)
      \<and> same_app (snd (run_state (in_world m) a)) (snd (run_state (in_world m) b))"
    using ab by (simp add: run_in_world same_app_def app_db_def)
qed

lemma related_steps:
  "related same_app (=) (in_world (read_wall E)) (in_world (read_wall E))"
  "related same_app (=) (in_world (read_clock E)) (in_world (read_clock E))"
  "related same_app (=) (in_world (gets (\<lambda>w. f (w_runtime w)))) (in_world (gets (\<lambda>w. f (w_runtime w))))"
  "related same_app (=) (heal i) (heal i)"
  "related same_app (=) (set_runtime g) (set_runtime g)"
  unfolding heal_def set_runtime_def
  by (rule related_world; simp add: read_wall_def read_clock_def next_tick_def)+

lemma in_gateway_reload:
  "(in_gateway reload_snapshot :: unit handler) = attempt (stored load_snapshot) (\<lambda>s. do {
     update_by (\<lambda>a. a\<lparr>ap_snapshot := s\<rparr>); ok_ret () })"
proof (rule state.expand, rule ext)
  show "run_state (in_gateway reload_snapshot) a = run_state (attempt (stored load_snapshot) (\<lambda>s. do {
     update_by (\<lambda>a. a\<lparr>ap_snapshot := s\<rparr>); ok_ret () })) a" for a
    by (simp add: in_gateway_def reload_snapshot_def run_attempt run_on_db run_stored gateway_of_def set_gateway_def
        with_db_def app_db_def split: prod.split sum.split)
qed

lemma related_reload: "related same_app (results (=)) (in_gateway reload_snapshot) (in_gateway reload_snapshot)"
  unfolding in_gateway_reload
proof (rule related_attempt [OF related_stored [OF related_load_snapshot]])
  fix s t assume "same_snapshot s t"
  then have "related same_app (=) (update_by (\<lambda>a. a\<lparr>ap_snapshot := s\<rparr>)) (update_by (\<lambda>a. a\<lparr>ap_snapshot := t\<rparr>))"
    by (intro related_update) (simp add: same_app_def app_db_def)
  then show "related same_app (results (=)) (do { update_by (\<lambda>a. a\<lparr>ap_snapshot := s\<rparr>); ok_ret () })
      (do { update_by (\<lambda>a. a\<lparr>ap_snapshot := t\<rparr>); ok_ret () })"
    by (rule related_bind) (simp add: related_ok_ret)
qed

lemma related_masked: "same_row p q \<Longrightarrow> related same_app (results (=)) (masked X p) (masked X q)"
proof -
  assume row: "same_row p q"
  note f = same_row_fields [OF row] same_row_mask [OF row]
  show ?thesis
    unfolding masked_def f
    by (simp add: related_ok_ret) (intro impI related_attempt_eq [OF related_stored [OF related_oauth_configured]] related_ok_ret, simp)
qed

lemma related_spawn: "same_row p q \<Longrightarrow> related same_app (=) (spawn_bounded_discovery p) (spawn_bounded_discovery q)"
  unfolding spawn_bounded_discovery_def by (rule related_update) (auto simp: same_app_def app_db_def intro: list_all2_appendI)

lemma related_insert: "related same_tables (results (=)) (insert_provider p) (insert_provider p)"
  unfolding insert_provider_def
proof (rule related_attempt_eq [OF related_check], simp add: sum.rel_refl,
    rule related_attempt [where R = "rel_option same_row"])
  show "related same_tables (results (rel_option same_row)) (fetch (\<lambda>db. row_with prov_id (prov_id p) (t_providers db)))
      (fetch (\<lambda>db. row_with prov_id (prov_id p) (t_providers db)))"
    by (rule related_fetch) (simp add: same_rows_with same_tablesD(1))
next
  fix r r' assume "rel_option same_row r r'"
  then have none: "r' = None \<longleftrightarrow> r = None" by (auto elim: option.rel_cases)
  have "results (rel_prod (=) same_tables) (insert_provider_row p d) (insert_provider_row p e)" if "same_tables d e" for d e
  proof -
    note l = same_tablesD(1) [OF that]
    from same_rows_map [OF l, of prov_id prov_id] same_rows_map [OF l, of prov_name prov_name]
    have "prov_id ` set (t_providers e) = prov_id ` set (t_providers d)" "prov_name ` set (t_providers e) = prov_name ` set (t_providers d)"
      by (metis same_row_fields(1) set_map, metis same_row_fields(2) set_map)
    with same_tables_set(1) [OF that list_all2_appendI [OF l, of "[p]" "[p]"]] show ?thesis
      by (simp add: insert_provider_row_def)
  qed
  then show "related same_tables (results (=))
      (if r \<noteq> None then fail_ret (Conflict (''provider id '' @ quoted (prov_id p) @ '' already exists''))
       else unique_write (name_taken p) (insert_provider_row p) ())
      (if r' \<noteq> None then fail_ret (Conflict (''provider id '' @ quoted (prov_id p) @ '' already exists''))
       else unique_write (name_taken p) (insert_provider_row p) ())"
    unfolding none by (auto intro: related_fail_ret related_unique_write)
qed

lemma related_list_get:
  "related same_app (results (=)) (providers_list X) (providers_list X)"
  "related same_app (results (=)) (provider_get_one X i) (provider_get_one X i)"
proof -
  show "related same_app (results (=)) (provider_get_one X i) (provider_get_one X i)"
    unfolding provider_get_one_def by (rule related_attempt [OF related_stored [OF related_get_provider] related_masked])
  have row: "listed_row X ids q = listed_row X ids p" if "same_row p q" for p q ids
    unfolding listed_row_def same_row_fields [OF that] same_row_mask [OF that] ..
  have "map (listed_row X ids) qs = map (listed_row X ids) ps" if "list_all2 same_row ps qs" for ps qs ids
    by (rule same_rows_map [OF that]) (rule row)
  then have eq: "JArr (map (listed_row X ids) ps) = JArr (map (listed_row X ids) qs)" if "list_all2 same_row ps qs" for ps qs ids
    using that by simp
  show "related same_app (results (=)) (providers_list X) (providers_list X)"
    unfolding providers_list_def
    by (rule related_attempt [OF related_stored [OF related_lists(1)]], rule related_attempt_eq [OF related_stored [OF related_lists(2)]],
        rule related_ok_ret, rule eq)
qed

lemma related_state: "related same_app (results (=)) (state_stub X i) (state_stub X i)"
  unfolding state_stub_def
  by (rule related_attempt [OF related_stored [OF related_get_provider]], rule related_bind [OF related_steps(3)],
      rule related_bind [OF related_steps(2)]) (auto intro: related_ok_ret)

lemma related_clear_tokens: "related same_tables (results (=)) (clear_oauth_tokens i) (clear_oauth_tokens i)"
proof -
  have f: "list_all2 same_tokens (filter (\<lambda>o'. os_provider_id o' \<noteq> i) os) (filter (\<lambda>o'. os_provider_id o' \<noteq> i) ps)"
    if "list_all2 same_tokens os ps" for os ps
    using that by (induction os ps rule: list_all2_induct) (auto simp: same_tokens_def)
  show ?thesis
    unfolding clear_oauth_tokens_def execute_stmt_def
    by (rule related_query_stmt) (simp add: same_tables_set(2) [OF _ f] same_tablesD)
qed

lemma related_delete: "related same_tables (results (=)) (delete_provider i) (delete_provider i)"
  unfolding delete_provider_def
proof (rule related_attempt_eq [OF related_query_stmt])
  fix d e assume s: "same_tables d e"
  have t: "list_all2 same_tokens (filter (\<lambda>o'. os_provider_id o' \<noteq> i) os) (filter (\<lambda>o'. os_provider_id o' \<noteq> i) ps)"
    if "list_all2 same_tokens os ps" for os ps
    using that by (induction os ps rule: list_all2_induct) (auto simp: same_tokens_def)
  have r: "list_all2 same_row (filter (\<lambda>p. P (prov_id p)) ps) (filter (\<lambda>p. P (prov_id p)) qs)"
    if "list_all2 same_row ps qs" for ps qs P
    using that by (induction ps qs rule: list_all2_induct) (auto simp: same_row_fields)
  have "length (filter (\<lambda>p. prov_id p = i) (t_providers e)) = length (filter (\<lambda>p. prov_id p = i) (t_providers d))"
    using list_all2_lengthD [OF r [OF same_tablesD(1) [OF s], of "\<lambda>j. j = i"]] by simp
  moreover have "same_tables (snd (delete_provider_rows i d)) (snd (delete_provider_rows i e))"
    using s t [OF same_tablesD(2) [OF s]] r [OF same_tablesD(1) [OF s], of "\<lambda>j. j \<noteq> i"]
    by (simp add: delete_provider_rows_def same_tables_def)
  ultimately show "results (rel_prod (=) same_tables) (Inr (delete_provider_rows i d)) (Inr (delete_provider_rows i e))"
    by (simp add: rel_prod_sel) (simp add: delete_provider_rows_def)
qed (auto intro: related_ok_ret related_fail_ret)

lemma related_edits:
  "related same_app (results (=)) (provider_create X b) (provider_create X b)"
  "related same_app (results (=)) (provider_edit X i patch) (provider_edit X i patch)"
  "related same_app (results (=)) (provider_remove i) (provider_remove i)"
  "related same_app (results (=)) (disconnect_oauth i) (disconnect_oauth i)"
proof -
  have same: "related same_app (results (=)) (check r) (check r)" for r :: "app_error + 'x"
    by (rule related_check) (simp add: sum.rel_eq)
  have unit: "related same_app (results (=)) (ok_ret ()) (ok_ret ())" by (simp add: related_ok_ret)
  have publish: "related same_app (results (=)) (do { set_runtime f; attempt (in_gateway reload_snapshot) (\<lambda>_. m) })
      (do { set_runtime f; attempt (in_gateway reload_snapshot) (\<lambda>_. m') })"
    if "related same_app (results (=)) m m'" for f and m m' :: "'y handler"
    by (rule related_bind [OF related_steps(5)], rule related_attempt_eq [OF related_reload], rule that)
  have spawned: "related same_app (results (=)) (do { spawn_bounded_discovery p; masked X p }) (do { spawn_bounded_discovery p; masked X p })" for p
    by (rule related_bind [OF related_spawn [OF same_row_refl]]) (simp add: related_masked)
  have written: "related same_app (results (=))
      (attempt (check r) (\<lambda>p. attempt (stored (insert_provider p)) (\<lambda>_. do { set_runtime (\<lambda>m. reset_provider_to_healthy m (prov_id p));
         attempt (in_gateway reload_snapshot) (\<lambda>_. do { spawn_bounded_discovery p; masked X p }) })))
      (attempt (check r) (\<lambda>p. attempt (stored (insert_provider p)) (\<lambda>_. do { set_runtime (\<lambda>m. reset_provider_to_healthy m (prov_id p));
         attempt (in_gateway reload_snapshot) (\<lambda>_. do { spawn_bounded_discovery p; masked X p }) })))" for r
    by (rule related_attempt_eq [OF same], rule related_attempt_eq [OF related_stored [OF related_insert]], rule publish [OF spawned])
  show "related same_app (results (=)) (provider_create X b) (provider_create X b)"
    unfolding provider_create_def heal_def
    by (rule related_attempt_eq [OF same], rule related_bind [OF related_steps(1)], simp only:, rule written)
  show "related same_app (results (=)) (provider_edit X i patch) (provider_edit X i patch)"
    unfolding provider_edit_def heal_def
    by (rule related_bind [OF related_steps(1)], simp only:, rule related_attempt [OF related_stored [OF related_update_provider]],
        rule publish, rule related_masked)
  show "related same_app (results (=)) (provider_remove i) (provider_remove i)"
    unfolding provider_remove_def
    by (rule related_attempt_eq [OF related_stored [OF related_delete]], rule publish [OF unit])
  show "related same_app (results (=)) (disconnect_oauth i) (disconnect_oauth i)"
    unfolding disconnect_oauth_def heal_def
  proof (rule related_attempt [OF related_stored [OF related_get_provider]])
    fix p q assume row: "same_row p q"
    have "related same_app (results (=))
      (attempt (stored (clear_oauth_tokens i)) (\<lambda>_. do { set_runtime (\<lambda>m. reset_provider_to_healthy m i);
         attempt (in_gateway reload_snapshot) (\<lambda>_. ok_ret ()) }))
      (attempt (stored (clear_oauth_tokens i)) (\<lambda>_. do { set_runtime (\<lambda>m. reset_provider_to_healthy m i);
         attempt (in_gateway reload_snapshot) (\<lambda>_. ok_ret ()) }))"
      by (rule related_attempt_eq [OF related_stored [OF related_clear_tokens]], rule publish [OF unit])
    then show "related same_app (results (=))
      (if \<not> is_oauth_kind (prov_kind p) then fail_ret (BadRequest ''provider does not use OAuth'')
       else attempt (stored (clear_oauth_tokens i)) (\<lambda>_. do { set_runtime (\<lambda>m. reset_provider_to_healthy m i);
         attempt (in_gateway reload_snapshot) (\<lambda>_. ok_ret ()) }))
      (if \<not> is_oauth_kind (prov_kind q) then fail_ret (BadRequest ''provider does not use OAuth'')
       else attempt (stored (clear_oauth_tokens i)) (\<lambda>_. do { set_runtime (\<lambda>m. reset_provider_to_healthy m i);
         attempt (in_gateway reload_snapshot) (\<lambda>_. ok_ret ()) }))"
      unfolding same_row_fields(4) [OF row] by (simp add: related_fail_ret)
  qed
qed

lemma related_serve: "related same_app (results (=)) (serve_provider X r) (serve_provider X r)"
proof -
  have silent: "related same_app (results (=)) (no_content m) (no_content m)" if "related same_app (results (=)) m m" for m
    unfolding no_content_def by (rule related_attempt_eq [OF that]) (simp add: related_ok_ret)
  show ?thesis by (cases r) (simp_all add: related_list_get related_state related_edits silent)
qed

lemma related_serves: "related same_app (=) (serve_providers X rs) (serve_providers X rs)"
proof (induction rs)
  case Nil
  show ?case by (simp add: related_ret)
next
  case (Cons r rs)
  have one: "related same_app (=) (serve_provider X r) (serve_provider X r)"
    using related_serve by (simp only: sum.rel_eq)
  show ?case
    unfolding serve_providers.simps
    by (rule related_bind [OF one], rule related_bind [OF Cons.IH]) (auto intro: related_ret)
qed

end
