(* ===== verification/Trace.thy ===== *)
theory Trace
  imports Flow
begin

text \<open>
  What a request does to the rest of the system: the calls it makes, the log entries it
  queues, the health entries and tables it changes.  \<open>acts m Q\<close> is a judgement about
  the events of \<open>m\<close>; the frame conditions are preorders on worlds, so they come from
  \<open>run_order\<close>.
\<close>

section \<open>Frames\<close>

definition same :: "('s \<Rightarrow> 'v) \<Rightarrow> 's \<Rightarrow> 's \<Rightarrow> bool" where
  "same f s s' \<longleftrightarrow> f s' = f s"

interpretation sm: run_order "same f" for f
  by unfold_locales (simp_all add: same_def)

text \<open>
  Only the health entries under \<open>K\<close> and the stored tokens may change, and entries stay
  well formed.
\<close>

definition configuration :: "database \<Rightarrow> provider list \<times> pool list \<times> pool_member list \<times> user_row list
    \<times> admin_row option \<times> session_row list \<times> (string, string) dmap" where
  "configuration db = (t_providers db, t_pools db, t_members db, t_users db, t_admin db, t_sessions db, t_secrets db)"

definition touches :: "string set \<Rightarrow> world \<Rightarrow> world \<Rightarrow> bool" where
  "touches K w w' \<longleftrightarrow>
     (dm_ok (w_runtime w) \<longrightarrow> dm_ok (w_runtime w') \<and>
        (\<forall>k. k \<notin> K \<longrightarrow> dm_get (w_runtime w') k = dm_get (w_runtime w) k)) \<and>
     (map_entries_ok (w_runtime w) \<longrightarrow> map_entries_ok (w_runtime w')) \<and>
     configuration (w_db w') = configuration (w_db w)"

interpretation tc: run_order "touches K" for K
  by unfold_locales (auto simp: touches_def)

lemma touches_same:
  "w_runtime w' = w_runtime w \<Longrightarrow> configuration (w_db w') = configuration (w_db w) \<Longrightarrow> touches K w w'"
  by (simp add: touches_def)

lemma configuration_faults [simp]: "configuration (db\<lparr>db_faults := fs\<rparr>) = configuration db"
  by (simp add: configuration_def)

lemma upsert_oauth_row_configuration:
  "upsert_oauth_row i now g db = Inr (u, db') \<Longrightarrow> configuration db' = configuration db"
  by (auto simp: upsert_oauth_row_def configuration_def split: if_splits)

lemma configuration_oauth:
  "configuration (snd (run_state (get_oauth_state i) db)) = configuration db"
  "configuration (snd (run_state (upsert_oauth_tokens now i tok) db)) = configuration db"
proof -
  from readsD(2) [OF get_oauth_reads, of i db] obtain fs
    where "snd (run_state (get_oauth_state i) db) = db\<lparr>db_faults := fs\<rparr>" by (elim exE)
  then show "configuration (snd (run_state (get_oauth_state i) db)) = configuration db" by simp
  let ?f = "upsert_oauth_row i now (set_tokens now tok)"
  show "configuration (snd (run_state (upsert_oauth_tokens now i tok) db)) = configuration db"
    by (rule run_query_stmt_cases [of ?f db])
      (auto simp: upsert_oauth_tokens_def dest: upsert_oauth_row_configuration)
qed

definition calls_logs :: "world \<Rightarrow> call list \<times> log_entry list" where
  "calls_logs w = (w_calls w, w_logs w)"

abbreviation quiet :: "'a flow \<Rightarrow> bool" where
  "quiet \<equiv> state_io_rel (same calls_logs)"

lemma quiet_prims:
  "quiet next_tick" "quiet (read_clock E)" "quiet (read_wall E)" "quiet (on_database q)"
  "quiet (runtime_write E x)" "quiet (runtime_entry k)"
  by (simp_all add: state_io_rel_def same_def calls_logs_def run_on_database runtime_entry_def)

lemma quiet_update: "(\<And>w. calls_logs (f w) = calls_logs w) \<Longrightarrow> quiet (update_by f)"
  by (simp add: state_io_rel_def same_def)

lemma quiet_capture: "quiet (capture E i h)"
  unfolding capture_def Let_def
  by (auto intro!: sm.rel_rules quiet_prims quiet_update simp: calls_logs_def same_def)

section \<open>Events\<close>

definition acts :: "'a flow \<Rightarrow> ('a \<Rightarrow> call list \<Rightarrow> log_entry list \<Rightarrow> bool) \<Rightarrow> bool" where
  "acts m Q \<longleftrightarrow> (\<forall>w. \<exists>cs ls. w_calls (snd (run_state m w)) = w_calls w @ cs
     \<and> w_logs (snd (run_state m w)) = w_logs w @ ls \<and> Q (fst (run_state m w)) cs ls)"

lemma actsD:
  "acts m Q \<Longrightarrow> run_state m w = (a, w') \<Longrightarrow>
     \<exists>cs ls. w_calls w' = w_calls w @ cs \<and> w_logs w' = w_logs w @ ls \<and> Q a cs ls"
  unfolding acts_def by (drule spec [of _ w]) simp

lemma acts_ret: "Q a [] [] \<Longrightarrow> acts (ret a) Q"
  by (simp add: acts_def)

lemma acts_bind:
  assumes m: "acts m P" and f: "\<And>a cs ls. P a cs ls \<Longrightarrow> acts (f a) (\<lambda>b cs' ls'. Q b (cs @ cs') (ls @ ls'))"
  shows "acts (State_Monad.bind m f) Q"
  unfolding acts_def
proof
  fix w
  obtain a w1 where m1: "run_state m w = (a, w1)" by (cases "run_state m w")
  from actsD [OF m m1] obtain cs ls
    where e: "w_calls w1 = w_calls w @ cs" "w_logs w1 = w_logs w @ ls" "P a cs ls" by (elim exE conjE)
  obtain b w2 where f1: "run_state (f a) w1 = (b, w2)" by (cases "run_state (f a) w1")
  from actsD [OF f [OF e(3)] f1] obtain cs' ls'
    where e': "w_calls w2 = w_calls w1 @ cs'" "w_logs w2 = w_logs w1 @ ls'" "Q b (cs @ cs') (ls @ ls')"
    by (elim exE conjE)
  have run: "run_state (State_Monad.bind m f) w = (b, w2)" by (simp add: m1 f1)
  show "\<exists>cs ls. w_calls (snd (run_state (State_Monad.bind m f) w)) = w_calls w @ cs
      \<and> w_logs (snd (run_state (State_Monad.bind m f) w)) = w_logs w @ ls
      \<and> Q (fst (run_state (State_Monad.bind m f) w)) cs ls"
    unfolding run by (rule exI [of _ "cs @ cs'"], rule exI [of _ "ls @ ls'"]) (simp add: e e')
qed

lemma acts_quiet: "quiet m \<Longrightarrow> (\<And>a. Q a [] []) \<Longrightarrow> acts m Q"
  by (simp add: acts_def state_io_rel_def same_def calls_logs_def)

lemma acts_quiet_bind: "quiet m \<Longrightarrow> (\<And>a. acts (f a) Q) \<Longrightarrow> acts (State_Monad.bind m f) Q"
  by (rule acts_bind [OF acts_quiet [where Q = "\<lambda>_ cs ls. cs = [] \<and> ls = []"]]) auto

lemma acts_weaken: "acts m P \<Longrightarrow> (\<And>a cs ls. P a cs ls \<Longrightarrow> Q a cs ls) \<Longrightarrow> acts m Q"
  unfolding acts_def by meson

text \<open>Branches.\<close>

lemma acts_sum:
  "(\<And>e. r = Inl e \<Longrightarrow> acts (f e) Q) \<Longrightarrow> (\<And>a. r = Inr a \<Longrightarrow> acts (g a) Q) \<Longrightarrow> acts (case_sum f g r) Q"
  by (cases r) simp_all

lemma acts_prod: "(\<And>a b. x = (a, b) \<Longrightarrow> acts (f a b) Q) \<Longrightarrow> acts (case_prod f x) Q"
  by (cases x) simp

lemma acts_option:
  "(x = None \<Longrightarrow> acts n Q) \<Longrightarrow> (\<And>a. x = Some a \<Longrightarrow> acts (f a) Q) \<Longrightarrow> acts (case_option n f x) Q"
  by (cases x) simp_all

lemma acts_outcome:
  "(\<And>a. x = Done a \<Longrightarrow> acts (f a) Q) \<Longrightarrow> (x = Panicked \<Longrightarrow> acts p Q) \<Longrightarrow> acts (case_outcome f p x) Q"
  by (cases x) simp_all

lemma acts_error_class:
  "(c = Success \<Longrightarrow> acts s Q) \<Longrightarrow> (\<And>d. c = Retryable d \<Longrightarrow> acts (r d) Q) \<Longrightarrow>
     (c = NonRetryable \<Longrightarrow> acts n Q) \<Longrightarrow> (c = AuthExpired \<Longrightarrow> acts a Q) \<Longrightarrow> acts (case_error_class s r n a c) Q"
  by (cases c) simp_all

lemma acts_refresh_error:
  "(x = InvalidGrant \<Longrightarrow> acts g Q) \<Longrightarrow> (\<And>m. x = Transient m \<Longrightarrow> acts (f m) Q) \<Longrightarrow> acts (case_refresh_error g f x) Q"
  by (cases x) simp_all

lemma acts_if: "(b \<Longrightarrow> acts m Q) \<Longrightarrow> (\<not> b \<Longrightarrow> acts n Q) \<Longrightarrow> acts (if b then m else n) Q"
  by simp


section \<open>The events of an attempt\<close>

definition entry_for :: "ctx \<Rightarrow> string \<Rightarrow> bool \<Rightarrow> log_entry \<Rightarrow> bool" where
  "entry_for cx i ok l \<longleftrightarrow>
     le_pool_id l = Some (cx_pool cx) \<and> le_provider_id l = Some i
   \<and> le_user_id l = caller_user_id (cx_caller cx) \<and> le_success l = ok"

text \<open>An attempt that sent something leaves one entry, a success only for an answer.\<close>

definition logged :: "ctx \<Rightarrow> string \<Rightarrow> attempt_end \<Rightarrow> log_entry list \<Rightarrow> bool" where
  "logged cx i fin ls \<longleftrightarrow>
     (case fin of
        Crash \<Rightarrow> ls = []
      | Failover _ \<Rightarrow> (\<exists>l. ls = [l] \<and> entry_for cx i False l)
      | Answer _ \<Rightarrow> (\<exists>l ok. ls = [l] \<and> entry_for cx i ok l))"

definition provider_call :: "target \<Rightarrow> call" where
  "provider_call tg = ProviderCall (tg_id tg) (tg_model tg)"

definition refreshes :: "target \<Rightarrow> call list \<Rightarrow> bool" where
  "refreshes tg cs \<longleftrightarrow> cs = [] \<or> (\<exists>rt. prov_kind (tg_provider tg) = OauthCodex \<and> cs = [RefreshCall (tg_id tg) rt])"

definition followups :: "target \<Rightarrow> call list \<Rightarrow> bool" where
  "followups tg cs \<longleftrightarrow> (\<exists>mid tail. cs = mid @ tail \<and> refreshes tg mid \<and> tail \<in> {[], [provider_call tg]})"

lemma followupsI:
  "cs \<in> {[], [provider_call tg]} \<Longrightarrow> followups tg cs"
  "refreshes tg mid \<Longrightarrow> cs \<in> {[], [provider_call tg]} \<Longrightarrow> followups tg (mid @ cs)"
  unfolding followups_def refreshes_def by blast+

lemma acts_log_request:
  "acts (log_request cx i code latency ok) (\<lambda>_ cs ls. cs = [] \<and> (\<exists>l. ls = [l] \<and> entry_for cx i ok l))"
  by (simp add: acts_def log_request_def entry_for_def)

lemma acts_give_up:
  "acts (give_up cx tg code latency msg) (\<lambda>fin cs ls. cs = [] \<and> (\<exists>m. fin = Failover m) \<and> logged cx (tg_id tg) fin ls)"
  unfolding give_up_def
  by (rule acts_bind [OF acts_log_request], rule acts_ret) (simp add: logged_def)

lemma acts_relay_error:
  "acts (relay_error cx tried tg up latency) (\<lambda>fin cs ls. cs = [] \<and> fin \<noteq> Crash \<and> logged cx (tg_id tg) fin ls)"
  unfolding relay_error_def
  by (rule acts_bind [OF acts_log_request], rule acts_ret) (auto simp: logged_def)

lemma quiet_maybe_log_dataset: "quiet (maybe_log_dataset cx tg latency resp)"
  unfolding maybe_log_dataset_def
  by (auto intro!: sm.rel_bind sm.rel_ret quiet_update simp: calls_logs_def)

lemma acts_deliver:
  "acts (deliver E cx tried tg stage rq up latency) (\<lambda>fin cs ls. cs = [] \<and> fin \<noteq> Crash \<and> logged cx (tg_id tg) fin ls)"
  unfolding deliver_def
  apply (rule acts_quiet_bind [OF quiet_prims(5)], rule acts_quiet_bind [OF quiet_prims(1)], rule acts_sum)
   apply (rule acts_bind [OF acts_log_request], rule acts_ret)
   apply (auto simp: logged_def split: app_error.split)[1]
  apply (rule acts_bind [OF acts_log_request], rule acts_quiet_bind [OF quiet_maybe_log_dataset], rule acts_ret)
  apply (auto simp: logged_def)
  done

lemma quiet_cooling:
  "quiet (cool_for E tg d)" "quiet (backoff_delay tg)" "quiet (cool_down E tg)" "quiet (status_delay tg code asked)"
proof -
  show c: "quiet (cool_for E tg d)" for d unfolding cool_for_def by (rule quiet_prims)
  show b: "quiet (backoff_delay tg)" unfolding backoff_delay_def
    by (intro sm.rel_bind sm.rel_ret quiet_prims)
  show "quiet (cool_down E tg)" unfolding cool_down_def by (intro sm.rel_bind b c)
  show "quiet (status_delay tg code asked)"
    unfolding status_delay_def by (auto intro: sm.rel_ret b split: option.split)
qed

text \<open>After silent steps, giving up leaves its one entry.\<close>

lemmas acts_failed = acts_weaken [OF acts_give_up]

lemma acts_exchange:
  "acts (exchange E tg rq) (\<lambda>_ cs ls. cs = [provider_call tg] \<and> ls = [])"
  by (simp add: acts_def exchange_def provider_call_def)

lemma acts_built:
  "(x = Panicked \<Longrightarrow> acts p Q) \<Longrightarrow> (\<And>e. x = Done (Inl e) \<Longrightarrow> acts (f e) Q) \<Longrightarrow> (\<And>a. x = Done (Inr a) \<Longrightarrow> acts (g a) Q) \<Longrightarrow>
   acts (case x of Panicked \<Rightarrow> p | Done (Inl e) \<Rightarrow> f e | Done (Inr a) \<Rightarrow> g a) Q"
  by (cases x) (auto split: sum.split)

lemma quiet_build_request: "quiet (build_request cx tg creds)"
  unfolding build_request_def by (intro sm.rel_bind sm.rel_ret sm.rel_gets quiet_prims)

lemma acts_retry_end:
  "acts (retry_end E cx tried tg honour rq up latency) (\<lambda>fin cs ls. cs = [] \<and> fin \<noteq> Crash \<and> logged cx (tg_id tg) fin ls)"
  unfolding retry_end_def
proof (rule acts_error_class)
  fix asked
  show "acts (do {
      d \<leftarrow> (if honour then status_delay tg (up_status up) asked else backoff_delay tg);
      cool_for E tg d;
      give_up cx tg (Some (up_status up)) latency (error_text up) })
    (\<lambda>fin cs ls. cs = [] \<and> fin \<noteq> Crash \<and> logged cx (tg_id tg) fin ls)"
    by (rule acts_quiet_bind, simp add: quiet_cooling, rule acts_quiet_bind [OF quiet_cooling(1)], rule acts_failed) auto
next
  show "acts (do {
      runtime_write E (OpMisconfigured (tg_key tg));
      give_up cx tg (Some (up_status up)) latency (error_text up) })
    (\<lambda>fin cs ls. cs = [] \<and> fin \<noteq> Crash \<and> logged cx (tg_id tg) fin ls)"
    by (rule acts_quiet_bind [OF quiet_prims(5)], rule acts_failed) auto
qed (rule acts_deliver, rule acts_failed, auto)

lemma acts_retry_once:
  "acts (retry_once E cx tried tg honour creds)
     (\<lambda>fin cs ls. cs \<in> {[], [provider_call tg]} \<and> logged cx (tg_id tg) fin ls)"
  unfolding retry_once_def
  apply (rule acts_quiet_bind [OF quiet_build_request], rule acts_built)
    apply (rule acts_ret, simp add: logged_def)
   apply (rule acts_failed, force)
  apply (rule acts_bind [OF acts_exchange], rule acts_prod, rule acts_sum)
   apply (rule acts_quiet_bind [OF quiet_cooling(3)], rule acts_failed, force)
  apply (rule acts_quiet_bind [OF quiet_capture], rule acts_weaken [OF acts_retry_end], simp)
  done

lemma refresh_keeps_logs: "state_io_rel (same w_logs) (refresh_and_persist_detached E p creds)"
proof -
  have db: "state_io_rel (same w_logs) (on_database q)" for q
    by (simp add: state_io_rel_def same_def run_on_database)
  have tokens: "state_io_rel (same w_logs) (refresh_tokens E i rt)" for i rt
    by (simp add: state_io_rel_def same_def refresh_tokens_def split: sum.split)
  have wall: "state_io_rel (same w_logs) (read_wall E)"
    by (simp add: state_io_rel_def same_def)
  have codex: "state_io_rel (same w_logs) (codex_refresh_credentials E i creds)" for i
    unfolding codex_refresh_credentials_def
    by (auto intro!: sm.rel_ret sm.rel_bind tokens wall split: option.split sum.split)
  have creds: "state_io_rel (same w_logs) (refresh_credentials E p creds)"
    unfolding refresh_credentials_def http_refresh_credentials_def commandcode_refresh_credentials_def
    by (auto intro!: sm.rel_ret codex split: provider_kind.split)
  have once: "state_io_rel (same w_logs) (persist_once E i c)" for i c
    unfolding persist_once_def by (intro sm.rel_bind wall db)
  have persist: "state_io_rel (same w_logs) (persist E n i c)" for n i c
    by (induction n) (auto intro!: sm.rel_bind once sm.rel_ret simp: ok_ret_def fail_ret_def split: sum.split)
  show ?thesis
    unfolding refresh_and_persist_detached_def refresh_and_persist_def
    by (auto intro!: sm.rel_bind sm.rel_ret db creds persist split: option.split sum.split outcome.split)
qed

lemma acts_refresh:
  "acts (refresh_and_persist_detached E (tg_provider tg) creds) (\<lambda>_ cs ls. refreshes tg cs \<and> ls = [])"
  unfolding acts_def
proof
  fix w
  obtain r w' where run: "run_state (refresh_and_persist E (tg_provider tg) creds) w = (r, w')"
    by (cases "run_state (refresh_and_persist E (tg_provider tg) creds) w")
  from refresh_and_persist_result(1) [OF run] obtain cs
    where cs: "w_calls w' = w_calls w @ cs" "one_refresh (tg_provider tg) creds cs" by (elim exE conjE)
  then have "refreshes tg cs" by (auto simp: refreshes_def one_refresh_def tg_id_def)
  moreover have fin: "snd (run_state (refresh_and_persist_detached E (tg_provider tg) creds) w) = w'"
    by (simp add: refresh_and_persist_detached_def run)
  moreover have "w_logs w' = w_logs w"
    using sm.rel_run [OF refresh_keeps_logs, of w E "tg_provider tg" creds] by (simp only: fin same_def)
  ultimately show "\<exists>cs ls. w_calls (snd (run_state (refresh_and_persist_detached E (tg_provider tg) creds) w)) = w_calls w @ cs
      \<and> w_logs (snd (run_state (refresh_and_persist_detached E (tg_provider tg) creds) w)) = w_logs w @ ls
      \<and> refreshes tg cs \<and> ls = []"
    using cs(1) by simp
qed

lemma acts_on_auth_expired:
  "acts (on_auth_expired E cx tried tg creds up latency)
     (\<lambda>fin cs ls. followups tg cs \<and> logged cx (tg_id tg) fin ls)"
  unfolding on_auth_expired_def
  apply (rule acts_if)
   apply (rule acts_quiet_bind [OF quiet_prims(5)], rule acts_weaken [OF acts_relay_error], simp add: followupsI)
  apply (rule acts_bind [OF acts_refresh], rule acts_sum, rule acts_refresh_error)
    apply (rule acts_quiet_bind [OF quiet_prims(5)], rule acts_failed)
    apply (auto dest: followupsI(2) [of tg _ "[]"])[1]
   apply (rule acts_quiet_bind [OF quiet_cooling(3)], rule acts_failed)
   apply (auto dest: followupsI(2) [of tg _ "[]"])[1]
  apply (rule acts_weaken [OF acts_retry_once])
  apply (auto intro: followupsI(2) dest: followupsI(2) [of tg _ "[]"])
  done

lemma quiet_announced_delay: "quiet (announced_delay E up asked)"
  unfolding announced_delay_def
  by (auto intro!: sm.rel_ret sm.rel_bind quiet_prims split: option.split sum.split)

lemma acts_on_retryable:
  "acts (on_retryable E cx tried tg creds up asked latency)
     (\<lambda>fin cs ls. followups tg cs \<and> logged cx (tg_id tg) fin ls)"
  unfolding on_retryable_def
  apply (rule acts_quiet_bind [OF sm.rel_gets], rule acts_if)
   apply (rule acts_quiet_bind [OF quiet_update], simp add: calls_logs_def)
   apply (rule acts_weaken [OF acts_retry_once], simp add: followupsI)
  apply (rule acts_quiet_bind [OF quiet_announced_delay], rule acts_outcome)
   apply (rule acts_quiet_bind [OF quiet_cooling(4)], rule acts_quiet_bind [OF quiet_cooling(1)], rule acts_failed)
   apply (simp add: followupsI)
  apply (rule acts_ret, simp add: followupsI logged_def)
  done

lemma acts_on_response:
  "acts (on_response E cx tried tg creds rq up latency)
     (\<lambda>fin cs ls. followups tg cs \<and> logged cx (tg_id tg) fin ls)"
  unfolding on_response_def
  apply (rule acts_error_class)
     apply (rule acts_weaken [OF acts_deliver], simp add: followupsI)
    apply (rule acts_on_retryable)
   apply (rule acts_weaken [OF acts_relay_error], simp add: followupsI)
  apply (rule acts_weaken [OF acts_on_auth_expired], simp)
  done

text \<open>Nothing sent and nothing logged, or one call, its follow-ups and one entry.\<close>

definition attempt_events :: "ctx \<Rightarrow> target \<Rightarrow> attempt_end \<Rightarrow> call list \<Rightarrow> log_entry list \<Rightarrow> bool" where
  "attempt_events cx tg fin cs ls \<longleftrightarrow>
     (cs = [] \<and> ls = [] \<and> (fin = Crash \<or> (\<exists>m. fin = Failover m)))
   \<or> (\<exists>rest. cs = provider_call tg # rest \<and> followups tg rest \<and> logged cx (tg_id tg) fin ls)"

lemma acts_attempt_member:
  "acts (attempt_member E cx tried tg creds) (attempt_events cx tg)"
  unfolding attempt_member_def
  apply (rule acts_quiet_bind [OF quiet_build_request], rule acts_built)
    apply (rule acts_ret, simp add: attempt_events_def)
   apply (rule acts_ret, simp add: attempt_events_def)
  apply (rule acts_bind [OF acts_exchange], rule acts_prod, rule acts_sum)
   apply (rule acts_quiet_bind [OF quiet_cooling(3)], rule acts_failed)
   apply (simp add: attempt_events_def followupsI)
  apply (rule acts_quiet_bind [OF quiet_capture], rule acts_weaken [OF acts_on_response])
  apply (simp add: attempt_events_def)
  done

section \<open>The events of a request\<close>

text \<open>
  What one candidate may add to the record, in the order in which it does: nothing; or
  its call, at most one renewal of its token, at most one more call, and one entry.
\<close>

definition member_call :: "resolved_member \<Rightarrow> call" where
  "member_call m = ProviderCall (prov_id (rm_provider m)) (rm_effective_model m)"

definition visit_calls :: "resolved_member \<Rightarrow> call list \<Rightarrow> bool" where
  "visit_calls m cs \<longleftrightarrow>
     (\<exists>mid tail. cs = member_call m # mid @ tail
        \<and> (mid = [] \<or> (\<exists>rt. prov_kind (rm_provider m) = OauthCodex \<and> mid = [RefreshCall (prov_id (rm_provider m)) rt]))
        \<and> tail \<in> {[], [member_call m]})"

definition visit :: "ctx \<Rightarrow> bool \<Rightarrow> resolved_member \<Rightarrow> call list \<times> log_entry list \<Rightarrow> bool" where
  "visit cx ok m b \<longleftrightarrow>
     b = ([], []) \<or>
     visit_calls m (fst b) \<and> (\<exists>l ok'. snd b = [l] \<and> entry_for cx (prov_id (rm_provider m)) ok' l \<and> (ok' \<longrightarrow> ok))"

lemma target_of_simps [simp]:
  "tg_id (target_of E cx m) = prov_id (rm_provider m)"
  "tg_model (target_of E cx m) = rm_effective_model m"
  "tg_key (target_of E cx m) = member_key m"
  "prov_kind (tg_provider (target_of E cx m)) = prov_kind (rm_provider m)"
  "provider_call (target_of E cx m) = member_call m"
  by (simp_all add: tg_id_def tg_key_def target_of_def folded_provider_def member_key_def provider_call_def
      member_call_def)

lemma followups_visit: "followups (target_of E cx m) rest \<Longrightarrow> visit_calls m (member_call m # rest)"
  by (auto simp: followups_def refreshes_def visit_calls_def)

text \<open>A turn that goes on records no success; one that ends the loop in a panic leaves no entry.\<close>

definition turn_events :: "ctx \<Rightarrow> resolved_member \<Rightarrow> turn \<Rightarrow> call list \<Rightarrow> log_entry list \<Rightarrow> bool" where
  "turn_events cx m r cs ls \<longleftrightarrow>
     (case r of
        Next v \<Rightarrow> visit cx False m (cs, ls)
      | Stop (Done resp) \<Rightarrow> visit cx True m (cs, ls) \<and> cs \<noteq> []
      | Stop Panicked \<Rightarrow> (cs = [] \<or> visit_calls m cs) \<and> ls = [])"

lemma attempt_turn_events:
  "attempt_events cx (target_of E cx m) fin cs ls \<Longrightarrow>
     turn_events cx m (case fin of Answer resp \<Rightarrow> Stop (Done resp) | Crash \<Rightarrow> Stop Panicked
       | Failover msg \<Rightarrow> Next (v\<lparr>lv_error := msg\<rparr>)) cs ls"
  by (cases fin)
    (auto simp: attempt_events_def turn_events_def visit_def logged_def followups_visit)

lemma quiet_credentials_for: "quiet (credentials_for p)"
  unfolding credentials_for_def by (intro sm.rel_bind sm.rel_ret quiet_prims)

lemma acts_contact: "acts (contact E cx m v) (turn_events cx m)"
  unfolding contact_def Let_def
  apply (rule acts_quiet_bind [OF quiet_credentials_for], rule acts_if)
   apply (rule acts_ret, simp add: turn_events_def visit_def)
  apply (rule acts_bind [OF acts_attempt_member], rule acts_ret)
  apply (simp add: attempt_turn_events)
  done

lemma quiet_attribute_error: "quiet (attribute_error E v)"
  unfolding attribute_error_def
  by (auto intro!: sm.rel_ret sm.rel_bind quiet_prims split: option.split)

lemma acts_try_member: "acts (try_member E cx m v) (turn_events cx m)"
  unfolding try_member_def
  apply (rule acts_quiet_bind [OF quiet_prims(2)], rule acts_quiet_bind [OF quiet_attribute_error])
  apply (rule acts_quiet_bind [OF sm.rel_gets], rule acts_option)
   apply (rule acts_contact)
  apply (rule acts_ret, simp add: turn_events_def visit_def)
  done

text \<open>The whole run: one block per candidate; only the block that gave the answer holds a success.\<close>

definition run_events :: "ctx \<Rightarrow> resolved_member list \<Rightarrow> response outcome \<Rightarrow> call list \<Rightarrow> log_entry list \<Rightarrow> bool" where
  "run_events cx ms r cs ls \<longleftrightarrow>
     (\<exists>ms1 ms2 blocks. ms = ms1 @ ms2 \<and> list_all2 (visit cx False) ms1 blocks
        \<and> ((ms2 = [] \<and> cs = concat (map fst blocks) \<and> ls = concat (map snd blocks) \<and> r \<noteq> Panicked)
         \<or> (\<exists>m ms3 last_cs last_ls. ms2 = m # ms3 \<and> turn_events cx m (Stop r) last_cs last_ls
              \<and> cs = concat (map fst blocks) @ last_cs \<and> ls = concat (map snd blocks) @ last_ls)))"

lemma run_events_Cons:
  assumes "visit cx False m (cs1, ls1)" and "run_events cx ms r cs ls"
  shows "run_events cx (m # ms) r (cs1 @ cs) (ls1 @ ls)"
proof -
  from assms(2) obtain ms1 ms2 blocks where
    e: "ms = ms1 @ ms2" "list_all2 (visit cx False) ms1 blocks"
      "(ms2 = [] \<and> cs = concat (map fst blocks) \<and> ls = concat (map snd blocks) \<and> r \<noteq> Panicked)
         \<or> (\<exists>m ms3 last_cs last_ls. ms2 = m # ms3 \<and> turn_events cx m (Stop r) last_cs last_ls
              \<and> cs = concat (map fst blocks) @ last_cs \<and> ls = concat (map snd blocks) @ last_ls)"
    unfolding run_events_def by (elim exE conjE)
  show ?thesis
    unfolding run_events_def
    by (rule exI [of _ "m # ms1"], rule exI [of _ ms2], rule exI [of _ "(cs1, ls1) # blocks"])
      (use assms(1) e in auto)
qed

lemma acts_try_members: "acts (try_members E cx ms v) (run_events cx ms)"
proof (induction ms arbitrary: v)
  case Nil
  show ?case
    unfolding try_members.simps finish_def
    by (rule acts_quiet_bind [OF quiet_attribute_error], rule acts_ret) (simp add: run_events_def)
next
  case (Cons m ms)
  show ?case
    unfolding try_members.simps
  proof (rule acts_bind [OF acts_try_member])
    fix r cs ls
    assume e: "turn_events cx m r cs ls"
    show "acts (case r of Next v' \<Rightarrow> try_members E cx ms v' | Stop resp \<Rightarrow> ret resp)
        (\<lambda>b cs' ls'. run_events cx (m # ms) b (cs @ cs') (ls @ ls'))"
    proof (cases r)
      case (Next v')
      with e have "visit cx False m (cs, ls)" by (simp add: turn_events_def)
      then show ?thesis unfolding Next turn.case
        by (intro acts_weaken [OF Cons.IH] run_events_Cons)
    next
      case (Stop resp)
      have "run_events cx (m # ms) resp cs ls"
        unfolding run_events_def
        by (rule exI [of _ "[]"], rule exI [of _ "m # ms"], rule exI [of _ "[]"]) (use e Stop in auto)
      then show ?thesis unfolding Stop turn.case by (intro acts_ret) simp
    qed
  qed
qed

text \<open>The candidates of a request.\<close>

definition candidates :: "config_snapshot \<Rightarrow> string \<Rightarrow> wire_format \<Rightarrow> world \<Rightarrow> resolved_member list" where
  "candidates s i wire w =
     (case fst (select s i wire (w_rotation w)) of Some sel \<Rightarrow> sel_providers sel | None \<Rightarrow> [])"

lemma run_select_candidates:
  "run_state (select_candidates s i wire) w =
     (fst (select s i wire (w_rotation w)), w\<lparr>w_rotation := snd (select s i wire (w_rotation w))\<rparr>)"
  by (simp add: select_candidates_def split: prod.split)

text \<open>A request is either refused without any event or served by the loop.\<close>

lemma handle_proxy_cases:
  obtains (refused) code msg where
      "run_state (handle_proxy_inner E s discovered wire i c text) w
         = (Done (wire_error wire code msg), w\<lparr>w_rotation := snd (select s i wire (w_rotation w))\<rparr>)"
      "code = 400"
  | (served) sel where
      "fst (select s i wire (w_rotation w)) = Some sel" "candidates s i wire w = sel_providers sel"
      "run_state (handle_proxy_inner E s discovered wire i c text) w
         = run_state (try_members E (request_ctx E wire i c text sel) (sel_providers sel) loop_start)
             (w\<lparr>w_rotation := snd (select s i wire (w_rotation w)), w_tick := Suc (w_tick w)\<rparr>)"
proof (cases "fst (select s i wire (w_rotation w))")
  case None
  show thesis
    by (rule refused) (simp_all add: handle_proxy_inner_def run_select_candidates None)
next
  case (Some sel)
  show thesis
  proof (cases "direct_refusal s discovered c sel")
    case None
    show thesis
      by (rule served [OF Some]) (simp_all add: candidates_def handle_proxy_inner_def run_select_candidates Some None)
  next
    case (Some m)
    show thesis
      by (rule refused)
        (simp_all add: handle_proxy_inner_def run_select_candidates \<open>fst (select s i wire (w_rotation w)) = Some sel\<close> Some)
  qed
qed

definition shown_to :: "caller \<Rightarrow> response outcome \<Rightarrow> response outcome" where
  "shown_to c r =
     (case r of
        Done resp \<Rightarrow> Done (if is_admin c then resp
          else resp\<lparr>resp_headers := strip_debug_headers (resp_headers resp)\<rparr>)
      | Panicked \<Rightarrow> Panicked)"

lemma run_handle_proxy:
  "run_state (handle_proxy E s discovered wire i c text) w =
     (case run_state (handle_proxy_inner E s discovered wire i c text) w of (r, w') \<Rightarrow> (shown_to c r, w'))"
  by (simp add: handle_proxy_def shown_to_def split: prod.split)

section \<open>Health entries\<close>

abbreviation confined :: "string set \<Rightarrow> 'a flow \<Rightarrow> bool" where
  "confined K \<equiv> state_io_rel (touches K)"

lemma confined_prims:
  "confined K next_tick" "confined K (read_clock E)" "confined K (read_wall E)"
  "confined K (runtime_entry k)" "confined K (http_execute E cl rq)"
    "confined K (on_database (get_oauth_state i))" "confined K (on_database (upsert_oauth_tokens now i tok))"
  by (simp_all add: state_io_rel_def touches_same run_on_database runtime_entry_def configuration_oauth)

lemma confined_update:
  "(\<And>w. w_runtime (f w) = w_runtime w \<and> w_db (f w) = w_db w) \<Longrightarrow> confined K (update_by f)"
  by (simp add: state_io_rel_def touches_same)

lemma touches_write:
  assumes "x \<in> {OpSuccess k, OpRetryable k d, OpMisconfigured k, OpNote k msg}" and "k \<in> K"
  shows "confined K (runtime_write E x)"
  using assms
  by (auto simp: state_io_rel_def touches_def run_op_entries_ok store_simps simp del: run_op.simps)
     (auto simp: store_simps)

lemma confined_write:
  assumes "k \<in> K"
  shows "confined K (runtime_write E (OpSuccess k))" "confined K (runtime_write E (OpRetryable k d))"
    "confined K (runtime_write E (OpMisconfigured k))" "confined K (runtime_write E (OpNote k msg))"
  by (rule touches_write [OF _ assms], simp)+

text \<open>Composition by structure: sequences, branches and the steps already known to be confined.\<close>

lemmas confined_rules = tc.rel_bind tc.rel_ret tc.rel_gets confined_prims confined_update confined_write

lemma confined_refresh: "confined K (refresh_and_persist_detached E p creds)"
proof -
  have tokens: "confined K (refresh_tokens E i rt)" for i rt
    unfolding refresh_tokens_def fail_ret_def check_def
    by (auto intro!: confined_rules split: sum.split)
  have codex: "confined K (codex_refresh_credentials E i creds)" for i
    unfolding codex_refresh_credentials_def
    by (auto intro!: confined_rules tokens split: option.split sum.split)
  have creds: "confined K (refresh_credentials E p creds)"
    unfolding refresh_credentials_def http_refresh_credentials_def commandcode_refresh_credentials_def
    by (auto intro!: tc.rel_ret codex split: provider_kind.split)
  have once: "confined K (persist_once E i c)" for i c
    unfolding persist_once_def by (intro confined_rules)
  have persist: "confined K (persist E n i c)" for n i c
    by (induction n) (auto intro!: tc.rel_bind once tc.rel_ret simp: ok_ret_def fail_ret_def split: sum.split)
  show ?thesis
    unfolding refresh_and_persist_detached_def refresh_and_persist_def
    by (auto intro!: confined_rules creds persist split: option.split sum.split outcome.split)
qed

lemma confined_parts:
  assumes k: "tg_key tg \<in> K"
  shows "confined K (build_request cx tg creds)" "confined K (exchange E tg rq)"
    "confined K (cool_for E tg d)" "confined K (backoff_delay tg)" "confined K (cool_down E tg)"
    "confined K (status_delay tg code asked)" "confined K (log_request cx i st latency ok)"
    "confined K (maybe_log_dataset cx tg latency resp)" "confined K (capture E i h)"
    "confined K (announced_delay E up asked)"
proof -
  show "confined K (build_request cx tg creds)" unfolding build_request_def by (intro confined_rules)
  show "confined K (exchange E tg rq)" unfolding exchange_def by (intro confined_rules)
  show f: "confined K (cool_for E tg d)" for d unfolding cool_for_def by (intro confined_write k)
  show b: "confined K (backoff_delay tg)" unfolding backoff_delay_def by (intro confined_rules)
  show "confined K (cool_down E tg)" unfolding cool_down_def by (intro tc.rel_bind b f)
  show "confined K (status_delay tg code asked)" unfolding status_delay_def
    by (auto intro!: tc.rel_ret b split: option.split)
  show "confined K (log_request cx i st latency ok)" unfolding log_request_def by (intro confined_update) simp
  show "confined K (maybe_log_dataset cx tg latency resp)" unfolding maybe_log_dataset_def
    by (intro tc.rel_bind tc.rel_ret confined_update) simp
  show "confined K (capture E i h)" unfolding capture_def Let_def
    by (auto intro!: confined_rules)
  show "confined K (announced_delay E up asked)" unfolding announced_delay_def
    by (auto intro!: confined_rules split: option.split sum.split)
qed

lemma confined_ends:
  assumes k: "tg_key tg \<in> K"
  shows "confined K (give_up cx tg code latency msg)" "confined K (relay_error cx tried tg up latency)"
    "confined K (deliver E cx tried tg stage rq up latency)"
  unfolding give_up_def relay_error_def deliver_def
  by (auto intro!: confined_rules confined_parts [OF k] k split: sum.split)

lemma confined_attempt:
  assumes k: "tg_key tg \<in> K"
  shows "confined K (attempt_member E cx tried tg creds)"
proof -
  note parts = confined_parts [OF k] confined_ends [OF k] confined_rules k confined_refresh
  have e: "confined K (retry_end E cx tried tg honour rq up latency)" for honour rq up latency
    unfolding retry_end_def by (auto intro!: parts split: error_class.split)
  have o: "confined K (retry_once E cx tried tg honour creds)" for honour creds
    unfolding retry_once_def by (auto intro!: parts e split: outcome.split sum.split)
  have x: "confined K (on_auth_expired E cx tried tg creds up latency)" for up latency
    unfolding on_auth_expired_def by (auto intro!: parts o split: sum.split refresh_error.split)
  have r: "confined K (on_retryable E cx tried tg creds up asked latency)" for up asked latency
    unfolding on_retryable_def by (auto intro!: parts o split: outcome.split)
  have c: "confined K (on_response E cx tried tg creds rq up latency)" for rq up latency
    unfolding on_response_def by (auto intro!: parts x r split: error_class.split)
  show ?thesis
    unfolding attempt_member_def by (auto intro!: parts c split: outcome.split sum.split)
qed

text \<open>What an operation returns, whatever the state.\<close>

definition yields :: "'a flow \<Rightarrow> ('a \<Rightarrow> bool) \<Rightarrow> bool" where
  "yields m Q \<longleftrightarrow> (\<forall>w. Q (fst (run_state m w)))"

lemma yieldsD: "yields m Q \<Longrightarrow> run_state m w = (a, w') \<Longrightarrow> Q a"
  unfolding yields_def by (drule spec [of _ w]) simp

lemma yields_ret: "Q a \<Longrightarrow> yields (ret a) Q"
  by (simp add: yields_def)

lemma yields_True: "yields m (\<lambda>_. True)"
  by (simp add: yields_def)

lemma yields_bind:
  assumes m: "yields m P" and f: "\<And>a. P a \<Longrightarrow> yields (f a) Q"
  shows "yields (State_Monad.bind m f) Q"
  unfolding yields_def
proof
  fix w
  obtain a w1 where m1: "run_state m w = (a, w1)" by (cases "run_state m w")
  from f [OF yieldsD [OF m m1]] show "Q (fst (run_state (State_Monad.bind m f) w))"
    by (simp add: yields_def m1)
qed

definition prev_in :: "string set \<Rightarrow> loop_vars \<Rightarrow> bool" where
  "prev_in K v \<longleftrightarrow> (\<forall>k. lv_prev_key v = Some k \<longrightarrow> k \<in> K)"

lemma yields_attribute_error: "prev_in K v \<Longrightarrow> yields (attribute_error E v) (prev_in K)"
  unfolding attribute_error_def
  by (auto intro!: yields_ret yields_bind [OF yields_True] simp: prev_in_def)

lemma yields_contact:
  assumes "prev_in K v"
  shows "yields (contact E cx m v) (\<lambda>r. \<forall>v'. r = Next v' \<longrightarrow> prev_in K v')"
  unfolding contact_def Let_def
  apply (rule yields_bind [OF yields_True])
  using assms
  apply (auto intro!: yields_ret yields_bind [OF yields_True] simp: prev_in_def split: attempt_end.splits)
  done

lemma yields_try_member:
  assumes "prev_in K v" and "member_key m \<in> K"
  shows "yields (try_member E cx m v) (\<lambda>r. \<forall>v'. r = Next v' \<longrightarrow> prev_in K v')"
  unfolding try_member_def
  apply (rule yields_bind [OF yields_True], rule yields_bind [OF yields_attribute_error [OF assms(1)]])
  apply (rule yields_bind [OF yields_True])
  using assms(2)
  apply (auto intro!: yields_ret yields_contact split: option.split)
   apply (simp_all add: prev_in_def)
  done

lemma confined_contact:
  assumes "member_key m \<in> K"
  shows "confined K (contact E cx m v)"
proof -
  have a: "confined K (attempt_member E cx tried (target_of E cx m) creds)" for tried creds
    by (rule confined_attempt) (simp add: assms)
  show ?thesis
    unfolding contact_def Let_def credentials_for_def
    by (auto intro!: confined_rules a)
qed

lemma confined_attribute_error: "prev_in K v \<Longrightarrow> confined K (attribute_error E v)"
  unfolding attribute_error_def
  by (auto intro!: confined_rules simp: prev_in_def split: option.split)

lemma confined_try_member:
  "prev_in K v \<Longrightarrow> member_key m \<in> K \<Longrightarrow> confined K (try_member E cx m v)"
  unfolding try_member_def
  by (auto intro!: confined_rules confined_attribute_error confined_contact split: option.split)

lemma confined_try_members:
  "prev_in K v \<Longrightarrow> member_key ` set ms \<subseteq> K \<Longrightarrow> touches K w (snd (run_state (try_members E cx ms v) w))"
proof (induction ms arbitrary: v w)
  case Nil
  then show ?case
    unfolding try_members.simps finish_def
    by (intro tc.rel_run [OF tc.rel_bind [OF confined_attribute_error tc.rel_ret]])
next
  case (Cons m ms)
  have key: "member_key m \<in> K" and keys: "member_key ` set ms \<subseteq> K" using Cons.prems(2) by auto
  obtain r w1 where r: "run_state (try_member E cx m v) w = (r, w1)"
    by (cases "run_state (try_member E cx m v) w")
  have t1: "touches K w w1"
    using tc.rel_run [OF confined_try_member [OF Cons.prems(1) key], of w E cx] by (simp add: r)
  show ?case
  proof (cases r)
    case (Next v')
    with yieldsD [OF yields_try_member [OF Cons.prems(1) key] r] have "prev_in K v'" by simp
    from Cons.IH [OF this keys, of w1] t1 show ?thesis
      by (simp add: r Next) (rule tc.trans)
  next
    case (Stop resp)
    with t1 show ?thesis by (simp add: r)
  qed
qed

lemma handle_proxy_touches:
  "touches (member_key ` set (candidates s i wire w)) w
     (snd (run_state (handle_proxy E s discovered wire i c text) w))"
proof -
  have inner: "snd (run_state (handle_proxy E s discovered wire i c text) w)
      = snd (run_state (handle_proxy_inner E s discovered wire i c text) w)"
    by (simp add: run_handle_proxy split: prod.split)
  show ?thesis
    unfolding inner
  proof (rule handle_proxy_cases [of E s discovered wire i c "text" w])
    fix code :: nat and msg
    assume "run_state (handle_proxy_inner E s discovered wire i c text) w
        = (Done (wire_error wire code msg), w\<lparr>w_rotation := snd (select s i wire (w_rotation w))\<rparr>)"
    then show "touches (member_key ` set (candidates s i wire w)) w
        (snd (run_state (handle_proxy_inner E s discovered wire i c text) w))"
      by (simp add: touches_same)
  next
    fix sel
    let ?w = "w\<lparr>w_rotation := snd (select s i wire (w_rotation w)), w_tick := Suc (w_tick w)\<rparr>"
    assume c: "candidates s i wire w = sel_providers sel"
      and run: "run_state (handle_proxy_inner E s discovered wire i c text) w
         = run_state (try_members E (request_ctx E wire i c text sel) (sel_providers sel) loop_start) ?w"
    have "touches (member_key ` set (sel_providers sel)) ?w
        (snd (run_state (try_members E (request_ctx E wire i c text sel) (sel_providers sel) loop_start) ?w))"
      by (rule confined_try_members) (simp_all add: prev_in_def loop_start_def)
    then show "touches (member_key ` set (candidates s i wire w)) w
        (snd (run_state (handle_proxy_inner E s discovered wire i c text) w))"
      unfolding run c by (simp add: touches_def)
  qed
qed

section \<open>The record of a request\<close>

lemma visit_mono: "visit cx False m b \<Longrightarrow> visit cx True m b"
  by (auto simp: visit_def)

lemma visit_no_success: "visit cx False m b \<Longrightarrow> filter le_success (snd b) = []"
  by (auto simp: visit_def entry_for_def)

lemma visit_one_success: "visit cx ok m b \<Longrightarrow> length (filter le_success (snd b)) \<le> 1"
  by (auto simp: visit_def)

lemma visits_no_success: "list_all2 (visit cx False) ms blocks \<Longrightarrow> filter le_success (concat (map snd blocks)) = []"
  by (induction rule: list_all2_induct) (auto dest: visit_no_success)

lemma list_all2_replicate_right: "list_all2 P xs (replicate (length xs) y) \<longleftrightarrow> (\<forall>x\<in>set xs. P x y)"
  by (induction xs) auto

lemma concat_empty_blocks [simp]: "concat (replicate n []) = []"
  by (induction n) auto

text \<open>A request that did not panic: one block of events per candidate.\<close>

lemma run_events_blocks:
  assumes "run_events cx ms (Done resp) cs ls"
  shows "\<exists>blocks. list_all2 (visit cx True) ms blocks \<and> cs = concat (map fst blocks) \<and> ls = concat (map snd blocks)
     \<and> length (filter le_success ls) \<le> 1"
proof -
  from assms obtain ms1 ms2 blocks where ms: "ms = ms1 @ ms2" and vs: "list_all2 (visit cx False) ms1 blocks"
    and ends: "(ms2 = [] \<and> cs = concat (map fst blocks) \<and> ls = concat (map snd blocks))
         \<or> (\<exists>m ms3 last_cs last_ls. ms2 = m # ms3 \<and> turn_events cx m (Stop (Done resp)) last_cs last_ls
              \<and> cs = concat (map fst blocks) @ last_cs \<and> ls = concat (map snd blocks) @ last_ls)"
    unfolding run_events_def by (elim exE conjE) (rule that, auto)
  have vs': "list_all2 (visit cx True) ms1 blocks" by (rule list_all2_mono [OF vs visit_mono])
  from ends show ?thesis
  proof (elim disjE exE conjE)
    assume "ms2 = []" "cs = concat (map fst blocks)" "ls = concat (map snd blocks)"
    with vs' ms visits_no_success [OF vs] show ?thesis by (intro exI [of _ blocks]) simp
  next
    fix m ms3 last_cs last_ls
    assume e: "ms2 = m # ms3" "turn_events cx m (Stop (Done resp)) last_cs last_ls"
      "cs = concat (map fst blocks) @ last_cs" "ls = concat (map snd blocks) @ last_ls"
    let ?blocks = "blocks @ (last_cs, last_ls) # replicate (length ms3) ([], [])"
    from e(2) have last: "visit cx True m (last_cs, last_ls)" by (simp add: turn_events_def)
    have rest: "list_all2 (visit cx True) ms3 (replicate (length ms3) ([], []))"
      by (simp add: list_all2_replicate_right visit_def)
    show ?thesis
      by (rule exI [of _ ?blocks])
        (use vs' ms e last rest visits_no_success [OF vs] visit_one_success [OF last]
          in \<open>simp add: list_all2_appendI map_replicate_const\<close>)
  qed
qed

lemma run_events_calls:
  assumes "run_events cx ms r cs ls"
  shows "\<exists>blocks. list_all2 (\<lambda>m b. b = [] \<or> visit_calls m b) ms blocks \<and> cs = concat blocks"
proof -
  from assms obtain ms1 ms2 blocks where ms: "ms = ms1 @ ms2" and vs: "list_all2 (visit cx False) ms1 blocks"
    and ends: "(ms2 = [] \<and> cs = concat (map fst blocks))
         \<or> (\<exists>m ms3 last_cs last_ls. ms2 = m # ms3 \<and> turn_events cx m (Stop r) last_cs last_ls
              \<and> cs = concat (map fst blocks) @ last_cs)"
    unfolding run_events_def by (elim exE conjE) (rule that, auto)
  have vs': "list_all2 (\<lambda>m b. b = [] \<or> visit_calls m b) ms1 (map fst blocks)"
    unfolding list_all2_map2 by (rule list_all2_mono [OF vs]) (auto simp: visit_def)
  from ends show ?thesis
  proof (elim disjE exE conjE)
    assume "ms2 = []" "cs = concat (map fst blocks)"
    with vs' ms show ?thesis by (intro exI [of _ "map fst blocks"]) simp
  next
    fix m ms3 last_cs last_ls
    assume e: "ms2 = m # ms3" "turn_events cx m (Stop r) last_cs last_ls" "cs = concat (map fst blocks) @ last_cs"
    let ?blocks = "map fst blocks @ last_cs # replicate (length ms3) []"
    from e(2) have last: "last_cs = [] \<or> visit_calls m last_cs"
      by (auto simp: turn_events_def visit_def split: outcome.splits)
    have rest: "list_all2 (\<lambda>m b. b = [] \<or> visit_calls m b) ms3 (replicate (length ms3) [])"
      by (simp add: list_all2_replicate_right)
    show ?thesis
      by (rule exI [of _ ?blocks]) (use vs' ms e(1,3) last rest in \<open>simp add: list_all2_appendI\<close>)
  qed
qed

lemma handle_proxy_events:
  assumes "run_state (handle_proxy E s discovered wire i c text) w = (r, w')"
  shows "\<exists>cx cs ls r'. cx_pool cx = i \<and> cx_caller cx = c \<and> run_events cx (candidates s i wire w) r' cs ls
      \<and> r = shown_to c r' \<and> w_calls w' = w_calls w @ cs \<and> w_logs w' = w_logs w @ ls
    \<or> (\<exists>resp. r = Done resp) \<and> w_calls w' = w_calls w \<and> w_logs w' = w_logs w"
proof (rule handle_proxy_cases [of E s discovered wire i c "text" w])
  fix code :: nat and msg
  assume "run_state (handle_proxy_inner E s discovered wire i c text) w
      = (Done (wire_error wire code msg), w\<lparr>w_rotation := snd (select s i wire (w_rotation w))\<rparr>)"
  with assms show ?thesis by (auto simp: run_handle_proxy shown_to_def)
next
  fix sel
  let ?cx = "request_ctx E wire i c text sel"
  let ?w = "w\<lparr>w_rotation := snd (select s i wire (w_rotation w)), w_tick := Suc (w_tick w)\<rparr>"
  assume c: "candidates s i wire w = sel_providers sel"
    and run: "run_state (handle_proxy_inner E s discovered wire i c text) w
         = run_state (try_members E ?cx (sel_providers sel) loop_start) ?w"
  obtain r' w1 where r': "run_state (try_members E ?cx (sel_providers sel) loop_start) ?w = (r', w1)"
    by (cases "run_state (try_members E ?cx (sel_providers sel) loop_start) ?w")
  from actsD [OF acts_try_members r'] obtain cs ls
    where e: "w_calls w1 = w_calls w @ cs" "w_logs w1 = w_logs w @ ls" "run_events ?cx (sel_providers sel) r' cs ls"
    by (elim exE conjE) (rule that, simp_all)
  from assms run r' have "r = shown_to c r'" "w' = w1" by (simp_all add: run_handle_proxy)
  with e c show ?thesis
    by (intro exI [of _ ?cx] exI [of _ cs] exI [of _ ls] exI [of _ r'] disjI1 conjI) (simp_all add: request_ctx_def)
qed

end
