(* ===== verification/Serve.thy ===== *)
theory Serve
  imports Trace
begin

text \<open>
  What a request answers: the first healthy candidate serves it, a rejection of the
  request is relayed and blames nobody, candidates that are cooling are not contacted,
  an outage of every upstream contacts each candidate once and cools it, and there is
  always an answer unless an upstream announces an absurd quota reset.
\<close>

section \<open>Contacting a ready candidate\<close>

definition stored_credentials :: "database \<Rightarrow> provider \<Rightarrow> credentials" where
  "stored_credentials db p = from_provider_and_oauth p (row_with os_provider_id (prov_id p) (t_oauth db))"

definition ready_member :: "database \<Rightarrow> resolved_member \<Rightarrow> bool" where
  "ready_member db m \<longleftrightarrow>
     (let creds = stored_credentials db (rm_provider m)
      in is_ready (rm_provider m) (cr_access_token creds \<noteq> None \<or> cr_refresh_token creds \<noteq> None))"

lemma run_credentials_for:
  "db_faults (w_db w) = [] \<Longrightarrow>
     run_state (credentials_for p) w = (stored_credentials (w_db w) p, w)"
  using readsD(4) [OF get_oauth_reads, of "w_db w" "prov_id p"]
  by (simp add: credentials_for_def run_on_database stored_credentials_def)

definition visited :: "resolved_member \<Rightarrow> loop_vars \<Rightarrow> loop_vars" where
  "visited m v = v\<lparr>lv_tried := lv_tried v @ [prov_id (rm_provider m)], lv_provider := prov_id (rm_provider m)\<rparr>"

definition turn_of :: "loop_vars \<Rightarrow> attempt_end \<Rightarrow> turn" where
  "turn_of v fin =
     (case fin of Answer resp \<Rightarrow> Stop (Done resp) | Crash \<Rightarrow> Stop Panicked | Failover msg \<Rightarrow> Next (v\<lparr>lv_error := msg\<rparr>))"

lemma run_contact_ready:
  assumes "db_faults (w_db w) = []" and "ready_member (w_db w) m"
    and "run_state (attempt_member E cx (lv_tried (visited m v)) (target_of E cx m)
           (stored_credentials (w_db w) (rm_provider m))) w = (fin, w')"
  shows "run_state (contact E cx m v) w = (turn_of (visited m v) fin, w')"
  using assms
  by (simp add: contact_def run_credentials_for ready_member_def Let_def visited_def turn_of_def)

lemma run_attribute_error_noop: "lv_error v = lv_seen v \<Longrightarrow> run_state (attribute_error E v) w = (v, w)"
  by (simp add: attribute_error_def)

lemma run_try_member_callable:
  assumes "run_state (attribute_error E v) (w\<lparr>w_tick := Suc (w_tick w)\<rparr>) = (v1, w1)"
    and "callable (w_runtime w1) (member_key m) (env_now E (w_tick w))"
  shows "run_state (try_member E cx m v) w = run_state (contact E cx m (v1\<lparr>lv_prev_key := Some (member_key m)\<rparr>)) w1"
proof -
  have "opt_filter (\<lambda>st. \<not> is_available st (env_now E (w_tick w))) (dm_get (w_runtime w1) (member_key m)) = None"
    using assms(2) by (auto simp: callable_def opt_filter_def split: option.splits)
  with assms(1) show ?thesis by (simp add: try_member_def)
qed

lemma run_try_member_cooling:
  assumes "run_state (attribute_error E v) (w\<lparr>w_tick := Suc (w_tick w)\<rparr>) = (v1, w1)"
    and "dm_get (w_runtime w1) (member_key m) = Some st" and "\<not> is_available st (env_now E (w_tick w))"
  shows "run_state (try_member E cx m v) w =
     (Next (v1\<lparr>lv_skipped := lv_skipped v1 @ [skipped_of m (env_now E (w_tick w)) st]\<rparr>), w1)"
  using assms by (simp add: try_member_def opt_filter_def)

section \<open>A healthy candidate serves\<close>

lemma run_attempt_success:
  assumes "\<And>t tr. ad_build_request (tg_adapter tg) t tr (cx_body cx) creds = Done (Inr rq)"
    and "\<And>t. env_execute E t rq = Inr up" and "is_success (up_status up)"
    and "\<And>t. ad_transform_response (tg_adapter tg) t rq up (cx_stream cx) = Inr resp"
  shows "\<exists>w' now. run_state (attempt_member E cx tried tg creds) w = (Answer resp, w')
     \<and> w_calls w' = w_calls w @ [provider_call tg]
     \<and> w_runtime w' = run_op (OpSuccess (tg_key tg)) now (w_runtime w)"
  using assms
  by (simp add: attempt_member_def build_request_def exchange_def capture_def on_response_def classify_def
      deliver_def log_request_def maybe_log_dataset_def Let_def provider_call_def)

lemma callable_after_success:
  "dm_ok m \<Longrightarrow> callable (run_op (OpSuccess k) now m) k t"
  by (simp add: callable_upsert_same is_available_ops)

lemma cx_request_ctx [simp]:
  "cx_body (request_ctx E wire i c text sel) = text" "cx_caller (request_ctx E wire i c text sel) = c"
  "cx_wire (request_ctx E wire i c text sel) = wire" "cx_pool (request_ctx E wire i c text sel) = i"
  "cx_stream (request_ctx E wire i c text sel) = client_wanted_stream E text"
  by (simp_all add: request_ctx_def)

text \<open>How a request that is not refused starts.\<close>

lemma run_handle_proxy_served:
  assumes "fst (select s i wire (w_rotation w)) = Some sel" and "direct_refusal s discovered c sel = None"
    and "run_state (try_members E (request_ctx E wire i c text sel) (sel_providers sel) loop_start)
      (w\<lparr>w_rotation := snd (select s i wire (w_rotation w)), w_tick := Suc (w_tick w)\<rparr>) = (r, w')"
  shows "run_state (handle_proxy E s discovered wire i c text) w = (shown_to c r, w')"
  using assms by (simp add: run_handle_proxy handle_proxy_inner_def run_select_candidates)

lemma loop_start_simps [simp]:
  "lv_error loop_start = lv_seen loop_start" "lv_tried loop_start = []" "lv_skipped loop_start = []"
  "lv_prev_key loop_start = None"
  by (simp_all add: loop_start_def)

lemma first_candidate_serves:
  assumes sel: "fst (select s i wire (w_rotation w)) = Some sel" "sel_providers sel = m # ms"
    and allowed: "direct_refusal s discovered c sel = None"
    and db: "db_faults (w_db w) = []" "ready_member (w_db w) m"
    and healthy: "dm_ok (w_runtime w)" "\<And>t. callable (w_runtime w) (member_key m) (env_now E t)"
    and build: "\<And>t tr. ad_build_request (tg_adapter (target_of E (request_ctx E wire i c text sel) m)) t tr text
        (stored_credentials (w_db w) (rm_provider m)) = Done (Inr rq)"
    and up: "\<And>t. env_execute E t rq = Inr up" "is_success (up_status up)"
    and transform: "\<And>t. ad_transform_response (tg_adapter (target_of E (request_ctx E wire i c text sel) m)) t rq up
        (client_wanted_stream E text) = Inr resp"
  shows "\<exists>w'. run_state (handle_proxy E s discovered wire i c text) w = (shown_to c (Done resp), w')
     \<and> w_calls w' = w_calls w @ [member_call m] \<and> (\<forall>t. callable (w_runtime w') (member_key m) t)"
proof -
  let ?cx = "request_ctx E wire i c text sel"
  let ?w = "w\<lparr>w_rotation := snd (select s i wire (w_rotation w)), w_tick := Suc (w_tick w)\<rparr>"
  let ?w1 = "?w\<lparr>w_tick := Suc (w_tick ?w)\<rparr>"
  let ?v = "loop_start\<lparr>lv_prev_key := Some (member_key m)\<rparr>"
  obtain w' now where a: "run_state (attempt_member E ?cx (lv_tried (visited m ?v)) (target_of E ?cx m)
        (stored_credentials (w_db w) (rm_provider m))) ?w1 = (Answer resp, w')"
    and calls: "w_calls w' = w_calls w @ [member_call m]"
    and health: "w_runtime w' = run_op (OpSuccess (member_key m)) now (w_runtime w)"
    using run_attempt_success [of "target_of E ?cx m" ?cx "stored_credentials (w_db w) (rm_provider m)" rq E up resp
        "lv_tried (visited m ?v)" ?w1] build up transform
    by simp (elim exE conjE, simp)
  have "run_state (contact E ?cx m ?v) ?w1 = (Stop (Done resp), w')"
    using run_contact_ready [of ?w1 m E ?cx ?v] a db
    by (simp add: turn_of_def)
  moreover have "run_state (try_member E ?cx m loop_start) ?w = run_state (contact E ?cx m ?v) ?w1"
    by (rule run_try_member_callable) (simp_all add: run_attribute_error_noop healthy(2))
  ultimately have "run_state (try_members E ?cx (sel_providers sel) loop_start) ?w = (Done resp, w')"
    by (simp add: sel(2))
  then have "run_state (handle_proxy E s discovered wire i c text) w = (shown_to c (Done resp), w')"
    by (rule run_handle_proxy_served [OF sel(1) allowed])
  moreover have "callable (w_runtime w') (member_key m) t" for t
    unfolding health by (rule callable_after_success [OF healthy(1)])
  ultimately show ?thesis using calls by (intro exI conjI allI)
qed

section \<open>A rejection blames nobody\<close>

lemma run_attempt_rejected:
  assumes "ad_build_request (tg_adapter tg) (w_tick w) (w_transports w) (cx_body cx) creds = Done (Inr rq)"
    and "env_execute E (w_tick w + 2) rq = Inr up" and "up_status up \<in> {400, 413, 422}"
  shows "\<exists>w'. run_state (attempt_member E cx tried tg creds) w
       = (Answer (build_error_passthrough (up_status up) (read_text_truncated up MAX_ERROR_BODY) tried (tg_id tg)
            (hdr_get (up_headers up) ''content-type'')), w')
     \<and> w_runtime w' = w_runtime w \<and> w_db w' = w_db w \<and> w_calls w' = w_calls w @ [provider_call tg]"
proof -
  have "classify (up_status up) (up_headers up) = NonRetryable" using assms(3) by (simp add: classify_NonRetryable_iff)
  with assms(1,2) show ?thesis
    by (simp add: attempt_member_def build_request_def exchange_def capture_def on_response_def relay_error_def
        log_request_def Let_def provider_call_def error_text_def)
qed

section \<open>Cooling candidates are not contacted\<close>

lemma list_all2_in_set2: "list_all2 P xs ys \<Longrightarrow> y \<in> set ys \<Longrightarrow> \<exists>x\<in>set xs. P x y"
  by (induction rule: list_all2_induct) auto

definition skip_of :: "env \<Rightarrow> world \<Rightarrow> resolved_member \<Rightarrow> skipped_member \<Rightarrow> bool" where
  "skip_of E w m sk \<longleftrightarrow>
     (\<exists>t st. w_tick w \<le> t \<and> dm_get (w_runtime w) (member_key m) = Some st
        \<and> \<not> is_available st (env_now E t) \<and> sk = skipped_of m (env_now E t) st)"

lemma skip_of_later:
  "skip_of E (w\<lparr>w_tick := n\<rparr>) m sk \<Longrightarrow> w_tick w \<le> n \<Longrightarrow> skip_of E w m sk"
  unfolding skip_of_def by (simp, elim exE conjE) (rule_tac x = t in exI, simp)

lemma run_try_members_cooling:
  assumes "\<And>m t. m \<in> set ms \<Longrightarrow> \<not> callable (w_runtime w) (member_key m) (env_now E t)"
    and "lv_error v = lv_seen v"
  shows "\<exists>sks. list_all2 (skip_of E w) ms sks
     \<and> run_state (try_members E cx ms v) w =
         (Done (unavailable (cx_wire cx) (cx_pool cx) (lv_tried v) (lv_skipped v @ sks) (lv_provider v) (lv_error v)
            (is_admin (cx_caller cx))), w\<lparr>w_tick := w_tick w + length ms\<rparr>)"
  using assms
proof (induction ms arbitrary: v w)
  case Nil
  then show ?case by (simp add: finish_def run_attribute_error_noop)
next
  case (Cons m ms)
  let ?w = "w\<lparr>w_tick := Suc (w_tick w)\<rparr>"
  have "\<not> callable (w_runtime w) (member_key m) (env_now E (w_tick w))" by (rule Cons.prems(1)) simp
  then obtain st where st: "dm_get (w_runtime w) (member_key m) = Some st" "\<not> is_available st (env_now E (w_tick w))"
    by (auto simp: callable_def split: option.splits)
  let ?sk = "skipped_of m (env_now E (w_tick w)) st"
  let ?v = "v\<lparr>lv_skipped := lv_skipped v @ [?sk]\<rparr>"
  have turn: "run_state (try_member E cx m v) w = (Next ?v, ?w)"
    using run_try_member_cooling [of E v w v ?w m st cx] st Cons.prems(2) by (simp add: run_attribute_error_noop)
  have "\<exists>sks. list_all2 (skip_of E ?w) ms sks
     \<and> run_state (try_members E cx ms ?v) ?w =
         (Done (unavailable (cx_wire cx) (cx_pool cx) (lv_tried ?v) (lv_skipped ?v @ sks) (lv_provider ?v) (lv_error ?v)
            (is_admin (cx_caller cx))), ?w\<lparr>w_tick := w_tick ?w + length ms\<rparr>)"
    by (rule Cons.IH) (use Cons.prems in auto)
  then obtain sks where sks: "list_all2 (skip_of E ?w) ms sks"
    and run: "run_state (try_members E cx ms ?v) ?w =
         (Done (unavailable (cx_wire cx) (cx_pool cx) (lv_tried v) (lv_skipped v @ ?sk # sks) (lv_provider v) (lv_error v)
            (is_admin (cx_caller cx))), w\<lparr>w_tick := Suc (w_tick w) + length ms\<rparr>)"
    by (elim exE conjE) simp
  have "skip_of E w m ?sk" using st by (auto simp: skip_of_def)
  moreover have "list_all2 (skip_of E w) ms sks"
    by (rule list_all2_mono [OF sks]) (erule skip_of_later, simp)
  ultimately show ?case
    by (intro exI [of _ "?sk # sks"] conjI) (simp_all add: turn run)
qed

lemma skip_of_wait:
  assumes "skip_of E w m sk" and "sk_retry_in sk \<le> d"
  shows "\<exists>t. w_tick w \<le> t \<and> callable (w_runtime w) (member_key m) (env_now E t + d)"
proof -
  from assms(1) obtain t st where t: "w_tick w \<le> t" and st: "dm_get (w_runtime w) (member_key m) = Some st"
    and na: "\<not> is_available st (env_now E t)" and sk: "sk = skipped_of m (env_now E t) st"
    by (auto simp: skip_of_def)
  from not_available_retry_in [OF na] obtain d' where d': "retry_in st (env_now E t) = Some d'"
    "is_available st (env_now E t + d')" by (elim exE conjE)
  from sk d' assms(2) have "d' \<le> d" by (simp add: skipped_of_def)
  with d'(2) have "is_available st (env_now E t + d)" by (auto simp: is_available_def split: option.splits)
  with st t show ?thesis by (auto simp: callable_def)
qed

lemma unavailable_retry_after:
  assumes "sks \<noteq> []"
  shows "\<exists>n. hdr_get (resp_headers (unavailable wire i [] sks lp le admin)) ''retry-after'' = Some (show_nat n)
     \<and> (\<exists>sk\<in>set sks. sk_retry_in sk \<le> from_secs n) \<and> (\<forall>sk\<in>set sks. from_secs n \<le> sk_retry_in sk + from_secs 2)"
proof -
  obtain d where d: "shortest_wait sks = Some d" using assms by (simp add: shortest_wait_def)
  obtain sk where sk: "sk \<in> set sks" "sk_retry_in sk = d" using shortest_wait_attained [OF d] by blast
  show ?thesis
  proof (rule exI [of _ "retry_after_secs d"], intro conjI)
    show "hdr_get (resp_headers (unavailable wire i [] sks lp le admin)) ''retry-after'' = Some (show_nat (retry_after_secs d))"
      by (simp add: unavailable_def Let_def d hdr_get_debug_headers debug_header_def hdr_get_insert)
    show "\<exists>sk\<in>set sks. sk_retry_in sk \<le> from_secs (retry_after_secs d)"
      using sk retry_after_secs_bounds(1) [of d] by blast
    show "\<forall>sk\<in>set sks. from_secs (retry_after_secs d) \<le> sk_retry_in sk + from_secs 2"
      using shortest_wait_le [OF d] retry_after_secs_bounds(2) [of d] by (meson add_right_mono order_trans)
  qed
qed

lemma shown_headers:
  "\<not> debug_header k \<Longrightarrow> shown_to c (Done resp) = Done resp' \<Longrightarrow> hdr_get (resp_headers resp') k = hdr_get (resp_headers resp) k"
  by (auto simp: shown_to_def strip_debug_headers_other split: if_splits)

lemma all_candidates_cooling:
  assumes sel: "fst (select s i wire (w_rotation w)) = Some sel" "sel_providers sel \<noteq> []"
    and allowed: "direct_refusal s discovered c sel = None"
    and cooling: "\<And>m t. m \<in> set (sel_providers sel) \<Longrightarrow> \<not> callable (w_runtime w) (member_key m) (env_now E t)"
  shows "\<exists>resp n m t r k. run_state (handle_proxy E s discovered wire i c text) w
       = (Done resp, w\<lparr>w_rotation := r, w_tick := k\<rparr>)
     \<and> resp_status resp = 503 \<and> hdr_get (resp_headers resp) ''retry-after'' = Some (show_nat n)
     \<and> m \<in> set (sel_providers sel) \<and> w_tick w < t
     \<and> callable (w_runtime w) (member_key m) (env_now E t + from_secs n)"
proof -
  let ?cx = "request_ctx E wire i c text sel"
  let ?w = "w\<lparr>w_rotation := snd (select s i wire (w_rotation w)), w_tick := Suc (w_tick w)\<rparr>"
  have "\<exists>sks. list_all2 (skip_of E ?w) (sel_providers sel) sks
     \<and> run_state (try_members E ?cx (sel_providers sel) loop_start) ?w =
         (Done (unavailable wire i [] sks (lv_provider loop_start) (lv_error loop_start) (is_admin c)),
          ?w\<lparr>w_tick := w_tick ?w + length (sel_providers sel)\<rparr>)"
    using run_try_members_cooling [of "sel_providers sel" ?w E loop_start ?cx] cooling
    by (simp del: select_convs) 
  then obtain sks where sks: "list_all2 (skip_of E ?w) (sel_providers sel) sks"
    and run: "run_state (try_members E ?cx (sel_providers sel) loop_start) ?w =
         (Done (unavailable wire i [] sks (lv_provider loop_start) (lv_error loop_start) (is_admin c)),
          ?w\<lparr>w_tick := w_tick ?w + length (sel_providers sel)\<rparr>)" by (elim exE conjE)
  from sks sel(2) have "sks \<noteq> []" by auto
  from unavailable_retry_after [OF this, of wire i "lv_provider loop_start" "lv_error loop_start" "is_admin c"]
  obtain n sk where n: "hdr_get (resp_headers (unavailable wire i [] sks (lv_provider loop_start) (lv_error loop_start)
      (is_admin c))) ''retry-after'' = Some (show_nat n)" and sk: "sk \<in> set sks" "sk_retry_in sk \<le> from_secs n"
    by (elim exE conjE bexE)
  from sks sk(1) obtain m where m: "m \<in> set (sel_providers sel)" "skip_of E ?w m sk"
    by (auto dest: list_all2_in_set2)
  from skip_of_wait [OF m(2) sk(2)] obtain t where t: "w_tick w < t"
    "callable (w_runtime w) (member_key m) (env_now E t + from_secs n)" by (auto simp: Suc_le_eq)
  obtain resp where resp: "shown_to c (Done (unavailable wire i [] sks (lv_provider loop_start) (lv_error loop_start)
      (is_admin c))) = Done resp" by (auto simp: shown_to_def)
  have "resp_status resp = 503" using resp
    by (auto simp: shown_to_def unavailable_def wire_error_def Let_def split: if_splits)
  moreover have "hdr_get (resp_headers resp) ''retry-after'' = Some (show_nat n)"
    using shown_headers [OF _ resp, of "''retry-after''"] n by (simp add: debug_header_def)
  moreover have "run_state (handle_proxy E s discovered wire i c text) w = (Done resp,
      w\<lparr>w_rotation := snd (select s i wire (w_rotation w)), w_tick := w_tick ?w + length (sel_providers sel)\<rparr>)"
    using run_handle_proxy_served [OF sel(1) allowed run] resp by simp
  ultimately show ?thesis using m(1) t by blast
qed

section \<open>Every request is answered\<close>

text \<open>No body an upstream can send makes the quota announcement overflow, and no adapter panics on a body.\<close>

definition sane_resets :: "env \<Rightarrow> bool" where
  "sane_resets E \<longleftrightarrow> (\<forall>txt v now. env_parse_json E txt = Inr v \<longrightarrow> usage_limit_cooldown now v \<noteq> Panicked)"

definition builds :: "adapter \<Rightarrow> string \<Rightarrow> bool" where
  "builds a txt \<longleftrightarrow> (\<forall>t tr creds. ad_build_request a t tr txt creds \<noteq> Panicked)"

definition sane_adapters :: "env \<Rightarrow> string \<Rightarrow> bool" where
  "sane_adapters E txt \<longleftrightarrow> (\<forall>p wire scope. builds (env_adapter E p wire scope) txt)"

lemma yields_build_request:
  "builds (tg_adapter tg) (cx_body cx) \<Longrightarrow> yields (build_request cx tg creds) (\<lambda>r. r \<noteq> Panicked)"
  unfolding build_request_def builds_def
  by (intro yields_bind [OF yields_True] yields_ret) blast

lemma yields_announced_delay:
  "sane_resets E \<Longrightarrow> yields (announced_delay E up asked) (\<lambda>r. r \<noteq> Panicked)"
  unfolding announced_delay_def
  by (auto simp: sane_resets_def intro!: yields_ret yields_bind [OF yields_True] split: option.split sum.split)

text \<open>Every end of an attempt but one announced delay is no crash, by the event lemmas.\<close>

lemma acts_yields: "acts m Q \<Longrightarrow> (\<And>a cs ls. Q a cs ls \<Longrightarrow> P a) \<Longrightarrow> yields m P"
  unfolding acts_def yields_def by meson

lemma yields_attempt_member:
  assumes "sane_resets E" and "builds (tg_adapter tg) (cx_body cx)"
  shows "yields (attempt_member E cx tried tg creds) (\<lambda>fin. fin \<noteq> Crash)"
proof -
  have give: "yields (give_up cx tg code latency msg) (\<lambda>fin. fin \<noteq> Crash)" for code latency msg
    by (rule acts_yields [OF acts_give_up]) auto
  have retry: "yields (retry_once E cx tried tg honour creds) (\<lambda>fin. fin \<noteq> Crash)" for honour creds
    unfolding retry_once_def
    by (rule yields_bind [OF yields_build_request [OF assms(2)]])
      (auto intro!: yields_bind [OF yields_True] give acts_yields [OF acts_retry_end] split: outcome.split sum.split)
  have expired: "yields (on_auth_expired E cx tried tg creds up latency) (\<lambda>fin. fin \<noteq> Crash)" for up latency
    unfolding on_auth_expired_def
    by (auto intro!: yields_bind [OF yields_True] give retry acts_yields [OF acts_relay_error]
        split: sum.split refresh_error.split)
  have retryable: "yields (on_retryable E cx tried tg creds up asked latency) (\<lambda>fin. fin \<noteq> Crash)" for up asked latency
    unfolding on_retryable_def
    by (rule yields_bind [OF yields_True])
      (auto intro!: yields_bind [OF yields_True] retry give yields_bind [OF yields_announced_delay [OF assms(1)]]
        split: outcome.split)
  have response: "yields (on_response E cx tried tg creds rq up latency) (\<lambda>fin. fin \<noteq> Crash)" for rq up latency
    unfolding on_response_def
    by (auto intro!: retryable acts_yields [OF acts_deliver] acts_yields [OF acts_relay_error] expired
        split: error_class.split)
  show ?thesis
    unfolding attempt_member_def
    by (rule yields_bind [OF yields_build_request [OF assms(2)]])
      (auto intro!: yields_ret yields_bind [OF yields_True] give response split: outcome.split sum.split)
qed

lemma builds_target: "sane_adapters E (cx_body cx) \<Longrightarrow> builds (tg_adapter (target_of E cx m)) (cx_body cx)"
  by (auto simp: sane_adapters_def target_of_def adapter_for_caller_def split: provider_kind.split)

lemma yields_try_member_answer:
  assumes "sane_resets E" and "sane_adapters E (cx_body cx)"
  shows "yields (try_member E cx m v) (\<lambda>r. r \<noteq> Stop Panicked)"
  unfolding try_member_def contact_def Let_def
  by (intro yields_bind [OF yields_True])
    (auto intro!: yields_ret yields_bind [OF yields_True] yields_bind [OF yields_attempt_member [OF assms(1) builds_target [OF assms(2)]]]
      split: option.split attempt_end.splits)

lemma yields_try_members:
  assumes "sane_resets E" and "sane_adapters E (cx_body cx)"
  shows "yields (try_members E cx ms v) (\<lambda>r. r \<noteq> Panicked)"
proof (induction ms arbitrary: v)
  case Nil
  show ?case unfolding try_members.simps finish_def
    by (intro yields_bind [OF yields_True] yields_ret) simp
next
  case (Cons m ms)
  show ?case
    unfolding try_members.simps
    by (rule yields_bind [OF yields_try_member_answer [OF assms]])
      (auto intro!: Cons.IH yields_ret split: turn.split)
qed

lemma handle_proxy_answers:
  assumes "sane_resets E" and "sane_adapters E text"
  shows "\<exists>resp w'. run_state (handle_proxy E s discovered wire i c text) w = (Done resp, w')"
proof (rule handle_proxy_cases [of E s discovered wire i c "text" w])
  fix code :: nat and msg
  assume "run_state (handle_proxy_inner E s discovered wire i c text) w
      = (Done (wire_error wire code msg), w\<lparr>w_rotation := snd (select s i wire (w_rotation w))\<rparr>)"
  then show ?thesis by (simp add: run_handle_proxy shown_to_def)
next
  fix sel
  let ?m = "try_members E (request_ctx E wire i c text sel) (sel_providers sel) loop_start"
  let ?w = "w\<lparr>w_rotation := snd (select s i wire (w_rotation w)), w_tick := Suc (w_tick w)\<rparr>"
  assume run: "run_state (handle_proxy_inner E s discovered wire i c text) w = run_state ?m ?w"
  obtain r w' where r: "run_state ?m ?w = (r, w')" by (cases "run_state ?m ?w")
  with yieldsD [OF yields_try_members [OF assms(1)] r] assms(2) obtain resp where "r = Done resp" by (cases r) auto
  with r run show ?thesis by (simp add: run_handle_proxy shown_to_def)
qed

section \<open>An outage of every upstream\<close>

definition clock_ok :: "env \<Rightarrow> bool" where
  "clock_ok E \<longleftrightarrow> (\<forall>a b. a \<le> b \<longrightarrow> env_now E a \<le> env_now E b)"

definition unreachable :: "env \<Rightarrow> bool" where
  "unreachable E \<longleftrightarrow> (\<forall>t rq. \<exists>e. env_execute E t rq = Inl e)"

definition closed_until :: "runtime_map \<Rightarrow> string \<Rightarrow> instant \<Rightarrow> bool" where
  "closed_until rt k u \<longleftrightarrow> (\<forall>t<u. \<not> callable rt k t)"

lemma cooled_closed:
  assumes "dm_ok rt" and "now \<le> now'"
  shows "closed_until (run_op (OpRetryable k (next_cooldown st)) now' rt) k (now + from_secs 2)"
proof -
  have "from_secs 2 \<le> next_cooldown st" unfolding next_cooldown_def by (rule bo.cd_pos)
  with assms show ?thesis
    by (simp add: closed_until_def callable_upsert_same is_available_ops)
qed

lemma run_attempt_unreachable:
  assumes "unreachable E" and "clock_ok E" and "dm_ok (w_runtime w)"
    and "ad_build_request (tg_adapter tg) (w_tick w) (w_transports w) (cx_body cx) creds = Done (Inr rq)"
  shows "\<exists>msg w' d now. run_state (attempt_member E cx tried tg creds) w = (Failover msg, w')
     \<and> w_db w' = w_db w \<and> w_calls w' = w_calls w @ [provider_call tg] \<and> w_tick w \<le> w_tick w'
     \<and> w_runtime w' = run_op (OpRetryable (tg_key tg) d) now (w_runtime w)
     \<and> closed_until (w_runtime w') (tg_key tg) (env_now E (w_tick w) + from_secs 2)"
proof -
  obtain e where e: "env_execute E (w_tick w + 2) rq = Inl e" using assms(1) by (auto simp: unreachable_def)
  let ?st = "unwrap_or (dm_get (w_runtime w) (tg_key tg)) default_runtime"
  let ?now = "env_now E (w_tick w + 4)"
  have "env_now E (w_tick w) \<le> ?now" using assms(2) by (simp add: clock_ok_def)
  from cooled_closed [OF assms(3) this, of "tg_key tg" ?st]
  have closed: "closed_until (run_op (OpRetryable (tg_key tg) (next_cooldown ?st)) ?now (w_runtime w)) (tg_key tg)
      (env_now E (w_tick w) + from_secs 2)" .
  let ?w' = "w\<lparr>w_calls := w_calls w @ [provider_call tg], w_tick := w_tick w + 5,
      w_runtime := run_op (OpRetryable (tg_key tg) (next_cooldown ?st)) ?now (w_runtime w),
      w_logs := w_logs (snd (run_state (attempt_member E cx tried tg creds) w))\<rparr>"
  have "run_state (attempt_member E cx tried tg creds) w = (Failover (''upstream request error: '' @ he_text_no_url e), ?w')"
    using e assms(4)
    by (simp add: attempt_member_def build_request_def exchange_def cool_down_def backoff_delay_def cool_for_def
        runtime_entry_def give_up_def log_request_def provider_call_def numeral_eq_Suc)
  with closed show ?thesis
    by (intro exI conjI) (assumption | simp del: run_op.simps)+
qed

lemma run_attribute_error:
  assumes "dm_ok (w_runtime w)" and "run_state (attribute_error E v) w = (v1, w1)"
  shows "callable (w_runtime w1) k t = callable (w_runtime w) k t" and "dm_ok (w_runtime w1)"
    and "w_db w1 = w_db w" and "w_calls w1 = w_calls w" and "w_tick w \<le> w_tick w1"
    and "lv_tried v1 = lv_tried v" and "lv_skipped v1 = lv_skipped v" and "lv_provider v1 = lv_provider v"
proof -
  consider "v1 = v" "w1 = w"
    | "v1 = v\<lparr>lv_prev_key := None, lv_seen := lv_error v\<rparr>" "w1 = w"
    | j now where "v1 = v\<lparr>lv_prev_key := None, lv_seen := lv_error v\<rparr>"
        "w1 = w\<lparr>w_tick := Suc (w_tick w), w_runtime := dm_modify (note_error (lv_error v)) j (w_runtime w)\<rparr>"
    using assms(2) by (auto simp: attribute_error_def split: if_splits option.splits)
  then have "callable (w_runtime w1) k t = callable (w_runtime w) k t \<and> dm_ok (w_runtime w1)
      \<and> w_db w1 = w_db w \<and> w_calls w1 = w_calls w \<and> w_tick w \<le> w_tick w1
      \<and> lv_tried v1 = lv_tried v \<and> lv_skipped v1 = lv_skipped v \<and> lv_provider v1 = lv_provider v"
    by cases (simp_all add: assms(1) callable_note_error store_simps)
  then show "callable (w_runtime w1) k t = callable (w_runtime w) k t" "dm_ok (w_runtime w1)"
    "w_db w1 = w_db w" "w_calls w1 = w_calls w" "w_tick w \<le> w_tick w1"
    "lv_tried v1 = lv_tried v" "lv_skipped v1 = lv_skipped v" "lv_provider v1 = lv_provider v"
    by simp_all
qed

text \<open>Every member of the list can be called and its request can be built.\<close>

definition approachable :: "env \<Rightarrow> ctx \<Rightarrow> database \<Rightarrow> resolved_member \<Rightarrow> bool" where
  "approachable E cx db m \<longleftrightarrow>
     ready_member db m
   \<and> (\<forall>t tr. \<exists>rq. ad_build_request (tg_adapter (target_of E cx m)) t tr (cx_body cx)
        (stored_credentials db (rm_provider m)) = Done (Inr rq))"

lemma run_try_member_unreachable:
  assumes E: "unreachable E" "clock_ok E" and w: "dm_ok (w_runtime w)" "db_faults (w_db w) = []"
    and m: "approachable E cx (w_db w) m" "\<And>t. callable (w_runtime w) (member_key m) t"
  shows "\<exists>v' w'. run_state (try_member E cx m v) w = (Next v', w')
     \<and> lv_tried v' = lv_tried v @ [prov_id (rm_provider m)] \<and> lv_skipped v' = lv_skipped v
     \<and> w_db w' = w_db w \<and> w_calls w' = w_calls w @ [member_call m] \<and> w_tick w \<le> w_tick w' \<and> dm_ok (w_runtime w')
     \<and> (\<forall>k t. k \<noteq> member_key m \<longrightarrow> callable (w_runtime w') k t = callable (w_runtime w) k t)
     \<and> closed_until (w_runtime w') (member_key m) (env_now E (w_tick w) + from_secs 2)"
proof -
  obtain v1 w1 where ae: "run_state (attribute_error E v) (w\<lparr>w_tick := Suc (w_tick w)\<rparr>) = (v1, w1)"
    by (cases "run_state (attribute_error E v) (w\<lparr>w_tick := Suc (w_tick w)\<rparr>)")
  note a = run_attribute_error [OF _ ae, simplified, OF w(1)]
  let ?v = "v1\<lparr>lv_prev_key := Some (member_key m)\<rparr>"
  let ?tg = "target_of E cx m"
  let ?creds = "stored_credentials (w_db w) (rm_provider m)"
  from m(1) obtain rq where rq: "ad_build_request (tg_adapter ?tg) (w_tick w1) (w_transports w1) (cx_body cx) ?creds = Done (Inr rq)"
    by (auto simp: approachable_def)
  obtain msg w' d now where
    run: "run_state (attempt_member E cx (lv_tried (visited m ?v)) ?tg ?creds) w1 = (Failover msg, w')"
    and w': "w_db w' = w_db w1" "w_calls w' = w_calls w1 @ [member_call m]" "w_tick w1 \<le> w_tick w'"
      "w_runtime w' = run_op (OpRetryable (member_key m) d) now (w_runtime w1)"
      "closed_until (w_runtime w') (member_key m) (env_now E (w_tick w1) + from_secs 2)"
    using run_attempt_unreachable [OF E a(2) rq, of "lv_tried (visited m ?v)", unfolded target_of_simps]
    by (elim exE conjE) (rule that)
  have "run_state (try_member E cx m v) w = run_state (contact E cx m ?v) w1"
    by (rule run_try_member_callable [OF ae]) (simp add: a(1) m(2))
  also have "\<dots> = (turn_of (visited m ?v) (Failover msg), w')"
    by (rule run_contact_ready) (use m(1) w(2) run in \<open>simp_all add: a approachable_def\<close>)
  finally have turn: "run_state (try_member E cx m v) w = (Next ((visited m ?v)\<lparr>lv_error := msg\<rparr>), w')"
    by (simp add: turn_of_def)
  have others: "callable (w_runtime w') k t = callable (w_runtime w) k t" if "k \<noteq> member_key m" for k t
    using that a(1,2) by (simp add: w'(4) callable_upsert_other)
  have "env_now E (w_tick w) \<le> env_now E (w_tick w1)" using E(2) a(5) by (simp add: clock_ok_def)
  with w'(5) have closed: "closed_until (w_runtime w') (member_key m) (env_now E (w_tick w) + from_secs 2)"
    by (auto simp: closed_until_def)
  have ok: "dm_ok (w_runtime w')" using a(2) by (simp add: w'(4) store_simps)
  show ?thesis
    by (rule exI [of _ "(visited m ?v)\<lparr>lv_error := msg\<rparr>"], rule exI [of _ w'], intro conjI)
      (use turn w' a others closed ok in \<open>simp_all add: visited_def del: run_op.simps\<close>)
qed

lemma run_try_members_unreachable:
  assumes E: "unreachable E" "clock_ok E"
  shows "dm_ok (w_runtime w) \<Longrightarrow> db_faults (w_db w) = [] \<Longrightarrow> distinct (map member_key ms) \<Longrightarrow>
     (\<And>m. m \<in> set ms \<Longrightarrow> approachable E cx (w_db w) m) \<Longrightarrow>
     (\<And>m t. m \<in> set ms \<Longrightarrow> callable (w_runtime w) (member_key m) t) \<Longrightarrow>
     \<exists>w' le lp. run_state (try_members E cx ms v) w
         = (Done (unavailable (cx_wire cx) (cx_pool cx) (lv_tried v @ map (\<lambda>m. prov_id (rm_provider m)) ms) (lv_skipped v) lp le
              (is_admin (cx_caller cx))), w')
       \<and> w_calls w' = w_calls w @ map member_call ms
       \<and> (\<forall>k t. k \<notin> member_key ` set ms \<longrightarrow> callable (w_runtime w') k t = callable (w_runtime w) k t)
       \<and> (\<forall>m\<in>set ms. closed_until (w_runtime w') (member_key m) (env_now E (w_tick w) + from_secs 2))"
proof (induction ms arbitrary: v w)
  case Nil
  obtain v1 w1 where ae: "run_state (attribute_error E v) w = (v1, w1)" by (cases "run_state (attribute_error E v) w")
  note a = run_attribute_error [OF Nil.prems(1) ae]
  have run: "run_state (try_members E cx [] v) w = (Done (unavailable (cx_wire cx) (cx_pool cx) (lv_tried v) (lv_skipped v)
      (lv_provider v1) (lv_error v1) (is_admin (cx_caller cx))), w1)"
    by (simp add: finish_def ae a)
  show ?case
    by (rule exI [of _ w1], rule exI [of _ "lv_error v1"], rule exI [of _ "lv_provider v1"], intro conjI)
      (use run a in simp_all)
next
  case (Cons m ms)
  obtain v1 w1 where turn: "run_state (try_member E cx m v) w = (Next v1, w1)"
    and v1: "lv_tried v1 = lv_tried v @ [prov_id (rm_provider m)]" "lv_skipped v1 = lv_skipped v"
    and w1: "w_db w1 = w_db w" "w_calls w1 = w_calls w @ [member_call m]" "w_tick w \<le> w_tick w1" "dm_ok (w_runtime w1)"
    and others: "\<And>k t. k \<noteq> member_key m \<Longrightarrow> callable (w_runtime w1) k t = callable (w_runtime w) k t"
    and closed: "closed_until (w_runtime w1) (member_key m) (env_now E (w_tick w) + from_secs 2)"
    using run_try_member_unreachable [OF E Cons.prems(1,2) Cons.prems(4,5) [OF list.set_intros(1)], of v]
    by (elim exE conjE) (rule that; (assumption | blast))
  have fresh: "member_key m \<notin> member_key ` set ms" using Cons.prems(3) by auto
  have other: "member_key n \<noteq> member_key m" if "n \<in> set ms" for n using fresh that by (metis imageI)
  have "\<exists>w' le lp. run_state (try_members E cx ms v1) w1
         = (Done (unavailable (cx_wire cx) (cx_pool cx) (lv_tried v1 @ map (\<lambda>m. prov_id (rm_provider m)) ms) (lv_skipped v1) lp le
              (is_admin (cx_caller cx))), w')
       \<and> w_calls w' = w_calls w1 @ map member_call ms
       \<and> (\<forall>k t. k \<notin> member_key ` set ms \<longrightarrow> callable (w_runtime w') k t = callable (w_runtime w1) k t)
       \<and> (\<forall>m\<in>set ms. closed_until (w_runtime w') (member_key m) (env_now E (w_tick w1) + from_secs 2))"
    by (rule Cons.IH) (use Cons.prems w1 others other in auto)
  then obtain w' le lp where run: "run_state (try_members E cx ms v1) w1
         = (Done (unavailable (cx_wire cx) (cx_pool cx) (lv_tried v1 @ map (\<lambda>m. prov_id (rm_provider m)) ms) (lv_skipped v1) lp le
              (is_admin (cx_caller cx))), w')"
    and calls: "w_calls w' = w_calls w1 @ map member_call ms"
    and others': "\<And>k t. k \<notin> member_key ` set ms \<Longrightarrow> callable (w_runtime w') k t = callable (w_runtime w1) k t"
    and closed': "\<And>m. m \<in> set ms \<Longrightarrow> closed_until (w_runtime w') (member_key m) (env_now E (w_tick w1) + from_secs 2)"
    by (elim exE conjE) (rule that; (assumption | blast))
  have later: "env_now E (w_tick w) \<le> env_now E (w_tick w1)" using E(2) w1(3) by (simp add: clock_ok_def)
  have "closed_until (w_runtime w') (member_key n) (env_now E (w_tick w) + from_secs 2)" if "n \<in> set (m # ms)" for n
  proof (cases "n = m")
    case True
    with closed others' [OF fresh] show ?thesis by (simp add: closed_until_def)
  next
    case False
    with that closed' [of n] later show ?thesis by (auto simp: closed_until_def)
  qed
  moreover have "callable (w_runtime w') k t = callable (w_runtime w) k t" if "k \<notin> member_key ` set (m # ms)" for k t
    using that others' [of k t] others [of k t] by simp
  ultimately show ?case
    using turn run calls v1 w1(2)
    by (rule_tac exI [of _ w'], rule_tac exI [of _ le], rule_tac exI [of _ lp], intro conjI) simp_all
qed

lemma outage:
  assumes sel: "fst (select s i wire (w_rotation w)) = Some sel"
    and allowed: "direct_refusal s discovered c sel = None"
    and E: "unreachable E" "clock_ok E"
    and w: "dm_ok (w_runtime w)" "db_faults (w_db w) = []"
    and ms: "distinct (map member_key (sel_providers sel))"
      "\<And>m. m \<in> set (sel_providers sel) \<Longrightarrow> approachable E (request_ctx E wire i c text sel) (w_db w) m"
      "\<And>m t. m \<in> set (sel_providers sel) \<Longrightarrow> callable (w_runtime w) (member_key m) t"
  shows "\<exists>resp w'. run_state (handle_proxy E s discovered wire i c text) w = (Done resp, w')
     \<and> resp_status resp = 503 \<and> w_calls w' = w_calls w @ map member_call (sel_providers sel)
     \<and> (\<forall>m\<in>set (sel_providers sel). closed_until (w_runtime w') (member_key m) (env_now E (w_tick w) + from_secs 2))"
proof -
  let ?cx = "request_ctx E wire i c text sel"
  let ?w = "w\<lparr>w_rotation := snd (select s i wire (w_rotation w)), w_tick := Suc (w_tick w)\<rparr>"
  have "\<exists>w' le lp. run_state (try_members E ?cx (sel_providers sel) loop_start) ?w
       = (Done (unavailable (cx_wire ?cx) (cx_pool ?cx) (lv_tried loop_start @ map (\<lambda>m. prov_id (rm_provider m)) (sel_providers sel))
            (lv_skipped loop_start) lp le (is_admin (cx_caller ?cx))), w')
     \<and> w_calls w' = w_calls ?w @ map member_call (sel_providers sel)
     \<and> (\<forall>k t. k \<notin> member_key ` set (sel_providers sel) \<longrightarrow> callable (w_runtime w') k t = callable (w_runtime ?w) k t)
     \<and> (\<forall>m\<in>set (sel_providers sel). closed_until (w_runtime w') (member_key m) (env_now E (w_tick ?w) + from_secs 2))"
    by (rule run_try_members_unreachable [OF E]) (use w ms in simp_all)
  then obtain w' le lp where run: "run_state (try_members E ?cx (sel_providers sel) loop_start) ?w
       = (Done (unavailable wire i (map (\<lambda>m. prov_id (rm_provider m)) (sel_providers sel)) [] lp le (is_admin c)), w')"
    and calls: "w_calls w' = w_calls w @ map member_call (sel_providers sel)"
    and closed: "\<And>m. m \<in> set (sel_providers sel) \<Longrightarrow>
      closed_until (w_runtime w') (member_key m) (env_now E (Suc (w_tick w)) + from_secs 2)"
    by (elim exE conjE) (rule that, simp, simp, drule bspec, assumption, simp)
  let ?u = "unavailable wire i (map (\<lambda>m. prov_id (rm_provider m)) (sel_providers sel)) [] lp le (is_admin c)"
  obtain resp where resp: "shown_to c (Done ?u) = Done resp" by (auto simp: shown_to_def)
  have "resp_status resp = 503" using resp
    by (auto simp: shown_to_def unavailable_def wire_error_def Let_def split: if_splits)
  moreover have "run_state (handle_proxy E s discovered wire i c text) w = (Done resp, w')"
    using run_handle_proxy_served [OF sel allowed run] resp by simp
  moreover have "env_now E (w_tick w) \<le> env_now E (Suc (w_tick w))" using E(2) by (simp add: clock_ok_def)
  then have "closed_until (w_runtime w') (member_key m) (env_now E (w_tick w) + from_secs 2)"
    if "m \<in> set (sel_providers sel)" for m using closed [OF that] by (auto simp: closed_until_def)
  ultimately show ?thesis using calls by (intro exI conjI ballI)
qed

section \<open>What a caller learns\<close>

text \<open>The answer to a caller who is not the administrator, up to what it may depend on.\<close>

lemma shortest_wait_blind:
  assumes "map (\<lambda>m. (sk_retry_in m, sk_reason m)) sks = map (\<lambda>m. (sk_retry_in m, sk_reason m)) sks'"
  shows "shortest_wait sks = shortest_wait sks'"
proof -
  have len: "length sks = length sks'" using assms by (rule map_eq_imp_length_eq)
  have "map sk_retry_in sks = map sk_retry_in sks'"
    using arg_cong [OF assms, of "map fst"] by (simp add: o_def)
  moreover from len have "(sks = []) = (sks' = [])" by (metis length_0_conv)
  ultimately show ?thesis by (simp only: shortest_wait_def)
qed

lemma first_reason_blind:
  assumes "map (\<lambda>m. (sk_retry_in m, sk_reason m)) sks = map (\<lambda>m. (sk_retry_in m, sk_reason m)) sks'"
  shows "first_reason sks = first_reason sks'"
proof -
  have reasons: "map sk_reason sks = map sk_reason sks'"
    using arg_cong [OF assms, of "map snd"] by (simp add: o_def)
  have mf: "List.map_filter sk_reason xs = List.map_filter id (map sk_reason xs)" for xs :: "skipped_member list"
    by (induction xs) (simp_all add: map_filter_simps split: option.split)
  show ?thesis unfolding first_reason_def mf [of sks] mf [of sks'] reasons ..
qed

lemma unavailable_message_blind:
  assumes "(tried = []) = (tried' = [])"
    and "map (\<lambda>m. (sk_retry_in m, sk_reason m)) sks = map (\<lambda>m. (sk_retry_in m, sk_reason m)) sks'"
  shows "unavailable_message i tried sks le False = unavailable_message i tried' sks' le False"
proof -
  have len: "length sks = length sks'" using assms(2) by (rule map_eq_imp_length_eq)
  then have "(sks = []) = (sks' = [])" by (metis length_0_conv)
  then show ?thesis
    by (simp only: unavailable_message_def assms(1) len shortest_wait_blind [OF assms(2)] first_reason_blind [OF assms(2)]
        if_False)
qed

lemma strip_insert_debug_headers:
  "strip_debug_headers (insert_debug_headers tried p e h) = strip_debug_headers h"
proof -
  have drop: "strip_debug_headers (hdr_insert_valid k v h') = strip_debug_headers h'" if "debug_header k" for k v h'
  proof -
    have s: "strip_debug_headers xs = filter (\<lambda>e. \<not> debug_header (fst e)) xs" for xs
      by (simp add: strip_debug_headers_def hdr_remove_def debug_header_def conj_commute conj_left_commute)
    show ?thesis using that
      by (auto simp: s hdr_insert_valid_def hdr_insert_def hdr_remove_def intro: filter_cong split: option.split)
  qed
  show ?thesis by (simp add: insert_debug_headers_def drop debug_header_def)
qed

lemma unavailable_blind:
  assumes "\<not> is_admin c" and "(tried = []) = (tried' = [])"
    and "map (\<lambda>m. (sk_retry_in m, sk_reason m)) sks = map (\<lambda>m. (sk_retry_in m, sk_reason m)) sks'"
  shows "shown_to c (Done (unavailable wire i tried sks lp le (is_admin c)))
       = shown_to c (Done (unavailable wire i tried' sks' lp' le (is_admin c)))"
proof -
  from assms(1) have "is_admin c = False" by simp
  then show ?thesis
    by (simp only: shown_to_def unavailable_def wire_error_def Let_def outcome.case if_False assms(2)
        unavailable_message_blind [OF assms(2,3), of i le] shortest_wait_blind [OF assms(3)])
      (simp add: strip_insert_debug_headers)
qed

text \<open>The text about a provider that is not configured does reach a caller who may not know its id.\<close>

lemma unconfigured_provider_named:
  assumes "is_ready (rm_provider m) (cr_access_token creds \<noteq> None \<or> cr_refresh_token creds \<noteq> None) = False"
    and "run_state (credentials_for (rm_provider m)) w = (creds, w')"
  shows "\<exists>v. run_state (contact E cx m loop_start) w = (Next v, w')
     \<and> lv_error v = ''provider '' @ quoted (prov_id (rm_provider m)) @ '' is not configured yet''"
  using assms by (simp add: contact_def Let_def)

end
