(* ===== verification/Examples.thy ===== *)
theory Examples
  imports Users
begin

text \<open>
  A small configuration the witnesses share: two passthrough providers, one pool in
  priority order and one that takes turns, built by the operations of the admin API.
\<close>

definition alpha :: provider where
  "alpha = \<lparr>prov_id = ''alpha'', prov_name = ''A'', prov_wire_format = OpenAi, prov_kind = Passthrough,
     prov_base_url = Some ''http://a'', prov_api_key = Some ''ka'', prov_upstream_model = ''gpt-5'',
     prov_dataset_logging = False, prov_default_reasoning_effort = Some Low,
     prov_created_at = 1, prov_updated_at = 1\<rparr>"

definition beta :: provider where
  "beta = \<lparr>prov_id = ''beta'', prov_name = ''B'', prov_wire_format = Anthropic, prov_kind = Passthrough,
     prov_base_url = Some ''http://b'', prov_api_key = Some ''kb'', prov_upstream_model = ''m'',
     prov_dataset_logging = False, prov_default_reasoning_effort = None,
     prov_created_at = 2, prov_updated_at = 2\<rparr>"

definition duo :: pool where
  "duo = \<lparr>pool_id = ''duo'', pool_wire_format = PoolAny, pool_created_at = 3,
     pool_strategy = Priority, pool_sticky_limit = None, pool_modality = Chat\<rparr>"

definition ring :: pool where
  "ring = \<lparr>pool_id = ''ring'', pool_wire_format = PoolAny, pool_created_at = 4,
     pool_strategy = RoundRobin, pool_sticky_limit = Some 2, pool_modality = Chat\<rparr>"

definition member_of :: "string \<Rightarrow> string \<Rightarrow> int \<Rightarrow> pool_member" where
  "member_of pool provider priority =
     \<lparr>mem_pool_id = pool, mem_provider_id = provider, mem_priority = priority,
      mem_model_override = None, mem_dataset_logging_override = None,
      mem_reasoning_effort_override = None\<rparr>"

definition no_dbg :: "string option \<Rightarrow> string" where
  "no_dbg _ = []"

definition example_ops :: "config_op list" where
  "example_ops = [AddProvider beta, AddProvider alpha, AddPool duo, AddPool ring,
     PutMember (member_of ''duo'' ''beta'' 2), PutMember (member_of ''duo'' ''alpha'' 1)]"

definition example_db :: database where
  "example_db = fold (\<lambda>x db. config_db no_dbg x (db\<lparr>db_faults := []\<rparr>)) example_ops empty_db"

lemma example_reachable: "config_reachable no_dbg example_db"
proof -
  have "config_reachable no_dbg db \<Longrightarrow>
      config_reachable no_dbg (fold (\<lambda>x db. config_db no_dbg x (db\<lparr>db_faults := []\<rparr>)) xs db)" for xs db
    by (induction xs arbitrary: db) (simp_all add: config_reachable.step)
  then show ?thesis by (simp add: example_db_def config_reachable.start)
qed

lemma example_db_eq:
  "example_db = empty_db\<lparr>t_providers := [beta, alpha], t_pools := [duo, ring],
     t_members := [member_of ''duo'' ''beta'' 2, member_of ''duo'' ''alpha'' 1]\<rparr>"
  by code_simp

text \<open>A provider nobody routes to, as an import leaves it.\<close>

definition lonely_db :: database where
  "lonely_db = empty_db\<lparr>t_providers := [alpha]\<rparr>"

lemma lonely_stored: "stored_ok lonely_db"
  by code_simp

definition revoked_row :: user_row where
  "revoked_row = \<lparr>usr_id = ''u'', usr_name = ''U'', usr_key_prefix = ''1r_'', usr_key_hash = ''h'',
     usr_created_at = 1, usr_last_used_at = None, usr_revoked_at = Some 5\<rparr>"

end
