(* ===== verification/ExampleWorld.thy ===== *)
theory ExampleWorld
  imports Serve Examples
begin

text \<open>
  A small world around the example configuration: adapters that send the body as it is,
  and three upstreams, one that answers, one that rejects, one that cannot be reached.
\<close>

definition plain_request :: "string \<Rightarrow> request" where
  "plain_request txt = \<lparr>rq_url = ''http://u'', rq_headers = [], rq_body = txt\<rparr>"

definition plain_adapter :: adapter where
  "plain_adapter =
     \<lparr>ad_build_request = (\<lambda>t tr txt creds. Done (Inr (plain_request txt))),
      ad_transform_response = (\<lambda>t rq up wanted. Inr \<lparr>resp_status = up_status up,
        resp_headers = up_headers up, resp_body = RawBody (concat (up_chunks up))\<rparr>)\<rparr>"

definition example_env :: "(http_error + upstream) \<Rightarrow> env" where
  "example_env answer =
     \<lparr>env_now = (\<lambda>t. t), env_wall = (\<lambda>t. 0), env_execute = (\<lambda>t rq. answer),
      env_parse_json = (\<lambda>txt. Inl ''no json''), env_print_json = (\<lambda>j. []),
      env_add_seconds = (\<lambda>now s. Some (now + s * 1000000000)), env_token_url = ''http://t'',
      env_status_text = show_nat, env_panic_text = ''panic'', env_adapter = (\<lambda>p wire scope. plain_adapter)\<rparr>"

definition said :: "nat \<Rightarrow> upstream" where
  "said code = \<lparr>up_status = code, up_headers = [(''content-type'', ''application/json'')], up_chunks = [''hi''],
     up_error = None\<rparr>"

definition no_route :: http_error where
  "no_route = \<lparr>he_text = ''no route'', he_text_no_url = ''no route''\<rparr>"

definition world_with :: "database \<Rightarrow> runtime_map \<Rightarrow> world" where
  "world_with db rt =
     \<lparr>w_db = db, w_runtime = rt, w_rotation = [], w_transports = [], w_limits = [], w_logs = [], w_calls = [],
      w_taps = [], w_tick = 0\<rparr>"

definition example_world :: world where
  "example_world = world_with example_db []"

definition duo_selection :: selection where
  "duo_selection = the (fst (select (snapshot_of example_db) ''duo'' OpenAi []))"

definition alpha_member :: resolved_member where
  "alpha_member = sel_providers duo_selection ! 0"

definition beta_member :: resolved_member where
  "beta_member = sel_providers duo_selection ! 1"

lemma select_duo: "fst (select (snapshot_of example_db) ''duo'' OpenAi (w_rotation example_world)) = Some duo_selection"
  by code_simp

lemma duo_members: "sel_providers duo_selection = [alpha_member, beta_member]"
  by code_simp

lemma example_world_simps [simp]:
  "w_db (world_with db rt) = db" "w_runtime (world_with db rt) = rt" "w_rotation (world_with db rt) = []"
  "w_calls (world_with db rt) = []" "w_tick (world_with db rt) = 0"
  by (simp_all add: world_with_def)

lemma no_faults [simp]: "db_faults example_db = []"
  by code_simp

lemma example_world_fields [simp]:
  "w_db example_world = example_db" "w_runtime example_world = []" "w_calls example_world = []" "w_tick example_world = 0"
  by (simp_all add: example_world_def)

lemma everything_callable [simp]: "callable [] k t"
  by (simp add: callable_def dm_get_def)

lemma example_env_simps [simp]:
  "env_execute (example_env answer) t rq = answer" "env_now (example_env answer) t = t"
  "env_adapter (example_env answer) p wire scope = plain_adapter"
  by (simp_all add: example_env_def)

lemma plain_adapter_simps [simp]:
  "ad_build_request plain_adapter t tr txt creds = Done (Inr (plain_request txt))"
  "ad_transform_response plain_adapter t rq up wanted = Inr \<lparr>resp_status = up_status up,
        resp_headers = up_headers up, resp_body = RawBody (concat (up_chunks up))\<rparr>"
  by (simp_all add: plain_adapter_def)

lemma plain_target [simp]: "tg_adapter (target_of (example_env answer) cx m) = plain_adapter"
  by (simp add: target_of_def adapter_for_caller_def split: provider_kind.split)

lemma duo_calls [simp]:
  "member_call alpha_member = ProviderCall ''alpha'' ''gpt-5''" "member_call beta_member = ProviderCall ''beta'' ''m''"
  by code_simp+

text \<open>Both members cooling until second 90, at an instant that does not pass.\<close>

definition cooling_world :: world where
  "cooling_world = world_with example_db
     [(member_key alpha_member, record_retryable (from_secs 90) 0 default_runtime),
      (member_key beta_member, record_retryable (from_secs 90) 0 default_runtime)]"

definition frozen_env :: env where
  "frozen_env = (example_env (Inr (said 200)))\<lparr>env_now := (\<lambda>t. 0)\<rparr>"

lemma duo_cooling: "m \<in> set (sel_providers duo_selection) \<Longrightarrow>
  \<not> callable (w_runtime cooling_world) (member_key m) (env_now frozen_env t)"
proof -
  have "\<not> callable (w_runtime cooling_world) (member_key alpha_member) 0" by code_simp
  moreover have "\<not> callable (w_runtime cooling_world) (member_key beta_member) 0" by code_simp
  ultimately show "m \<in> set (sel_providers duo_selection) \<Longrightarrow>
      \<not> callable (w_runtime cooling_world) (member_key m) (env_now frozen_env t)"
    by (auto simp: duo_members frozen_env_def)
qed

lemma duo_ready: "m \<in> set (sel_providers duo_selection) \<Longrightarrow> ready_member example_db m"
proof -
  have "ready_member example_db alpha_member" by code_simp
  moreover have "ready_member example_db beta_member" by code_simp
  ultimately show "m \<in> set (sel_providers duo_selection) \<Longrightarrow> ready_member example_db m"
    by (auto simp: duo_members)
qed

lemma duo_allowed: "direct_refusal s discovered c duo_selection = None"
proof -
  have "sel_pool duo_selection = Some duo" by code_simp
  then show ?thesis by (simp add: direct_refusal_def duo_members)
qed

lemma example_clock: "clock_ok (example_env answer)"
  by (simp add: clock_ok_def)

lemma example_sane: "sane_resets (example_env answer)" "sane_adapters (example_env answer) txt"
  by (simp_all add: sane_resets_def sane_adapters_def builds_def example_env_def plain_adapter_def)

text \<open>A provider with a token to renew, and a token endpoint that renews it.\<close>

definition gamma :: provider where
  "gamma = \<lparr>prov_id = ''gamma'', prov_name = ''G'', prov_wire_format = OpenAi, prov_kind = OauthCodex,
     prov_base_url = None, prov_api_key = None, prov_upstream_model = ''gpt-5'',
     prov_dataset_logging = False, prov_default_reasoning_effort = None,
     prov_created_at = 1, prov_updated_at = 1\<rparr>"

definition gamma_tokens :: oauth_state where
  "gamma_tokens = \<lparr>os_provider_id = ''gamma'', os_access_token = Some ''old'', os_refresh_token = Some ''once'',
     os_id_token = None, os_access_expires_at = Some 0, os_provider_data = JNull, os_pkce_verifier = None,
     os_oauth_state = None, os_updated_at = 0\<rparr>"

definition gamma_db :: "string option list \<Rightarrow> database" where
  "gamma_db fs = empty_db\<lparr>t_providers := [gamma], t_oauth := [gamma_tokens], db_faults := fs\<rparr>"

definition token_env :: env where
  "token_env = (example_env (Inr (said 200)))\<lparr>env_parse_json := (\<lambda>txt. Inr (jobj
     [(''access_token'', JStr ''new''), (''refresh_token'', JStr ''next''), (''expires_in'', JNum (PosInt 3600))]))\<rparr>"

definition old_credentials :: credentials where
  "old_credentials = from_provider_and_oauth gamma (Some gamma_tokens)"

definition new_credentials :: credentials where
  "new_credentials = \<lparr>cr_api_key = None, cr_access_token = Some ''new'', cr_refresh_token = Some ''next'',
     cr_id_token = None, cr_access_expires_at = Some 3600000000000, cr_provider_data = JNull\<rparr>"

end
