(* ===== verification/ExampleProviders.thy ===== *)
theory ExampleProviders
  imports KeyVeil ExampleWorld
begin

text \<open>The example configuration with one pair cooling, seen by an administrator; probes are answered with 200.\<close>

definition plain_urls :: url_ops where
  "plain_urls = \<lparr>uo_parse = (\<lambda>s. None), uo_has_path = (\<lambda>s. False), uo_pop_if_empty = id, uo_pop = id,
     uo_push = (\<lambda>s. id), uo_clear_query = id\<rparr>"

definition example_outside :: outside where
  "example_outside =
     \<lparr>ou_env = example_env (Inr (said 200)), ou_url = plain_urls, ou_rejects = (\<lambda>rq. None), ou_client_error = None,
      ou_probe = (\<lambda>t rq. Inr (said 200)), ou_text = (\<lambda>up. concat (up_chunks up)), ou_json = (\<lambda>up. Inl ''no json''),
      ou_version_query = (\<lambda>url v. url @ ''?client_version='' @ v), ou_rfc3339 = show_int,
      ou_command_code_models_url = None, ou_codex_models_url = None, ou_codex_client_version = None\<rparr>"

definition app_with :: "database \<Rightarrow> app" where
  "app_with db =
     \<lparr>ap_world = world_with db [(runtime_key ''alpha'' ''gpt-5'', record_retryable (from_secs 90) 0 default_runtime)],
      ap_snapshot = snapshot_of db, ap_discovered = [], ap_sent = [], ap_pending = []\<rparr>"

definition example_app :: app where
  "example_app = app_with example_db"

text \<open>The same configuration under another key of the same length class and ending.\<close>

definition keyed_db :: "string \<Rightarrow> database" where
  "keyed_db k = empty_db\<lparr>t_providers := [alpha\<lparr>prov_api_key := Some k\<rparr>]\<rparr>"

lemma keyed_same:
  assumes "mask_key k = mask_key k'"
  shows "same_app (app_with (keyed_db k)) (app_with (keyed_db k'))"
  using assms by (simp add: same_app_def app_with_def app_db_def world_with_def same_tables_def keyed_db_def empty_db_def
      same_snapshot_def snapshot_of_def same_row_def)

end
