(* ===== verification/Access.thy ===== *)
theory Access
  imports Sessions
begin

text \<open>
  Who may call: \<open>src/auth/middleware.rs\<close> in front of \<open>/v1/*\<close> and \<open>/admin/*\<close>, and the
  settings that decide about it (\<open>src/admin/settings.rs\<close>).  \<open>digest\<close> is SHA-256 as
  bytes.  A middleware answers the request itself (\<open>Inl\<close>) or hands on what it adds
  to it (\<open>Inr\<close>).
\<close>

section \<open>Comparing secrets\<close>

definition hex_sha :: "(string \<Rightarrow> u8 list) \<Rightarrow> string \<Rightarrow> string" where
  "hex_sha digest s = concat (map hex_byte (digest s))"

definition secret_matches :: "(string \<Rightarrow> u8 list) \<Rightarrow> string \<Rightarrow> string \<Rightarrow> bool" where
  "secret_matches digest presented expected \<longleftrightarrow>
     foldl (\<lambda>acc (x, y). acc OR (x XOR y)) (0 :: u8) (zip (digest presented) (digest expected)) = 0"

section \<open>Callers of the API\<close>

record http_request =
  hr_method :: string
  hr_headers :: headers
  hr_peer :: "ip_addr option"

text \<open>What the checks read outside: the clocks, and \<open>cf_env\<close> for a token of the edge.\<close>

record access_env =
  ae_now :: timestamp
  ae_checked :: instant
  ae_failed :: instant
  ae_cf :: cf_env

definition unauthorized :: response where
  "unauthorized = json_response 401 [] (error_body ''unauthorized'')"

text \<open>\<open>CfAccess\<close> is one shared object with state of its own; without it there is no identity.\<close>

definition cf_caller_of :: "access_env \<Rightarrow> headers \<Rightarrow> cf_identity option admin" where
  "cf_caller_of E h = State (\<lambda>g.
     case gt_cf g of
       None \<Rightarrow> (None, g)
     | Some cf \<Rightarrow> (case run_state (identity (ae_cf E) h) cf of (i, cf') \<Rightarrow> (i, g\<lparr>gt_cf := Some cf'\<rparr>)))"

definition key_caller :: "(string \<Rightarrow> u8 list) \<Rightarrow> access_env \<Rightarrow> headers \<Rightarrow> caller option admin" where
  "key_caller digest E h =
     (case presented_key h of
        None \<Rightarrow> ret None
      | Some token \<Rightarrow> do {
          secret \<leftarrow> gets gt_secret;
          if secret_matches digest token secret then ret (Some admin_caller)
          else do {
            r \<leftarrow> in_gate (authenticate (hex_sha digest) (ae_now E) token);
            ret (case r of Inl _ \<Rightarrow> None | Inr c \<Rightarrow> c) } })"

definition require_bearer ::
  "(string \<Rightarrow> u8 list) \<Rightarrow> access_env \<Rightarrow> http_request \<Rightarrow> (response + caller) admin" where
  "require_bearer digest E rq = do {
     require \<leftarrow> gets gt_require;
     caller \<leftarrow> key_caller digest E (hr_headers rq);
     caller \<leftarrow> (case caller of
        Some c \<Rightarrow> ret (Some c)
      | None \<Rightarrow> do {
          i \<leftarrow> cf_caller_of E (hr_headers rq);
          ret (map_option cf_caller (Option.bind i caller_id)) });
     ret (case caller of
            Some c \<Rightarrow> Inr c
          | None \<Rightarrow> if \<not> require then Inr anonymous_caller else Inl unauthorized) }"

section \<open>The administrator\<close>

definition csrf_header_ok :: "string \<Rightarrow> headers \<Rightarrow> bool" where
  "csrf_header_ok request_method h \<longleftrightarrow>
     request_method = ''GET'' \<or> hdr_text h ''x-requested-with'' = Some ''1router-ui''"

definition missing_csrf_response :: response where
  "missing_csrf_response = json_response 403 [] (error_body ''missing X-Requested-With header'')"

definition require_csrf_header :: "http_request \<Rightarrow> response + unit" where
  "require_csrf_header rq =
     (if csrf_header_ok (hr_method rq) (hr_headers rq) then Inr () else Inl missing_csrf_response)"

text \<open>The session behind the request's cookie; an error of the database counts as none.\<close>

definition cookie_session :: "(string \<Rightarrow> string) \<Rightarrow> access_env \<Rightarrow> headers \<Rightarrow> session_row option admin" where
  "cookie_session sha E h =
     (case extract_cookie h (is_https h) of
        None \<Rightarrow> ret None
      | Some raw \<Rightarrow> do {
          r \<leftarrow> in_gate (validate_session sha (ae_now E) raw);
          ret (case r of Inl _ \<Rightarrow> None | Inr row \<Rightarrow> row) })"

text \<open>\<open>Authorization: Bearer\<close> with the shared secret, behind the limiter of the login.\<close>

definition bearer_admin ::
  "(string \<Rightarrow> u8 list) \<Rightarrow> access_env \<Rightarrow> http_request \<Rightarrow> (response + string option) admin" where
  "bearer_admin digest E rq =
     (case Option.bind (hdr_text (hr_headers rq) ''authorization'') (strip_prefix ''Bearer '') of
        None \<Rightarrow> ret (Inl unauthorized)
      | Some token \<Rightarrow> do {
          g \<leftarrow> gets id;
          (let ip = map_option (\<lambda>peer. effective_ip (gt_cf g) peer (hr_headers rq)) (hr_peer rq)
           in if (case ip of Some ip \<Rightarrow> is_locked_out (gt_attempts g) ip (ae_checked E) | None \<Rightarrow> False)
              then ret (Inl (json_response 429 [] (error_body ''too many failed attempts'')))
              else if secret_matches digest token (gt_secret g) then ret (Inr None)
              else do {
                (case ip of
                   Some ip \<Rightarrow> update_by (\<lambda>g. g\<lparr>gt_attempts := record_failure (gt_attempts g) ip (ae_failed E)\<rparr>)
                 | None \<Rightarrow> ret ());
                ret (Inl unauthorized) }) })"

text \<open>Handed on is the hash of the session's token, for a request that came with a session.\<close>

definition require_admin_session ::
  "(string \<Rightarrow> u8 list) \<Rightarrow> access_env \<Rightarrow> http_request \<Rightarrow> (response + string option) admin" where
  "require_admin_session digest E rq = do {
     s \<leftarrow> cookie_session (hex_sha digest) E (hr_headers rq);
     case s of
       Some row \<Rightarrow>
         if \<not> csrf_header_ok (hr_method rq) (hr_headers rq) then ret (Inl missing_csrf_response)
         else do {
           _ \<leftarrow> in_gate (renew_if_needed (ae_now E) (ses_token_hash row) (ses_created_at row) (ses_expires_at row));
           ret (Inr (Some (ses_token_hash row))) }
     | None \<Rightarrow> do {
         i \<leftarrow> cf_caller_of E (hr_headers rq);
         cf \<leftarrow> gets gt_cf;
         case (cf, i) of
           (Some cf, Some i) \<Rightarrow>
             if cf_is_admin cf i
             then ret (if \<not> csrf_header_ok (hr_method rq) (hr_headers rq) then Inl missing_csrf_response
                       else Inr None)
             else bearer_admin digest E rq
         | _ \<Rightarrow> bearer_admin digest E rq } }"

section \<open>Settings\<close>

definition mask_secret :: "string \<Rightarrow> string" where
  "mask_secret secret =
     (let tail = concat (rev (take 4 (rev (chars secret))))
      in if tail = [] then ''***'' else ''***'' @ tail)"

record shared_secret_response =
  sr_shared_secret :: string
  sr_masked :: bool
  sr_origin :: secret_origin

definition shared_secret_response :: "string \<Rightarrow> bool \<Rightarrow> secret_origin \<Rightarrow> shared_secret_response" where
  "shared_secret_response secret reveal origin =
     \<lparr>sr_shared_secret = (if reveal then secret else mask_secret secret), sr_masked = \<not> reveal, sr_origin = origin\<rparr>"

definition get_shared_secret :: "bool \<Rightarrow> shared_secret_response admin" where
  "get_shared_secret reveal = gets (\<lambda>g. shared_secret_response (gt_secret g) reveal (gt_secret_origin g))"

text \<open>
  \<open>persist_secret\<close> (\<open>src/core/config.rs\<close>): the file is opened with truncation before
  it is written, so a failed write leaves whatever part got through.
\<close>

datatype file_write = Written | NotOpened string | WriteFailed string string

definition persist_secret :: "file_write \<Rightarrow> string \<Rightarrow> (gate, string + unit) state" where
  "persist_secret w secret =
     (case w of
        Written \<Rightarrow> do { update_by (\<lambda>g. g\<lparr>gt_sidecar := Some secret\<rparr>); ok_ret () }
      | NotOpened e \<Rightarrow> fail_ret e
      | WriteFailed part e \<Rightarrow> do { update_by (\<lambda>g. g\<lparr>gt_sidecar := Some part\<rparr>); fail_ret e })"

definition MIN_SHARED_SECRET_LEN :: nat where
  "MIN_SHARED_SECRET_LEN = 32"

definition patch_shared_secret ::
  "file_write \<Rightarrow> string \<Rightarrow> (gate, app_error + shared_secret_response) state" where
  "patch_shared_secret w body = do {
     origin \<leftarrow> gets gt_secret_origin;
     if origin = SecretEnv
     then fail_ret (Conflict ''ROUTER_SHARED_SECRET is set; change or unset the environment variable instead'')
     else (let new_secret = trim body
       in if length (chars new_secret) < MIN_SHARED_SECRET_LEN
          then fail_ret (BadRequest (''shared_secret must be at least '' @ show_nat MIN_SHARED_SECRET_LEN
                 @ '' characters              (it is the admin credential)''))
          else do {
            r \<leftarrow> persist_secret w new_secret;
            case r of
              Inl e \<Rightarrow> fail_ret (Internal e)
            | Inr _ \<Rightarrow> do {
                update_by (\<lambda>g. g\<lparr>gt_secret := new_secret\<rparr>);
                ok_ret (shared_secret_response new_secret False origin) } }) }"

text \<open>A setting lives in the database and in memory; the memory follows a successful write only.\<close>

definition store_setting :: "string \<Rightarrow> bool \<Rightarrow> (gate \<Rightarrow> gate) \<Rightarrow> (gate, app_error + unit) state" where
  "store_setting name v publish = do {
     r \<leftarrow> State (\<lambda>g. case run_state (set_bool name v) (gt_db g) of (r, db) \<Rightarrow> (r, g\<lparr>gt_db := db\<rparr>));
     case r of
       Inl e \<Rightarrow> fail_ret (Internal e)
     | Inr _ \<Rightarrow> do { update_by publish; ok_ret () } }"

definition patch_images :: "bool \<Rightarrow> (gate, app_error + bool) state" where
  "patch_images enabled =
     attempt (store_setting ''images_enabled'' enabled (\<lambda>g. g\<lparr>gt_images := enabled\<rparr>)) (\<lambda>_. ok_ret enabled)"

definition get_images :: "bool admin" where
  "get_images = gets gt_images"

definition get_auth_mode :: "(bool \<times> auth_mode_origin) admin" where
  "get_auth_mode = gets (\<lambda>g. (gt_require g, gt_mode_origin g))"

definition patch_auth_mode :: "bool \<Rightarrow> (gate, app_error + bool \<times> auth_mode_origin) state" where
  "patch_auth_mode require = do {
     origin \<leftarrow> gets gt_mode_origin;
     if origin = ModeEnv
     then fail_ret (Conflict ''ROUTER_REQUIRE_SHARED_SECRET is set; change or unset the environment variable instead'')
     else attempt (store_setting ''require_shared_secret'' require (\<lambda>g. g\<lparr>gt_require := require\<rparr>))
            (\<lambda>_. ok_ret (require, origin)) }"

section \<open>Who gets through\<close>

lemma foldl_differences:
  "foldl (\<lambda>acc (x, y). acc OR (x XOR y)) (a :: u8) ps = 0 \<longleftrightarrow> a = 0 \<and> list_all (\<lambda>(x, y). x = y) ps"
proof (induction ps arbitrary: a)
  case (Cons p ps)
  obtain x y where p: "p = (x, y)" by (cases p)
  have "x XOR y = 0 \<longleftrightarrow> x = y"
  proof
    assume "x XOR y = 0"
    then have "(x XOR y) XOR y = 0 XOR y" by (rule arg_cong)
    then show "x = y" unfolding xor.assoc by simp
  qed simp
  with Cons.IH show ?case by (auto simp: p or_eq_0_iff)
qed simp

text \<open>The loop over the bytes is equality of digests of one length.\<close>

lemma secret_matches_iff:
  assumes "length (digest a) = length (digest b)"
  shows "secret_matches digest a b \<longleftrightarrow> digest a = digest b"
  using assms unfolding secret_matches_def foldl_differences
  by (auto simp: list_eq_iff_zip_eq list_all_iff)

definition presents_secret :: "(string \<Rightarrow> u8 list) \<Rightarrow> gate \<Rightarrow> headers \<Rightarrow> bool" where
  "presents_secret digest g h \<longleftrightarrow>
     (case presented_key h of Some token \<Rightarrow> secret_matches digest token (gt_secret g) | None \<Rightarrow> False)"

definition presents_key_of :: "(string \<Rightarrow> u8 list) \<Rightarrow> gate \<Rightarrow> headers \<Rightarrow> string \<Rightarrow> bool" where
  "presents_key_of digest g h i \<longleftrightarrow>
     (case presented_key h of Some token \<Rightarrow> key_of (gt_db g) (hex_sha digest token) i | None \<Rightarrow> False)"

text \<open>The edge vouches for \<open>i\<close>: its token passes every check against the keys known or fetched now.\<close>

definition vouched :: "cf_env \<Rightarrow> gate \<Rightarrow> headers \<Rightarrow> cf_identity \<Rightarrow> bool" where
  "vouched E g h i \<longleftrightarrow> (\<exists>cf. gt_cf g = Some cf \<and> fst (run_state (identity E h) cf) = Some i)"

lemma key_caller_cases:
  obtains g' where "run_state (key_caller digest E h) g = (Some admin_caller, g')" "g' = g" "presents_secret digest g h"
  | i g' where "run_state (key_caller digest E h) g = (Some \<lparr>caller_user_id = Some i\<rparr>, g')"
      "gt_cf g' = gt_cf g" "presents_key_of digest g h i" "\<not> presents_secret digest g h"
  | g' where "run_state (key_caller digest E h) g = (None, g')" "gt_cf g' = gt_cf g" "\<not> presents_secret digest g h"
proof (cases "presented_key h")
  case None
  then show thesis by (intro that(3)) (auto simp: key_caller_def presents_secret_def)
next
  case (Some token)
  show thesis
  proof (cases "secret_matches digest token (gt_secret g)")
    case True
    with Some show thesis by (intro that(1)) (auto simp: key_caller_def presents_secret_def)
  next
    case False
    then have no: "\<not> presents_secret digest g h" by (simp add: presents_secret_def Some)
    show thesis
      by (rule run_authenticate_cases [of "hex_sha digest" "ae_now E" token "gt_db g"])
        (use Some False no that in \<open>auto simp: key_caller_def in_gate_def presents_key_of_def split: prod.splits\<close>)
  qed
qed

lemma run_cf_caller_of:
  "fst (run_state (cf_caller_of E h) g) = Some i \<longleftrightarrow> vouched (ae_cf E) g h i"
  by (auto simp: cf_caller_of_def vouched_def split: option.splits prod.splits)

lemma vouched_cong: "gt_cf g' = gt_cf g \<Longrightarrow> vouched E g' h i = vouched E g h i"
  by (simp add: vouched_def)

text \<open>Everybody who is let through, and as whom.\<close>

lemma require_bearer_Inr:
  assumes "run_state (require_bearer digest E rq) g = (Inr c, g')"
  obtains "c = admin_caller" and "presents_secret digest g (hr_headers rq)"
  | i where "c = \<lparr>caller_user_id = Some i\<rparr>" and "presents_key_of digest g (hr_headers rq) i"
      and "\<not> presents_secret digest g (hr_headers rq)"
  | i n where "c = cf_caller n" and "vouched (ae_cf E) g (hr_headers rq) i" and "caller_id i = Some n"
      and "\<not> presents_secret digest g (hr_headers rq)"
  | "c = anonymous_caller" and "\<not> gt_require g" and "\<not> presents_secret digest g (hr_headers rq)"
proof (rule key_caller_cases [of digest E "hr_headers rq" g])
  fix g1
  assume "run_state (key_caller digest E (hr_headers rq)) g = (Some admin_caller, g1)" "presents_secret digest g (hr_headers rq)"
  with assms show thesis by (intro that(1)) (simp_all add: require_bearer_def)
next
  fix i g1
  assume "run_state (key_caller digest E (hr_headers rq)) g = (Some \<lparr>caller_user_id = Some i\<rparr>, g1)"
    "presents_key_of digest g (hr_headers rq) i" "\<not> presents_secret digest g (hr_headers rq)"
  with assms show thesis by (intro that(2)) (simp_all add: require_bearer_def)
next
  fix g1
  assume run: "run_state (key_caller digest E (hr_headers rq)) g = (None, g1)" and cf: "gt_cf g1 = gt_cf g"
    and no: "\<not> presents_secret digest g (hr_headers rq)"
  obtain o2 g2 where edge: "run_state (cf_caller_of E (hr_headers rq)) g1 = (o2, g2)" by fastforce
  have v: "vouched (ae_cf E) g (hr_headers rq) i" if "o2 = Some i" for i
    using run_cf_caller_of [of E "hr_headers rq" g1 i] that vouched_cong [OF cf] by (simp add: edge)
  show thesis
  proof (cases "Option.bind o2 caller_id")
    case None
    with assms run edge no show thesis by (intro that(4)) (auto simp: require_bearer_def split: if_splits)
  next
    case (Some n)
    then obtain i where "o2 = Some i" "caller_id i = Some n" by (auto simp: bind_eq_Some_conv)
    with assms run edge v Some no show thesis by (intro that(3)) (auto simp: require_bearer_def)
  qed
qed


text \<open>The keeper of \<open>/admin/*\<close>.\<close>

definition live_session :: "(string \<Rightarrow> string) \<Rightarrow> timestamp \<Rightarrow> gate \<Rightarrow> headers \<Rightarrow> string \<Rightarrow> bool" where
  "live_session sha now g h token_hash \<longleftrightarrow>
     (\<exists>raw. extract_cookie h (is_https h) = Some raw \<and> token_hash = sha raw
        \<and> (\<exists>row\<in>set (t_sessions (gt_db g)). ses_token_hash row = token_hash \<and> now < ses_expires_at row))"

definition bearer_secret :: "(string \<Rightarrow> u8 list) \<Rightarrow> gate \<Rightarrow> headers \<Rightarrow> bool" where
  "bearer_secret digest g h \<longleftrightarrow>
     (case Option.bind (hdr_text h ''authorization'') (strip_prefix ''Bearer '') of
        Some token \<Rightarrow> secret_matches digest token (gt_secret g) | None \<Rightarrow> False)"

definition locked_client :: "access_env \<Rightarrow> gate \<Rightarrow> http_request \<Rightarrow> bool" where
  "locked_client E g rq \<longleftrightarrow>
     (case hr_peer rq of
        Some peer \<Rightarrow> is_locked_out (gt_attempts g) (effective_ip (gt_cf g) peer (hr_headers rq)) (ae_checked E)
      | None \<Rightarrow> False)"

lemma cookie_session_cases:
  obtains row db where "run_state (cookie_session sha E h) g = (Some row, g\<lparr>gt_db := db\<rparr>)"
      "live_session sha (ae_now E) g h (ses_token_hash row)"
  | db where "run_state (cookie_session sha E h) g = (None, g\<lparr>gt_db := db\<rparr>)"
proof (cases "extract_cookie h (is_https h)")
  case None
  then show thesis by (intro that(2) [of "gt_db g"]) (simp add: cookie_session_def)
next
  case (Some raw)
  obtain r db where run: "run_state (validate_session sha (ae_now E) raw) (gt_db g) = (r, db)" by fastforce
  show thesis
  proof (cases "\<exists>row. r = Inr (Some row)")
    case True
    then obtain row where "r = Inr (Some row)" by blast
    with Some run run_validate_Some [of sha "ae_now E" raw "gt_db g" row db] show thesis
      by (intro that(1) [of row db]) (auto simp: cookie_session_def in_gate_def live_session_def)
  next
    case False
    with Some run show thesis
      by (intro that(2) [of db]) (auto simp: cookie_session_def in_gate_def split: sum.splits option.splits)
  qed
qed

lemma run_bearer_admin:
  "fst (run_state (bearer_admin digest E rq) g) =
     (if Option.bind (hdr_text (hr_headers rq) ''authorization'') (strip_prefix ''Bearer '') = None then Inl unauthorized
      else if locked_client E g rq then Inl (json_response 429 [] (error_body ''too many failed attempts''))
      else if bearer_secret digest g (hr_headers rq) then Inr None
      else Inl unauthorized)"
  by (auto simp: bearer_admin_def locked_client_def bearer_secret_def Let_def split: option.splits)

lemma identity_cfg: "cfa_cfg (snd (run_state (identity E h) cf)) = cfa_cfg cf"
  using identity_state [of E h cf] by auto

lemma cf_is_admin_cong: "cfa_cfg cf' = cfa_cfg cf \<Longrightarrow> cf_is_admin cf' i = cf_is_admin cf i"
  by (simp add: cf_is_admin_def split: option.split)

lemma gate_frame:
  "gt_cf g = None \<Longrightarrow> g\<lparr>gt_db := db, gt_cf := None\<rparr> = g\<lparr>gt_db := db\<rparr>"
  "locked_client E (g\<lparr>gt_db := db, gt_cf := map_option f (gt_cf g)\<rparr>) rq = locked_client E g rq"
  "bearer_secret digest (g\<lparr>gt_db := db, gt_cf := cf\<rparr>) h = bearer_secret digest g h"
proof -
  show "gt_cf g = None \<Longrightarrow> g\<lparr>gt_db := db, gt_cf := None\<rparr> = g\<lparr>gt_db := db\<rparr>" by (cases g) simp
  show "locked_client E (g\<lparr>gt_db := db, gt_cf := map_option f (gt_cf g)\<rparr>) rq = locked_client E g rq"
    by (auto simp: locked_client_def effective_ip_def split: option.split)
qed (simp add: bearer_secret_def split: option.split)

definition vouched_admin :: "cf_env \<Rightarrow> gate \<Rightarrow> headers \<Rightarrow> bool" where
  "vouched_admin E g h \<longleftrightarrow>
     (\<exists>cf i. gt_cf g = Some cf \<and> fst (run_state (identity E h) cf) = Some i \<and> cf_is_admin cf i)"

lemma require_admin_session_without_cookie:
  assumes "run_state (cookie_session (hex_sha digest) E (hr_headers rq)) g = (None, g\<lparr>gt_db := db\<rparr>)"
  shows "fst (run_state (require_admin_session digest E rq) g) =
    (if vouched_admin (ae_cf E) g (hr_headers rq)
     then (if csrf_header_ok (hr_method rq) (hr_headers rq) then Inr None else Inl missing_csrf_response)
     else fst (run_state (bearer_admin digest E rq) (g\<lparr>gt_db := db, gt_cf := map_option
       (\<lambda>cf. snd (run_state (identity (ae_cf E) (hr_headers rq)) cf)) (gt_cf g)\<rparr>)))"
proof (cases "gt_cf g")
  case None
  then show ?thesis
    using assms by (simp add: require_admin_session_def cf_caller_of_def vouched_admin_def gate_frame)
next
  case (Some cf)
  obtain i cf' where run: "run_state (identity (ae_cf E) (hr_headers rq)) cf = (i, cf')" by fastforce
  have "cfa_cfg cf' = cfa_cfg cf" using identity_cfg [of "ae_cf E" "hr_headers rq" cf] by (simp add: run)
  then have "cf_is_admin cf' = cf_is_admin cf" by (intro ext cf_is_admin_cong)
  with Some run assms show ?thesis
    by (cases i) (simp_all add: require_admin_session_def cf_caller_of_def vouched_admin_def)
qed

lemma require_admin_session_Inr:
  assumes "run_state (require_admin_session digest E rq) g = (Inr s, g')"
  obtains t where "s = Some t" and "live_session (hex_sha digest) (ae_now E) g (hr_headers rq) t"
      and "csrf_header_ok (hr_method rq) (hr_headers rq)"
  | "s = None" and "vouched_admin (ae_cf E) g (hr_headers rq)" and "csrf_header_ok (hr_method rq) (hr_headers rq)"
  | "s = None" and "bearer_secret digest g (hr_headers rq)" and "\<not> locked_client E g rq"
proof (rule cookie_session_cases [of "hex_sha digest" E "hr_headers rq" g])
  fix row db
  assume "run_state (cookie_session (hex_sha digest) E (hr_headers rq)) g = (Some row, g\<lparr>gt_db := db\<rparr>)"
    and "live_session (hex_sha digest) (ae_now E) g (hr_headers rq) (ses_token_hash row)"
  with assms show thesis
    by (intro that(1)) (auto simp: require_admin_session_def split: if_splits prod.splits)
next
  fix db
  assume none: "run_state (cookie_session (hex_sha digest) E (hr_headers rq)) g = (None, g\<lparr>gt_db := db\<rparr>)"
  have fst_run: "fst (run_state (require_admin_session digest E rq) g) = Inr s" by (simp add: assms)
  show thesis
  proof (cases "vouched_admin (ae_cf E) g (hr_headers rq)")
    case True
    with fst_run that(2) show thesis
      by (simp add: require_admin_session_without_cookie [OF none] split: if_splits)
  next
    case False
    with fst_run that(3) show thesis
      by (simp add: require_admin_session_without_cookie [OF none] run_bearer_admin gate_frame split: if_splits)
  qed
qed

end
