(* ===== verification/ExampleGate.thy ===== *)
theory ExampleGate
  imports Access
begin

text \<open>A gateway with an administrator, a login, a token of the edge and a request that carries it.\<close>

definition example_gate :: gate where
  "example_gate = \<lparr>gt_db = empty_db\<lparr>t_admin := Some \<lparr>adm_username = ''root'', adm_password_hash = ''hash'',
       adm_updated_at = 0\<rparr>\<rparr>, gt_attempts = [], gt_runtime = [], gt_cf = None, gt_secret = ''s3cret'',
     gt_secret_origin = SidecarFile, gt_require = True, gt_mode_origin = ModeDefault, gt_images = False,
     gt_sidecar = None\<rparr>"

definition example_login :: login_env where
  "example_login = \<lparr>lg_began = 1, lg_failed = 2, lg_now = 3, lg_answered = 4, lg_random = [0xab]\<rparr>"

definition example_cf_env :: cf_env where
  "example_cf_env = \<lparr>ce_base64 = Some,
     ce_header = (\<lambda>_. Some \<lparr>jh_alg = ''RS256'', jh_kid = Some ''k1''\<rparr>),
     ce_claims = (\<lambda>_. Some \<lparr>cl_iss = ''https://acme.cloudflareaccess.com'', cl_aud = AudMany [''x'', ''tag''],
        cl_exp = 100, cl_nbf = Some 50, cl_email = Some ''Root@Acme.org'', cl_common_name = None\<rparr>),
     ce_rsa_verify = (\<lambda>n e m s. s = ''sig'' \<and> m = ''h.p''), ce_unix_now = 90,
     ce_elapsed_at = 7, ce_fetched_at = 8,
     ce_published = Some [\<lparr>jwk_kid = ''k1'', jwk_kty = ''RSA'', jwk_n = ''n'', jwk_e = ''e''\<rparr>]\<rparr>"

definition example_cf :: cf_access where
  "example_cf = new_cf_access \<lparr>cfg_team_domain = ''acme.cloudflareaccess.com'', cfg_aud = ''tag'',
     cfg_admin_emails = [''root@acme.org''],
     cfg_jwks_url = ''https://acme.cloudflareaccess.com/cdn-cgi/access/certs''\<rparr>"

definition example_access :: access_env where
  "example_access = \<lparr>ae_now = 5, ae_checked = 6, ae_failed = 7, ae_cf = example_cf_env\<rparr>"

definition example_digest :: "string \<Rightarrow> u8 list" where
  "example_digest s = map (\<lambda>c. word_of_nat (byte_of c)) s"

definition from_root :: http_request where
  "from_root = \<lparr>hr_method = ''PATCH'', hr_headers = [(''cf-access-jwt-assertion'', ''h.p.sig''),
     (''x-requested-with'', ''1router-ui'')], hr_peer = Some (V4 0x7F000001)\<rparr>"

end
