(* ===== verification/CommandCode.thy ===== *)
theory CommandCode
  imports CodexTransform HttpAdapter
begin

text \<open>
  \<open>src/providers/adapter/commandcode/transform.rs\<close>: the generate envelope of Command Code,
  its stream of one JSON event per line, and the body for its Messages endpoint.
\<close>

definition DEFAULT_MAX_TOKENS :: int where
  "DEFAULT_MAX_TOKENS = 64000"

definition DEFAULT_TEMPERATURE :: rat where
  "DEFAULT_TEMPERATURE = f64_round (3 / 10)"

section \<open>Messages\<close>

definition content_text :: "json \<Rightarrow> string" where
  "content_text content =
     (case content of
        JStr s \<Rightarrow> s
      | JArr ps \<Rightarrow> concat (List.map_filter (\<lambda>p. str_at p ''text'') ps)
      | _ \<Rightarrow> [])"

definition has_role :: "string \<Rightarrow> json \<Rightarrow> bool" where
  "has_role r m \<longleftrightarrow> str_at m ''role'' = Some r"

definition assistant_calls :: "json list \<Rightarrow> json list" where
  "assistant_calls ms = concat (map (\<lambda>m. elements_at m ''tool_calls'') (filter (has_role ''assistant'') ms))"

definition complete_tool_call_ids :: "json list \<Rightarrow> string set" where
  "complete_tool_call_ids ms =
     set (List.map_filter (\<lambda>c. str_at c ''id'') (assistant_calls ms))
   \<inter> set (List.map_filter (\<lambda>m. str_at m ''tool_call_id'') (filter (has_role ''tool'') ms))"

text \<open>A later call with the same id replaces the name of an earlier one.\<close>

definition tool_names :: "json list \<Rightarrow> (string \<times> string) list" where
  "tool_names ms =
     rev (List.map_filter (\<lambda>c. Option.bind (str_at c ''id'') (\<lambda>i.
        map_option (\<lambda>n. (i, n)) (as_str (jidx (jidx c ''function'') ''name'')))) (assistant_calls ms))"

definition convert_image_part :: "json \<Rightarrow> json" where
  "convert_image_part part =
     (if str_at part ''type'' \<noteq> Some ''image_url'' then part
      else (let url = unwrap_or (as_str (jidx (jidx part ''image_url'') ''url'')) []
        in case strip_prefix ''data:'' url of
             Some rest \<Rightarrow>
               (let (media_type, data) = (case find_str rest '';base64,'' of
                      Some n \<Rightarrow> (take n rest, drop (n + length '';base64,'') rest)
                    | None \<Rightarrow> (''image/png'', url))
                in jobj [(''type'', JStr ''image''), (''source'', jobj [(''type'', JStr ''base64''),
                     (''media_type'', JStr media_type), (''data'', JStr data)])])
           | None \<Rightarrow> jobj [(''type'', JStr ''image''),
                 (''source'', jobj [(''type'', JStr ''url''), (''url'', JStr url)])]))"

definition convert_user_content :: "json \<Rightarrow> json" where
  "convert_user_content content = (case content of JArr ps \<Rightarrow> JArr (map convert_image_part ps) | _ \<Rightarrow> content)"

definition tool_call_part :: "(string \<Rightarrow> json option) \<Rightarrow> json \<Rightarrow> json" where
  "tool_call_part parse call =
     jobj [(''type'', JStr ''tool-call''), (''toolCallId'', JStr (str_of call ''id'')),
       (''toolName'', JStr (str_of (jidx call ''function'') ''name'')),
       (''input'', unwrap_or (opt_filter is_object
          (Option.bind (as_str (jidx (jidx call ''function'') ''arguments'')) parse)) (JObj []))]"

definition assistant_content :: "(string \<Rightarrow> json option) \<Rightarrow> string set \<Rightarrow> json \<Rightarrow> json list" where
  "assistant_content parse paired m =
     (case opt_filter (\<lambda>v. \<not> is_null v) (jget m ''content'') of
        Some v \<Rightarrow> if content_text v \<noteq> [] then [text_block (content_text v)] else []
      | None \<Rightarrow> [])
     @ map (tool_call_part parse) (filter (\<lambda>c. str_of c ''id'' \<in> paired) (elements_at m ''tool_calls''))"

definition tool_result_message :: "(string \<times> string) list \<Rightarrow> string \<Rightarrow> json \<Rightarrow> json" where
  "tool_result_message names i m =
     message_of ''tool'' (JArr [jobj [(''type'', JStr ''tool-result''), (''toolCallId'', JStr i),
       (''toolName'', JStr (unwrap_or (map_of names i) [])),
       (''output'', jobj [(''type'', JStr ''text''), (''value'', JStr (content_text (jidx m ''content'')))])]])"

definition convert_message ::
  "(string \<Rightarrow> json option) \<Rightarrow> string set \<Rightarrow> (string \<times> string) list \<Rightarrow> json \<Rightarrow> json list" where
  "convert_message parse paired names m =
     (let role = openai_role m
      in if role = ''system'' then []
         else if role = ''assistant''
         then (let content = assistant_content parse paired m
               in if content \<noteq> [] then [message_of ''assistant'' (JArr content)] else [])
         else if role = ''tool''
         then (let i = str_of m ''tool_call_id''
               in if i \<in> paired then [tool_result_message names i m] else [])
         else [message_of role (convert_user_content (get_or m ''content'' JNull))])"

definition convert_messages :: "(string \<Rightarrow> json option) \<Rightarrow> json list \<Rightarrow> json list" where
  "convert_messages parse ms =
     concat (map (convert_message parse (complete_tool_call_ids ms) (tool_names ms)) ms)"

definition convert_tool :: "json \<Rightarrow> json" where
  "convert_tool t =
     (let f = jidx t ''function''
      in jobj [(''type'', JStr ''function''), (''name'', JStr (str_of f ''name'')),
           (''description'', JStr (str_of f ''description'')), (''input_schema'', get_or f ''parameters'' (JObj []))])"

definition system_prompt :: "json list \<Rightarrow> string option" where
  "system_prompt ms =
     (let values = filter (\<lambda>t. t \<noteq> []) (map (\<lambda>m. content_text (jidx m ''content'')) (filter (has_role ''system'') ms))
      in if values = [] then None else Some (join [LF, LF] values))"

definition clamp_tokens :: "int \<Rightarrow> int" where
  "clamp_tokens n = max 1 (min n DEFAULT_MAX_TOKENS)"

definition generate_params :: "(string \<Rightarrow> json option) \<Rightarrow> json \<Rightarrow> json" where
  "generate_params parse client =
     (let ms = elements_at client ''messages''
      in jobj [(''model'', get_or client ''model'' JNull),
           (''messages'', JArr (convert_messages parse ms)),
           (''tools'', JArr (map convert_tool (elements_at client ''tools''))),
           (''max_tokens'', jint (clamp_tokens (unwrap_or (as_i64 (jidx client ''max_tokens'')) DEFAULT_MAX_TOKENS))),
           (''temperature'', JNum (Flt (unwrap_or (as_f64 (jidx client ''temperature'')) DEFAULT_TEMPERATURE))),
           (''stream'', JBool True),
           (''system'', JStr (unwrap_or (system_prompt ms) []))])"

text \<open>\<open>today\<close>, \<open>environment\<close>: the date and \<open>environment_info()\<close>.\<close>

definition generate_envelope ::
  "string \<Rightarrow> string \<Rightarrow> json \<Rightarrow> string \<Rightarrow> string \<Rightarrow> json" where
  "generate_envelope today environment params thread_id working_dir =
     jobj [(''config'', jobj [(''workingDir'', JStr working_dir), (''date'', JStr today),
         (''environment'', JStr environment), (''structure'', JArr []), (''isGitRepo'', JBool False),
         (''currentBranch'', JStr []), (''mainBranch'', JStr []), (''gitStatus'', JStr []), (''recentCommits'', JArr [])]),
       (''memory'', JNull), (''taste'', JNull), (''skills'', JNull), (''params'', params),
       (''threadId'', JStr thread_id)]"

section \<open>The event stream\<close>

definition parse_event_line :: "(string \<Rightarrow> json option) \<Rightarrow> string \<Rightarrow> json option" where
  "parse_event_line parse line =
     (let line = trim line
      in if line = [] \<or> starts_with line '':'' \<or> starts_with line ''event:'' then None
         else (let line = (case strip_prefix ''data:'' line of Some rest \<Rightarrow> trim rest | None \<Rightarrow> line)
           in if line = [] \<or> line = ''[DONE]'' then None else parse line))"

text \<open>
  The id and the time of a stream are drawn once, when the first chunk needs them; here they
  are an argument.  What is left of \<open>ChunkState\<close> is whether a call was seen.
\<close>

record chunk_meta =
  cm_id :: string
  cm_created :: int

definition cc_chunk :: "chunk_meta \<Rightarrow> string \<Rightarrow> json \<Rightarrow> string option \<Rightarrow> json" where
  "cc_chunk meta model delta finish =
     jobj [(''id'', JStr (cm_id meta)), (''object'', JStr ''chat.completion.chunk''), (''created'', jint (cm_created meta)),
       (''model'', JStr model),
       (''choices'', JArr [jobj [(''index'', jnat 0), (''delta'', delta),
          (''finish_reason'', (case finish of Some f \<Rightarrow> JStr f | None \<Rightarrow> JNull))]])]"

definition finish_reason :: "string option \<Rightarrow> string" where
  "finish_reason v =
     (if v \<in> {Some ''length'', Some ''max_tokens'', Some ''max-tokens'', Some ''max_output_tokens''} then ''length''
      else if v = Some ''tool-calls'' then ''tool_calls'' else ''stop'')"

definition cc_usage :: "json \<Rightarrow> json" where
  "cc_usage v =
     (let input = unwrap_or (as_i64 (jidx v ''inputTokens'')) 0;
          output = unwrap_or (as_i64 (jidx v ''outputTokens'')) 0;
          cached = unwrap_or (as_i64 (jidx (jidx v ''inputTokenDetails'') ''cacheReadTokens'')) 0;
          out = jobj [(''prompt_tokens'', jint input), (''completion_tokens'', jint output),
                      (''total_tokens'', jint (wrap_i64 (input + output)))]
      in if 0 < cached then jset ''prompt_tokens_details'' (jobj [(''cached_tokens'', jint cached)]) out else out)"

definition cc_tool_call :: "(json \<Rightarrow> string) \<Rightarrow> json \<Rightarrow> (string \<times> json) list" where
  "cc_tool_call print event =
     [(''id'', jidx event ''toolCallId''), (''type'', JStr ''function''),
      (''function'', jobj [(''name'', jidx event ''toolName''), (''arguments'', JStr (print (jidx event ''input'')))])]"

definition cc_chunk_for_event ::
  "(json \<Rightarrow> string) \<Rightarrow> chunk_meta \<Rightarrow> string \<Rightarrow> bool \<Rightarrow> json \<Rightarrow> json option \<times> bool" where
  "cc_chunk_for_event print meta model saw event =
     (case str_at event ''type'' of
        None \<Rightarrow> (None, saw)
      | Some t \<Rightarrow>
          if t = ''text-delta''
          then (Some (cc_chunk meta model (jobj [(''content'', JStr (str_of event ''text''))]) None), saw)
          else if t = ''reasoning-delta''
          then (Some (cc_chunk meta model (jobj [(''reasoning_content'', JStr (str_of event ''text''))]) None), saw)
          else if t = ''tool-call''
          then (Some (cc_chunk meta model (tool_delta ((''index'', jnat 0) # cc_tool_call print event)) None), True)
          else if t = ''finish''
          then (let reason = (case as_str (jidx event ''finishReason'') of
                       Some v \<Rightarrow> finish_reason (Some v)
                     | None \<Rightarrow> if saw then ''tool_calls'' else ''stop'');
                    out = cc_chunk meta model (JObj []) (Some reason)
                in (Some (case jget event ''totalUsage'' of
                      Some u \<Rightarrow> jset ''usage'' (cc_usage u) out | None \<Rightarrow> out), saw))
          else (None, saw))"

definition event_error :: "json \<Rightarrow> string" where
  "event_error event =
     unwrap_or (or_else (as_str (jidx event ''error'')) (as_str (jidx (jidx event ''error'') ''message''))) ''upstream error''"

definition error_chunk :: "chunk_meta \<Rightarrow> string \<Rightarrow> json \<Rightarrow> json" where
  "error_chunk meta model event =
     jset ''error'' (jobj [(''message'', JStr (event_error event)), (''type'', JStr ''upstream_error'')])
       (cc_chunk meta model (jobj [(''content'', JStr (''[commandcode error: '' @ event_error event @ '']''))])
          (Some ''stop''))"

definition is_error :: "json \<Rightarrow> bool" where
  "is_error event \<longleftrightarrow> str_at event ''type'' = Some ''error''"

text \<open>The chunks of complete lines, and whether an error event ended the stream.\<close>

fun cc_lines ::
  "(string \<Rightarrow> json option) \<Rightarrow> (json \<Rightarrow> string) \<Rightarrow> chunk_meta \<Rightarrow> string \<Rightarrow> bool \<Rightarrow> string list \<Rightarrow> json list \<times> bool \<times> bool" where
  "cc_lines parse print meta model saw [] = ([], False, saw)"
| "cc_lines parse print meta model saw (line # ls) =
     (case parse_event_line parse line of
        None \<Rightarrow> cc_lines parse print meta model saw ls
      | Some event \<Rightarrow>
          if is_error event then ([error_chunk meta model event], True, saw)
          else (case cc_chunk_for_event print meta model saw event of (c, saw) \<Rightarrow>
            (case cc_lines parse print meta model saw ls of (cs, stop, saw) \<Rightarrow>
               ((case c of Some c \<Rightarrow> c # cs | None \<Rightarrow> cs), stop, saw))))"

record cc_stream =
  cs_pending :: string
  cs_buffer :: string
  cs_saw :: bool

definition new_cc_stream :: cc_stream where
  "new_cc_stream = \<lparr>cs_pending = [], cs_buffer = [], cs_saw = False\<rparr>"

fun convert_ndjson_stream ::
  "(string \<Rightarrow> json option) \<Rightarrow> (json \<Rightarrow> string) \<Rightarrow> chunk_meta \<Rightarrow> string \<Rightarrow> cc_stream \<Rightarrow> 'e items \<Rightarrow> 'e items" where
  "convert_ndjson_stream parse print meta model st [] =
     (case cc_lines parse print meta model (cs_saw st) (if cs_buffer st = [] then [] else [cs_buffer st]) of
        (cs, stop, _) \<Rightarrow>
          map (\<lambda>c. Inr (render_openai_chunk print c)) cs @ (if stop then [] else [Inr done_marker]))"
| "convert_ndjson_stream parse print meta model st (Inl e # _) = [Inl e]"
| "convert_ndjson_stream parse print meta model st (Inr bytes # items) =
     (case utf8_decode (cs_pending st) bytes of (decoded, pending) \<Rightarrow>
        let buffer = cs_buffer st @ decoded
        in if MAX_SSE_BUFFER < length buffer then []
           else (let pieces = split_on LF buffer
             in case cc_lines parse print meta model (cs_saw st) (map (\<lambda>l. l @ [LF]) (butlast pieces)) of
                  (cs, stop, saw) \<Rightarrow>
                    map (\<lambda>c. Inr (render_openai_chunk print c)) cs
                    @ (if stop then []
                       else convert_ndjson_stream parse print meta model
                              \<lparr>cs_pending = pending, cs_buffer = last pieces, cs_saw = saw\<rparr> items)))"

section \<open>The whole answer\<close>

definition cc_events :: "(string \<Rightarrow> json option) \<Rightarrow> string \<Rightarrow> json list" where
  "cc_events parse body = List.map_filter (parse_event_line parse) (str_lines body)"

record cc_answer =
  ca_content :: string
  ca_reasoning :: string
  ca_finish :: string
  ca_usage :: json
  ca_calls :: "json list"

definition no_answer :: cc_answer where
  "no_answer = \<lparr>ca_content = [], ca_reasoning = [], ca_finish = ''stop'', ca_usage = JNull, ca_calls = []\<rparr>"

definition gather_event :: "(json \<Rightarrow> string) \<Rightarrow> cc_answer \<Rightarrow> json \<Rightarrow> cc_answer" where
  "gather_event print a event =
     (let t = str_at event ''type''
      in if t = Some ''text-delta'' then a\<lparr>ca_content := ca_content a @ str_of event ''text''\<rparr>
         else if t = Some ''reasoning-delta'' then a\<lparr>ca_reasoning := ca_reasoning a @ str_of event ''text''\<rparr>
         else if t = Some ''tool-call'' then a\<lparr>ca_calls := ca_calls a @ [jobj (cc_tool_call print event)]\<rparr>
         else if t = Some ''finish''
         then a\<lparr>ca_finish := finish_reason (as_str (jidx event ''finishReason'')),
                ca_usage := (case jget event ''totalUsage'' of Some u \<Rightarrow> cc_usage u | None \<Rightarrow> ca_usage a)\<rparr>
         else a)"

definition answer_of :: "chunk_meta \<Rightarrow> string \<Rightarrow> cc_answer \<Rightarrow> json" where
  "answer_of meta model a =
     (let message = jobj ([(''role'', JStr ''assistant''), (''content'', JStr (ca_content a))]
            @ (if ca_reasoning a \<noteq> [] then [(''reasoning_content'', JStr (ca_reasoning a))] else [])
            @ (if ca_calls a \<noteq> [] then [(''tool_calls'', JArr (ca_calls a))] else []));
          out = jobj [(''id'', JStr (cm_id meta)), (''object'', JStr ''chat.completion''), (''model'', JStr model),
            (''choices'', JArr [jobj [(''index'', jnat 0), (''message'', message),
               (''finish_reason'', JStr (ca_finish a))]])]
      in if is_null (ca_usage a) then out else jset ''usage'' (ca_usage a) out)"

definition aggregate_ndjson ::
  "(string \<Rightarrow> json option) \<Rightarrow> (json \<Rightarrow> string) \<Rightarrow> chunk_meta \<Rightarrow> string \<Rightarrow> string \<Rightarrow> json" where
  "aggregate_ndjson parse print meta body model =
     answer_of meta model (foldl (gather_event print) no_answer (cc_events parse body))"

definition ndjson_embedded_error :: "(string \<Rightarrow> json option) \<Rightarrow> string \<Rightarrow> string option" where
  "ndjson_embedded_error parse body = map_option event_error (find is_error (cc_events parse body))"

text \<open>\<open>StatusCode::from_u16\<close> takes 100 to 999; the digits must fit a \<open>u16\<close>.\<close>

definition embedded_error_status :: "string \<Rightarrow> nat option" where
  "embedded_error_status message =
     (case strip_prefix ''<'' message of
        None \<Rightarrow> None
      | Some rest \<Rightarrow>
          (let digits = takeWhile is_ascii_digit rest
           in if digits = [] then None
              else opt_filter (\<lambda>n. 100 \<le> n \<and> n < 1000) (opt_filter (\<lambda>n. n < 2 ^ 16) (digits_value 0 digits))))"

section \<open>The Messages endpoint\<close>

definition is_tool_result_only :: "json \<Rightarrow> bool" where
  "is_tool_result_only m \<longleftrightarrow> has_role ''user'' m
     \<and> (case Option.bind (jget m ''content'') as_array of
          Some bs \<Rightarrow> bs \<noteq> [] \<and> list_all (\<lambda>b. str_at b ''type'' = Some ''tool_result'') bs | None \<Rightarrow> False)"

text \<open>One step of the loop; \<open>out\<close> is the list so far.\<close>

definition merge_message :: "json list \<Rightarrow> json \<Rightarrow> json list" where
  "merge_message out m =
     (if out \<noteq> [] \<and> is_tool_result_only m \<and> is_tool_result_only (last out)
      then butlast out @ [jset ''content''
             (JArr (elements_at (last out) ''content'' @ elements_at m ''content'')) (last out)]
      else out @ [m])"

definition merge_consecutive_tool_result_messages :: "json list \<Rightarrow> json list" where
  "merge_consecutive_tool_result_messages ms = foldl merge_message [] ms"

definition openai_to_commandcode_messages :: "(string \<Rightarrow> json option) \<Rightarrow> json \<Rightarrow> json outcome" where
  "openai_to_commandcode_messages parse client =
     (case openai_to_claude_request parse client of
        Panicked \<Rightarrow> Panicked
      | Done out \<Rightarrow>
          (let out = (case Option.bind (jget out ''messages'') as_array of
                 Some ms \<Rightarrow> jset ''messages'' (JArr (merge_consecutive_tool_result_messages ms)) out | None \<Rightarrow> out)
           in Done (if jget client ''max_tokens'' = None then jset ''max_tokens'' (jint DEFAULT_MAX_TOKENS) out else out)))"

section \<open>The project slug\<close>

text \<open>
  \<open>str::to_lowercase\<close> as far as the slug sees it: only ASCII letters and digits of the result
  count.  Two characters outside ASCII have ASCII in their lower case, the Kelvin sign
  (E2 84 AA, to k) and the dotted capital I (C4 B0, to i and a combining dot).
\<close>

fun slug_lower :: "string \<Rightarrow> string" where
  "slug_lower (a # b # c # s) =
     (if [a, b, c] = map char_of [0xE2, 0x84, 0xAA :: nat] then CHR ''k'' # slug_lower s
      else if [a, b] = map char_of [0xC4, 0xB0 :: nat] then CHR ''i'' # map char_of [0xCC, 0x87 :: nat] @ slug_lower (c # s)
      else ascii_lower a # slug_lower (b # c # s))"
| "slug_lower [a, b] =
     (if [a, b] = map char_of [0xC4, 0xB0 :: nat] then CHR ''i'' # map char_of [0xCC, 0x87 :: nat]
      else [ascii_lower a, ascii_lower b])"
| "slug_lower s = map ascii_lower s"

definition strip_drive :: "string \<Rightarrow> string" where
  "strip_drive path =
     (case path of
        c # d # rest \<Rightarrow> if is_ascii_alphanumeric c \<and> \<not> is_ascii_digit c \<and> d = CHR '':'' then rest else path
      | _ \<Rightarrow> path)"

definition slug_char :: "string \<times> bool \<Rightarrow> char \<Rightarrow> string \<times> bool" where
  "slug_char a c =
     (if is_ascii_alphanumeric c then (fst a @ (if snd a \<and> fst a \<noteq> [] then ''-'' else []) @ [c], False) else (fst a, True))"

definition trim_dashes :: "string \<Rightarrow> string" where
  "trim_dashes s = rev (dropWhile (\<lambda>c. c = CHR ''-'') (rev (dropWhile (\<lambda>c. c = CHR ''-'') s)))"

definition project_slug_from_path :: "string \<Rightarrow> string" where
  "project_slug_from_path path =
     (let slug = trim_dashes (fst (foldl slug_char ([], False) (slug_lower (strip_drive path))))
      in if slug = [] then ''project'' else slug)"

end
