(* ===== verification/CommandCodeAdapter.thy ===== *)
theory CommandCodeAdapter
  imports CommandCode
begin

text \<open>
  \<open>src/providers/adapter/commandcode/adapter.rs\<close>: the adapter of Command Code, which offers three
  endpoints: the generate envelope, chat completions, and Messages for models of the Claude family.
\<close>

section \<open>Endpoints\<close>

definition trim_end_slashes :: "string \<Rightarrow> string" where
  "trim_end_slashes s = rev (dropWhile (\<lambda>c. c = CHR ''/'') (rev s))"

definition command_code_url :: "libs \<Rightarrow> string \<Rightarrow> string" where
  "command_code_url L path =
     (case lb_commandcode_base L of
        Some base \<Rightarrow> trim_end_slashes base @ path
      | None \<Rightarrow> ''https://api.commandcode.ai'' @ path)"

definition generate_url :: "libs \<Rightarrow> string" where
  "generate_url L = command_code_url L ''/alpha/generate''"

definition provider_chat_url :: "libs \<Rightarrow> string" where
  "provider_chat_url L = command_code_url L ''/provider/v1/chat/completions''"

definition provider_messages_url :: "libs \<Rightarrow> string" where
  "provider_messages_url L = command_code_url L ''/provider/v1/messages''"

datatype upstream_shape = OpenAiChat | AnthropicMessages | GenerateEnvelope

definition COMMAND_CODE_VERSION :: string where
  "COMMAND_CODE_VERSION = ''0.29.0''"

definition command_code_headers :: "string \<Rightarrow> headers" where
  "command_code_headers cwd =
     [(''x-command-code-version'', COMMAND_CODE_VERSION), (''x-cli-environment'', ''production''),
      (''x-project-slug'', project_slug_from_path cwd), (''x-taste-learning'', ''true''), (''x-co-flag'', ''false'')]"

section \<open>The request\<close>

text \<open>\<open>body["model"] = ..\<close>: null becomes an object, any other value that is none panics.\<close>

fun assign_model :: "string \<Rightarrow> json \<Rightarrow> json outcome" where
  "assign_model m (JObj obj) = Done (JObj (obj_insert ''model'' (JStr m) obj))"
| "assign_model m JNull = Done (JObj [(''model'', JStr m)])"
| "assign_model m v = Panicked"

definition pinned_transport :: "transport_map \<Rightarrow> provider \<Rightarrow> credentials \<Rightarrow> transport" where
  "pinned_transport transports p creds =
     (case Option.bind (jget (cr_provider_data creds) ''generate_only'') as_bool of
        Some True \<Rightarrow> GenerateTransport | _ \<Rightarrow> transport_of transports (prov_id p))"

definition generate_body :: "libs \<Rightarrow> nat \<Rightarrow> provider \<Rightarrow> json \<Rightarrow> json" where
  "generate_body L t p client =
     generate_envelope (lb_today L t) (lb_environment L)
       (jset ''model'' (JStr (prov_upstream_model p)) (generate_params (lb_parse_ok L) client))
       (lb_uuid L t) (lb_cwd L)"

definition inject_thinking :: "provider \<Rightarrow> json \<Rightarrow> json \<Rightarrow> json" where
  "inject_thinking p original body =
     (case effort_to_inject (prov_kind p) (prov_wire_format p) (prov_upstream_model p)
             (prov_default_reasoning_effort p) original of
        Some (AnthropicThinkingBudget, l) \<Rightarrow> inject_anthropic_thinking body l
      | _ \<Rightarrow> body)"

definition as_openai :: "libs \<Rightarrow> wire_format \<Rightarrow> json \<Rightarrow> json" where
  "as_openai L wire client =
     (case wire of Anthropic \<Rightarrow> claude_to_openai_request (lb_print L) client | OpenAi \<Rightarrow> client)"

text \<open>The endpoint, the body and the shape to expect; the shape is remembered by the adapter.\<close>

definition command_code_body ::
  "libs \<Rightarrow> nat \<Rightarrow> provider \<Rightarrow> wire_format \<Rightarrow> transport \<Rightarrow> json \<Rightarrow> (string \<times> json \<times> upstream_shape) outcome" where
  "command_code_body L t p wire tr original =
     (if tr = GenerateTransport
      then Done (generate_url L, generate_body L t p (as_openai L wire original), GenerateEnvelope)
      else if wants_messages_shape (prov_upstream_model p)
      then (case (case wire of Anthropic \<Rightarrow> Done original
                  | OpenAi \<Rightarrow> openai_to_commandcode_messages (lb_parse_ok L) original) of
              Panicked \<Rightarrow> Panicked
            | Done j \<Rightarrow>
                (case assign_model (prov_upstream_model p) j of
                   Panicked \<Rightarrow> Panicked
                 | Done j \<Rightarrow> Done (provider_messages_url L, inject_thinking p original j, AnthropicMessages)))
      else (case assign_model (prov_upstream_model p) (as_openai L wire original) of
              Panicked \<Rightarrow> Panicked
            | Done j \<Rightarrow> Done (provider_chat_url L, j, OpenAiChat)))"

definition command_code_build_request ::
  "libs \<Rightarrow> nat \<Rightarrow> provider \<Rightarrow> wire_format \<Rightarrow> transport_map \<Rightarrow> string \<Rightarrow> credentials \<Rightarrow> (app_error + request) outcome" where
  "command_code_build_request L t p wire transports body creds =
     (case lb_parse L body of
        Inl e \<Rightarrow> Done (Inl (invalid_body e))
      | Inr original \<Rightarrow>
          (case cr_access_token creds of
             None \<Rightarrow> Done (Inl (Internal ''commandcode provider missing access_token''))
           | Some access \<Rightarrow>
               (case command_code_body L t p wire (pinned_transport transports p creds) original of
                  Panicked \<Rightarrow> Panicked
                | Done (url, j, shape) \<Rightarrow>
                    Done (built L ''commandcode '' (json_post L url j (bearer access # command_code_headers (lb_cwd L)))))))"

section \<open>The response\<close>

text \<open>
  The shape the last request asked for, read off its address: the three addresses differ whatever
  the base, and every request is built with the one of its shape.
\<close>

definition shape_of :: "libs \<Rightarrow> request \<Rightarrow> upstream_shape" where
  "shape_of L rq =
     (if rq_url rq = generate_url L then GenerateEnvelope
      else if rq_url rq = provider_messages_url L then AnthropicMessages else OpenAiChat)"

definition response_read :: "string \<Rightarrow> app_error" where
  "response_read e = Upstream (''commandcode response read: '' @ e)"

text \<open>The whole answer of the two endpoints that speak a wire format, translated by \<open>conv\<close>.\<close>

definition whole_answer :: "libs \<Rightarrow> (json \<Rightarrow> json) \<Rightarrow> upstream \<Rightarrow> app_error + response" where
  "whole_answer L conv up =
     (case lb_text L up of
        Inl e \<Rightarrow> Inl (response_read e)
      | Inr body \<Rightarrow>
          (case lb_parse L body of
             Inl e \<Rightarrow> Inl (Upstream (''commandcode invalid JSON: '' @ e))
           | Inr v \<Rightarrow> Inr (json_answer (up_status up) [] (conv v))))"

definition transform_provider_response ::
  "libs \<Rightarrow> wire_format \<Rightarrow> upstream \<Rightarrow> bool \<Rightarrow> app_error + response" where
  "transform_provider_response L wire up client_wanted_stream =
     (if client_wanted_stream
      then Inr (event_stream (up_status up) []
             (case wire of
                Anthropic \<Rightarrow> claude_sse_of L (reframe_sse_blocks new_framer (bytes_stream up))
              | OpenAi \<Rightarrow> bytes_stream up))
      else whole_answer L (case wire of Anthropic \<Rightarrow> openai_json_to_claude_message | OpenAi \<Rightarrow> (\<lambda>v. v)) up)"

definition transform_messages_response ::
  "libs \<Rightarrow> wire_format \<Rightarrow> upstream \<Rightarrow> bool \<Rightarrow> app_error + response" where
  "transform_messages_response L wire up client_wanted_stream =
     (if client_wanted_stream
      then Inr (event_stream (up_status up) []
             (case wire of
                Anthropic \<Rightarrow> bytes_stream up
              | OpenAi \<Rightarrow> openai_sse_of L (reframe_sse_blocks new_framer (bytes_stream up))))
      else whole_answer L (case wire of Anthropic \<Rightarrow> (\<lambda>v. v) | OpenAi \<Rightarrow> claude_json_to_openai_message (lb_print L)) up)"

definition chat_meta :: "libs \<Rightarrow> nat \<Rightarrow> chunk_meta" where
  "chat_meta L t = \<lparr>cm_id = ''chatcmpl-'' @ lb_uuid L t, cm_created = lb_timestamp L t\<rparr>"

definition transform_generate_response ::
  "libs \<Rightarrow> nat \<Rightarrow> provider \<Rightarrow> wire_format \<Rightarrow> upstream \<Rightarrow> bool \<Rightarrow> app_error + response" where
  "transform_generate_response L t p wire up client_wanted_stream =
     (if client_wanted_stream
      then (let openai = convert_ndjson_stream (lb_parse_ok L) (lb_print L) (chat_meta L t) (prov_upstream_model p)
                  new_cc_stream (bytes_stream up)
            in Inr (event_stream (up_status up) []
                 (case wire of Anthropic \<Rightarrow> claude_sse_of L openai | OpenAi \<Rightarrow> openai)))
      else (case lb_text L up of
          Inl e \<Rightarrow> Inl (response_read e)
        | Inr body \<Rightarrow>
            (case ndjson_embedded_error (lb_parse_ok L) body of
               Some err \<Rightarrow> Inl (case embedded_error_status err of
                   Some code \<Rightarrow> UpstreamWithStatus code err
                 | None \<Rightarrow> Upstream (''commandcode embedded error: '' @ err))
             | None \<Rightarrow>
                 (let j = aggregate_ndjson (lb_parse_ok L) (lb_print L) (chat_meta L t) body (prov_upstream_model p)
                  in Inr (json_answer 200 []
                       (case wire of Anthropic \<Rightarrow> openai_json_to_claude_message j | OpenAi \<Rightarrow> j))))))"

definition command_code_transform_response ::
  "libs \<Rightarrow> nat \<Rightarrow> provider \<Rightarrow> wire_format \<Rightarrow> request \<Rightarrow> upstream \<Rightarrow> bool \<Rightarrow> app_error + response" where
  "command_code_transform_response L t p wire rq up client_wanted_stream =
     (case shape_of L rq of
        OpenAiChat \<Rightarrow> transform_provider_response L wire up client_wanted_stream
      | AnthropicMessages \<Rightarrow> transform_messages_response L wire up client_wanted_stream
      | GenerateEnvelope \<Rightarrow> transform_generate_response L t p wire up client_wanted_stream)"

definition command_code_adapter :: "libs \<Rightarrow> provider \<Rightarrow> wire_format \<Rightarrow> adapter" where
  "command_code_adapter L p wire =
     \<lparr>ad_build_request = (\<lambda>t transports body creds. command_code_build_request L t p wire transports body creds),
      ad_transform_response = (\<lambda>t rq up wanted. command_code_transform_response L t p wire rq up wanted)\<rparr>"

section \<open>Lemmas\<close>

lemma urls_differ [simp]:
  "generate_url L \<noteq> provider_messages_url L" "generate_url L \<noteq> provider_chat_url L"
  "provider_messages_url L \<noteq> provider_chat_url L"
  "provider_messages_url L \<noteq> generate_url L" "provider_chat_url L \<noteq> generate_url L"
  "provider_chat_url L \<noteq> provider_messages_url L"
  by (simp_all add: generate_url_def provider_messages_url_def provider_chat_url_def command_code_url_def
      split: option.split)

lemma built_request [simp]: "built L what rq = Inr rq' \<longleftrightarrow> rq' = rq \<and> lb_rejects L rq = None"
  by (auto simp: built_def split: option.splits)

lemma json_post_sel [simp]:
  "rq_url (json_post L url j h) = url" "rq_body (json_post L url j h) = lb_print L j"
  "rq_headers (json_post L url j h) = (''content-type'', ''application/json'') # h"
  by (simp_all add: json_post_def)

lemma command_code_built:
  assumes "command_code_build_request L t p wire transports body creds = Done (Inr rq)"
  obtains original access url j shape where "lb_parse L body = Inr original" "cr_access_token creds = Some access"
    "command_code_body L t p wire (pinned_transport transports p creds) original = Done (url, j, shape)"
    "rq = json_post L url j (bearer access # command_code_headers (lb_cwd L))"
  using assms by (auto simp: command_code_build_request_def split: sum.splits option.splits outcome.splits prod.splits)

text \<open>The address tells the shape.\<close>

lemma command_code_shape:
  assumes "command_code_body L t p wire tr original = Done (url, j, shape)" and "rq_url rq = url"
  shows "shape_of L rq = shape"
  using assms by (auto simp: command_code_body_def shape_of_def split: outcome.splits if_splits)

end
