(* ===== verification/CodexAdapter.thy ===== *)
theory CodexAdapter
  imports CodexTransform HttpAdapter
begin

text \<open>
  \<open>src/providers/adapter/codex/adapter.rs\<close>: the adapter of the Codex backend, which speaks the
  Responses API only and streams always.
\<close>

definition RESPONSES_URL :: string where
  "RESPONSES_URL = ''https://chatgpt.com/backend-api/codex/responses''"

text \<open>The content of the first message whose role is one of \<open>roles\<close>.\<close>

definition first_content :: "string list \<Rightarrow> json \<Rightarrow> json option" where
  "first_content roles body =
     Option.bind (Option.bind (jget body ''messages'') as_array)
       (\<lambda>ms. Option.bind (find (\<lambda>m. case str_at m ''role'' of Some r \<Rightarrow> r \<in> set roles | None \<Rightarrow> False) ms)
         (\<lambda>m. jget m ''content''))"

text \<open>What is hashed, piece by piece; nothing when there is nothing to tell apart.\<close>

definition conversation_text :: "(json \<Rightarrow> string) \<Rightarrow> json \<Rightarrow> string \<Rightarrow> string option" where
  "conversation_text print body scope =
     (case opt_filter (\<lambda>k. k \<noteq> []) (str_at body ''prompt_cache_key'') of
        Some k \<Rightarrow> Some (scope @ ''|'' @ k)
      | None \<Rightarrow>
          (case first_content [''user''] body of
             Some user \<Rightarrow>
               Some (scope @ ''|''
                 @ (case first_content [''system'', ''developer''] body of Some sys \<Rightarrow> print sys | None \<Rightarrow> [])
                 @ ''|'' @ print user)
           | None \<Rightarrow> if scope = [] then None else Some (scope @ ''|'')))"

definition conversation_key :: "libs \<Rightarrow> json \<Rightarrow> string \<Rightarrow> string option" where
  "conversation_key L body scope =
     map_option (\<lambda>txt. concat (map hex_byte (take 6 (lb_sha256 L txt)))) (conversation_text (lb_print L) body scope)"

definition wire_tag :: "wire_format \<Rightarrow> string" where
  "wire_tag wire = (case wire of OpenAi \<Rightarrow> ''openai'' | Anthropic \<Rightarrow> ''anthropic'')"

definition base_key :: "provider \<Rightarrow> wire_format \<Rightarrow> string" where
  "base_key p wire = ''1router-'' @ prov_id p @ ''-'' @ prov_upstream_model p @ ''-'' @ wire_tag wire"

definition session_id :: "libs \<Rightarrow> provider \<Rightarrow> wire_format \<Rightarrow> string \<Rightarrow> json \<Rightarrow> string" where
  "session_id L p wire scope client =
     (case conversation_key L client scope of Some c \<Rightarrow> base_key p wire @ ''-'' @ c | None \<Rightarrow> base_key p wire)"

definition codex_headers :: "libs \<Rightarrow> credentials \<Rightarrow> string \<Rightarrow> string \<Rightarrow> headers" where
  "codex_headers L creds access sid =
     (let account_id = unwrap_or (as_str (jidx (cr_provider_data creds) ''chatgpt_account_id'')) []
      in [bearer access, (''originator'', ''codex_cli_rs''), (''user-agent'', ''codex_cli_rs/'' @ lb_version L)]
         @ (if account_id \<noteq> [] then [(''chatgpt-account-id'', account_id)] else [])
         @ (if lb_header_ok L sid then [(''session_id'', sid)] else []))"

definition codex_build_request ::
  "libs \<Rightarrow> provider \<Rightarrow> wire_format \<Rightarrow> string \<Rightarrow> string \<Rightarrow> credentials \<Rightarrow> app_error + request" where
  "codex_build_request L p wire scope body creds =
     (case lb_parse L body of
        Inl e \<Rightarrow> Inl (invalid_body e)
      | Inr original \<Rightarrow>
          (let client = (case wire of Anthropic \<Rightarrow> claude_to_openai_request (lb_print L) original | OpenAi \<Rightarrow> original);
               sid = session_id L p wire scope client;
               default_effort = map_option snd (effort_to_inject (prov_kind p) (prov_wire_format p)
                  (prov_upstream_model p) (prov_default_reasoning_effort p) original);
               transformed = insert_model (prov_upstream_model p) (transform_request client sid default_effort)
           in case cr_access_token creds of
                None \<Rightarrow> Inl (Internal ''codex provider missing access_token'')
              | Some access \<Rightarrow>
                  built L ''codex '' (json_post L RESPONSES_URL transformed (codex_headers L creds access sid))))"

definition codex_transform_response ::
  "libs \<Rightarrow> provider \<Rightarrow> wire_format \<Rightarrow> upstream \<Rightarrow> bool \<Rightarrow> app_error + response" where
  "codex_transform_response L p wire up client_wanted_stream =
     (if client_wanted_stream
      then (let chunks = convert_sse_stream (lb_parse_ok L) (lb_print L) (prov_upstream_model p) new_framer
                  new_chunk_state (bytes_stream up)
            in Inr (event_stream (up_status up) []
                 (case wire of Anthropic \<Rightarrow> claude_sse_of L chunks | OpenAi \<Rightarrow> chunks)))
      else (case read_body_limited up MAX_BUFFERED_BODY of
          Inl e \<Rightarrow> Inl (Upstream (''codex sse read: '' @ e))
        | Inr bytes \<Rightarrow>
            (let txt = from_utf8_lossy bytes
             in case sse_embedded_error (lb_parse_ok L) txt of
                  Some err \<Rightarrow> Inl (Upstream (''codex embedded error: '' @ err))
                | None \<Rightarrow>
                    (let j = aggregate_sse (lb_parse_ok L) txt (prov_upstream_model p)
                     in Inr (json_answer 200 []
                          (case wire of Anthropic \<Rightarrow> openai_json_to_claude_message j | OpenAi \<Rightarrow> j))))))"

definition codex_adapter :: "libs \<Rightarrow> provider \<Rightarrow> wire_format \<Rightarrow> string \<Rightarrow> adapter" where
  "codex_adapter L p wire scope =
     \<lparr>ad_build_request = (\<lambda>t transports body creds. Done (codex_build_request L p wire scope body creds)),
      ad_transform_response = (\<lambda>t rq up wanted. codex_transform_response L p wire up wanted)\<rparr>"

end
