(* ===== verification/BridgeSpec.thy ===== *)
theory BridgeSpec
  imports Bridge
begin

text \<open>
  What the translations of \<open>Bridge\<close> promise, stated over an abstract conversation: each
  wire format has its rendering of it, and the translations lead from one rendering to
  the other and back.  Whatever the client sends, what comes out has the shape of the
  upstream's API.
\<close>

section \<open>Conversations\<close>

record call =
  cl_id :: string
  cl_name :: string
  cl_input :: json

text \<open>An image is its media type and its data in base64.\<close>

datatype turn =
    UserSays string
  | UserShows "string list" "(string \<times> string) list"
  | AssistantSays string
  | AssistantCalls string "call list"
  | ToolAnswers string string

record tool =
  tl_name :: string
  tl_description :: string
  tl_schema :: json

datatype choice = FreeChoice | AnyTool | ThisTool string

record conversation =
  cv_model :: string
  cv_stream :: json
  cv_system :: string
  cv_turns :: "turn list"
  cv_tools :: "tool list option"
  cv_choice :: "choice option"
  cv_max_tokens :: json
  cv_temperature :: "json option"

text \<open>Turns that both formats can express.\<close>

fun turn_ok :: "turn \<Rightarrow> bool" where
  "turn_ok (UserShows _ images) \<longleftrightarrow> images \<noteq> [] \<and> list_all (\<lambda>m. CHR '';'' \<notin> set (fst m)) images"
| "turn_ok (AssistantCalls _ calls) \<longleftrightarrow> calls \<noteq> []"
| "turn_ok _ \<longleftrightarrow> True"

fun turn_inputs :: "turn \<Rightarrow> json list" where
  "turn_inputs (AssistantCalls _ calls) = map cl_input calls"
| "turn_inputs _ = []"

definition optional :: "string \<Rightarrow> json option \<Rightarrow> (string \<times> json) list" where
  "optional k v = (case v of Some j \<Rightarrow> [(k, j)] | None \<Rightarrow> [])"

subsection \<open>In OpenAI's format\<close>

definition openai_call :: "(json \<Rightarrow> string) \<Rightarrow> call \<Rightarrow> json" where
  "openai_call print c =
     jobj [(''id'', JStr (cl_id c)), (''type'', JStr ''function''),
       (''function'', jobj [(''name'', JStr (cl_name c)), (''arguments'', JStr (print (cl_input c)))])]"

definition openai_image :: "string \<times> string \<Rightarrow> json" where
  "openai_image m =
     jobj [(''type'', JStr ''image_url''), (''image_url'',
        jobj [(''url'', JStr (''data:'' @ fst m @ '';base64,'' @ snd m))])]"

fun openai_turn :: "(json \<Rightarrow> string) \<Rightarrow> turn \<Rightarrow> json" where
  "openai_turn print (UserSays s) = message_of ''user'' (JStr s)"
| "openai_turn print (UserShows ts ms) = message_of ''user'' (JArr (map text_block ts @ map openai_image ms))"
| "openai_turn print (AssistantSays s) = message_of ''assistant'' (JStr s)"
| "openai_turn print (AssistantCalls s cs) =
     jobj ([(''role'', JStr ''assistant'')] @ (if s \<noteq> [] then [(''content'', JStr s)] else [])
           @ [(''tool_calls'', JArr (map (openai_call print) cs))])"
| "openai_turn print (ToolAnswers i s) =
     jobj [(''role'', JStr ''tool''), (''tool_call_id'', JStr i), (''content'', JStr s)]"

definition openai_tool_decl :: "tool \<Rightarrow> json" where
  "openai_tool_decl t =
     jobj [(''type'', JStr ''function''), (''function'', jobj [(''name'', JStr (tl_name t)),
        (''description'', JStr (tl_description t)), (''parameters'', tl_schema t)])]"

fun openai_choice :: "choice \<Rightarrow> json" where
  "openai_choice FreeChoice = JStr ''auto''"
| "openai_choice AnyTool = JStr ''required''"
| "openai_choice (ThisTool n) = jobj [(''type'', JStr ''function''), (''function'', jobj [(''name'', JStr n)])]"

definition openai_request :: "(json \<Rightarrow> string) \<Rightarrow> conversation \<Rightarrow> json" where
  "openai_request print cv =
     jobj ([(''messages'', JArr ((if cv_system cv \<noteq> [] then [message_of ''system'' (JStr (cv_system cv))] else [])
              @ map (openai_turn print) (cv_turns cv))),
            (''model'', JStr (cv_model cv)), (''stream'', cv_stream cv), (''max_tokens'', cv_max_tokens cv)]
       @ optional ''temperature'' (cv_temperature cv)
       @ optional ''tools'' (map_option (\<lambda>ts. JArr (map openai_tool_decl ts)) (cv_tools cv))
       @ optional ''tool_choice'' (map_option openai_choice (cv_choice cv)))"

subsection \<open>In Anthropic's format\<close>

definition claude_call :: "call \<Rightarrow> json" where
  "claude_call c =
     jobj [(''type'', JStr ''tool_use''), (''id'', JStr (cl_id c)), (''name'', JStr (cl_name c)),
       (''input'', cl_input c)]"

definition claude_image :: "string \<times> string \<Rightarrow> json" where
  "claude_image m =
     jobj [(''type'', JStr ''image''), (''source'', jobj [(''type'', JStr ''base64''),
        (''media_type'', JStr (fst m)), (''data'', JStr (snd m))])]"

fun claude_turn :: "turn \<Rightarrow> json" where
  "claude_turn (UserSays s) = message_of ''user'' (JStr s)"
| "claude_turn (UserShows ts ms) = message_of ''user'' (JArr (map text_block ts @ map claude_image ms))"
| "claude_turn (AssistantSays s) = message_of ''assistant'' (JStr s)"
| "claude_turn (AssistantCalls s cs) =
     message_of ''assistant'' (JArr ((if s \<noteq> [] then [text_block s] else []) @ map claude_call cs))"
| "claude_turn (ToolAnswers i s) =
     message_of ''user'' (JArr [jobj [(''type'', JStr ''tool_result''), (''tool_use_id'', JStr i), (''content'', JStr s)]])"

definition claude_tool_decl :: "tool \<Rightarrow> json" where
  "claude_tool_decl t =
     jobj [(''name'', JStr (tl_name t)), (''description'', JStr (tl_description t)), (''input_schema'', tl_schema t)]"

fun claude_choice :: "choice \<Rightarrow> json" where
  "claude_choice FreeChoice = jobj [(''type'', JStr ''auto'')]"
| "claude_choice AnyTool = jobj [(''type'', JStr ''any'')]"
| "claude_choice (ThisTool n) = jobj [(''type'', JStr ''tool''), (''name'', JStr n)]"

definition claude_request :: "conversation \<Rightarrow> json" where
  "claude_request cv =
     jobj ([(''messages'', JArr (map claude_turn (cv_turns cv)))]
       @ (if cv_system cv \<noteq> [] then [(''system'', JStr (cv_system cv))] else [])
       @ [(''model'', JStr (cv_model cv)), (''stream'', cv_stream cv), (''max_tokens'', cv_max_tokens cv)]
       @ optional ''temperature'' (cv_temperature cv)
       @ optional ''tools'' (map_option (\<lambda>ts. JArr (map claude_tool_decl ts)) (cv_tools cv))
       @ optional ''tool_choice'' (map_option claude_choice (cv_choice cv)))"

section \<open>From one rendering to the other\<close>

lemma jset_jobj [simp]: "jset k v (jobj kvs) = jobj (kvs @ [(k, v)])"
  by (simp add: jobj_def)

lemma jobj_injects [simp]: "as_str (jobj kvs) = None" "as_array (jobj kvs) = None"
  by (simp_all add: jobj_def)

lemma map_of_optional [simp]:
  "map_of (optional k v) l = (if l = k then v else None)" "rev (optional k v) = optional k v"
  by (auto simp: optional_def split: option.splits)

lemma copy_field_optional:
  "jget body k = v \<Longrightarrow> copy_field body k (jobj kvs) = jobj (kvs @ optional k v)"
  by (auto simp: copy_field_def optional_def split: option.splits)

lemmas reading = str_at_def get_or_def jidx_def jget_jobj

lemma collect_text [simp]: "collect_block print a (text_block t) = a\<lparr>cp_text := cp_text a @ [t]\<rparr>"
  by (simp add: collect_block_def text_block_def reading)

lemma collect_image [simp]:
  "collect_block print a (claude_image m) = a\<lparr>cp_images := cp_images a @ [openai_image m]\<rparr>"
proof -
  have "str_at (claude_image m) ''type'' = Some ''image''" by (simp add: claude_image_def reading)
  moreover have "image_of (claude_image m) = [openai_image m]"
    by (simp add: image_of_def claude_image_def openai_image_def reading)
  ultimately show ?thesis by (simp add: collect_block_def)
qed

lemma collect_call [simp]:
  "collect_block print a (claude_call c) = a\<lparr>cp_calls := cp_calls a @ [openai_call print c]\<rparr>"
  by (simp add: collect_block_def claude_call_def tool_call_of_def openai_call_def reading)

lemma collect_answer [simp]:
  "collect_block print a (jobj [(''type'', JStr ''tool_result''), (''tool_use_id'', JStr i), (''content'', JStr s)])
   = a\<lparr>cp_results := cp_results a @ [openai_turn print (ToolAnswers i s)]\<rparr>"
  by (simp add: collect_block_def tool_result_of_def result_text_def reading)

lemma texts_collected:
  "foldl (collect_block print) a (map text_block ts) = a\<lparr>cp_text := cp_text a @ ts\<rparr>"
  by (induction ts arbitrary: a) simp_all

lemma images_collected:
  "foldl (collect_block print) a (map claude_image ms) = a\<lparr>cp_images := cp_images a @ map openai_image ms\<rparr>"
  by (induction ms arbitrary: a) simp_all

lemma calls_collected:
  "foldl (collect_block print) a (map claude_call cs) = a\<lparr>cp_calls := cp_calls a @ map (openai_call print) cs\<rparr>"
  by (induction cs arbitrary: a) simp_all

lemma message_of_parts [simp]:
  "jget (message_of r c) ''role'' = Some (JStr r)" "jget (message_of r c) ''content'' = Some c"
  "jget (message_of r c) ''tool_calls'' = None"
  by (simp_all add: message_of_def jget_jobj)

lemma message_of_reads [simp]:
  "openai_role (message_of r c) = r" "str_at (message_of r c) ''content'' = as_str c"
  by (simp_all add: openai_role_def str_at_def)

lemma turn_to_openai:
  assumes "turn_ok t"
  shows "convert_claude_message print (claude_turn t) = [openai_turn print t]"
proof -
  note message = convert_claude_message_def Let_def str_at_def get_or_def no_parts_def
  show ?thesis
  proof (cases t)
    case (UserShows ts ms)
    with assms show ?thesis
      by (simp add: message texts_collected images_collected text_block_def [symmetric])
  next
    case (AssistantCalls s cs)
    with assms show ?thesis by (simp add: message calls_collected)
  qed (simp_all add: message)
qed

lemma find_str_after: "c \<notin> set xs \<Longrightarrow> find_str (xs @ c # ys @ zs) (c # ys) = Some (length xs)"
  by (induction xs) (auto simp: starts_with_def)

lemma claude_part_text [simp]: "claude_part (text_block t) = Some (text_block t)"
  by (simp add: claude_part_def text_block_def reading)

lemma claude_part_image:
  assumes "CHR '';'' \<notin> set (fst m)"
  shows "claude_part (openai_image m) = Some (claude_image m)"
proof -
  have "strip_prefix ''data:'' (''data:'' @ fst m @ '';base64,'' @ snd m) = Some (fst m @ '';base64,'' @ snd m)"
    by (simp add: strip_prefix_Some_iff)
  moreover have "find_str (fst m @ '';base64,'' @ snd m) '';base64,'' = Some (length (fst m))"
    using find_str_after [OF assms, of "''base64,''" "snd m"] by simp
  ultimately show ?thesis
    by (simp add: claude_part_def openai_image_def claude_image_def reading case_prod_unfold)
qed

lemma tool_use_of_call:
  "parse (print (cl_input c)) = Some (cl_input c) \<Longrightarrow> tool_use_of parse (openai_call print c) = claude_call c"
  by (simp add: tool_use_of_def openai_call_def claude_call_def reading)

lemma map_filter_all: "list_all (\<lambda>x. f x = Some (g x)) xs \<Longrightarrow> List.map_filter f xs = map g xs"
  by (induction xs) (auto simp: map_filter_simps)

lemma map_filter_append: "List.map_filter f (xs @ ys) = List.map_filter f xs @ List.map_filter f ys"
  by (simp add: List.map_filter_def)

lemma map_filter_images:
  "list_all (\<lambda>m. CHR '';'' \<notin> set (fst m)) ms \<Longrightarrow> List.map_filter claude_part (map openai_image ms) = map claude_image ms"
  by (induction ms) (simp_all add: map_filter_simps claude_part_image)

lemma map_filter_texts: "List.map_filter claude_part (map text_block ts) = map text_block ts"
  by (induction ts) (simp_all add: map_filter_simps)

fun turn_role :: "turn \<Rightarrow> string" where
  "turn_role (UserSays _) = ''user''"
| "turn_role (UserShows _ _) = ''user''"
| "turn_role (AssistantSays _) = ''assistant''"
| "turn_role (AssistantCalls _ _) = ''assistant''"
| "turn_role (ToolAnswers _ _) = ''tool''"

lemma openai_role_turn [simp]: "openai_role (openai_turn print t) = turn_role t"
  by (cases t) (simp_all add: openai_role_def str_at_def jget_jobj)

lemma turn_role_not_system [simp]: "turn_role t \<noteq> ''system''"
  by (cases t) simp_all

lemma calls_to_claude:
  "\<forall>v \<in> set (map cl_input cs). parse (print v) = Some v \<Longrightarrow>
   map (tool_use_of parse) (map (openai_call print) cs) = map claude_call cs"
  by (induction cs) (simp_all add: tool_use_of_call)

lemma turn_to_claude:
  assumes "turn_ok t" and "\<forall>v \<in> set (turn_inputs t). parse (print v) = Some v"
  shows "convert_openai_message parse (openai_turn print t) (turn_role t) = claude_turn t"
proof (cases t)
  case (UserSays s)
  then show ?thesis by (simp add: convert_openai_message_def get_or_def)
next
  case (UserShows ts ms)
  with assms(1) show ?thesis
    by (simp add: convert_openai_message_def get_or_def map_filter_append map_filter_images map_filter_texts)
next
  case (AssistantSays s)
  then show ?thesis by (simp add: convert_openai_message_def get_or_def)
next
  case (AssistantCalls s cs)
  let ?m = "openai_turn print t"
  have calls: "jget ?m ''tool_calls'' = Some (JArr (map (openai_call print) cs))"
    and said: "str_at ?m ''content'' = (if s \<noteq> [] then Some s else None)"
    by (simp_all add: AssistantCalls str_at_def jget_jobj)
  have converted: "map (tool_use_of parse) (map (openai_call print) cs) = map claude_call cs"
    using assms(2) AssistantCalls by (intro calls_to_claude) simp
  have "convert_openai_message parse ?m ''assistant'' = claude_turn t"
    unfolding convert_openai_message_def calls said
    by (simp add: AssistantCalls converted [unfolded map_map comp_def] comp_def del: openai_turn.simps)
  then show ?thesis by (simp add: AssistantCalls)
next
  case (ToolAnswers i s)
  then show ?thesis by (simp add: convert_openai_message_def str_at_def get_or_def jget_jobj)
qed

section \<open>Whole requests\<close>

definition conversation_ok :: "conversation \<Rightarrow> bool" where
  "conversation_ok cv \<longleftrightarrow> list_all turn_ok (cv_turns cv)"

definition conversation_inputs :: "conversation \<Rightarrow> json list" where
  "conversation_inputs cv = concat (map turn_inputs (cv_turns cv))"

lemma openai_tool_claude [simp]: "openai_tool (claude_tool_decl t) = openai_tool_decl t"
  by (simp add: openai_tool_def claude_tool_decl_def openai_tool_decl_def reading)

lemma claude_tool_openai [simp]: "claude_tool (openai_tool_decl t) = Some (claude_tool_decl t)"
  by (simp add: claude_tool_def claude_tool_decl_def openai_tool_decl_def reading)

lemma choice_to_openai [simp]: "convert_tool_choice (claude_choice c) = openai_choice c"
proof -
  have jobj: "convert_tool_choice (jobj kvs) =
     (let t = Option.bind (map_of (rev kvs) ''type'') as_str
      in if t = Some ''auto'' then JStr ''auto'' else if t = Some ''any'' then JStr ''required''
         else if t = Some ''tool'' then jobj [(''type'', JStr ''function''),
             (''function'', jobj [(''name'', unwrap_or (map_of (rev kvs) ''name'') (JStr []))])]
         else JStr ''auto'')" for kvs
    using jget_jobj [of kvs] by (simp add: jobj_def Let_def)
  show ?thesis by (cases c) (simp_all add: jobj)
qed

lemma choice_to_claude [simp]: "convert_tool_choice_to_claude (openai_choice c) = Done (claude_choice c)"
proof -
  have jobj: "convert_tool_choice_to_claude (jobj kvs) =
     (if Option.bind (map_of (rev kvs) ''type'') as_str = Some ''function''
      then (case map_of (rev kvs) ''function'' of
              Some f \<Rightarrow> Done (jobj [(''type'', JStr ''tool''), (''name'', jidx f ''name'')]) | None \<Rightarrow> Panicked)
      else Done (jobj [(''type'', JStr ''auto'')]))" for kvs
    using jget_jobj [of kvs] by (simp add: jobj_def split: option.split)
  show ?thesis by (cases c) (simp_all add: jobj, simp add: jidx_def jget_jobj)
qed

lemma turns_to_openai:
  "list_all turn_ok ts \<Longrightarrow> concat (map (convert_claude_message print) (map claude_turn ts)) = map (openai_turn print) ts"
  by (induction ts) (simp_all add: turn_to_openai)

lemma turns_to_claude:
  "list_all turn_ok ts \<Longrightarrow> \<forall>v \<in> set (concat (map turn_inputs ts)). parse (print v) = Some v \<Longrightarrow>
   map (\<lambda>m. convert_openai_message parse m (openai_role m)) (map (openai_turn print) ts) = map claude_turn ts"
  by (induction ts) (simp_all add: turn_to_claude)

lemma map_of_if [simp]:
  "map_of (if b then [(k, v)] else []) l = (if b \<and> l = k then Some v else None)"
  "rev (if b then [x] else []) = (if b then [x] else [])"
  by simp_all

lemma request_to_openai:
  assumes "conversation_ok cv"
  shows "claude_to_openai_request print (claude_request cv) = openai_request print cv"
proof -
  let ?b = "claude_request cv"
  have parts: "jget ?b ''messages'' = Some (JArr (map claude_turn (cv_turns cv)))"
    "jget ?b ''system'' = (if cv_system cv \<noteq> [] then Some (JStr (cv_system cv)) else None)"
    "jget ?b ''model'' = Some (JStr (cv_model cv))" "jget ?b ''stream'' = Some (cv_stream cv)"
    "jget ?b ''max_tokens'' = Some (cv_max_tokens cv)" "jget ?b ''temperature'' = cv_temperature cv"
    "jget ?b ''tools'' = map_option (\<lambda>ts. JArr (map claude_tool_decl ts)) (cv_tools cv)"
    "jget ?b ''tool_choice'' = map_option claude_choice (cv_choice cv)"
    "jget ?b ''output_config'' = None" "jget ?b ''thinking'' = None"
    by (simp_all add: claude_request_def jget_jobj map_add_def split: option.split)
  have turns: "concat (map (convert_claude_message print) (map claude_turn (cv_turns cv))) = map (openai_turn print) (cv_turns cv)"
    using assms by (simp add: turns_to_openai conversation_ok_def del: map_map)
  have tools: "map openai_tool (map claude_tool_decl ts) = map openai_tool_decl ts" for ts
    by simp
  show ?thesis
    by (simp add: claude_to_openai_request_def elements_at_def parts turns copy_field_def effort_from_anthropic_def
        openai_request_def optional_def system_text_def tools Let_def split: option.split del: map_map)
qed

lemma request_to_claude:
  assumes "conversation_ok cv" and inputs: "\<forall>v \<in> set (conversation_inputs cv). parse (print v) = Some v"
  shows "openai_to_claude_request parse (openai_request print cv) = Done (claude_request cv)"
proof -
  let ?b = "openai_request print cv"
  let ?turns = "map (openai_turn print) (cv_turns cv)"
  let ?sys = "if cv_system cv \<noteq> [] then [message_of ''system'' (JStr (cv_system cv))] else []"
  have parts: "jget ?b ''messages'' = Some (JArr (?sys @ ?turns))"
    "jget ?b ''model'' = Some (JStr (cv_model cv))" "jget ?b ''stream'' = Some (cv_stream cv)"
    "jget ?b ''max_tokens'' = Some (cv_max_tokens cv)" "jget ?b ''temperature'' = cv_temperature cv"
    "jget ?b ''tools'' = map_option (\<lambda>ts. JArr (map openai_tool_decl ts)) (cv_tools cv)"
    "jget ?b ''tool_choice'' = map_option openai_choice (cv_choice cv)"
    by (simp_all add: openai_request_def jget_jobj map_add_def split: option.split)
  have turns: "map (\<lambda>m. convert_openai_message parse m (openai_role m)) ?turns = map claude_turn (cv_turns cv)"
    using assms by (simp add: turns_to_claude conversation_ok_def conversation_inputs_def del: map_map)
  have no_system: "filter (\<lambda>m. openai_role m = ''system'') ?turns = []"
    "filter (\<lambda>m. openai_role m \<noteq> ''system'') ?turns = ?turns"
    by (simp_all add: filter_empty_conv filter_id_conv)
  have tools: "List.map_filter claude_tool (map openai_tool_decl ts) = map claude_tool_decl ts" for ts
    by (induction ts) (simp_all add: map_filter_simps)
  show ?thesis
    by (simp add: openai_to_claude_request_def elements_at_def parts no_system turns copy_field_def get_or_def
        claude_request_def optional_def tools Let_def map_filter_simps split: option.split del: map_map)
qed

section \<open>Shapes\<close>

text \<open>What the APIs require of a request, as far as the translation builds it.\<close>

definition openai_part_ok :: "json \<Rightarrow> bool" where
  "openai_part_ok p \<longleftrightarrow>
     str_at p ''type'' = Some ''text'' \<and> str_at p ''text'' \<noteq> None
   \<or> str_at p ''type'' = Some ''image_url'' \<and> str_at (jidx p ''image_url'') ''url'' \<noteq> None"

definition openai_call_ok :: "json \<Rightarrow> bool" where
  "openai_call_ok c \<longleftrightarrow>
     str_at c ''type'' = Some ''function'' \<and> str_at (jidx c ''function'') ''arguments'' \<noteq> None"

definition openai_message_ok :: "json \<Rightarrow> bool" where
  "openai_message_ok m \<longleftrightarrow> str_at m ''role'' \<noteq> None \<and> list_all openai_call_ok (elements_at m ''tool_calls'')
   \<and> (case jget m ''content'' of
        None \<Rightarrow> elements_at m ''tool_calls'' \<noteq> []
      | Some (JStr _) \<Rightarrow> True
      | Some (JArr ps) \<Rightarrow> list_all openai_part_ok ps
      | _ \<Rightarrow> False)"

definition claude_block_ok :: "json \<Rightarrow> bool" where
  "claude_block_ok b \<longleftrightarrow>
     (case str_at b ''type'' of
        None \<Rightarrow> False
      | Some t \<Rightarrow>
          if t = ''text'' then jget b ''text'' \<noteq> None
          else if t = ''image'' then str_at (jidx b ''source'') ''type'' \<in> {Some ''base64'', Some ''url''}
          else if t = ''tool_use'' then jget b ''id'' \<noteq> None \<and> jget b ''name'' \<noteq> None \<and> jget b ''input'' \<noteq> None
          else t = ''tool_result'' \<and> jget b ''tool_use_id'' \<noteq> None \<and> str_at b ''content'' \<noteq> None)"

definition claude_message_ok :: "json \<Rightarrow> bool" where
  "claude_message_ok m \<longleftrightarrow>
     (case str_at m ''role'' of Some r \<Rightarrow> r \<notin> {''system'', ''tool''} | None \<Rightarrow> False)
   \<and> (case jget m ''content'' of
        Some (JStr _) \<Rightarrow> True
      | Some (JArr bs) \<Rightarrow> list_all claude_block_ok bs
      | _ \<Rightarrow> False)"

definition claude_request_ok :: "json \<Rightarrow> bool" where
  "claude_request_ok v \<longleftrightarrow>
     (case jget v ''messages'' of Some (JArr ms) \<Rightarrow> list_all claude_message_ok ms | _ \<Rightarrow> False)
   \<and> jget v ''max_tokens'' \<noteq> None"

definition openai_request_ok :: "json \<Rightarrow> bool" where
  "openai_request_ok v \<longleftrightarrow>
     (case jget v ''messages'' of Some (JArr ms) \<Rightarrow> list_all openai_message_ok ms | _ \<Rightarrow> False)"

text \<open>The one request the translation does not survive.\<close>

definition choice_without_function :: "json \<Rightarrow> bool" where
  "choice_without_function body \<longleftrightarrow>
     (case jget body ''tool_choice'' of
        Some (JObj m) \<Rightarrow> Option.bind (map_of m ''type'') as_str = Some ''function'' \<and> map_of m ''function'' = None
      | _ \<Rightarrow> False)"

lemma jget_jset: "is_object v \<Longrightarrow> jget (jset k x v) l = (if l = k then Some x else jget v l)"
  by (cases v) simp_all

lemma is_object_jset [simp]: "is_object (jset k x v) = is_object v" "is_object (jobj kvs)"
  by (cases v) (simp_all add: jobj_def)

lemma copy_field_reads:
  "is_object v \<Longrightarrow> jget (copy_field body k v) l = (if l = k \<and> jget body k \<noteq> None then jget body k else jget v l)"
  "is_object (copy_field body k v) = is_object v"
  by (auto simp: copy_field_def jget_jset split: option.splits)

lemma copy_fields_reads:
  "is_object v \<Longrightarrow> l \<notin> set ks \<Longrightarrow>
     jget (fold (copy_field body) ks v) l = jget v l \<and> is_object (fold (copy_field body) ks v)"
  by (induction ks arbitrary: v) (simp_all add: copy_field_reads)

definition parts_ok :: "claude_parts \<Rightarrow> bool" where
  "parts_ok a \<longleftrightarrow> list_all openai_part_ok (cp_images a) \<and> list_all openai_call_ok (cp_calls a)
     \<and> list_all openai_message_ok (cp_results a)"

lemma parts_ok_step: "parts_ok a \<Longrightarrow> parts_ok (collect_block print a b)"
  by (simp add: parts_ok_def collect_block_def Let_def split: option.split)
    (simp add: image_of_def tool_call_of_def tool_result_of_def openai_part_ok_def openai_call_ok_def
      openai_message_ok_def elements_at_def reading split: option.split)

lemma parts_ok_fold: "parts_ok a \<Longrightarrow> parts_ok (foldl (collect_block print) a bs)"
  by (induction bs arbitrary: a) (simp_all add: parts_ok_step)

lemma message_of_ok [simp]: "openai_message_ok (message_of r (JStr s))"
  by (simp add: openai_message_ok_def elements_at_def message_of_def reading)

lemma claude_message_converted:
  "list_all openai_message_ok (convert_claude_message print msg)"
proof -
  have collected: "parts_ok (foldl (collect_block print) no_parts bs)" for bs
    by (rule parts_ok_fold) (simp add: parts_ok_def no_parts_def)
  have texts: "list_all openai_part_ok (map (\<lambda>t. jobj [(''type'', JStr ''text''), (''text'', JStr t)]) ts)" for ts
    by (simp add: list_all_iff openai_part_ok_def reading)
  have parts: "openai_message_ok (message_of r (JArr ps))" if "list_all openai_part_ok ps" for r ps
    using that by (simp add: openai_message_ok_def elements_at_def message_of_def reading)
  have calls:
    "openai_message_ok (jobj [(''role'', JStr ''assistant''), (''content'', JStr s), (''tool_calls'', JArr cs)])"
    "openai_message_ok (jobj [(''role'', JStr ''assistant''), (''tool_calls'', JArr cs)])"
    if "list_all openai_call_ok cs" "cs \<noteq> []" for s cs
    using that by (simp_all add: openai_message_ok_def elements_at_def reading)
  show ?thesis
  proof (cases "get_or msg ''content'' JNull")
    case (JArr bs)
    let ?a = "foldl (collect_block print) no_parts bs"
    show ?thesis
      using collected [of bs] texts [of "cp_text ?a"] parts calls
      by (simp add: convert_claude_message_def JArr Let_def parts_ok_def)
  qed (simp_all add: convert_claude_message_def Let_def)
qed

lemma tool_use_ok: "claude_block_ok (tool_use_of parse tc)"
  by (simp add: claude_block_ok_def tool_use_of_def reading Let_def)

lemma claude_block_shapes:
  "claude_block_ok (jobj [(''type'', JStr ''text''), (''text'', v)])"
  "claude_block_ok (jobj [(''type'', JStr ''image''), (''source'', jobj [(''type'', JStr ''url''), (''url'', v)])])"
  by (auto simp: claude_block_ok_def reading)

lemma claude_image_ok: "claude_block_ok (claude_image m)"
  by (simp add: claude_block_ok_def claude_image_def reading)

lemma claude_part_ok:
  assumes "claude_part p = Some b"
  shows "claude_block_ok b"
proof -
  from assms have "(\<exists>v. b = jobj [(''type'', JStr ''text''), (''text'', v)]) \<or> (\<exists>m. b = claude_image m)
    \<or> (\<exists>v. b = jobj [(''type'', JStr ''image''), (''source'', jobj [(''type'', JStr ''url''), (''url'', v)])])"
    unfolding claude_part_def Let_def claude_image_def
    by (simp only: split: if_split_asm option.split_asm prod.split_asm) (simp; metis fst_conv snd_conv)+
  then show ?thesis by (elim disjE exE) (simp_all only: claude_block_shapes claude_image_ok)
qed

lemma claude_parts_ok: "list_all claude_block_ok (List.map_filter claude_part ps)"
  by (induction ps) (auto simp: map_filter_simps intro: claude_part_ok split: option.split)

lemma text_block_ok [simp]: "claude_block_ok (text_block t)"
  by (simp add: claude_block_ok_def text_block_def reading)

lemma claude_message_parts:
  "r \<notin> {''system'', ''tool''} \<Longrightarrow> list_all claude_block_ok bs \<Longrightarrow> claude_message_ok (message_of r (JArr bs))"
  "r \<notin> {''system'', ''tool''} \<Longrightarrow> claude_message_ok (message_of r (JStr s))"
  by (simp_all add: claude_message_ok_def message_of_def reading)

lemma openai_message_converted:
  assumes "role \<noteq> ''system''"
  shows "claude_message_ok (convert_openai_message parse msg role)"
proof (cases "role = ''tool''")
  case True
  then show ?thesis
    by (simp add: convert_openai_message_def claude_message_parts claude_block_ok_def reading)
next
  case False
  show ?thesis
  proof (cases "if role = ''assistant'' then Option.bind (jget msg ''tool_calls'') as_array else None")
    case None
    with False assms show ?thesis
      by (simp add: convert_openai_message_def claude_message_parts claude_parts_ok split: json.split)
  next
    case (Some calls)
    have "list_all claude_block_ok (map (tool_use_of parse) calls)"
      by (simp add: list_all_iff tool_use_ok)
    with False Some show ?thesis
      by (simp add: convert_openai_message_def claude_message_parts split: option.split)
  qed
qed

lemma openai_request_typed: "openai_request_ok (claude_to_openai_request print body)"
proof -
  let ?ms = "(case jget body ''system'' of Some s \<Rightarrow> system_text s | None \<Rightarrow> [])"
  let ?messages = "(if ?ms \<noteq> [] then [message_of ''system'' (JStr ?ms)] else [])
      @ concat (map (convert_claude_message print) (elements_at body ''messages''))"
  have "jget (claude_to_openai_request print body) ''messages'' = Some (JArr ?messages)"
    unfolding claude_to_openai_request_def Let_def
    by (simp add: jget_jset copy_field_reads jget_jobj split: option.split)
  moreover have "list_all openai_message_ok (concat (map (convert_claude_message print) ms))" for ms
    by (induction ms) (simp_all add: claude_message_converted)
  then have "list_all openai_message_ok ?messages" by simp
  ultimately show ?thesis by (simp add: openai_request_ok_def)
qed

lemma claude_request_typed:
  "case openai_to_claude_request parse body of
     Done v \<Rightarrow> claude_request_ok v | Panicked \<Rightarrow> choice_without_function body"
proof (cases "openai_to_claude_request parse body")
  case (Done v)
  let ?ms = "map (\<lambda>m. convert_openai_message parse m (openai_role m))
    (filter (\<lambda>m. openai_role m \<noteq> ''system'') (elements_at body ''messages''))"
  have "jget v ''messages'' = Some (JArr ?ms) \<and> jget v ''max_tokens'' \<noteq> None"
    using Done unfolding openai_to_claude_request_def Let_def
    by (auto simp: jget_jset copy_field_reads jget_jobj split: option.splits outcome.splits if_splits)
  moreover have "list_all claude_message_ok ?ms" by (simp add: list_all_iff openai_message_converted)
  ultimately show ?thesis by (simp add: Done claude_request_ok_def)
next
  case Panicked
  have panics: "choice_without_function body" if "jget body ''tool_choice'' = Some c" "convert_tool_choice_to_claude c = Panicked" for c
    using that by (cases c rule: convert_tool_choice_to_claude.cases)
      (auto simp: choice_without_function_def split: if_splits option.splits)
  from Panicked have "choice_without_function body"
    unfolding openai_to_claude_request_def Let_def by (auto split: option.splits outcome.splits intro: panics)
  with Panicked show ?thesis by simp
qed

end
