(* ===== verification/CodexRequest.thy ===== *)
theory CodexRequest
  imports CodexTransform BridgeSpec
begin

text \<open>
  What the Codex backend gets: whatever the client sent, none of the fields the backend
  rejects, the forced ones with their values, and no item ids; and for a conversation of
  \<open>BridgeSpec\<close> exactly its items, whichever wire format the client speaks.
\<close>

section \<open>What the backend gets\<close>

primrec no_ids :: "json \<Rightarrow> bool" where
  "no_ids JNull = True"
| "no_ids (JBool b) = True"
| "no_ids (JNum n) = True"
| "no_ids (JStr s) = True"
| "no_ids (JArr vs) = list_all (\<lambda>b. b) (map no_ids vs)"
| "no_ids (JObj m) = list_all (\<lambda>e. fst e \<noteq> ''id'' \<and> snd e) (map (map_prod id no_ids) m)"

lemma no_ids_strip: "no_ids (strip_ids v)"
proof (induction v)
  case (JArr vs)
  then show ?case by (simp add: list_all_iff)
next
  case (JObj m)
  then show ?case by (fastforce simp: list_all_iff obj_remove_def)
qed simp_all

lemma obj_remove_none: "\<forall>e \<in> set m. fst e \<noteq> k \<Longrightarrow> obj_remove k m = m"
  by (simp add: obj_remove_def)

lemma strip_ids_id: "no_ids v \<Longrightarrow> strip_ids v = v"
proof (induction v)
  case (JArr vs)
  then show ?case by (simp add: list_all_iff map_idI)
next
  case (JObj m)
  then have "map (map_prod id strip_ids) m = m"
    by (intro map_idI) (fastforce simp: list_all_iff)
  moreover have "\<forall>e \<in> set m. fst e \<noteq> ''id''" using JObj.prems by (auto simp: list_all_iff)
  ultimately show ?case by (simp add: obj_remove_none)
qed simp_all

lemma map_of_fold_remove: "map_of (fold obj_remove ks m) k = (if k \<in> set ks then None else map_of m k)"
  by (induction ks arbitrary: m) auto

lemma map_of_update_key:
  "map_of (update_key k f m) l = (if l = k then map_option f (map_of m k) else map_of m l)"
  by (simp add: update_key_def split: option.split)

lemma map_of_move_messages:
  "map_of (move_messages m) k =
     (if k = ''messages'' then None
      else if k = ''input'' \<and> map_of m ''input'' = None then
        (case map_of m ''messages'' of
           Some (JArr ms) \<Rightarrow> Some (JArr (concat (map input_items (map developer_role ms)))) | _ \<Rightarrow> None)
      else map_of m k)"
  by (auto simp: move_messages_def Let_def split: option.split json.split)

lemma obj_ok_update_key: "obj_ok m \<Longrightarrow> obj_ok (update_key k f m)"
  by (simp add: update_key_def split: option.split)

lemma obj_ok_move_messages: "obj_ok m \<Longrightarrow> obj_ok (move_messages m)"
  by (simp add: move_messages_def Let_def split: option.split json.split)

lemma obj_ok_remove_all: "obj_ok m \<Longrightarrow> obj_ok (fold obj_remove ks m)"
  by (induction ks arbitrary: m) simp_all

lemma transform_object_ok: "obj_ok body \<Longrightarrow> obj_ok (transform_object body s d)"
  by (simp add: transform_object_def Let_def obj_ok_update_key obj_ok_move_messages obj_ok_remove_all)

lemmas transform_reads = transform_object_def Let_def map_of_update_key map_of_move_messages map_of_fold_remove

lemma transform_gone: "k = ''messages'' \<or> k \<in> set DISALLOWED \<Longrightarrow> map_of (transform_object body s d) k = None"
  by (auto simp: transform_reads DISALLOWED_def)

lemma transform_forced:
  "map_of (transform_object body s d) ''store'' = Some (JBool False)"
  "map_of (transform_object body s d) ''stream'' = Some (JBool True)"
  "map_of (transform_object body s d) ''prompt_cache_key'' = Some (JStr s)"
  "map_of (transform_object body s d) ''include'' = Some (JArr [JStr ''reasoning.encrypted_content''])"
  "\<exists>r. map_of (transform_object body s d) ''reasoning'' = Some (JObj r)
     \<and> map_of r ''effort'' = Some (JStr (effort_of (JObj body) d))"
  by (simp_all add: transform_reads)

lemma transform_kept:
  "k \<notin> {''messages'', ''input'', ''tools'', ''tool_choice'', ''store'', ''stream'', ''prompt_cache_key'', ''reasoning'',
     ''include''} \<Longrightarrow> k \<notin> set DISALLOWED \<Longrightarrow> map_of (transform_object body s d) k = map_of body k"
  by (simp add: transform_reads)

lemma transform_input:
  "map_of (transform_object body s d) ''input'' =
     map_option strip_ids (case map_of body ''input'' of
        Some v \<Rightarrow> Some v
      | None \<Rightarrow> (case map_of body ''messages'' of
          Some (JArr ms) \<Rightarrow> Some (JArr (concat (map input_items (map developer_role ms)))) | _ \<Rightarrow> None))"
  by (simp add: transform_reads DISALLOWED_def split: option.split)

section \<open>A conversation for the backend\<close>

definition input_text :: "string \<Rightarrow> json" where
  "input_text t = jobj [(''type'', JStr ''input_text''), (''text'', JStr t)]"

definition output_text :: "string \<Rightarrow> json" where
  "output_text t = jobj [(''type'', JStr ''output_text''), (''text'', JStr t)]"

definition input_image :: "string \<times> string \<Rightarrow> json" where
  "input_image m =
     jobj [(''type'', JStr ''input_image''), (''image_url'', JStr (''data:'' @ fst m @ '';base64,'' @ snd m)),
       (''detail'', JStr ''auto'')]"

definition call_item :: "(json \<Rightarrow> string) \<Rightarrow> call \<Rightarrow> json" where
  "call_item print c =
     jobj [(''type'', JStr ''function_call''), (''call_id'', JStr (cl_id c)), (''name'', JStr (cl_name c)),
       (''arguments'', JStr (print (cl_input c)))]"

fun codex_turn :: "(json \<Rightarrow> string) \<Rightarrow> turn \<Rightarrow> json list" where
  "codex_turn print (UserSays s) = [message_item ''user'' [input_text s]]"
| "codex_turn print (UserShows ts ms) = [message_item ''user'' (map input_text ts @ map input_image ms)]"
| "codex_turn print (AssistantSays s) = [message_item ''assistant'' [output_text s]]"
| "codex_turn print (AssistantCalls s cs) =
     (if s \<noteq> [] then [message_item ''assistant'' [output_text s]] else []) @ map (call_item print) cs"
| "codex_turn print (ToolAnswers i s) =
     [jobj [(''type'', JStr ''function_call_output''), (''call_id'', JStr i), (''output'', JStr s)]]"

definition codex_input :: "(json \<Rightarrow> string) \<Rightarrow> conversation \<Rightarrow> json list" where
  "codex_input print cv =
     (if cv_system cv \<noteq> [] then [message_item ''developer'' [input_text (cv_system cv)]] else [])
     @ concat (map (codex_turn print) (cv_turns cv))"

lemma content_part_text: "content_part ''input_text'' True (text_block t) = Some (input_text t)"
  by (simp add: content_part_def text_block_def input_text_def str_at_def jget_jobj Let_def)

lemma content_part_image: "content_part k True (openai_image m) = Some (input_image m)"
  by (simp add: content_part_def openai_image_def input_image_def str_at_def jget_jobj or_else_def Let_def)

lemma content_parts_shown:
  "List.map_filter (content_part ''input_text'' True) (map text_block ts @ map openai_image ms)
   = map input_text ts @ map input_image ms"
proof -
  have "List.map_filter (content_part ''input_text'' True) (map text_block ts) = map input_text ts"
    by (induction ts) (simp_all add: map_filter_simps content_part_text)
  moreover have "List.map_filter (content_part ''input_text'' True) (map openai_image ms) = map input_image ms"
    by (induction ms) (simp_all add: map_filter_simps content_part_image)
  ultimately show ?thesis by (simp add: map_filter_append)
qed

lemma function_call_of_call: "function_call_item (openai_call print c) = call_item print c"
  by (simp add: function_call_item_def openai_call_def call_item_def get_or_def jidx_def jget_jobj)

lemma developer_role_turn [simp]: "developer_role (openai_turn print t) = openai_turn print t"
proof -
  have "str_at (openai_turn print t) ''role'' \<noteq> Some ''system''"
    by (cases t) (simp_all add: str_at_def jget_jobj)
  then show ?thesis by (simp add: developer_role_def)
qed

lemma input_items_turn:
  assumes "turn_ok t"
  shows "input_items (openai_turn print t) = codex_turn print t"
proof (cases t)
  case (UserSays s)
  then show ?thesis
    by (simp add: input_items_def message_content_parts_def message_text_def input_text_def)
next
  case (UserShows ts ms)
  with assms have "ms \<noteq> []" by simp
  then show ?thesis
    by (simp add: input_items_def message_content_parts_def UserShows content_parts_shown)
next
  case (AssistantSays s)
  then show ?thesis
    by (simp add: input_items_def message_content_parts_def message_text_def output_text_def)
next
  case (AssistantCalls s cs)
  let ?m = "openai_turn print t"
  have calls: "jget ?m ''tool_calls'' = Some (JArr (map (openai_call print) cs))"
    and said: "message_text ?m = s"
    by (simp_all add: AssistantCalls message_text_def jget_jobj)
  have "turn_role t = ''assistant''" by (simp add: AssistantCalls)
  then show ?thesis
    unfolding input_items_def openai_role_turn calls said
    by (simp add: AssistantCalls output_text_def function_call_of_call)
next
  case (ToolAnswers i s)
  then show ?thesis
    by (simp add: input_items_def openai_role_def str_at_def message_text_def get_or_def jget_jobj Let_def)
qed

lemma no_ids_jobj: "no_ids (jobj kvs) \<longleftrightarrow> list_all (\<lambda>(k, v). k \<noteq> ''id'' \<and> no_ids v) kvs" if "distinct (map fst kvs)"
proof -
  have set_insert: "k \<notin> fst ` set m \<Longrightarrow> set (obj_insert k v m) = insert (k, v) (set m)" for k v m
    by (induction m) (auto split: if_splits)
  have "set (fold (\<lambda>(k, v). obj_insert k v) kvs m) = set m \<union> set kvs"
    if "distinct (map fst kvs)" "fst ` set m \<inter> fst ` set kvs = {}" for m
    using that
  proof (induction kvs arbitrary: m)
    case (Cons e kvs)
    obtain k v where e: "e = (k, v)" by (cases e)
    have "fst ` set (obj_insert k v m) \<inter> fst ` set kvs = {}"
      using Cons.prems by (auto simp: e fst_set_obj_insert)
    with Cons show ?case by (auto simp: e set_insert)
  qed simp
  from this [of "[]"] that have "set (fold (\<lambda>(k, v). obj_insert k v) kvs []) = set kvs" by simp
  then show ?thesis by (auto simp: jobj_def list_all_iff)
qed

lemma codex_turn_no_ids: "list_all no_ids (codex_turn print t)"
proof -
  have parts: "no_ids (input_text x)" "no_ids (output_text x)" "no_ids (input_image m)" "no_ids (call_item print c)" for x m c
    by (simp_all add: input_text_def output_text_def input_image_def call_item_def no_ids_jobj)
  have item: "no_ids (message_item r ps) = list_all no_ids ps" for r ps
    by (simp add: message_item_def no_ids_jobj list_all_iff)
  show ?thesis
    by (cases t) (auto simp: item parts list_all_iff no_ids_jobj)
qed

lemma codex_input_no_ids: "no_ids (JArr (codex_input print cv))"
proof -
  have "no_ids (message_item ''developer'' [input_text s])" for s
    by (simp add: message_item_def input_text_def no_ids_jobj)
  moreover have "list_all no_ids (concat (map (codex_turn print) ts))" for ts
    by (induction ts) (simp_all add: codex_turn_no_ids)
  ultimately have "list_all no_ids (codex_input print cv)" by (simp add: codex_input_def)
  then show ?thesis by (auto simp: list_all_iff)
qed

lemma conversation_to_codex:
  assumes "conversation_ok cv"
  shows "jget (transform_request (openai_request print cv) sid d) ''input'' = Some (JArr (codex_input print cv))"
proof -
  let ?sys = "if cv_system cv \<noteq> [] then [message_of ''system'' (JStr (cv_system cv))] else []"
  obtain body where body: "openai_request print cv = JObj body" by (simp add: openai_request_def jobj_def)
  have "jget (openai_request print cv) ''messages'' = Some (JArr (?sys @ map (openai_turn print) (cv_turns cv)))"
    "jget (openai_request print cv) ''input'' = None"
    by (simp_all add: openai_request_def jget_jobj map_add_def split: option.split)
  then have reads: "map_of body ''messages'' = Some (JArr (?sys @ map (openai_turn print) (cv_turns cv)))"
    "map_of body ''input'' = None" by (simp_all add: body)
  have system: "input_items (developer_role (message_of ''system'' (JStr s))) = [message_item ''developer'' [input_text s]]" for s
  proof -
    have "developer_role (message_of ''system'' (JStr s)) = jobj [(''role'', JStr ''system''), (''content'', JStr s), (''role'', JStr ''developer'')]"
      by (simp add: developer_role_def str_at_def) (simp add: message_of_def)
    moreover have "input_items \<dots> = [message_item ''developer'' [input_text s]]"
      by (simp add: input_items_def openai_role_def str_at_def message_content_parts_def message_text_def input_text_def jget_jobj)
    ultimately show ?thesis by simp
  qed
  have turns: "concat (map input_items (map developer_role (map (openai_turn print) ts))) = concat (map (codex_turn print) ts)"
    if "list_all turn_ok ts" for ts
    using that by (induction ts) (simp_all add: input_items_turn)
  have "concat (map input_items (map developer_role (?sys @ map (openai_turn print) (cv_turns cv)))) = codex_input print cv"
    using turns [of "cv_turns cv"] assms by (simp add: conversation_ok_def codex_input_def system del: map_map)
  then show ?thesis
    by (simp add: body transform_input reads strip_ids_id [OF codex_input_no_ids]
        del: map_append map_map strip_ids.simps)
qed

end
