(* ===== verification/CodexStream.thy ===== *)
theory CodexStream
  imports CodexTransform BridgeSpec
begin

text \<open>
  What becomes of a Responses stream: the arguments of a tool call reach the client exactly
  once, however often the backend says them; the chunks for an Anthropic client make a
  conforming message; and streaming and aggregating agree.
\<close>

section \<open>The arguments of a call\<close>

text \<open>What an event says about a tool call.\<close>

datatype call_part = Announced string | Fragment string | Complete string

definition call_part :: "event \<Rightarrow> (nat \<times> call_part) option" where
  "call_part e =
     (if fst e = ''response.output_item.added''
      then (if as_str (jidx (jidx (snd e) ''item'') ''type'') = Some ''function_call''
            then Some (output_index (snd e), Announced (str_of (jidx (snd e) ''item'') ''arguments'')) else None)
      else if fst e = ''response.function_call_arguments.delta''
      then Some (output_index (snd e), Fragment (str_of (snd e) ''delta''))
      else if (fst e = ''response.function_call_arguments.done'' \<or> fst e = ''response.output_item.done'')
           \<and> done_args (fst e) (snd e) \<noteq> []
      then Some (output_index (snd e), Complete (done_args (fst e) (snd e)))
      else None)"

definition call_parts :: "nat \<Rightarrow> event list \<Rightarrow> call_part list" where
  "call_parts k es = map snd (filter (\<lambda>p. fst p = k) (List.map_filter call_part es))"

lemma chunk_reads [simp]:
  "choice_delta (chat_chunk st model delta finish) = delta"
  "finish_of (chat_chunk st model delta finish) = finish"
  by (simp_all add: choice_delta_def finish_of_def chat_chunk_def jget_jobj jidx_def str_at_def split: option.split)

lemma tool_delta_reads [simp]:
  "elements_at (tool_delta kvs) ''tool_calls'' = [jobj kvs]" "str_at (tool_delta kvs) ''content'' = None"
  by (simp_all add: tool_delta_def elements_at_def str_at_def jget_jobj)

lemma args_delta_calls:
  "map tool_index (elements_at (args_delta k a) ''tool_calls'') = [k]"
  "map call_args (elements_at (args_delta k a) ''tool_calls'') = [a]"
  by (simp_all add: args_delta_def tool_index_def call_args_def jget_jobj jidx_def jnat_def)

text \<open>How one event moves the arguments of call \<open>k\<close>: what is emitted and whether any were sent.\<close>

fun part_step :: "bool \<Rightarrow> call_part \<Rightarrow> string \<times> bool" where
  "part_step sent (Announced a) = (a, sent \<or> a \<noteq> [])"
| "part_step sent (Fragment a) = (a, True)"
| "part_step sent (Complete a) = (if sent then [] else a, True)"

definition emitted :: "nat \<Rightarrow> json option \<Rightarrow> string" where
  "emitted k c = (case c of Some c \<Rightarrow> args_of k (chunk_calls c) | None \<Rightarrow> [])"

lemma args_of_single: "args_of k [tc] = (if tool_index tc = k then call_args tc else [])"
  by (simp add: args_of_def)

lemma call_args_jobj:
  "call_args (jobj kvs) = unwrap_or (as_str (jidx (unwrap_or (map_of (rev kvs) ''function'') JNull) ''arguments'')) []"
  "tool_index (jobj kvs) = unwrap_or (Option.bind (map_of (rev kvs) ''index'') as_u64) 0"
  by (simp_all add: call_args_def tool_index_def jidx_def [of "jobj kvs"] jget_jobj)

lemma emitted_chunks [simp]:
  "emitted k None = []"
  "emitted k (Some (chat_chunk st model (args_delta i a) f)) = (if i = k then a else [])"
  "emitted k (Some (chat_chunk st model (tool_delta [(''index'', jnat i), (''id'', n), (''type'', t),
      (''function'', jobj [(''name'', m), (''arguments'', JStr a)])]) f)) = (if i = k then a else [])"
  by (simp_all add: emitted_def chunk_calls_def args_delta_def args_of_single call_args_jobj jidx_def jget_jobj jnat_def)

lemma emitted_other [simp]:
  "emitted k (Some (chat_chunk st model (message_of r c) f)) = []"
  "emitted k (Some (chat_chunk st model (jobj [(''content'', c)]) f)) = []"
  "emitted k (Some (chat_chunk st model (JObj []) f)) = []"
  "emitted k (Some (jset ''usage'' u (chat_chunk st model (JObj []) f))) = []"
  by (simp_all add: emitted_def chunk_calls_def message_of_def elements_at_def jget_jobj args_of_def)
    (simp add: choice_delta_def chat_chunk_def jobj_def jidx_def)

lemma seven_cases:
  "(x = a \<Longrightarrow> P) \<Longrightarrow> (x = b \<Longrightarrow> P) \<Longrightarrow> (x = c \<Longrightarrow> P) \<Longrightarrow> (x = d \<or> x = e \<Longrightarrow> P) \<Longrightarrow> (x = f \<Longrightarrow> P) \<Longrightarrow>
   (x = g \<Longrightarrow> P) \<Longrightarrow> (x \<notin> {a, b, c, d, e, f, g} \<Longrightarrow> P) \<Longrightarrow> P"
  by blast

text \<open>The kinds of events.\<close>

lemma event_cases [case_names created said added finished fragment completed other]:
  assumes "event = ''response.created'' \<Longrightarrow> P" and "event = ''response.output_text.delta'' \<Longrightarrow> P"
    and "event = ''response.output_item.added'' \<Longrightarrow> P"
    and "event = ''response.function_call_arguments.done'' \<or> event = ''response.output_item.done'' \<Longrightarrow> P"
    and "event = ''response.function_call_arguments.delta'' \<Longrightarrow> P" and "event = ''response.completed'' \<Longrightarrow> P"
    and "event \<notin> {''response.created'', ''response.output_text.delta'', ''response.output_item.added'',
        ''response.function_call_arguments.done'', ''response.output_item.done'',
        ''response.function_call_arguments.delta'', ''response.completed''} \<Longrightarrow> P"
  shows P
  by (rule seven_cases [OF assms])

lemma finished_is_no_other:
  "event = ''response.function_call_arguments.done'' \<or> event = ''response.output_item.done'' \<Longrightarrow>
   event \<noteq> ''response.created'' \<and> event \<noteq> ''response.output_text.delta'' \<and> event \<noteq> ''response.output_item.added''
   \<and> event \<noteq> ''response.function_call_arguments.delta'' \<and> event \<noteq> ''response.completed''"
  by (elim disjE) simp_all

definition moved :: "nat \<Rightarrow> sse_chunk_state \<Rightarrow> (nat \<times> call_part) option \<Rightarrow> string \<times> bool" where
  "moved k st part =
     (case part of
        Some (i, p) \<Rightarrow> if i = k then part_step (k \<in> set (ch_args_sent st)) p else ([], k \<in> set (ch_args_sent st))
      | None \<Rightarrow> ([], k \<in> set (ch_args_sent st)))"

lemma event_part_moves:
  assumes run: "chat_chunk_for_event st event data model = (c, st')"
  shows "(emitted k c, k \<in> set (ch_args_sent st')) = moved k st (call_part (event, data))"
proof (cases event rule: event_cases)
  case created
  with run show ?thesis by (auto simp: chat_chunk_for_event_def call_part_def moved_def Let_def)
next
  case said
  with run show ?thesis by (auto simp: chat_chunk_for_event_def call_part_def moved_def)
next
  case added
  show ?thesis
  proof (cases "as_str (jidx (jidx data ''item'') ''type'') = Some ''function_call''")
    case True
    with added run show ?thesis by (auto simp: chat_chunk_for_event_def call_part_def moved_def Let_def split: if_splits)
  next
    case False
    with added run show ?thesis by (auto simp: chat_chunk_for_event_def call_part_def moved_def Let_def)
  qed
next
  case finished
  note other = finished_is_no_other [OF finished]
  show ?thesis
  proof (cases "done_args event data = [] \<or> output_index data \<in> set (ch_args_sent st)")
    case True
    with run finished other have "c = None" "st' = st" by (simp_all add: chat_chunk_for_event_def Let_def)
    with True finished other show ?thesis by (auto simp: call_part_def moved_def)
  next
    case False
    with run finished other have "c = Some (chat_chunk st' model (args_delta (output_index data) (done_args event data)) None)"
      "st' = st\<lparr>ch_args_sent := List.insert (output_index data) (ch_args_sent st)\<rparr>"
      by (auto simp: chat_chunk_for_event_def Let_def)
    with False finished other show ?thesis by (auto simp: call_part_def moved_def)
  qed
next
  case fragment
  with run show ?thesis by (auto simp: chat_chunk_for_event_def call_part_def moved_def Let_def)
next
  case completed
  with run show ?thesis by (auto simp: chat_chunk_for_event_def call_part_def moved_def Let_def split: option.splits)
next
  case other
  with run show ?thesis by (auto simp: chat_chunk_for_event_def call_part_def moved_def)
qed

fun run_parts :: "bool \<Rightarrow> call_part list \<Rightarrow> string" where
  "run_parts sent [] = []"
| "run_parts sent (p # ps) = fst (part_step sent p) @ run_parts (snd (part_step sent p)) ps"

lemma call_parts_Cons:
  "call_parts k (e # es) = (case call_part e of
     Some (i, p) \<Rightarrow> if i = k then p # call_parts k es else call_parts k es | None \<Rightarrow> call_parts k es)"
  by (auto simp: call_parts_def map_filter_simps split: option.split)

lemma args_of_append_emitted:
  "args_of k (concat (map chunk_calls (case c of Some c \<Rightarrow> c # cs | None \<Rightarrow> cs)))
   = emitted k c @ args_of k (concat (map chunk_calls cs))"
  by (cases c) (simp_all add: emitted_def args_of_append)

lemma stream_args:
  "codex_chunks model st es = (cs, st') \<Longrightarrow>
     args_of k (concat (map chunk_calls cs)) = run_parts (k \<in> set (ch_args_sent st)) (call_parts k es)"
proof (induction es arbitrary: st cs)
  case Nil
  then show ?case by (simp add: args_of_def call_parts_def)
next
  case (Cons e es)
  obtain event data where e: "e = (event, data)" by (cases e)
  obtain c st1 where one: "chat_chunk_for_event st event data model = (c, st1)" by fastforce
  obtain cs1 where rest: "codex_chunks model st1 es = (cs1, st')"
    and cs: "cs = (case c of Some c \<Rightarrow> c # cs1 | None \<Rightarrow> cs1)"
    using Cons.prems by (auto simp: e one split: prod.splits)
  note moves = event_part_moves [OF one, of k]
  have "args_of k (concat (map chunk_calls cs))
      = emitted k c @ run_parts (k \<in> set (ch_args_sent st1)) (call_parts k es)"
    by (simp add: cs args_of_append_emitted Cons.IH [OF rest])
  also have "\<dots> = run_parts (k \<in> set (ch_args_sent st)) (call_parts k (e # es))"
  proof (cases "call_part (event, data)")
    case None
    with moves show ?thesis by (simp add: call_parts_Cons e moved_def)
  next
    case (Some ip)
    with moves [symmetric] show ?thesis by (cases ip) (auto simp: call_parts_Cons e moved_def split: if_splits)
  qed
  finally show ?case .
qed

text \<open>
  An upstream that says the arguments \<open>A\<close> of a call: it announces the call, perhaps with
  all of them, perhaps streams them in fragments, and perhaps repeats them when it is done;
  it does at least one of the three.
\<close>

fun completes :: "string \<Rightarrow> call_part list \<Rightarrow> bool" where
  "completes A [] \<longleftrightarrow> True"
| "completes A (Complete b # ps) \<longleftrightarrow> b = A \<and> completes A ps"
| "completes A _ \<longleftrightarrow> False"

fun says_rest :: "bool \<Rightarrow> string \<Rightarrow> string \<Rightarrow> call_part list \<Rightarrow> bool" where
  "says_rest sent acc A (Fragment d # ps) \<longleftrightarrow> says_rest True (acc @ d) A ps"
| "says_rest sent acc A ps \<longleftrightarrow> completes A ps \<and> (if sent then acc = A else ps \<noteq> [])"

fun says :: "string \<Rightarrow> call_part list \<Rightarrow> bool" where
  "says A (Announced a # ps) \<longleftrightarrow> says_rest (a \<noteq> []) a A ps"
| "says A _ \<longleftrightarrow> False"

lemma run_parts_completes:
  "completes A ps \<Longrightarrow> run_parts True ps = []" "completes A ps \<Longrightarrow> run_parts False ps = (if ps = [] then [] else A)"
proof -
  have sent: "completes A ps \<Longrightarrow> run_parts True ps = []" for ps
    by (induction A ps rule: completes.induct) auto
  then show "completes A ps \<Longrightarrow> run_parts True ps = []" .
  show "completes A ps \<Longrightarrow> run_parts False ps = (if ps = [] then [] else A)"
    by (cases "(A, ps)" rule: completes.cases) (auto simp: sent)
qed

text \<open>However the arguments are said, they reach the client once.\<close>

lemma run_parts_once: "says A ps \<Longrightarrow> run_parts False ps = A"
proof -
  have rest: "says_rest sent acc A ps \<Longrightarrow> sent \<or> acc = [] \<Longrightarrow> acc @ run_parts sent ps = A" for sent acc ps
  proof (induction sent acc A ps rule: says_rest.induct)
    case (1 sent acc A d ps)
    then show ?case by simp
  qed (auto simp: run_parts_completes split: if_splits)
  show "says A ps \<Longrightarrow> run_parts False ps = A"
    by (cases "(A, ps)" rule: says.cases) (auto dest: rest)
qed

section \<open>The whole stream\<close>

lemma finish_of_usage: "finish_of (jset ''usage'' u (chat_chunk st model d f)) = f"
  "choice_delta (jset ''usage'' u (chat_chunk st model d f)) = d"
  by (simp_all add: finish_of_def choice_delta_def chat_chunk_def jget_jobj jidx_def str_at_def split: option.split)

lemma event_finishes:
  assumes run: "chat_chunk_for_event st event data model = (c, st')"
  shows "Option.bind c finish_of =
     (if event = ''response.completed'' then Some (if ch_saw_tool_call st then ''tool_calls'' else ''stop'') else None)"
proof (cases event rule: event_cases)
  case finished
  note other = finished_is_no_other [OF finished]
  have "c = None \<or> c = Some (chat_chunk st' model (args_delta (output_index data) (done_args event data)) None)"
    using run by (auto simp: chat_chunk_for_event_def Let_def finished other split: if_split_asm)
  then show ?thesis by (elim disjE) (simp_all add: other)
next
  case completed
  with run show ?thesis by (auto simp: chat_chunk_for_event_def finish_of_usage Let_def split: option.splits)
qed (use run in \<open>auto simp: chat_chunk_for_event_def Let_def split: if_splits\<close>)

definition event_text :: "event \<Rightarrow> string" where
  "event_text e = (if fst e = ''response.output_text.delta'' then str_of (snd e) ''delta'' else [])"

lemma chunk_text_chunk [simp]:
  "chunk_text (chat_chunk st model d f) = unwrap_or (str_at d ''content'') []"
  "chunk_text (jset ''usage'' u (chat_chunk st model d f)) = unwrap_or (str_at d ''content'') []"
  by (simp_all add: chunk_text_def finish_of_usage)

lemma args_delta_text [simp]: "str_at (args_delta i a) ''content'' = None"
  by (simp add: args_delta_def)

lemma event_says:
  assumes run: "chat_chunk_for_event st event data model = (c, st')"
  shows "(case c of Some c \<Rightarrow> chunk_text c | None \<Rightarrow> []) = event_text (event, data)"
proof (cases event rule: event_cases)
  case finished
  note other = finished_is_no_other [OF finished]
  have "c = None \<or> c = Some (chat_chunk st' model (args_delta (output_index data) (done_args event data)) None)"
    using run by (auto simp: chat_chunk_for_event_def Let_def finished other split: if_split_asm)
  then show ?thesis by (elim disjE) (simp_all add: other event_text_def)
next
  case completed
  with run show ?thesis
    by (auto simp: chat_chunk_for_event_def Let_def event_text_def str_at_def split: option.splits)
next
  case said
  with run show ?thesis by (auto simp: chat_chunk_for_event_def event_text_def str_at_def jget_jobj)
qed (use run in \<open>auto simp: chat_chunk_for_event_def event_text_def Let_def split: if_splits\<close>)

lemma stream_text:
  "codex_chunks model st es = (cs, st') \<Longrightarrow> concat (map chunk_text cs) = concat (map event_text es)"
proof (induction es arbitrary: st cs)
  case (Cons e es)
  obtain event data where e: "e = (event, data)" by (cases e)
  obtain c st1 where one: "chat_chunk_for_event st event data model = (c, st1)" by fastforce
  obtain cs1 where rest: "codex_chunks model st1 es = (cs1, st')"
    and cs: "cs = (case c of Some c \<Rightarrow> c # cs1 | None \<Rightarrow> cs1)"
    using Cons.prems by (auto simp: e one split: prod.splits)
  from event_says [OF one] Cons.IH [OF rest] show ?case by (cases c) (simp_all add: cs e)
qed simp

lemma stream_finishes:
  assumes "codex_chunks model st es = (cs, st')" and "\<forall>e \<in> set es. fst e \<noteq> ''response.completed''"
  shows "list_all (\<lambda>c. finish_of c = None) cs"
  using assms
proof (induction es arbitrary: st cs)
  case (Cons e es)
  obtain event data where e: "e = (event, data)" by (cases e)
  obtain c st1 where one: "chat_chunk_for_event st event data model = (c, st1)" by fastforce
  obtain cs1 where rest: "codex_chunks model st1 es = (cs1, st')"
    and cs: "cs = (case c of Some c \<Rightarrow> c # cs1 | None \<Rightarrow> cs1)"
    using Cons.prems(1) by (auto simp: e one split: prod.splits)
  have "Option.bind c finish_of = None" using event_finishes [OF one] Cons.prems(2) by (simp add: e)
  moreover have "list_all (\<lambda>c. finish_of c = None) cs1" using Cons.IH [OF rest] Cons.prems(2) by simp
  ultimately show ?case by (cases c) (simp_all add: cs)
qed simp

lemma codex_chunks_append:
  "codex_chunks model st (es @ fs) =
     (case codex_chunks model st es of (cs, st) \<Rightarrow> (case codex_chunks model st fs of (ds, st) \<Rightarrow> (cs @ ds, st)))"
proof (induction es arbitrary: st)
  case (Cons e es)
  then show ?case by (cases e) (auto split: prod.splits option.splits)
qed simp

text \<open>Every call is announced before more is said about it.\<close>

fun announced_first :: "nat set \<Rightarrow> event list \<Rightarrow> bool" where
  "announced_first K [] \<longleftrightarrow> True"
| "announced_first K (e # es) \<longleftrightarrow>
     (case call_part e of
        None \<Rightarrow> announced_first K es
      | Some (i, p) \<Rightarrow>
          (i \<in> K \<or> (case p of Announced _ \<Rightarrow> True | _ \<Rightarrow> False)) \<and> announced_first (insert i K) es)"

definition calls_in :: "json option \<Rightarrow> json list" where
  "calls_in c = (case c of Some c \<Rightarrow> chunk_calls c | None \<Rightarrow> [])"

lemma calls_in_chunks [simp]:
  "calls_in None = []"
  "calls_in (Some (chat_chunk st model d f)) = elements_at d ''tool_calls''"
  "calls_in (Some (jset ''usage'' u (chat_chunk st model d f))) = elements_at d ''tool_calls''"
  by (simp_all add: calls_in_def chunk_calls_def finish_of_usage)

text \<open>What a chunk says about calls, next to what its event said.\<close>

definition call_chunk_for :: "(nat \<times> call_part) option \<Rightarrow> json list \<Rightarrow> bool" where
  "call_chunk_for part tcs \<longleftrightarrow>
     (case part of
        None \<Rightarrow> tcs = []
      | Some (i, Announced _) \<Rightarrow> \<exists>tc. tcs = [tc] \<and> tool_index tc = i \<and> str_at tc ''id'' \<noteq> None
      | Some (i, _) \<Rightarrow> tcs = [] \<or> (\<exists>tc. tcs = [tc] \<and> tool_index tc = i))"

lemma args_delta_call [simp]: "\<exists>tc. elements_at (args_delta i a) ''tool_calls'' = [tc] \<and> tool_index tc = i"
  by (simp add: args_delta_def call_args_jobj jnat_def)

lemma event_calls:
  assumes run: "chat_chunk_for_event st event data model = (c, st')"
  shows "call_chunk_for (call_part (event, data)) (calls_in c)"
proof (cases event rule: event_cases)
  case finished
  note other = finished_is_no_other [OF finished]
  have "c = None \<or> c = Some (chat_chunk st' model (args_delta (output_index data) (done_args event data)) None)
      \<and> done_args event data \<noteq> []"
    using run by (auto simp: chat_chunk_for_event_def Let_def finished other split: if_split_asm)
  then show ?thesis by (elim disjE conjE) (simp_all add: other call_part_def call_chunk_for_def finished)
next
  case added
  show ?thesis
  proof (cases "as_str (jidx (jidx data ''item'') ''type'') = Some ''function_call''")
    case True
    with added run show ?thesis
      by (auto simp: chat_chunk_for_event_def call_part_def call_chunk_for_def Let_def call_args_jobj jnat_def str_at_def
          jget_jobj)
  next
    case False
    with added run show ?thesis by (auto simp: chat_chunk_for_event_def call_part_def call_chunk_for_def Let_def)
  qed
next
  case fragment
  with run show ?thesis by (auto simp: chat_chunk_for_event_def call_part_def call_chunk_for_def Let_def)
next
  case completed
  with run show ?thesis
    by (auto simp: chat_chunk_for_event_def call_part_def call_chunk_for_def Let_def elements_at_def split: option.splits)
qed (use run in \<open>auto simp: chat_chunk_for_event_def call_part_def call_chunk_for_def Let_def elements_at_def
    message_of_def jget_jobj\<close>)

lemma stream_calls_Cons:
  "concat (map chunk_calls (case c of Some c \<Rightarrow> c # cs | None \<Rightarrow> cs)) = calls_in c @ concat (map chunk_calls cs)"
  by (cases c) (simp_all add: calls_in_def)

lemma stream_named_first:
  "codex_chunks model st es = (cs, st') \<Longrightarrow> announced_first K es \<Longrightarrow> named_first K (concat (map chunk_calls cs))"
proof (induction es arbitrary: st cs K)
  case (Cons e es)
  obtain event data where e: "e = (event, data)" by (cases e)
  obtain c st1 where one: "chat_chunk_for_event st event data model = (c, st1)" by fastforce
  obtain cs1 where rest: "codex_chunks model st1 es = (cs1, st')"
    and cs: "cs = (case c of Some c \<Rightarrow> c # cs1 | None \<Rightarrow> cs1)"
    using Cons.prems(1) by (auto simp: e one split: prod.splits)
  have calls: "concat (map chunk_calls cs) = calls_in c @ concat (map chunk_calls cs1)"
    unfolding cs by (rule stream_calls_Cons)
  note chunk = event_calls [OF one]
  show ?case
  proof (cases "call_part (event, data)")
    case None
    with Cons.prems(2) have "announced_first K es" by (simp add: e)
    from Cons.IH [OF rest this] None chunk show ?thesis by (simp add: calls call_chunk_for_def)
  next
    case (Some ip)
    obtain i p where ip: "ip = (i, p)" by (cases ip)
    from Cons.prems(2) Some ip have ok: "i \<in> K \<or> (case p of Announced _ \<Rightarrow> True | _ \<Rightarrow> False)"
      and rest_ok: "announced_first (insert i K) es" by (simp_all add: e)
    note ih = Cons.IH [OF rest rest_ok]
    show ?thesis
    proof (cases "calls_in c = []")
      case True
      with chunk Some ip ok have "insert i K = K" by (auto simp: call_chunk_for_def split: call_part.splits)
      with ih True show ?thesis by (simp add: calls)
    next
      case False
      with chunk Some ip ok obtain tc where "calls_in c = [tc]" "tool_index tc = i" "i \<in> K \<or> str_at tc ''id'' \<noteq> None"
        by (auto simp: call_chunk_for_def split: call_part.splits)
      with ih show ?thesis by (simp add: calls)
    qed
  qed
qed simp

lemma announced_is_called:
  "codex_chunks model st es = (cs, st') \<Longrightarrow> (k, Announced a) \<in> set (List.map_filter call_part es) \<Longrightarrow>
     k \<in> tool_index ` set (concat (map chunk_calls cs))"
proof (induction es arbitrary: st cs)
  case (Cons e es)
  obtain event data where e: "e = (event, data)" by (cases e)
  obtain c st1 where one: "chat_chunk_for_event st event data model = (c, st1)" by fastforce
  obtain cs1 where rest: "codex_chunks model st1 es = (cs1, st')"
    and cs: "cs = (case c of Some c \<Rightarrow> c # cs1 | None \<Rightarrow> cs1)"
    using Cons.prems(1) by (auto simp: e one split: prod.splits)
  have calls: "concat (map chunk_calls cs) = calls_in c @ concat (map chunk_calls cs1)"
    unfolding cs by (rule stream_calls_Cons)
  show ?case
  proof (cases "call_part (event, data) = Some (k, Announced a)")
    case True
    with event_calls [OF one] obtain tc where "calls_in c = [tc]" "tool_index tc = k"
      by (auto simp: call_chunk_for_def)
    then show ?thesis by (simp add: calls)
  next
    case False
    then have "(k, Announced a) \<in> set (List.map_filter call_part es)"
      using Cons.prems(2) by (auto simp: e map_filter_simps split: option.splits)
    from Cons.IH [OF rest this] show ?thesis by (simp add: calls image_Un)
  qed
qed (simp add: map_filter_simps)

lemma says_announced:
  assumes "says A (call_parts k es)"
  obtains a where "(k, Announced a) \<in> set (List.map_filter call_part es)"
proof -
  from assms obtain a ps where "call_parts k es = Announced a # ps"
    by (cases "(A, call_parts k es)" rule: says.cases) auto
  then have "Announced a \<in> snd ` {p \<in> set (List.map_filter call_part es). fst p = k}"
    unfolding call_parts_def by (metis list.set_intros(1) list.set_map set_filter)
  then show thesis using that by auto
qed

text \<open>
  From the Codex backend to an Anthropic client: a stream that ends with
  \<open>response.completed\<close> becomes one conforming message with the same text and, for every
  call, one block with its arguments.
\<close>

lemma codex_to_claude:
  fixes model :: string
  assumes events: "es = body @ [(''response.completed'', data)]"
    and once: "\<forall>e \<in> set body. fst e \<noteq> ''response.completed''" and announced: "announced_first {} es"
  defines "chunks \<equiv> fst (codex_chunks model new_chunk_state es)"
  defines "out \<equiv> fst (claude_events chunks new_claude_stream)"
  shows "protocol_run Idle out = Some Finished" and "texts out = concat (map event_text es)"
    and "\<exists>block. inj_on block {k. \<exists>A. says A (call_parts k es)}
       \<and> (\<forall>k A. says A (call_parts k es) \<longrightarrow> inputs (block k) out = A)"
proof -
  obtain cs st where body: "codex_chunks model new_chunk_state body = (cs, st)" by fastforce
  obtain c st1 where c: "chat_chunk_for_event st ''response.completed'' data model = (c, st1)" by fastforce
  obtain f where "Option.bind c finish_of = Some f" using event_finishes [OF c] by auto
  then obtain d where d: "c = Some d" "finish_of d = Some f" by (auto simp: bind_eq_Some_conv)
  have chunks: "chunks = cs @ [d]" and run: "codex_chunks model new_chunk_state es = (chunks, st1)"
    by (simp_all add: chunks_def events codex_chunks_append body c d(1))
  show "protocol_run Idle out = Some Finished"
    unfolding out_def chunks using claude_events_finished [OF stream_finishes [OF body once] d(2)] .
  obtain st2 where claude: "claude_events chunks new_claude_stream = (out, st2)"
    unfolding out_def by (metis surjective_pairing)
  note faithful = claude_events_faithful [OF claude stream_named_first [OF run announced] HOL.refl]
  show "texts out = concat (map event_text es)" using faithful(1) stream_text [OF run] by simp
  let ?block = "\<lambda>k. the (map_of (cs_tool_calls st2) k)"
  have called: "k \<in> tool_index ` set (concat (map chunk_calls chunks))" if "says A (call_parts k es)" for k A
    using says_announced [OF that] announced_is_called [OF run] by metis
  have args: "inputs (?block k) out = A" if "says A (call_parts k es)" for k A
    using faithful(3) [OF called [OF that]] stream_args [OF run, of k] run_parts_once [OF that]
    by (auto simp: new_chunk_state_def)
  have "inj_on ?block {k. \<exists>A. says A (call_parts k es)}"
  proof (rule inj_onI)
    fix k l assume "k \<in> {k. \<exists>A. says A (call_parts k es)}" "l \<in> {k. \<exists>A. says A (call_parts k es)}" and eq: "?block k = ?block l"
    then have in_calls: "k \<in> tool_index ` set (concat (map chunk_calls chunks))" "l \<in> tool_index ` set (concat (map chunk_calls chunks))"
      using called by blast+
    obtain i j where "map_of (cs_tool_calls st2) k = Some i" "map_of (cs_tool_calls st2) l = Some j"
      using faithful(3) [OF in_calls(1)] faithful(3) [OF in_calls(2)] by blast
    with eq have "map_of (cs_tool_calls st2) k = map_of (cs_tool_calls st2) l" by simp
    from inj_onD [OF faithful(2) this in_calls] show "k = l" .
  qed
  with args show "\<exists>block. inj_on block {k. \<exists>A. says A (call_parts k es)}
       \<and> (\<forall>k A. says A (call_parts k es) \<longrightarrow> inputs (block k) out = A)" by blast
qed

section \<open>Streaming and aggregating\<close>

lemma find_str_first: "find_str (a @ p @ b) p = Some n \<Longrightarrow> n \<le> length a"
proof (induction a arbitrary: n)
  case Nil
  have "starts_with (p @ b) p" by (simp add: starts_with_def)
  with Nil show ?case by (cases "p @ b") (auto split: if_splits)
qed (auto split: if_splits)

lemma split_str_found:
  "find_str s p = Some n \<Longrightarrow> p \<noteq> [] \<Longrightarrow> split_str p s = take n s # split_str p (drop (n + length p) s)"
proof (induction s arbitrary: n)
  case (Cons c s)
  then show ?case by (subst split_str.simps) (auto split: if_splits)
qed simp

lemma split_str_absent: "find_str s p = None \<Longrightarrow> p \<noteq> [] \<Longrightarrow> split_str p s = [s]"
  by (induction s) (subst split_str.simps, auto simp: starts_with_def split: if_splits)+

text \<open>A block ends with the first blank line in it.\<close>

definition complete_block :: "string \<Rightarrow> bool" where
  "complete_block b \<longleftrightarrow> 2 \<le> length b \<and> drop (length b - 2) b = [LF, LF] \<and> find_str b [LF, LF] = Some (length b - 2)"

lemma find_str_take: "find_str s p = Some n \<Longrightarrow> find_str (take (n + length p) s) p = Some n"
  by (induction s arbitrary: n) (auto simp: starts_with_def take_Cons' split: if_splits)

lemma find_str_at: "find_str s p = Some n \<Longrightarrow> take (length p) (drop n s) = p"
  by (induction s arbitrary: n) (auto simp: starts_with_def split: if_splits)

lemma drained_complete: "framer_drain f = (bs, g) \<Longrightarrow> list_all complete_block bs"
proof (induction "length (fr_buf f)" arbitrary: f bs rule: less_induct)
  case less
  show ?case
  proof (cases "find_str (fr_buf f) [LF, LF]")
    case None
    with less.prems show ?thesis by (simp add: drain_buf)
  next
    case (Some n)
    let ?f = "f\<lparr>fr_buf := drop (n + 2) (fr_buf f)\<rparr>"
    obtain bs' where drain: "framer_drain ?f = (bs', g)" and bs: "bs = take (n + 2) (fr_buf f) # bs'"
      using less.prems by (auto simp: drain_buf(2) [OF Some] split: prod.splits)
    have len: "n + 2 \<le> length (fr_buf f)" using find_str_length [OF Some] by simp
    have "list_all complete_block bs'" by (rule less.hyps [OF _ drain]) (use len in simp)
    moreover have "complete_block (take (n + 2) (fr_buf f))"
      using find_str_take [OF Some] find_str_at [OF Some] len
      by (simp add: complete_block_def drop_take numeral_2_eq_2)
    ultimately show ?thesis by (simp add: bs)
  qed
qed

lemma fed_complete: "framer_feeds f pieces = (bs, g) \<Longrightarrow> list_all complete_block bs"
proof (induction pieces arbitrary: f bs)
  case (Cons p ps)
  then show ?case
    by (auto simp: framer_feed_def split: prod.splits dest: drained_complete)
qed simp

lemma trim_blank_lines_complete:
  assumes "complete_block b"
  shows "trim_blank_lines b = take (length b - 2) b"
proof -
  let ?x = "take (length b - 2) b"
  have b: "b = ?x @ [LF, LF]" using assms by (metis append_take_drop_id complete_block_def)
  have "trim_blank_lines_rev (rev ?x) = rev ?x"
  proof (cases "rev ?x" rule: trim_blank_lines_rev.cases)
    case (1 c d s)
    have "\<not> (c = LF \<and> d = LF)"
    proof
      assume "c = LF \<and> d = LF"
      with 1 have "rev (rev ?x) = rev s @ [LF, LF]" by simp
      then have x: "?x = rev s @ [LF, LF]" by simp
      have "find_str (rev s @ [LF, LF] @ [LF, LF]) [LF, LF] = Some (length b - 2)"
        using assms b x by (metis append_assoc complete_block_def)
      from find_str_first [OF this] have "length b - 2 \<le> length s" by simp
      moreover have "length ?x = length s + 2" using x by simp
      ultimately show False by simp
    qed
    then have "trim_blank_lines_rev (c # d # s) = c # d # s" by auto
    then show ?thesis by (simp only: 1)
  qed (simp_all only: trim_blank_lines_rev.simps)
  then have "rev (trim_blank_lines_rev (rev b)) = ?x" by (subst b) simp
  then show ?thesis by (simp add: trim_blank_lines_def)
qed

lemma find_str_first_append: "find_str b p = Some n \<Longrightarrow> find_str (b @ s) p = Some n"
proof (induction b arbitrary: n)
  case (Cons c b)
  have "length p \<le> length (c # b)" using find_str_length [OF Cons.prems] by simp
  then have "starts_with ((c # b) @ s) p = starts_with (c # b) p" by (simp only: starts_with_def take_append) simp
  with Cons show ?case by (auto split: if_splits)
qed (cases s, auto simp: starts_with_def split: if_splits)

lemma no_lines: "str_lines [] = []"
  by code_simp

lemma split_str_blocks:
  "list_all complete_block bs \<Longrightarrow> split_str [LF, LF] (concat bs @ rest) = map trim_blank_lines bs @ split_str [LF, LF] rest"
proof (induction bs)
  case (Cons b bs)
  then have b: "complete_block b" by simp
  have found: "find_str (b @ s) [LF, LF] = Some (length b - 2)" for s
    using b by (intro find_str_first_append) (simp add: complete_block_def)
  have "2 \<le> length b" using b by (simp add: complete_block_def)
  with Cons found [of "concat bs @ rest"] trim_blank_lines_complete [OF b] show ?case
    by (simp add: split_str_found)
qed simp

lemma events_of_blocks:
  assumes fed: "framer_feeds new_framer pieces = (bs, f)" and ended: "framer_finish f = []"
    and unix: "unix_lines (from_utf8_lossy (concat pieces)) = from_utf8_lossy (concat pieces)"
  shows "sse_events parse (from_utf8_lossy (concat pieces)) = block_events parse bs"
proof -
  have "framer_feed new_framer (concat pieces) = (bs, f)"
    using fed framer_feeds_concat [OF new_framer_settled, of pieces] by simp
  moreover have "\<not> fr_held_cr f" using ended by (auto simp: framer_finish_def)
  ultimately have "concat bs @ framer_finish f = from_utf8_lossy (concat pieces)"
    using framer_content unix by metis
  then have body: "from_utf8_lossy (concat pieces) = concat bs @ []" by (simp add: ended)
  have blank: "parse_sse_block parse [] = None"
    by (simp add: parse_sse_block_def no_lines)
  have "split_str [LF, LF] [] = [[]]" by (subst split_str.simps) (simp add: starts_with_def)
  then show ?thesis
    unfolding body sse_events_def block_events_def split_str_blocks [OF fed_complete [OF fed]]
    by (simp add: List.map_filter_def blank filter_map comp_def)
qed

lemma sm_content_text:
  assumes "\<forall>e \<in> set es. ends_with (fst e) ''output_text.delta'' \<longrightarrow> fst e = ''response.output_text.delta''"
  shows "sm_content (foldl summarise a es) = sm_content a @ concat (map event_text es)"
  using assms
proof (induction es arbitrary: a)
  case (Cons e es)
  have suffix: "ends_with ''response.output_text.delta'' ''output_text.delta''" by code_simp
  have "sm_content (summarise a e) = sm_content a @ event_text e"
  proof (cases "fst e = ''response.output_text.delta''")
    case True
    with suffix show ?thesis by (simp add: summarise_def event_text_def str_of_def case_prod_unfold)
  next
    case False
    with Cons.prems have "\<not> ends_with (fst e) ''output_text.delta''" by auto
    with False show ?thesis by (simp add: summarise_def event_text_def case_prod_unfold)
  qed
  with Cons show ?case by simp
qed simp

lemma aggregate_content:
  "str_at (jidx (unwrap_or (first_elem (jidx (aggregate_events es model) ''choices'')) JNull) ''message'') ''content''
   = Some (sm_content (foldl summarise \<lparr>sm_content = [], sm_id = [], sm_usage = None\<rparr> es))"
  by (simp add: aggregate_events_def Let_def jidx_def jget_jobj split: option.split)

lemma usage_of_last:
  assumes "chat_chunk_for_event st ''response.completed'' data model = (Some c, st')"
  shows "jget c ''usage'' = jget (aggregate_events (es @ [(''response.completed'', data)]) model') ''usage''"
proof -
  have suffix: "ends_with ''response.completed'' ''completed''"
    "\<not> ends_with ''response.completed'' ''output_text.delta''" by code_simp+
  from assms suffix show ?thesis
    by (auto simp: chat_chunk_for_event_def aggregate_events_def summarise_def Let_def chat_chunk_def jget_jobj
        split: option.splits)
qed

text \<open>Streaming without an overflow, chunk by chunk.\<close>

fun pushes_fit :: "sse_framer \<Rightarrow> string list \<Rightarrow> bool" where
  "pushes_fit f [] \<longleftrightarrow> True"
| "pushes_fit f (p # ps) \<longleftrightarrow> fst (framer_push f p) \<and> pushes_fit (snd (framer_feed f p)) ps"

lemma convert_sse_stream_fed:
  assumes "pushes_fit f pieces" and "framer_feeds f pieces = (bs, g)"
  shows "convert_sse_stream parse print model f st (map Inr pieces) =
     map (\<lambda>c. Inr (render_openai_chunk print c)) (fst (codex_chunks model st (block_events parse bs))) @ [Inr done_marker]"
  using assms
proof (induction pieces arbitrary: f st bs)
  case Nil
  then show ?case by (simp add: block_events_def map_filter_simps)
next
  case (Cons p ps)
  obtain ok f1 where push: "framer_push f p = (ok, f1)" by fastforce
  obtain bs1 f2 where drain: "framer_drain f1 = (bs1, f2)" by fastforce
  obtain bs2 where rest: "framer_feeds f2 ps = (bs2, g)" and bs: "bs = bs1 @ bs2"
    using Cons.prems(2) by (auto simp: framer_feed_def push drain split: prod.splits)
  obtain cs st1 where cs: "codex_chunks model st (block_events parse bs1) = (cs, st1)" by fastforce
  have events: "block_events parse bs = block_events parse bs1 @ block_events parse bs2"
    by (simp add: bs block_events_def map_filter_append)
  have "ok" "pushes_fit f2 ps" using Cons.prems(1) by (simp_all add: push framer_feed_def drain)
  with Cons.IH [OF _ rest, of st1] show ?case
    by (simp add: push drain cs events codex_chunks_append split: prod.split)
qed

text \<open>
  The two ways to serve a Codex answer agree: the text of the aggregated answer is the text of
  the stream, however the bytes arrive.
\<close>

lemma aggregate_agrees:
  assumes "pushes_fit new_framer pieces" and fed: "framer_feeds new_framer pieces = (bs, f)"
    and "framer_finish f = []" and "unix_lines (from_utf8_lossy (concat pieces)) = from_utf8_lossy (concat pieces)"
    and "\<forall>e \<in> set (block_events parse bs). ends_with (fst e) ''output_text.delta'' \<longrightarrow> fst e = ''response.output_text.delta''"
  shows "\<exists>chunks. convert_sse_stream parse print model new_framer new_chunk_state (map Inr pieces)
       = map (\<lambda>c. Inr (render_openai_chunk print c)) chunks @ [Inr done_marker]
     \<and> str_at (jidx (unwrap_or (first_elem (jidx (aggregate_sse parse (from_utf8_lossy (concat pieces)) model)
           ''choices'')) JNull) ''message'') ''content'' = Some (concat (map chunk_text chunks))"
proof (intro exI conjI)
  let ?chunks = "fst (codex_chunks model new_chunk_state (block_events parse bs))"
  show "convert_sse_stream parse print model new_framer new_chunk_state (map Inr pieces)
      = map (\<lambda>c. Inr (render_openai_chunk print c)) ?chunks @ [Inr done_marker]"
    by (rule convert_sse_stream_fed [OF assms(1) fed])
  have chunks: "concat (map chunk_text ?chunks) = concat (map event_text (block_events parse bs))"
    by (rule stream_text [OF surjective_pairing])
  show "str_at (jidx (unwrap_or (first_elem (jidx (aggregate_sse parse (from_utf8_lossy (concat pieces)) model)
      ''choices'')) JNull) ''message'') ''content'' = Some (concat (map chunk_text ?chunks))"
    unfolding aggregate_sse_def events_of_blocks [OF fed assms(3,4)] aggregate_content chunks
    by (simp add: sm_content_text [OF assms(5)])
qed

end
