(* ===== verification/Adapters.thy ===== *)
theory Adapters
  imports CommandCodeAdapter CodexAdapter CodexRequest CodexStream Serve
begin

text \<open>
  \<open>src/providers/adapter/mod.rs\<close>: the adapter of a provider, and what all of them promise: on
  which bodies they may panic, which upstream headers reach the client, and the shape of what
  they send.
\<close>

section \<open>The adapter of a provider\<close>

text \<open>\<open>scope\<close>: what \<open>with_cache_scope\<close> sets, empty without it.\<close>

definition adapter_for_wire :: "libs \<Rightarrow> provider \<Rightarrow> wire_format \<Rightarrow> string \<Rightarrow> adapter" where
  "adapter_for_wire L p wire scope =
     (case prov_kind p of
        Passthrough \<Rightarrow> http_adapter L p wire
      | OauthCodex \<Rightarrow> codex_adapter L p wire scope
      | OauthCommandCode \<Rightarrow> command_code_adapter L p wire)"

section \<open>When a body makes an adapter panic\<close>

text \<open>A JSON object with a tool choice the translation survives, or no JSON at all.\<close>

definition body_safe :: "libs \<Rightarrow> string \<Rightarrow> bool" where
  "body_safe L body \<longleftrightarrow>
     (case lb_parse L body of Inr v \<Rightarrow> is_object v \<and> \<not> choice_without_function v | Inl _ \<Rightarrow> True)"

lemma translation_returns:
  "\<not> choice_without_function v \<Longrightarrow> \<exists>out. openai_to_claude_request parse v = Done out"
  using claude_request_typed [where parse = parse and body = v] by (cases "openai_to_claude_request parse v") simp_all

lemma assign_model_object: "is_object v \<Longrightarrow> assign_model m v = Done (jset ''model'' (JStr m) v)"
  by (cases v) simp_all

lemma claude_request_object: "openai_to_claude_request parse v = Done out \<Longrightarrow> is_object out"
  using claude_request_typed [where parse = parse and body = v] by (cases out) (simp_all add: claude_request_ok_def)

lemma openai_request_object: "is_object (claude_to_openai_request print v)"
  using openai_request_typed [where print = print and body = v] by (cases "claude_to_openai_request print v") (simp_all add: openai_request_ok_def)

lemma as_openai_object: "is_object v \<Longrightarrow> is_object (as_openai L wire v)"
  by (cases wire) (simp_all add: as_openai_def openai_request_object)

lemma messages_body_returns:
  assumes "\<not> choice_without_function v"
  shows "\<exists>out. openai_to_commandcode_messages parse v = Done out \<and> is_object out"
proof -
  from translation_returns [OF assms] obtain out where out: "openai_to_claude_request parse v = Done out" by blast
  from claude_request_object [OF out] out show ?thesis
    by (simp add: openai_to_commandcode_messages_def Let_def split: option.split)
qed

lemma command_code_body_returns:
  assumes "is_object v" and "\<not> choice_without_function v"
  shows "command_code_body L t p wire tr v \<noteq> Panicked"
  using messages_body_returns [OF assms(2), of "lb_parse_ok L"] assms(1) as_openai_object [OF assms(1), of L wire]
  by (auto simp: command_code_body_def assign_model_object split: wire_format.split)

lemma http_build_returns:
  assumes "body_safe L body"
  shows "http_build_request L p wire body creds \<noteq> Panicked"
proof (cases "lb_parse L body")
  case (Inr v)
  with assms have "\<not> choice_without_function v" by (simp add: body_safe_def)
  from translation_returns [OF this, of "lb_parse_ok L"] have "upstream_json L p wire v \<noteq> Panicked"
    by (auto simp: upstream_json_def split: wire_format.split)
  then show ?thesis by (auto simp: http_build_request_def Inr Let_def split: outcome.split option.split)
qed (simp add: http_build_request_def)

lemma command_code_build_returns:
  assumes "body_safe L body"
  shows "command_code_build_request L t p wire transports body creds \<noteq> Panicked"
proof (cases "lb_parse L body")
  case (Inr v)
  with assms command_code_body_returns [of v L t p wire "pinned_transport transports p creds"]
  show ?thesis by (auto simp: command_code_build_request_def body_safe_def split: option.split outcome.split prod.split)
qed (simp add: command_code_build_request_def)

lemma adapters_sane:
  assumes "env_adapter E = adapter_for_wire L" and "body_safe L body"
  shows "sane_adapters E body"
  using http_build_returns [OF assms(2)] command_code_build_returns [OF assms(2)]
  by (auto simp: sane_adapters_def builds_def assms(1) adapter_for_wire_def http_adapter_def codex_adapter_def
      command_code_adapter_def split: provider_kind.split)

section \<open>Headers\<close>

definition names_within :: "(string \<Rightarrow> bool) \<Rightarrow> headers \<Rightarrow> bool" where
  "names_within ok h \<longleftrightarrow> list_all (\<lambda>e. ok (fst e)) h"

definition headers_within :: "(string \<Rightarrow> bool) \<Rightarrow> response \<Rightarrow> bool" where
  "headers_within ok resp \<longleftrightarrow> names_within ok (resp_headers resp)"

lemma names_within_insert [simp]: "ok k \<Longrightarrow> names_within ok h \<Longrightarrow> names_within ok (hdr_insert k v h)"
  by (auto simp: names_within_def hdr_insert_def hdr_remove_def list_all_iff)

lemma names_within_simps [simp]: "names_within ok []" "names_within ok ((k, v) # h) \<longleftrightarrow> ok k \<and> names_within ok h"
  by (simp_all add: names_within_def)

lemma names_within_mono: "names_within P h \<Longrightarrow> (\<And>k. P k \<Longrightarrow> Q k) \<Longrightarrow> names_within Q h"
  by (simp add: names_within_def list_all_iff)

lemma relayed_within [simp]: "names_within relay_upstream_header (relayed_headers up)"
  by (auto simp: names_within_def relayed_headers_def list_all_iff)

lemma content_type_relayed [simp]: "relay_upstream_header ''content-type''"
  by (simp add: relay_upstream_header_def)

lemma json_answer_sel [simp]:
  "resp_status (json_answer code h j) = code" "resp_body (json_answer code h j) = JsonBody j"
  "names_within ok h \<Longrightarrow> ok ''content-type'' \<Longrightarrow> headers_within ok (json_answer code h j)"
  by (simp_all add: json_answer_def headers_within_def)

lemma event_stream_sel [simp]:
  "resp_status (event_stream code h items) = code" "resp_body (event_stream code h items) = StreamBody items"
  "names_within ok h \<Longrightarrow> ok ''content-type'' \<Longrightarrow> headers_within ok (event_stream code h items)"
  by (simp_all add: event_stream_def headers_within_def)

lemma http_response_headers:
  assumes "http_transform_response L p wire up wanted = Inr resp"
  shows "headers_within relay_upstream_header resp"
  using assms by (auto simp: http_transform_response_def Let_def split: if_splits sum.splits)
    (simp add: headers_within_def)

lemma codex_response_headers:
  assumes "codex_transform_response L p wire up wanted = Inr resp"
  shows "headers_within relay_upstream_header resp"
  using assms by (auto simp: codex_transform_response_def Let_def split: if_splits sum.splits option.splits)

lemma command_code_response_headers:
  assumes "command_code_transform_response L t p wire rq up wanted = Inr resp"
  shows "headers_within relay_upstream_header resp"
  using assms by (auto simp: command_code_transform_response_def transform_provider_response_def
      transform_messages_response_def transform_generate_response_def whole_answer_def Let_def
      split: if_splits sum.splits option.splits upstream_shape.splits)

lemma adapter_response_headers:
  assumes "ad_transform_response (adapter_for_wire L p wire scope) t rq up wanted = Inr resp"
  shows "headers_within relay_upstream_header resp"
  using assms http_response_headers codex_response_headers command_code_response_headers
  by (auto simp: adapter_for_wire_def http_adapter_def codex_adapter_def command_code_adapter_def split: provider_kind.splits)

end
