(* ===== verification/Relay.thy ===== *)
theory Relay
  imports Adapters
begin

text \<open>
  The adapters inside the failover loop: which headers an answer can carry, whoever served it,
  and when a request cannot fail to be answered.
\<close>

section \<open>The headers of an answer\<close>

definition own_or_relayed :: "string \<Rightarrow> bool" where
  "own_or_relayed k \<longleftrightarrow> relay_upstream_header k \<or> debug_header k"

lemma own_or_relayed_known [simp]:
  "own_or_relayed ''content-type''" "own_or_relayed ''retry-after''" "own_or_relayed ''x-1router-tried''"
  "own_or_relayed ''x-1router-provider''" "own_or_relayed ''x-1router-error''"
  by (simp_all add: own_or_relayed_def relay_upstream_header_def debug_header_def)

lemma names_within_debug [simp]:
  "names_within own_or_relayed h \<Longrightarrow> names_within own_or_relayed (insert_debug_headers tried p e h)"
  by (simp add: insert_debug_headers_def hdr_insert_valid_def split: option.split)

lemma answers_within [simp]:
  "headers_within own_or_relayed (wire_error wire code msg)"
  "headers_within own_or_relayed (build_wire_error wire code msg tried i)"
  "headers_within own_or_relayed (build_error_passthrough code msg tried i ct)"
  by (simp_all add: headers_within_def wire_error_def build_wire_error_def build_error_passthrough_def)

lemma unavailable_within [simp]: "headers_within own_or_relayed (unavailable wire pool tried skipped p e admin)"
  by (simp add: headers_within_def unavailable_def wire_error_def Let_def split: option.split)

section \<open>Through the loop\<close>

text \<open>Every answer an attempt ends with has only headers of the two kinds.\<close>

definition well_headed :: "attempt_end \<Rightarrow> bool" where
  "well_headed fin \<longleftrightarrow> (\<forall>resp. fin = Answer resp \<longrightarrow> headers_within own_or_relayed resp)"

lemma well_headed_simps [simp]:
  "well_headed (Failover msg)" "well_headed Crash" "well_headed (Answer resp) \<longleftrightarrow> headers_within own_or_relayed resp"
  by (simp_all add: well_headed_def)

definition relays_headers :: "adapter \<Rightarrow> bool" where
  "relays_headers a \<longleftrightarrow> (\<forall>t rq up wanted resp.
     ad_transform_response a t rq up wanted = Inr resp \<longrightarrow> headers_within own_or_relayed resp)"

lemma adapter_relays: "relays_headers (adapter_for_wire L p wire scope)"
  unfolding relays_headers_def own_or_relayed_def
  by (auto simp: headers_within_def intro: names_within_mono [OF adapter_response_headers [unfolded headers_within_def]])

lemma yields_maybe_log_dataset: "yields (maybe_log_dataset cx tg latency resp) (\<lambda>r. r = resp)"
  unfolding maybe_log_dataset_def by (intro yields_bind [OF yields_True] yields_ret) simp

lemma yields_give_up: "yields (give_up cx tg code latency msg) well_headed"
  unfolding give_up_def by (intro yields_bind [OF yields_True] yields_ret) simp

lemma yields_relay_error: "yields (relay_error cx tried tg up latency) well_headed"
  unfolding relay_error_def
  by (intro yields_bind [OF yields_True] yields_ret) simp

lemma yields_deliver:
  assumes "relays_headers (tg_adapter tg)"
  shows "yields (deliver E cx tried tg stage rq up latency) well_headed"
proof -
  have served: "yields (maybe_log_dataset cx tg latency resp \<bind> (\<lambda>r. ret (Answer r))) well_headed"
    if "headers_within own_or_relayed resp" for resp
    by (rule yields_bind [OF yields_maybe_log_dataset]) (use that in \<open>auto intro!: yields_ret\<close>)
  have failed: "well_headed (case e of UpstreamWithStatus s msg \<Rightarrow> Answer (build_wire_error (cx_wire cx) s msg tried (tg_id tg))
      | _ \<Rightarrow> Failover (say e))" for e say
    by (simp split: app_error.split)
  have ends: "yields (case r of
       Inr resp \<Rightarrow> log_request cx i code latency True \<bind> (\<lambda>_. maybe_log_dataset cx tg latency resp \<bind> (\<lambda>r. ret (Answer r)))
     | Inl e \<Rightarrow> log_request cx i code latency False \<bind> (\<lambda>_. ret (case e of
           UpstreamWithStatus s msg \<Rightarrow> Answer (build_wire_error (cx_wire cx) s msg tried (tg_id tg))
         | _ \<Rightarrow> Failover (say e)))) well_headed"
    if "\<And>resp. r = Inr resp \<Longrightarrow> headers_within own_or_relayed resp" for r i code say
  proof (cases r)
    case (Inr resp)
    show ?thesis using served [OF that [OF Inr]] by (simp add: Inr) (rule yields_bind [OF yields_True])
  next
    case (Inl e)
    show ?thesis unfolding Inl sum.case by (rule yields_bind [OF yields_True]) (rule yields_ret, rule failed)
  qed
  show ?thesis
    unfolding deliver_def
    by (intro yields_bind [OF yields_True]
        ends [where say = "\<lambda>e. stage @ ''response transform failed: '' @ app_error_text (env_status_text E) e"])
      (use assms in \<open>simp add: relays_headers_def\<close>)
qed

lemma yields_well_headed:
  assumes "relays_headers (tg_adapter tg)"
  shows "yields (attempt_member E cx tried tg creds) well_headed"
proof -
  note rules = yields_ret yields_bind [OF yields_True] yields_give_up yields_relay_error yields_deliver [OF assms]
  have retry: "yields (retry_once E cx tried tg honour creds) well_headed" for honour creds
    unfolding retry_once_def retry_end_def by (auto intro!: rules split: outcome.split sum.split error_class.split)
  have expired: "yields (on_auth_expired E cx tried tg creds up latency) well_headed" for up latency
    unfolding on_auth_expired_def by (auto intro!: rules retry split: sum.split refresh_error.split)
  have retryable: "yields (on_retryable E cx tried tg creds up asked latency) well_headed" for up asked latency
    unfolding on_retryable_def by (auto intro!: rules retry split: outcome.split)
  have response: "yields (on_response E cx tried tg creds rq up latency) well_headed" for rq up latency
    unfolding on_response_def by (auto intro!: rules retryable expired split: error_class.split)
  show ?thesis
    unfolding attempt_member_def by (auto intro!: rules response split: outcome.split sum.split)
qed

definition turn_headed :: "turn \<Rightarrow> bool" where
  "turn_headed t \<longleftrightarrow> (\<forall>resp. t = Stop (Done resp) \<longrightarrow> headers_within own_or_relayed resp)"

lemma yields_try_member_headed:
  assumes "env_adapter E = adapter_for_wire L"
  shows "yields (try_member E cx m v) turn_headed"
proof -
  have relays: "relays_headers (tg_adapter (target_of E cx m))"
    by (simp add: target_of_def adapter_for_caller_def assms adapter_relays split: provider_kind.split)
  show ?thesis
    unfolding try_member_def contact_def Let_def
    by (intro yields_bind [OF yields_True])
      (auto intro!: yields_ret yields_bind [OF yields_True] yields_bind [OF yields_well_headed [OF relays]]
        simp: turn_headed_def split: option.split attempt_end.splits)
qed

lemma yields_try_members_headed:
  assumes "env_adapter E = adapter_for_wire L"
  shows "yields (try_members E cx ms v) (\<lambda>r. turn_headed (Stop r))"
proof (induction ms arbitrary: v)
  case Nil
  show ?case unfolding try_members.simps finish_def
    by (intro yields_bind [OF yields_True] yields_ret) (simp add: turn_headed_def)
next
  case (Cons m ms)
  show ?case
    unfolding try_members.simps
    by (rule yields_bind [OF yields_try_member_headed [OF assms]])
      (auto intro!: Cons.IH yields_ret split: turn.split)
qed

lemma answer_headers:
  assumes adapters: "env_adapter E = adapter_for_wire L"
    and run: "run_state (handle_proxy E s discovered wire i c body) w = (Done resp, w')"
  shows "headers_within (\<lambda>k. relay_upstream_header k \<or> is_admin c \<and> debug_header k) resp"
proof -
  have shown: "?thesis" if "headers_within own_or_relayed r" "Done resp = shown_to c (Done r)" for r
    using that by (auto simp: shown_to_def headers_within_def names_within_def list_all_iff own_or_relayed_def set_strip_debug_headers)
  show ?thesis
  proof (rule handle_proxy_cases [of E s discovered wire i c body w])
    fix code :: nat and msg
    assume "run_state (handle_proxy_inner E s discovered wire i c body) w
        = (Done (wire_error wire code msg), w\<lparr>w_rotation := snd (select s i wire (w_rotation w))\<rparr>)"
    with run have "Done resp = shown_to c (Done (wire_error wire code msg))" by (simp add: run_handle_proxy)
    then show ?thesis by (rule shown [OF answers_within(1)])
  next
    fix sel
    let ?m = "try_members E (request_ctx E wire i c body sel) (sel_providers sel) loop_start"
    let ?w = "w\<lparr>w_rotation := snd (select s i wire (w_rotation w)), w_tick := Suc (w_tick w)\<rparr>"
    assume inner: "run_state (handle_proxy_inner E s discovered wire i c body) w = run_state ?m ?w"
    obtain r w1 where r: "run_state ?m ?w = (r, w1)" by (cases "run_state ?m ?w")
    with run inner have resp: "Done resp = shown_to c r" by (simp add: run_handle_proxy)
    then obtain r' where "r = Done r'" by (cases r) (simp_all add: shown_to_def)
    with yieldsD [OF yields_try_members_headed [OF adapters] r] resp show ?thesis
      by (intro shown [of r']) (simp_all add: turn_headed_def)
  qed
qed

end
