(* ===== verification/AdapterSpec.thy ===== *)
theory AdapterSpec
  imports Relay
begin

text \<open>
  What the adapters send and answer: the shape of every upstream request, the pairing of tool
  calls and their results, who shares a prompt cache, and the stream a Codex answer becomes.
\<close>

section \<open>Passthrough requests\<close>

lemma insert_model_object: "is_object v \<Longrightarrow> insert_model m v = jset ''model'' (JStr m) v"
  by (cases v) simp_all

text \<open>The keys a default effort touches.\<close>

definition INJECTED :: "string set" where
  "INJECTED = {''reasoning_effort'', ''thinking'', ''max_tokens'', ''temperature'', ''top_p'', ''top_k''}"

lemma inject_default_object:
  assumes "is_object v"
  obtains out where "inject_default p client v = out" "is_object out" "\<And>k. k \<notin> INJECTED \<Longrightarrow> jget out k = jget v k"
    "jget v ''max_tokens'' \<noteq> None \<Longrightarrow> jget out ''max_tokens'' \<noteq> None"
proof -
  from assms obtain m where v: "v = JObj m" by (cases v) simp_all
  have openai: "is_object (inject_openai_effort v l)" "k \<notin> INJECTED \<Longrightarrow> jget (inject_openai_effort v l) k = jget v k"
    "jget (inject_openai_effort v l) ''max_tokens'' = jget v ''max_tokens''" for k l
    by (simp_all add: v INJECTED_def)
  have thinking: "is_object (inject_anthropic_thinking v l)" for l
    by (simp add: v Let_def split: option.split)
  have kept: "k \<notin> INJECTED \<Longrightarrow> jget (inject_anthropic_thinking v l) k = jget v k" for k l
    unfolding v jget_inject_anthropic by (simp add: INJECTED_def)
  have limit: "jget (inject_anthropic_thinking v l) ''max_tokens'' \<noteq> None" for l
    unfolding v jget_inject_anthropic by simp
  show thesis
  proof (cases "effort_to_inject (prov_kind p) (prov_wire_format p) (prov_upstream_model p) (prov_default_reasoning_effort p) client")
    case None
    then show thesis using assms by (intro that [of v]) (simp_all add: inject_default_def)
  next
    case (Some c)
    obtain cap l where c: "c = (cap, l)" by (cases c)
    show thesis
    proof (cases cap)
      case Unsupported
      then show thesis using assms by (intro that [of v]) (simp_all add: inject_default_def Some c)
    next
      case OpenAiEffort
      then show thesis using openai by (intro that [of "inject_openai_effort v l"]) (simp_all add: inject_default_def Some c)
    next
      case AnthropicThinkingBudget
      then show thesis using thinking kept limit
        by (intro that [of "inject_anthropic_thinking v l"]) (simp_all add: inject_default_def Some c)
    qed
  qed
qed

definition request_ok :: "wire_format \<Rightarrow> json \<Rightarrow> bool" where
  "request_ok wire v = (case wire of OpenAi \<Rightarrow> openai_request_ok v | Anthropic \<Rightarrow> claude_request_ok v)"

lemma request_ok_cong:
  assumes "request_ok wire v" and "jget w ''messages'' = jget v ''messages''"
    and "jget v ''max_tokens'' \<noteq> None \<Longrightarrow> jget w ''max_tokens'' \<noteq> None"
  shows "request_ok wire w"
  using assms by (simp add: request_ok_def openai_request_ok_def claude_request_ok_def split: wire_format.splits)

lemma upstream_json_typed:
  assumes "translates p wire" and "upstream_json L p wire client = Done j"
  shows "request_ok (prov_wire_format p) j" and "is_object j"
proof -
  show "request_ok (prov_wire_format p) j"
    using assms openai_request_typed claude_request_typed [where parse = "lb_parse_ok L" and body = client]
    by (cases wire; cases "prov_wire_format p") (auto simp: upstream_json_def translates_def request_ok_def)
  then show "is_object j"
    by (cases j; cases "prov_wire_format p") (simp_all add: request_ok_def openai_request_ok_def claude_request_ok_def)
qed

text \<open>Translated: of the upstream's shape.  Not translated: the client's own object, but for the model and the effort.\<close>

lemma http_request_body:
  assumes "http_build_request L p wire body creds = Done (Inr rq)" and "lb_parse L body = Inr client" and "is_object client"
  obtains j url where "prov_base_url p = Some url" "rq_url rq = url"
    "rq_headers rq = (''content-type'', ''application/json'') # key_headers (prov_wire_format p) (cr_api_key creds)"
    "rq_body rq = lb_print L j" "jget j ''model'' = Some (JStr (prov_upstream_model p))"
    "translates p wire \<Longrightarrow> request_ok (prov_wire_format p) j"
    "\<not> translates p wire \<Longrightarrow> \<forall>k. k \<notin> insert ''model'' INJECTED \<longrightarrow> jget j k = jget client k"
proof -
  from assms(1,2) obtain v url where v: "upstream_json L p wire client = Done v" and url: "prov_base_url p = Some url"
    and rq: "rq = json_post L url (inject_default p client (insert_model (prov_upstream_model p) v))
       (key_headers (prov_wire_format p) (cr_api_key creds))"
    by (auto simp: http_build_request_def Let_def split: outcome.splits option.splits)
  have obj: "is_object v"
    using v assms(3) upstream_json_typed(2) [OF _ v] by (cases "translates p wire") (simp_all add: upstream_json_def)
  let ?m = "jset ''model'' (JStr (prov_upstream_model p)) v"
  have "is_object ?m" using obj by simp
  then obtain j where j: "inject_default p client ?m = j" "\<And>k. k \<notin> INJECTED \<Longrightarrow> jget j k = jget ?m k"
    "jget ?m ''max_tokens'' \<noteq> None \<Longrightarrow> jget j ''max_tokens'' \<noteq> None" by (rule inject_default_object) blast
  show thesis
  proof (rule that [OF url])
    show "rq_body rq = lb_print L j" by (simp add: rq insert_model_object [OF obj] j(1))
    show "jget j ''model'' = Some (JStr (prov_upstream_model p))" using j(2) obj by (simp add: INJECTED_def jget_jset)
    show "request_ok (prov_wire_format p) j" if "translates p wire"
      using upstream_json_typed(1) [OF that v] by (rule request_ok_cong) (use j obj in \<open>simp_all add: INJECTED_def jget_jset\<close>)
    show "\<forall>k. k \<notin> insert ''model'' INJECTED \<longrightarrow> jget j k = jget client k" if "\<not> translates p wire"
      using that v j(2) obj by (auto simp: upstream_json_def jget_jset)
  qed (simp_all add: rq)
qed

section \<open>Codex requests\<close>

text \<open>What the backend insists on.\<close>

definition codex_accepts :: "json \<Rightarrow> bool" where
  "codex_accepts j \<longleftrightarrow>
     (\<forall>k \<in> insert ''messages'' (set DISALLOWED). jget j k = None)
   \<and> jget j ''store'' = Some (JBool False) \<and> jget j ''stream'' = Some (JBool True)
   \<and> str_at (jidx j ''reasoning'') ''effort'' \<noteq> None
   \<and> (case jget j ''input'' of Some v \<Rightarrow> no_ids v | None \<Rightarrow> True)"

lemma transform_accepted: "codex_accepts (insert_model m (transform_request (JObj obj) s d))"
proof -
  let ?t = "transform_object obj s d"
  have gone: "map_of ?t k = None" "k \<noteq> ''model''" if "k \<in> insert ''messages'' (set DISALLOWED)" for k
    using that transform_gone [of k] by (auto simp: DISALLOWED_def)
  from transform_forced(5) [of obj s d] obtain r where "map_of ?t ''reasoning'' = Some (JObj r)"
    "map_of r ''effort'' = Some (JStr (effort_of (JObj obj) d))" by blast
  moreover have "case map_of ?t ''input'' of Some v \<Rightarrow> no_ids v | None \<Rightarrow> True"
    unfolding transform_input by (auto split: option.split simp: no_ids_strip)
  ultimately show ?thesis
    using gone by (simp add: codex_accepts_def transform_forced str_at_def jidx_def)
qed

lemma codex_built:
  assumes "codex_build_request L p wire scope body creds = Inr rq"
  obtains original access sid d where "lb_parse L body = Inr original" "cr_access_token creds = Some access"
    "sid = session_id L p wire scope (as_openai L wire original)"
    "rq = json_post L RESPONSES_URL (insert_model (prov_upstream_model p) (transform_request (as_openai L wire original) sid d))
       (codex_headers L creds access sid)"
  using assms by (auto simp: codex_build_request_def as_openai_def Let_def split: sum.splits option.splits)

lemma codex_request_body:
  assumes "codex_build_request L p wire scope body creds = Inr rq" and "lb_parse L body = Inr client" and "is_object client"
  obtains j where "rq_url rq = RESPONSES_URL" "rq_body rq = lb_print L j" "codex_accepts j"
    "jget j ''model'' = Some (JStr (prov_upstream_model p))"
    "jget j ''prompt_cache_key'' = Some (JStr (session_id L p wire scope (as_openai L wire client)))"
proof -
  from codex_built [OF assms(1)] assms(2) obtain access sid d where sid: "sid = session_id L p wire scope (as_openai L wire client)"
    and rq: "rq = json_post L RESPONSES_URL (insert_model (prov_upstream_model p) (transform_request (as_openai L wire client) sid d))
       (codex_headers L creds access sid)" by (metis sum.inject(2))
  from as_openai_object [OF assms(3), of L wire] obtain obj where obj: "as_openai L wire client = JObj obj"
    by (cases "as_openai L wire client") simp_all
  show thesis
    by (rule that [OF _ _ transform_accepted [where obj = obj]])
      (simp_all add: rq obj sid transform_forced)
qed

text \<open>The same items reach the backend whichever format the client speaks.\<close>

definition rendered :: "wire_format \<Rightarrow> (json \<Rightarrow> string) \<Rightarrow> conversation \<Rightarrow> json" where
  "rendered wire print cv = (case wire of OpenAi \<Rightarrow> openai_request print cv | Anthropic \<Rightarrow> claude_request cv)"

lemma as_openai_rendered:
  "conversation_ok cv \<Longrightarrow> as_openai L wire (rendered wire (lb_print L) cv) = openai_request (lb_print L) cv"
  by (cases wire) (simp_all add: as_openai_def rendered_def request_to_openai)

lemma codex_conversation:
  assumes "codex_build_request L p wire scope body creds = Inr rq"
    and "lb_parse L body = Inr (rendered wire (lb_print L) cv)" and "conversation_ok cv"
  shows "\<exists>j. rq_body rq = lb_print L j \<and> jget j ''input'' = Some (JArr (codex_input (lb_print L) cv))"
proof -
  from codex_built [OF assms(1)] assms(2) obtain access sid d where
    rq: "rq = json_post L RESPONSES_URL (insert_model (prov_upstream_model p)
       (transform_request (openai_request (lb_print L) cv) sid d)) (codex_headers L creds access sid)"
    using as_openai_rendered [OF assms(3)] by (metis sum.inject(2))
  obtain body where body: "openai_request (lb_print L) cv = JObj body" by (simp add: openai_request_def jobj_def)
  have "jget (insert_model m (transform_request (openai_request (lb_print L) cv) sid d)) ''input''
      = jget (transform_request (openai_request (lb_print L) cv) sid d) ''input''" for m
    by (simp add: body)
  with conversation_to_codex [OF assms(3)] show ?thesis by (intro exI [of _ "insert_model (prov_upstream_model p)
     (transform_request (openai_request (lb_print L) cv) sid d)"]) (simp add: rq)
qed

section \<open>Who shares a prompt cache\<close>

lemma conversation_text_scope: "conversation_text print body scope = Some x \<Longrightarrow> \<exists>rest. x = scope @ ''|'' @ rest"
  by (auto simp: conversation_text_def split: option.splits if_splits)

lemma conversation_text_named: "scope \<noteq> [] \<Longrightarrow> conversation_text print body scope \<noteq> None"
  by (simp add: conversation_text_def split: option.split)

lemma before_bar: "c \<notin> set s \<Longrightarrow> c \<notin> set t \<Longrightarrow> s @ c # a = t @ c # b \<Longrightarrow> s = t"
  by (induction s arbitrary: t) (auto simp: Cons_eq_append_conv append_eq_Cons_conv)

lemma conversation_texts_differ:
  assumes "s \<noteq> t" and "CHR ''|'' \<notin> set s" and "CHR ''|'' \<notin> set t"
  shows "conversation_text print b s \<noteq> conversation_text print b' t"
proof
  assume same: "conversation_text print b s = conversation_text print b' t"
  from assms(1) have "s \<noteq> [] \<or> t \<noteq> []" by blast
  with same conversation_text_named obtain x where "conversation_text print b s = Some x" by (metis option.exhaust)
  with same conversation_text_scope obtain r1 r2 where "s @ ''|'' @ r1 = t @ ''|'' @ r2" by metis
  with before_bar [OF assms(2,3), of r1 r2] assms(1) show False by simp
qed

lemma hex_digit_inj: "m < 16 \<Longrightarrow> n < 16 \<Longrightarrow> hex_digit m = hex_digit n \<Longrightarrow> m = n"
proof -
  have "distinct ''0123456789abcdef''" by simp
  then show "m < 16 \<Longrightarrow> n < 16 \<Longrightarrow> hex_digit m = hex_digit n \<Longrightarrow> m = n"
    unfolding hex_digit_def by (subst (asm) nth_eq_iff_index_eq) simp_all
qed

lemma hex_byte_length: "length (hex_byte a) = length (hex_byte b)"
  by (simp add: hex_byte_def)

lemma hex_byte_inj: "hex_byte a = hex_byte b \<Longrightarrow> a = b"
proof -
  assume same: "hex_byte a = hex_byte b"
  have "unat (x :: u8) < 2 ^ LENGTH(8)" for x by (rule unsigned_less)
  then have "unat (x :: u8) div 16 < 16" for x by (simp add: less_mult_imp_div_less)
  with same have "unat a div 16 = unat b div 16" "unat a mod 16 = unat b mod 16"
    by (auto simp: hex_byte_def dest: hex_digit_inj [rotated 2])
  then have "unat a = unat b" by (metis mult_div_mod_eq)
  then show "a = b" by (rule word_unat_eq_iff [THEN iffD2])
qed

lemma hex_inj: "concat (map hex_byte xs) = concat (map hex_byte ys) \<Longrightarrow> xs = ys"
proof (induction xs arbitrary: ys)
  case Nil
  then show ?case by (cases ys) (simp_all add: hex_byte_def)
next
  case (Cons a xs)
  then obtain b ys' where ys: "ys = b # ys'" by (cases ys) (simp_all add: hex_byte_def)
  from Cons.prems have "hex_byte a = hex_byte b" "concat (map hex_byte xs) = concat (map hex_byte ys')"
    by (simp_all add: ys append_eq_append_conv hex_byte_length)
  with Cons.IH ys show ?case by (simp add: hex_byte_inj)
qed

lemma shared_session_collides:
  assumes "s \<noteq> t" and "CHR ''|'' \<notin> set s" and "CHR ''|'' \<notin> set t"
    and "session_id L p wire s b = session_id L p wire t b'"
  shows "\<exists>x y. x \<noteq> y \<and> take 6 (lb_sha256 L x) = take 6 (lb_sha256 L y)"
proof -
  note differ = conversation_texts_differ [OF assms(1-3), of "lb_print L" b b']
  from assms(4) differ obtain x y where "conversation_text (lb_print L) b s = Some x" "conversation_text (lb_print L) b' t = Some y"
    "concat (map hex_byte (take 6 (lb_sha256 L x))) = concat (map hex_byte (take 6 (lb_sha256 L y)))"
    by (auto simp: session_id_def conversation_key_def split: option.splits)
  with differ hex_inj show ?thesis by (metis option.inject)
qed

section \<open>A Codex answer for an Anthropic client\<close>

lemma done_marker_read [simp]: "read_openai_block parse done_marker = DoneBlock"
  by code_simp

lemma stream_chunks_rendered:
  assumes "\<forall>c \<in> set cs. read_openai_block parse (render_openai_chunk print c) = ChunkBlock c"
  shows "stream_chunks parse (map (render_openai_chunk print) cs @ [done_marker]) = cs"
  using assms by (induction cs) simp_all

lemma codex_stream_translated:
  fixes L :: libs and p :: provider
  assumes "up_error up = None" and "pushes_fit new_framer (up_chunks up)" and "framer_feeds new_framer (up_chunks up) = (bs, f)"
  defines "es \<equiv> block_events (lb_parse_ok L) bs"
  defines "chunks \<equiv> fst (codex_chunks (prov_upstream_model p) new_chunk_state es)"
  assumes printed: "\<forall>c \<in> set chunks. read_openai_block (lb_parse_ok L) (render_openai_chunk (lb_print L) c) = ChunkBlock c"
    and served: "codex_transform_response L p Anthropic up True = Inr resp"
  shows "resp_status resp = up_status up \<and> resp_body resp = StreamBody (map (\<lambda>e. Inr (render_claude_event (lb_print L) e))
     (fst (claude_events chunks new_claude_stream)))"
proof -
  have stream: "bytes_stream up = map Inr (up_chunks up)" by (simp add: bytes_stream_def assms(1))
  have items: "convert_sse_stream (lb_parse_ok L) (lb_print L) (prov_upstream_model p) new_framer new_chunk_state (bytes_stream up)
      = map Inr (map (render_openai_chunk (lb_print L)) chunks @ [done_marker])"
    unfolding stream convert_sse_stream_fed [OF assms(2,3)] chunks_def es_def by simp
  have "claude_sse_of L (map Inr (map (render_openai_chunk (lb_print L)) chunks @ [done_marker]))
      = map (\<lambda>e. Inr (render_claude_event (lb_print L) e)) (fst (claude_events chunks new_claude_stream))"
    unfolding claude_sse_of_def convert_openai_stream stream_chunks_rendered [OF printed] ..
  with served show ?thesis by (auto simp: codex_transform_response_def items Let_def simp del: map_append map_map)
qed

lemma codex_answer_for_claude:
  fixes L :: libs and p :: provider
  assumes "up_error up = None" and "pushes_fit new_framer (up_chunks up)"
  defines "es \<equiv> block_events (lb_parse_ok L) (fst (framer_feeds new_framer (up_chunks up)))"
  defines "chunks \<equiv> fst (codex_chunks (prov_upstream_model p) new_chunk_state es)"
  assumes printed: "\<forall>c \<in> set chunks. read_openai_block (lb_parse_ok L) (render_openai_chunk (lb_print L) c) = ChunkBlock c"
    and ended: "es = before @ [(''response.completed'', data)]" "\<forall>e \<in> set before. fst e \<noteq> ''response.completed''"
      "announced_first {} es"
    and served: "ad_transform_response (adapter_for_wire L p Anthropic scope) t rq up True = Inr resp" "prov_kind p = OauthCodex"
  shows "\<exists>out. resp_body resp = StreamBody (map (\<lambda>e. Inr (render_claude_event (lb_print L) e)) out)
     \<and> protocol_run Idle out = Some Finished \<and> texts out = concat (map event_text es)
     \<and> (\<exists>block. inj_on block {k. \<exists>A. says A (call_parts k es)}
          \<and> (\<forall>k A. says A (call_parts k es) \<longrightarrow> inputs (block k) out = A))"
proof -
  have fed: "framer_feeds new_framer (up_chunks up) = (fst (framer_feeds new_framer (up_chunks up)), snd (framer_feeds new_framer (up_chunks up)))"
    by simp
  from served have "codex_transform_response L p Anthropic up True = Inr resp"
    by (simp add: adapter_for_wire_def codex_adapter_def)
  from codex_stream_translated [OF assms(1,2) fed printed [unfolded chunks_def es_def] this]
  have resp: "resp_body resp = StreamBody (map (\<lambda>e. Inr (render_claude_event (lb_print L) e)) (fst (claude_events chunks new_claude_stream)))"
    by (simp add: chunks_def es_def)
  show ?thesis
    using codex_to_claude [OF ended, of "prov_upstream_model p"]
    unfolding resp chunks_def [symmetric] by blast
qed

section \<open>Tool calls and their results\<close>

text \<open>The calls named by the parts of the messages of one role.\<close>

definition part_ids :: "string \<Rightarrow> json list \<Rightarrow> string set" where
  "part_ids role ms = {i. \<exists>m \<in> set ms. has_role role m \<and> (\<exists>b \<in> set (elements_at m ''content''). str_at b ''toolCallId'' = Some i)}"

lemma has_role_message [simp]: "has_role r (message_of r' c) \<longleftrightarrow> r' = r"
  by (auto simp: has_role_def str_at_def)

lemma content_elements [simp]: "elements_at (message_of r (JArr bs)) ''content'' = bs"
  by (simp add: elements_at_def)

lemma part_call_id [simp]:
  "str_at (tool_call_part parse c) ''toolCallId'' = Some (str_of c ''id'')"
  "str_at (text_block s) ''toolCallId'' = None"
  by (simp_all add: tool_call_part_def text_block_def str_at_def jget_jobj)

lemma part_ids_convert:
  "part_ids role (convert_message parse paired names m) =
     (if openai_role m = ''assistant'' \<and> role = ''assistant''
      then {i \<in> (\<lambda>c. str_of c ''id'') ` set (elements_at m ''tool_calls''). i \<in> paired}
      else if openai_role m = ''tool'' \<and> role = ''tool'' then {str_of m ''tool_call_id''} \<inter> paired
      else {})" if "role \<in> {''assistant'', ''tool''}"
proof -
  have result: "part_ids ''tool'' [tool_result_message names i m'] = {i}" "part_ids ''assistant'' [tool_result_message names i m'] = {}" for i m'
    by (simp_all add: part_ids_def tool_result_message_def str_at_def jget_jobj)
  have said: "part_ids ''assistant'' [message_of ''assistant'' (JArr (assistant_content parse paired m))]
      = {i \<in> (\<lambda>c. str_of c ''id'') ` set (elements_at m ''tool_calls''). i \<in> paired}"
    "part_ids ''tool'' [message_of ''assistant'' (JArr (assistant_content parse paired m))] = {}"
  proof -
    have parts: "part_ids r [message_of ''assistant'' (JArr (ts @ map (tool_call_part parse) cs))]
        = (if r = ''assistant'' then (\<lambda>c. str_of c ''id'') ` set cs else {})"
      if "\<forall>t \<in> set ts. str_at t ''toolCallId'' = None" for r ts cs
      using that by (auto simp: part_ids_def) (metis UnCI image_eqI part_call_id(1))
    have ids: "{i \<in> (\<lambda>c. str_of c ''id'') ` set cs. i \<in> paired} = (\<lambda>c. str_of c ''id'') ` set (filter (\<lambda>c. str_of c ''id'' \<in> paired) cs)" for cs
      by auto
    show "part_ids ''assistant'' [message_of ''assistant'' (JArr (assistant_content parse paired m))]
        = {i \<in> (\<lambda>c. str_of c ''id'') ` set (elements_at m ''tool_calls''). i \<in> paired}"
      "part_ids ''tool'' [message_of ''assistant'' (JArr (assistant_content parse paired m))] = {}"
      unfolding assistant_content_def ids by (subst parts; auto split: option.splits)+
  qed
  have empty: "part_ids r [] = {}" for r by (simp add: part_ids_def)
  have none: "{i \<in> (\<lambda>c. str_of c ''id'') ` set (elements_at m ''tool_calls''). i \<in> paired} = {}"
    if "assistant_content parse paired m = []"
    using that by (auto simp: assistant_content_def filter_empty_conv split: option.splits if_splits)
  have other: "part_ids role [message_of r c] = {}" if "r \<noteq> ''assistant''" "r \<noteq> ''tool''" for r c
    using that \<open>role \<in> _\<close> by (auto simp: part_ids_def)
  consider "role = ''assistant''" | "role = ''tool''" using \<open>role \<in> _\<close> by blast
  then show ?thesis
  proof cases
    case 1
    show ?thesis
      unfolding 1 convert_message_def Let_def
      by (simp add: result said empty none other [unfolded 1] del: Collect_empty_eq)
  next
    case 2
    show ?thesis
      unfolding 2 convert_message_def Let_def
      by (simp add: result said empty other [unfolded 2])
  qed
qed

lemma part_ids_concat: "part_ids role (concat xss) = (\<Union>xs \<in> set xss. part_ids role xs)"
  by (auto simp: part_ids_def)

lemma has_role_openai: "has_role r m \<Longrightarrow> openai_role m = r"
  by (simp add: has_role_def openai_role_def)

lemma call_ids_paired:
  assumes "role \<in> {''assistant'', ''tool''}"
  shows "part_ids role (convert_messages parse ms) = complete_tool_call_ids ms"
proof
  show "part_ids role (convert_messages parse ms) \<subseteq> complete_tool_call_ids ms"
    by (auto simp: convert_messages_def part_ids_concat part_ids_convert [OF assms] split: if_splits)
  show "complete_tool_call_ids ms \<subseteq> part_ids role (convert_messages parse ms)"
  proof
    fix i assume i: "i \<in> complete_tool_call_ids ms"
    then obtain m c t where m: "m \<in> set ms" "has_role ''assistant'' m" "c \<in> set (elements_at m ''tool_calls'')" "str_at c ''id'' = Some i"
      and t: "t \<in> set ms" "has_role ''tool'' t" "str_at t ''tool_call_id'' = Some i"
      by (auto simp: complete_tool_call_ids_def assistant_calls_def List.map_filter_def)
    have "str_of c ''id'' = i" "str_of t ''tool_call_id'' = i"
      using m(4) t(3) by (auto simp: str_of_def str_at_def jidx_def bind_eq_Some_conv)
    then have "i \<in> part_ids ''assistant'' (convert_message parse (complete_tool_call_ids ms) (tool_names ms) m)"
      "i \<in> part_ids ''tool'' (convert_message parse (complete_tool_call_ids ms) (tool_names ms) t)"
      using i m(2,3) t(2) by (auto simp: part_ids_convert has_role_openai)
    with m(1) t(1) assms show "i \<in> part_ids role (convert_messages parse ms)"
      unfolding convert_messages_def part_ids_concat by auto
  qed
qed

end
