(* ===== verification/CommandCodeSpec.thy ===== *)
theory CommandCodeSpec
  imports AdapterSpec
begin

text \<open>
  What Command Code gets at its three endpoints, and what all adapters send: the shape each
  upstream asks for.
\<close>

section \<open>The generate envelope\<close>

lemma generate_params_reads:
  "jget (generate_params parse client) ''messages'' = Some (JArr (convert_messages parse (elements_at client ''messages'')))"
  "jget (generate_params parse client) ''max_tokens''
     = Some (jint (clamp_tokens (unwrap_or (as_i64 (jidx client ''max_tokens'')) DEFAULT_MAX_TOKENS)))"
  "jget (generate_params parse client) ''stream'' = Some (JBool True)"
  "jget (generate_params parse client) ''system'' = Some (JStr (unwrap_or (system_prompt (elements_at client ''messages'')) []))"
  "is_object (generate_params parse client)"
  by (simp_all add: generate_params_def Let_def jget_jobj)

lemma clamp_tokens_range: "1 \<le> clamp_tokens n" "clamp_tokens n \<le> 64000"
  by (simp_all add: clamp_tokens_def DEFAULT_MAX_TOKENS_def)

lemma as_i64_jint: "- (2 ^ 63) \<le> n \<Longrightarrow> n < 2 ^ 63 \<Longrightarrow> as_i64 (jint n) = Some n"
  by (auto simp: jint_def nat_less_iff)

lemma clamped: "as_i64 (jint (clamp_tokens n)) = Some (clamp_tokens n)"
  using clamp_tokens_range [of n] by (intro as_i64_jint) simp_all

definition generate_ok :: "string \<Rightarrow> json \<Rightarrow> bool" where
  "generate_ok model j \<longleftrightarrow>
     (let params = jidx j ''params''
      in jget params ''model'' = Some (JStr model) \<and> str_at params ''system'' \<noteq> None
       \<and> jget params ''stream'' = Some (JBool True)
       \<and> (case as_i64 (jidx params ''max_tokens'') of Some n \<Rightarrow> 1 \<le> n \<and> n \<le> 64000 | None \<Rightarrow> False)
       \<and> part_ids ''assistant'' (elements_at params ''messages'') = part_ids ''tool'' (elements_at params ''messages''))"

lemma generate_body_ok: "generate_ok (prov_upstream_model p) (generate_body L t p client)"
proof -
  let ?params = "jset ''model'' (JStr (prov_upstream_model p)) (generate_params (lb_parse_ok L) client)"
  have params: "jidx (generate_body L t p client) ''params'' = ?params"
    by (simp add: generate_body_def generate_envelope_def jidx_def jget_jobj)
  have msgs: "elements_at ?params ''messages'' = convert_messages (lb_parse_ok L) (elements_at client ''messages'')"
    by (simp add: elements_at_def jget_jset generate_params_reads)
  show ?thesis
    unfolding generate_ok_def Let_def params
    by (simp add: msgs call_ids_paired str_at_def jidx_def jget_jset generate_params_reads clamped clamp_tokens_range)
qed

section \<open>The Messages endpoint\<close>

lemma merge_message_ok:
  assumes "list_all claude_message_ok out" and "claude_message_ok m"
  shows "list_all claude_message_ok (merge_message out m)"
proof (cases "out \<noteq> [] \<and> is_tool_result_only m \<and> is_tool_result_only (last out)")
  case True
  let ?l = "last out"
  have l: "claude_message_ok ?l" using assms(1) True by (simp add: list_all_iff)
  have blocks: "list_all claude_block_ok (elements_at x ''content'')" "is_object x" "has_role ''user'' x"
    if "claude_message_ok x" "is_tool_result_only x" for x
  proof -
    from that(2) obtain bs where bs: "jget x ''content'' = Some (JArr bs)"
      by (auto simp: is_tool_result_only_def bind_eq_Some_conv split: option.splits elim!: as_array.elims)
    with that(1) show "list_all claude_block_ok (elements_at x ''content'')" by (simp add: claude_message_ok_def elements_at_def)
    from bs show "is_object x" by (cases x) simp_all
    from that(2) show "has_role ''user'' x" by (simp add: is_tool_result_only_def)
  qed
  have "claude_message_ok (jset ''content'' (JArr (elements_at ?l ''content'' @ elements_at m ''content'')) ?l)"
    using blocks [OF l] blocks [OF assms(2)] True
    by (auto simp: claude_message_ok_def jget_jset str_at_def has_role_def)
  moreover have "list_all claude_message_ok (butlast out)" using assms(1) by (auto simp: list_all_iff dest: in_set_butlastD)
  ultimately show ?thesis using True by (simp add: merge_message_def)
next
  case False
  then have "merge_message out m = out @ [m]" unfolding merge_message_def by (simp only: if_False)
  with assms show ?thesis by simp
qed

lemma merged_ok: "list_all claude_message_ok ms \<Longrightarrow> list_all claude_message_ok (merge_consecutive_tool_result_messages ms)"
proof -
  have "list_all claude_message_ok ms \<Longrightarrow> list_all claude_message_ok out \<Longrightarrow> list_all claude_message_ok (foldl merge_message out ms)" for out
    by (induction ms arbitrary: out) (simp_all add: merge_message_ok)
  from this [of "[]"] show "list_all claude_message_ok ms \<Longrightarrow> ?thesis"
    by (simp add: merge_consecutive_tool_result_messages_def)
qed

lemma messages_body_ok:
  assumes "openai_to_commandcode_messages parse client = Done out"
  shows "claude_request_ok out" and "is_object out"
proof -
  from assms obtain v where v: "openai_to_claude_request parse client = Done v"
    by (auto simp: openai_to_commandcode_messages_def split: outcome.splits)
  from claude_request_typed [where parse = parse and body = client] v have ok: "claude_request_ok v" by simp
  then obtain ms where ms: "jget v ''messages'' = Some (JArr ms)" "list_all claude_message_ok ms" "jget v ''max_tokens'' \<noteq> None"
    by (auto simp: claude_request_ok_def split: option.splits json.splits)
  then have obj: "is_object v" by (cases v) simp_all
  let ?v = "jset ''messages'' (JArr (merge_consecutive_tool_result_messages ms)) v"
  have out: "out = (if jget client ''max_tokens'' = None then jset ''max_tokens'' (jint DEFAULT_MAX_TOKENS) ?v else ?v)"
    using assms by (simp add: openai_to_commandcode_messages_def v ms(1) Let_def split: if_splits)
  show "is_object out" using obj by (simp add: out)
  show "claude_request_ok out"
    using ms obj by (simp add: out claude_request_ok_def jget_jset merged_ok)
qed

section \<open>Every upstream\<close>

text \<open>What must hold of the object sent, by the upstream it goes to.\<close>

definition sent_ok :: "libs \<Rightarrow> provider \<Rightarrow> wire_format \<Rightarrow> json \<Rightarrow> request \<Rightarrow> json \<Rightarrow> bool" where
  "sent_ok L p wire client rq j \<longleftrightarrow>
     (case prov_kind p of
        Passthrough \<Rightarrow> jget j ''model'' = Some (JStr (prov_upstream_model p))
          \<and> (if translates p wire then request_ok (prov_wire_format p) j
             else \<forall>k. k \<notin> insert ''model'' INJECTED \<longrightarrow> jget j k = jget client k)
      | OauthCodex \<Rightarrow> jget j ''model'' = Some (JStr (prov_upstream_model p)) \<and> codex_accepts j
      | OauthCommandCode \<Rightarrow>
          (case shape_of L rq of
             GenerateEnvelope \<Rightarrow> generate_ok (prov_upstream_model p) j
           | AnthropicMessages \<Rightarrow> jget j ''model'' = Some (JStr (prov_upstream_model p))
               \<and> (wire = OpenAi \<longrightarrow> claude_request_ok j)
           | OpenAiChat \<Rightarrow> jget j ''model'' = Some (JStr (prov_upstream_model p))
               \<and> (wire = Anthropic \<longrightarrow> openai_request_ok j)))"

lemma inject_thinking_kept:
  assumes "is_object v"
  shows "k \<notin> INJECTED \<Longrightarrow> jget (inject_thinking p client v) k = jget v k"
    and "jget v ''max_tokens'' \<noteq> None \<Longrightarrow> jget (inject_thinking p client v) ''max_tokens'' \<noteq> None"
proof -
  from assms obtain m where v: "v = JObj m" by (cases v) simp_all
  have kept: "k \<notin> INJECTED \<Longrightarrow> jget (inject_anthropic_thinking v l) k = jget v k" for k l
    unfolding v jget_inject_anthropic by (simp add: INJECTED_def)
  have limit: "jget (inject_anthropic_thinking v l) ''max_tokens'' \<noteq> None" for l
    unfolding v jget_inject_anthropic by simp
  show "k \<notin> INJECTED \<Longrightarrow> jget (inject_thinking p client v) k = jget v k"
    using kept by (simp add: inject_thinking_def split: option.split prod.split capability.split)
  show "jget v ''max_tokens'' \<noteq> None \<Longrightarrow> jget (inject_thinking p client v) ''max_tokens'' \<noteq> None"
    using limit by (simp add: inject_thinking_def split: option.split prod.split capability.split)
qed

lemma command_code_sent:
  assumes "command_code_body L t p wire tr client = Done (url, j, shape)" and "is_object client" and "rq_url rq = url"
    and "prov_kind p = OauthCommandCode"
  shows "sent_ok L p wire client rq j"
proof -
  note shape = command_code_shape [OF assms(1,3)]
  let ?model = "jset ''model'' (JStr (prov_upstream_model p))"
  consider (generate) "tr = GenerateTransport"
    | (messages) "tr \<noteq> GenerateTransport" "wants_messages_shape (prov_upstream_model p)"
    | (chat) "tr \<noteq> GenerateTransport" "\<not> wants_messages_shape (prov_upstream_model p)" by blast
  then show ?thesis
  proof cases
    case generate
    with assms(1) have "j = generate_body L t p (as_openai L wire client)" "shape = GenerateEnvelope"
      by (simp_all add: command_code_body_def)
    then show ?thesis using generate_body_ok by (simp add: sent_ok_def assms(4) shape)
  next
    case messages
    with assms(1) obtain v m where v: "(case wire of Anthropic \<Rightarrow> Done client | OpenAi \<Rightarrow> openai_to_commandcode_messages (lb_parse_ok L) client) = Done v"
      and m: "assign_model (prov_upstream_model p) v = Done m" and j: "j = inject_thinking p client m" "shape = AnthropicMessages"
      by (auto simp: command_code_body_def split: outcome.splits)
    have obj: "is_object v" using v assms(2) messages_body_ok(2) by (cases wire) auto
    with m have m: "m = ?model v" by (simp add: assign_model_object)
    have kept: "k \<notin> INJECTED \<Longrightarrow> jget j k = jget (?model v) k" for k
      using inject_thinking_kept(1) [of "?model v"] obj by (simp add: j m)
    have limit: "jget v ''max_tokens'' \<noteq> None \<Longrightarrow> jget j ''max_tokens'' \<noteq> None"
      using inject_thinking_kept(2) [of "?model v"] obj by (simp add: j m jget_jset)
    have "request_ok Anthropic j" if "wire = OpenAi"
    proof (rule request_ok_cong)
      show "request_ok Anthropic v" using v that messages_body_ok(1) by (simp add: request_ok_def)
    qed (use kept limit obj in \<open>simp_all add: INJECTED_def jget_jset\<close>)
    then show ?thesis using kept obj by (simp add: sent_ok_def assms(4) shape j(2) request_ok_def INJECTED_def jget_jset)
  next
    case chat
    with assms(1) obtain m where m: "assign_model (prov_upstream_model p) (as_openai L wire client) = Done m"
      and j: "j = m" "shape = OpenAiChat"
      by (auto simp: command_code_body_def split: outcome.splits)
    have obj: "is_object (as_openai L wire client)" by (rule as_openai_object [OF assms(2)])
    with m have m: "m = ?model (as_openai L wire client)" by (simp add: assign_model_object)
    have "request_ok OpenAi m" if "wire = Anthropic"
    proof (rule request_ok_cong)
      show "request_ok OpenAi (as_openai L wire client)" using that by (simp add: as_openai_def request_ok_def openai_request_typed)
    qed (use obj in \<open>simp_all add: m jget_jset\<close>)
    then show ?thesis using obj by (simp add: sent_ok_def assms(4) shape j request_ok_def m jget_jset)
  qed
qed

lemma request_sent:
  assumes "ad_build_request (adapter_for_wire L p wire scope) t transports body creds = Done (Inr rq)"
    and "lb_parse L body = Inr client" and "is_object client"
  shows "\<exists>j. rq_body rq = lb_print L j \<and> sent_ok L p wire client rq j"
proof (cases "prov_kind p")
  case Passthrough
  with assms(1) have "http_build_request L p wire body creds = Done (Inr rq)"
    by (simp add: adapter_for_wire_def http_adapter_def)
  from http_request_body [OF this assms(2,3)] show ?thesis by (auto simp: sent_ok_def Passthrough)
next
  case OauthCodex
  with assms(1) have "codex_build_request L p wire scope body creds = Inr rq"
    by (simp add: adapter_for_wire_def codex_adapter_def)
  from codex_request_body [OF this assms(2,3)] show ?thesis by (auto simp: sent_ok_def OauthCodex)
next
  case OauthCommandCode
  with assms(1) have "command_code_build_request L t p wire transports body creds = Done (Inr rq)"
    by (simp add: adapter_for_wire_def command_code_adapter_def)
  then obtain original access url j shape where "lb_parse L body = Inr original"
    and built: "command_code_body L t p wire (pinned_transport transports p creds) original = Done (url, j, shape)"
      "rq = json_post L url j (bearer access # command_code_headers (lb_cwd L))" by (rule command_code_built)
  with assms(2) have "original = client" by simp
  with command_code_sent [OF built(1) _ _ OauthCommandCode, of rq] assms(3) built(2)
  show ?thesis by (auto simp: json_post_sel)
qed

end
