(* ===== verification/ExampleBridge.thy ===== *)
theory ExampleBridge
  imports BridgeStream BridgeSpec
begin

text \<open>
  Requests and chunks for the witnesses about the translation between the wire formats.
  The parser and the printer know just the one value the examples carry as text.
\<close>

definition paris :: json where
  "paris = JObj [(''city'', JStr ''Paris'')]"

definition print_paris :: "json \<Rightarrow> string" where
  "print_paris v = (if v = paris then ''PARIS'' else [])"

definition parse_paris :: "string \<Rightarrow> json option" where
  "parse_paris s = (if s = ''PARIS'' then Some paris else None)"

definition weather_chat :: conversation where
  "weather_chat = \<lparr>cv_model = ''m'', cv_stream = JBool True, cv_system = ''be brief'',
     cv_turns = [UserSays ''weather?'', AssistantCalls [] [\<lparr>cl_id = ''c1'', cl_name = ''weather'', cl_input = paris\<rparr>],
       ToolAnswers ''c1'' ''sunny'', UserShows [''and here?''] [(''image/png'', ''AAAA'')]],
     cv_tools = Some [\<lparr>tl_name = ''weather'', tl_description = ''now'', tl_schema = empty_schema\<rparr>],
     cv_choice = Some (ThisTool ''weather''), cv_max_tokens = jnat 64, cv_temperature = None\<rparr>"

text \<open>A stream of two chunks, the second of which ends it.\<close>

definition delta_chunk :: "(string \<times> json) list \<Rightarrow> json \<Rightarrow> json" where
  "delta_chunk delta finish = jobj [(''choices'', JArr [jobj [(''delta'', jobj delta), (''finish_reason'', finish)]])]"

definition hello_chunk :: json where
  "hello_chunk = delta_chunk [(''content'', JStr ''hello'')] JNull"

definition call_chunk :: "(string \<times> json) list \<Rightarrow> string \<Rightarrow> json" where
  "call_chunk named args = delta_chunk [(''tool_calls'', JArr [jobj (named @
      [(''index'', jnat 1), (''function'', jobj [(''name'', JStr ''weather''), (''arguments'', JStr args)])])])] JNull"

definition end_chunk :: json where
  "end_chunk = delta_chunk [] (JStr ''stop'')"

definition parse_chunk :: "string \<Rightarrow> json option" where
  "parse_chunk s = (if s = ''1'' then Some hello_chunk else if s = ''2'' then Some end_chunk else None)"

end
