(* ===== verification/ExampleAdapters.thy ===== *)
theory ExampleAdapters
  imports CommandCodeSpec ExampleWorld ExampleBridge
begin

text \<open>
  Libraries that know the few values the witnesses send, and a Codex answer cut in the middle.
\<close>

text \<open>The two chunks of the example stream are told apart by their finish reason.\<close>

definition text_chunk :: json where
  "text_chunk = chat_chunk new_chunk_state ''gpt-5'' (jobj [(''content'', JStr ''hi'')]) None"

definition last_chunk :: json where
  "last_chunk = chat_chunk new_chunk_state ''gpt-5'' (JObj []) (Some ''stop'')"

definition text_event :: json where
  "text_event = jobj [(''delta'', JStr ''hi'')]"

definition example_print :: "json \<Rightarrow> string" where
  "example_print v = (if v = paris then ''PARIS'' else if v = text_chunk then ''TEXT'' else if v = last_chunk then ''LAST'' else ''OTHER'')"

definition example_parse :: "string \<Rightarrow> string + json" where
  "example_parse s =
     (if s = ''CHAT'' then Inr (openai_request example_print weather_chat)
      else if s = ''MESSAGES'' then Inr (claude_request weather_chat)
      else if s = ''PARIS'' then Inr paris
      else if s = ''TEXT'' then Inr text_chunk else if s = ''LAST'' then Inr last_chunk
      else if s = ''DELTA'' then Inr text_event else if s = ''{}'' then Inr (JObj []) else Inl ''no json'')"

definition example_libs :: libs where
  "example_libs =
     \<lparr>lb_parse = example_parse, lb_print = example_print, lb_rejects = (\<lambda>rq. None), lb_header_ok = (\<lambda>s. True),
      lb_text = (\<lambda>up. Inr (concat (up_chunks up))), lb_sha256 = (\<lambda>s. [word_of_nat (length s)]),
      lb_uuid = (\<lambda>t. ''u''), lb_today = (\<lambda>t. ''2026-01-01''), lb_timestamp = (\<lambda>t. 7), lb_cwd = ''/work'',
      lb_environment = ''linux'', lb_version = ''1'', lb_commandcode_base = None\<rparr>"

text \<open>A gateway with the real adapters.\<close>

definition wired_env :: "(http_error + upstream) \<Rightarrow> env" where
  "wired_env answer = (example_env answer)\<lparr>env_adapter := adapter_for_wire example_libs\<rparr>"

lemma wired_adapter: "env_adapter (wired_env answer) = adapter_for_wire example_libs"
  by (simp add: wired_env_def)

lemma wired_sane: "sane_resets (wired_env answer)"
  by (simp add: sane_resets_def wired_env_def example_env_def)

definition codex_credentials :: credentials where
  "codex_credentials = from_provider_and_oauth gamma (Some gamma_tokens)"

text \<open>The first two bytes of an event arrive with the event before it.\<close>

definition codex_answer :: upstream where
  "codex_answer =
     \<lparr>up_status = 200, up_headers = [],
      up_chunks = [''event: response.output_text.delta'' @ [LF] @ ''data: DELTA'' @ [LF, LF] @ ''ev'',
                   ''ent: response.completed'' @ [LF] @ ''data: {}'' @ [LF, LF]],
      up_error = None\<rparr>"

definition codex_events :: "event list" where
  "codex_events = [(''response.output_text.delta'', text_event), (''response.completed'', JObj [])]"

lemma codex_answer_fits: "pushes_fit new_framer (up_chunks codex_answer)"
  by code_simp

lemma codex_answer_events:
  "block_events (lb_parse_ok example_libs) (fst (framer_feeds new_framer (up_chunks codex_answer))) = codex_events"
  by code_simp

lemma codex_answer_chunks:
  "fst (codex_chunks (prov_upstream_model gamma) new_chunk_state codex_events) = [text_chunk, last_chunk]"
  by code_simp

lemma codex_answer_printed:
  "\<forall>c \<in> set [text_chunk, last_chunk]. read_openai_block (lb_parse_ok example_libs) (render_openai_chunk (lb_print example_libs) c) = ChunkBlock c"
  by code_simp

end
