(* ===== verification/ResponsesSpec.thy ===== *)
theory ResponsesSpec
  imports ProxyRoutes AdapterSpec
begin

text \<open>
  The Responses API in front of the failover loop: every request is answered, a conversation a
  client of this API sends reaches a Codex provider item by item although it passes through Chat
  Completions on the way, and a tool inside a namespace comes back under the name it was sent with.
\<close>

section \<open>From the input of the Responses API to chat messages and back\<close>

text \<open>The items the Codex adapter makes of a list of chat messages.\<close>

definition codex_items :: "json list \<Rightarrow> json list" where
  "codex_items ms = concat (map input_items (map developer_role ms))"

lemma codex_items_append [simp]: "codex_items (ms @ ns) = codex_items ms @ codex_items ns" "codex_items [] = []"
  by (simp_all add: codex_items_def)

text \<open>An assistant's message that calls can be added to.\<close>

definition takes_calls :: "json \<Rightarrow> bool" where
  "takes_calls m \<longleftrightarrow>
     is_object m \<and>
     (case jget m ''tool_calls'' of
        Some v \<Rightarrow> as_array v \<noteq> None
      | None \<Rightarrow> message_text m \<noteq> [] \<and> Option.bind (jget m ''content'') as_str \<noteq> None)"

definition calls_in :: "json \<Rightarrow> json list" where
  "calls_in m = unwrap_or (Option.bind (jget m ''tool_calls'') as_array) []"

definition last_settled :: "json list \<Rightarrow> bool" where
  "last_settled ms \<longleftrightarrow> ms = [] \<or> str_at (last ms) ''role'' \<noteq> Some ''assistant'' \<or> takes_calls (last ms)"

lemma assistant_items:
  assumes "str_at m ''role'' = Some ''assistant''" and "takes_calls m"
  shows "input_items (developer_role m) = (if message_text m \<noteq> [] then [message_item ''assistant'' [output_text (message_text m)]] else [])
     @ map function_call_item (calls_in m)"
proof (cases "jget m ''tool_calls''")
  case None
  with assms obtain s where "jget m ''content'' = Some (JStr s)" "s \<noteq> []"
    by (auto simp: takes_calls_def message_text_def bind_eq_Some_conv split: json.splits elim: as_str.elims)
  then show ?thesis
    using None assms(1) by (simp add: developer_role_def input_items_def openai_role_def calls_in_def
        message_content_parts_def message_text_def output_text_def)
next
  case (Some v)
  with assms show ?thesis
    by (auto simp: developer_role_def input_items_def openai_role_def calls_in_def takes_calls_def output_text_def Let_def)
qed

lemma call_added:
  fixes m c :: json
  assumes "str_at m ''role'' = Some ''assistant''" and "takes_calls m"
  defines "m' \<equiv> jset ''tool_calls'' (JArr (calls_in m @ [c])) m"
  shows "input_items (developer_role m') = input_items (developer_role m) @ [function_call_item c]"
    and "str_at m' ''role'' = Some ''assistant''" and "takes_calls m'"
proof -
  have "is_object m" using assms(2) by (simp add: takes_calls_def)
  then have reads: "jget m' ''tool_calls'' = Some (JArr (calls_in m @ [c]))" "message_text m' = message_text m"
      "str_at m' ''role'' = str_at m ''role''" "is_object m'"
    by (simp_all add: m'_def jget_jset message_text_def str_at_def)
  then show "str_at m' ''role'' = Some ''assistant''" "takes_calls m'" using assms(1) by (simp_all add: takes_calls_def)
  from assistant_items [OF this] assistant_items [OF assms(1,2)] reads
  show "input_items (developer_role m') = input_items (developer_role m) @ [function_call_item c]"
    by (simp add: calls_in_def)
qed

lemma call_opened:
  "input_items (developer_role (jobj [(''role'', JStr ''assistant''), (''content'', JNull), (''tool_calls'', JArr [c])])) = [function_call_item c]"
  "takes_calls (jobj [(''role'', JStr ''assistant''), (''content'', JNull), (''tool_calls'', JArr [c])])"
  by (simp_all add: input_items_def developer_role_def openai_role_def takes_calls_def message_text_def str_at_def jget_jobj)

lemma push_tool_call_items:
  assumes "last_settled ms"
  shows "codex_items (push_tool_call ms c) = codex_items ms @ [function_call_item c] \<and> last_settled (push_tool_call ms c)"
proof (cases "ms \<noteq> [] \<and> str_at (last ms) ''role'' = Some ''assistant''")
  case True
  then have m: "str_at (last ms) ''role'' = Some ''assistant''" "takes_calls (last ms)" using assms by (auto simp: last_settled_def)
  have calls: "(case Option.bind (jget (last ms) ''tool_calls'') as_array of Some calls \<Rightarrow> calls | None \<Rightarrow> []) = calls_in (last ms)"
    by (simp add: calls_in_def split: option.split)
  have "codex_items ms = codex_items (butlast ms) @ input_items (developer_role (last ms))"
    using codex_items_append(1) [of "butlast ms" "[last ms]"] True by (simp add: codex_items_def)
  then show ?thesis
    using True call_added [OF m, of c] by (simp add: push_tool_call_def calls codex_items_def last_settled_def)
next
  case False
  then show ?thesis
    using call_opened [of c] unfolding push_tool_call_def if_not_P [OF False] by (simp add: codex_items_def last_settled_def)
qed


text \<open>Turns whose items this API and Chat Completions can both express.\<close>

fun item_turn_ok :: "turn \<Rightarrow> bool" where
  "item_turn_ok (UserShows _ images) \<longleftrightarrow> images \<noteq> []"
| "item_turn_ok (AssistantSays s) \<longleftrightarrow> s \<noteq> []"
| "item_turn_ok (AssistantCalls _ calls) \<longleftrightarrow> calls \<noteq> []"
| "item_turn_ok _ \<longleftrightarrow> True"

lemma call_of_call_item: "function_call_item (call_of_item (call_item print c)) = call_item print c"
  by (simp add: call_of_item_def call_item_def function_call_item_def tool_label_def or_else_def reading)

lemma push_calls:
  assumes "last_settled ms"
  shows "codex_items (foldl (push_item print) ms (map (call_item print) cs)) = codex_items ms @ map (call_item print) cs
     \<and> last_settled (foldl (push_item print) ms (map (call_item print) cs))"
  using assms
proof (induction cs arbitrary: ms)
  case (Cons c cs)
  have "push_item print ms (call_item print c) = push_tool_call ms (call_of_item (call_item print c))"
    by (simp add: push_item_def call_item_def reading)
  then show ?case
    using Cons.IH push_tool_call_items [OF Cons.prems] by (simp add: call_of_call_item)
qed simp

lemma text_parts: "text_of_parts (JArr [output_text s]) = s" "text_of_parts (JArr [input_text s]) = s"
  by (simp_all add: text_of_parts_def output_text_def input_text_def map_filter_simps reading)

lemma chat_parts:
  "chat_part (input_text s) = Some (text_block s)" "chat_part (input_image m) = Some (openai_image m)"
  by (simp_all add: chat_part_def input_text_def input_image_def openai_image_def reading)

lemma chat_content_text: "chat_content (JArr [input_text s]) = JStr s"
  by (simp add: chat_content_def chat_parts map_filter_simps text_block_def reading)

lemma chat_content_images:
  assumes "ms \<noteq> []"
  shows "chat_content (JArr (map input_text ts @ map input_image ms)) = JArr (map text_block ts @ map openai_image ms)"
proof -
  have "List.map_filter chat_part (map input_text ts) = map text_block ts"
    by (induction ts) (simp_all add: map_filter_simps chat_parts)
  moreover have "List.map_filter chat_part (map input_image ms) = map openai_image ms"
    by (induction ms) (simp_all add: map_filter_simps chat_parts)
  moreover have "\<not> list_all (\<lambda>p. str_at p ''type'' = Some ''text'') (map openai_image ms)"
    using assms by (cases ms) (simp_all add: openai_image_def reading)
  ultimately show ?thesis by (simp add: chat_content_def map_filter_append)
qed


lemma push_message:
  "push_item print ms (message_item r ps) = ms @ [message_of (if r = ''developer'' then ''system'' else r)
     (if r = ''assistant'' then JStr (text_of_parts (JArr ps)) else chat_content (JArr ps))]"
  by (simp add: push_item_def message_item_def item_role_def reading Let_def)

lemma developer_role_other: "r \<noteq> ''system'' \<Longrightarrow> developer_role (message_of r c) = message_of r c"
  by (simp add: developer_role_def str_at_def)

lemma settled_message: "r \<noteq> ''assistant'' \<Longrightarrow> last_settled (ms @ [message_of r c])"
  by (simp add: last_settled_def str_at_def)

lemma push_turn:
  assumes "item_turn_ok t" and "last_settled ms"
  shows "codex_items (foldl (push_item print) ms (codex_turn print t)) = codex_items ms @ codex_turn print t
     \<and> last_settled (foldl (push_item print) ms (codex_turn print t))"
proof -
  have said: "codex_items (push_item print ns (message_item ''assistant'' [output_text s])) = codex_items ns @ [message_item ''assistant'' [output_text s]]
     \<and> last_settled (push_item print ns (message_item ''assistant'' [output_text s]))" if "s \<noteq> []" for ns s
  proof -
    let ?m = "message_of ''assistant'' (JStr s)"
    have m: "str_at ?m ''role'' = Some ''assistant''" "takes_calls ?m" "message_text ?m = s" "calls_in ?m = []"
      using that by (simp_all add: takes_calls_def message_text_def calls_in_def message_of_def str_at_def jget_jobj)
    then show ?thesis
      using assistant_items [OF m(1,2)] that by (simp add: push_message text_parts codex_items_def last_settled_def)
  qed
  show ?thesis
  proof (cases t)
    case (UserSays s)
    then show ?thesis
      by (simp add: push_message chat_content_text settled_message codex_items_def developer_role_other input_items_def
          message_content_parts_def message_text_def input_text_def [symmetric] Let_def)
  next
    case (UserShows ts ims)
    then show ?thesis
      using assms(1) by (simp add: push_message chat_content_images settled_message codex_items_def developer_role_other
          input_items_def message_content_parts_def content_parts_shown Let_def)
  next
    case (AssistantSays s)
    then show ?thesis using said [of s ms] assms(1) by simp
  next
    case (AssistantCalls s cs)
    then show ?thesis
      using push_calls [OF assms(2)] said [of s ms] push_calls [of "push_item print ms (message_item ''assistant'' [output_text s])"]
      by (cases "s = []") simp_all
  next
    case (ToolAnswers i s)
    let ?item = "jobj [(''type'', JStr ''function_call_output''), (''call_id'', JStr i), (''output'', JStr s)]"
    let ?m = "jobj [(''role'', JStr ''tool''), (''tool_call_id'', JStr i), (''content'', JStr s)]"
    have "push_item print ms ?item = ms @ [?m]" by (simp add: push_item_def output_of_item_def reading Let_def)
    moreover have "input_items (developer_role ?m) = [?item]" "str_at ?m ''role'' \<noteq> Some ''assistant''"
      by (simp_all add: input_items_def openai_role_def message_text_def developer_role_def reading Let_def)
    ultimately show ?thesis using ToolAnswers by (simp add: codex_items_def last_settled_def)
  qed
qed

lemma push_turns:
  assumes "list_all item_turn_ok ts" and "last_settled ms"
  shows "codex_items (foldl (push_item print) ms (concat (map (codex_turn print) ts)))
     = codex_items ms @ concat (map (codex_turn print) ts)"
  using assms
proof (induction ts arbitrary: ms)
  case (Cons t ts)
  then show ?case using push_turn [of t ms print] by simp
qed simp

text \<open>The input of a request, as a client with instructions and turns sends it.\<close>

definition responses_conversation :: "(json \<Rightarrow> string) \<Rightarrow> json \<Rightarrow> conversation \<Rightarrow> bool" where
  "responses_conversation print req cv \<longleftrightarrow>
     unwrap_or (str_at req ''instructions'') [] = cv_system cv
   \<and> jget req ''input'' = Some (JArr (concat (map (codex_turn print) (cv_turns cv))))
   \<and> list_all item_turn_ok (cv_turns cv)"

lemma responses_to_codex_items:
  assumes "responses_conversation print req cv" and "input_messages print req = Inr ms"
  shows "codex_items ms = codex_input print cv"
proof -
  have "codex_items (instructions req) = (if cv_system cv \<noteq> [] then [message_item ''developer'' [input_text (cv_system cv)]] else [])
     \<and> last_settled (instructions req)"
  proof (cases "cv_system cv = []")
    case True
    then have "instructions req = []"
      using assms(1) by (cases "str_at req ''instructions''") (simp_all add: responses_conversation_def instructions_def)
    then show ?thesis using True by (simp add: last_settled_def)
  next
    case False
    then have "instructions req = [message_of ''system'' (JStr (cv_system cv))]"
      using assms(1) by (cases "str_at req ''instructions''") (simp_all add: responses_conversation_def instructions_def)
    moreover have "developer_role (message_of ''system'' (JStr s)) = message_of ''developer'' (JStr s)" for s
      by (simp add: developer_role_def message_of_def jobj_def str_at_def)
    ultimately show ?thesis
      using False settled_message [of "''system''" "[]"]
      by (simp add: codex_items_def input_items_def message_content_parts_def message_text_def input_text_def)
  qed
  with assms show ?thesis
    by (auto simp: input_messages_def responses_conversation_def push_turns codex_input_def)
qed


section \<open>The chat request\<close>

lemma map_of_entry_if [simp]: "map_of (entry_if k v) l = (if l = k then v else None)"
  by (simp add: entry_if_def split: option.split)

lemma chat_tools_keys:
  "l \<notin> {''tools'', ''tool_choice'', ''parallel_tool_calls''} \<Longrightarrow> map_of (rev (chat_tools req)) l = None"
  by (auto simp: chat_tools_def entry_if_def Let_def split: option.split)

lemma rev_entry_if [simp]: "rev (entry_if k v) = entry_if k v"
  by (simp add: entry_if_def split: option.split)

lemma request_to_chat_reads:
  assumes "request_to_chat print req = Inr chat"
  obtains ms where "input_messages print req = Inr ms" "jget chat ''messages'' = Some (JArr ms)" "jget chat ''input'' = None"
    "is_object chat" "str_at chat ''model'' = str_at req ''model''" "str_at req ''model'' \<noteq> None"
proof -
  from assms obtain m ms where m: "str_at req ''model'' = Some m" and ms: "input_messages print req = Inr ms"
    by (auto simp: request_to_chat_def split: option.splits sum.splits)
  with assms have chat: "chat = jobj ([(''model'', JStr m), (''messages'', JArr ms)]
       @ (if wants_stream req
          then [(''stream'', JBool True), (''stream_options'', jobj [(''include_usage'', JBool True)])] else [])
       @ chat_tools req @ entry_if ''max_tokens'' (jget req ''max_output_tokens'')
       @ entry_if ''temperature'' (jget req ''temperature'') @ entry_if ''top_p'' (jget req ''top_p'')
       @ entry_if ''prompt_cache_key'' (map_option JStr (str_at req ''prompt_cache_key''))
       @ entry_if ''reasoning_effort'' (map_option JStr (effort_from_responses req)))"
    by (simp add: request_to_chat_def)
  have "jget chat ''messages'' = Some (JArr ms)" "jget chat ''input'' = None" "str_at chat ''model'' = Some m"
    unfolding chat str_at_def jget_jobj by (simp_all add: chat_tools_keys map_add_def)
  then show thesis using that [OF ms] m by (simp add: chat)
qed

text \<open>The choice of a function always names one, so the translation to Anthropic never panics.\<close>

lemma request_to_chat_safe:
  assumes "request_to_chat print req = Inr chat" shows "\<not> choice_without_function chat"
proof -
  obtain m ms where "str_at req ''model'' = Some m" "input_messages print req = Inr ms"
    using assms by (auto simp: request_to_chat_def split: option.splits sum.splits)
  then have "jget chat ''tool_choice'' = map_of (rev (chat_tools req)) ''tool_choice''"
    using assms by (auto simp: request_to_chat_def jget_jobj map_add_def split: option.split)
  moreover have "map_of (rev (chat_tools req)) ''tool_choice'' \<in> {None, chat_choice req}"
    by (simp add: chat_tools_def Let_def map_add_def split: option.split)
  moreover have "map_of m ''function'' \<noteq> None" if "chat_choice req = Some (JObj m)" for m
    using that by (auto simp: chat_choice_def jobj_def split: option.splits json.splits if_splits)
  ultimately show ?thesis by (auto simp: choice_without_function_def split: option.split json.split)
qed

lemma chat_body_safe:
  assumes "request_to_chat print req = Inr chat" and "lb_parse L body = Inr chat"
  shows "body_safe L body"
proof -
  obtain ms where "is_object chat" using request_to_chat_reads [OF assms(1)] by blast
  with request_to_chat_safe [OF assms(1)] assms(2) show ?thesis by (simp add: body_safe_def)
qed

lemma responses_reach_codex_input:
  assumes "request_to_chat print req = Inr chat" and "responses_conversation print req cv"
  shows "jget (insert_model m (transform_request chat sid d)) ''input'' = Some (JArr (codex_input print cv))"
proof -
  obtain ms where ms: "input_messages print req = Inr ms" and reads: "jget chat ''messages'' = Some (JArr ms)" "jget chat ''input'' = None"
    and "is_object chat" using request_to_chat_reads [OF assms(1)] by blast
  then obtain obj where obj: "chat = JObj obj" by (cases chat) simp_all
  have "concat (map input_items (map developer_role ms)) = codex_input print cv"
    using responses_to_codex_items [OF assms(2) ms] by (simp add: codex_items_def del: map_map)
  then show ?thesis
    using reads by (simp add: obj transform_input strip_ids_id [OF codex_input_no_ids] del: map_map strip_ids.simps)
qed

lemma responses_entry_answers:
  assumes "sane_resets E" and "env_adapter E = adapter_for_wire L"
    and "\<And>bytes req chat. buffer_body body cap = Inr bytes \<Longrightarrow> parsed E bytes = Some req \<Longrightarrow>
        request_to_chat (env_print_json E) req = Inr chat \<Longrightarrow> lb_parse L (env_print_json E chat) = Inr chat"
  shows "\<exists>resp w'. run_state (responses_entry E s discovered cap draw c body) w = (Done resp, w')"
proof (cases "buffer_body body cap")
  case (Inr bytes)
  show ?thesis
  proof (cases "parsed E bytes")
    case (Some req)
    show ?thesis
    proof (cases "request_to_chat (env_print_json E) req")
      case chat: (Inr chat)
      have "body_safe L (env_print_json E chat)" by (rule chat_body_safe [OF chat assms(3) [OF Inr Some chat]])
      from handle_proxy_answers [OF assms(1) adapters_sane [OF assms(2) this], of s discovered OpenAi "str_of chat ''model''" c w]
      obtain resp w' where "run_state (handle_proxy E s discovered OpenAi (str_of chat ''model'') c (env_print_json E chat)) w
          = (Done resp, w')" by (elim exE)
      then show ?thesis by (simp add: responses_entry_def Inr Some chat Let_def read_wall_def)
    qed (simp add: responses_entry_def Inr Some)
  qed (simp add: responses_entry_def Inr)
qed (simp add: responses_entry_def)


section \<open>Tools inside namespaces\<close>

text \<open>The functions of a request: the namespace a function sits in, and its name there.\<close>

definition tool_names :: "json \<Rightarrow> (string option \<times> string) set" where
  "tool_names req = {(fst t, n) | t n. t \<in> set (flat_tools (elements_at req ''tools'')) \<and> str_at (snd t) ''name'' = Some n}"

fun chat_name :: "string option \<times> string \<Rightarrow> string" where
  "chat_name (Some ns, n) = flat_name ns n"
| "chat_name (None, n) = n"

lemma chat_tool_named:
  assumes "str_at (snd t) ''name'' = Some n"
  shows "str_at (jidx (chat_tool t) ''function'') ''name'' = Some (chat_name (fst t, n))"
proof -
  have "get_or (snd t) ''name'' JNull = JStr n"
    using assms by (auto simp: str_at_def get_or_def bind_eq_Some_conv elim: as_str.elims)
  then have "tool_label (fst t) (snd t) = JStr (chat_name (fst t, n))"
    using assms by (cases "fst t") (simp_all add: tool_label_def)
  then show ?thesis by (simp add: chat_tool_def reading)
qed

lemma in_map_filter: "y \<in> set (List.map_filter f xs) \<longleftrightarrow> (\<exists>x \<in> set xs. f x = Some y)"
  by (induction xs) (auto simp: map_filter_simps split: option.splits)

lemma function_names_iff:
  "n \<in> set (function_names t) \<longleftrightarrow>
     (\<exists>i \<in> set (elements_at t ''tools''). str_at i ''type'' = Some ''function'' \<and> str_at i ''name'' = Some n)"
  by (auto simp: function_names_def in_map_filter split: if_splits)

lemma flat_tools_iff:
  "(Some ns, i) \<in> set (flat_tools ts) \<longleftrightarrow>
     (\<exists>t \<in> set ts. str_at t ''type'' = Some ''namespace'' \<and> str_at t ''name'' = Some ns
        \<and> i \<in> set (elements_at t ''tools'') \<and> str_at i ''type'' = Some ''function'')"
  by (induction ts) (auto simp: flat_tools_def)

lemma tool_names_iff:
  "(Some ns, n) \<in> tool_names req \<longleftrightarrow>
     (\<exists>t \<in> set (elements_at req ''tools''). str_at t ''type'' = Some ''namespace'' \<and> str_at t ''name'' = Some ns
        \<and> n \<in> set (function_names t))"
proof -
  have "(Some ns, n) \<in> tool_names req \<longleftrightarrow>
      (\<exists>i. (Some ns, i) \<in> set (flat_tools (elements_at req ''tools'')) \<and> str_at i ''name'' = Some n)"
    by (auto simp: tool_names_def)
  then show ?thesis unfolding flat_tools_iff function_names_iff by blast
qed

lemma namespaces_iff:
  "(k, ns, n) \<in> set (namespaces_of req) \<longleftrightarrow> (Some ns, n) \<in> tool_names req \<and> k = flat_name ns n"
proof -
  let ?f = "\<lambda>t. if str_at t ''type'' \<noteq> Some ''namespace'' then []
        else (case str_at t ''name'' of None \<Rightarrow> [] | Some ns \<Rightarrow> map (\<lambda>n. (flat_name ns n, ns, n)) (function_names t))"
  have one: "(k, ns, n) \<in> set (?f t) \<longleftrightarrow> str_at t ''type'' = Some ''namespace'' \<and> str_at t ''name'' = Some ns
      \<and> n \<in> set (function_names t) \<and> k = flat_name ns n" for t
    by (cases "str_at t ''name''") auto
  have "set (namespaces_of req) = (\<Union>t \<in> set (elements_at req ''tools''). set (?f t))"
    by (simp only: namespaces_of_def set_rev set_concat set_map image_image)
  then show ?thesis unfolding tool_names_iff using one by (simp only: UN_iff) blast
qed

lemma namespace_found:
  assumes "inj_on chat_name (tool_names req)" and "t \<in> tool_names req"
  shows "map_of (namespaces_of req) (chat_name t) = (case t of (Some ns, n) \<Rightarrow> Some (ns, n) | (None, n) \<Rightarrow> None)"
proof -
  have found: "(Some ns, n) = t" if "(chat_name t, ns, n) \<in> set (namespaces_of req)" for ns n
    using that assms(2) inj_onD [OF assms(1), of "(Some ns, n)" t] by (auto simp: namespaces_iff)
  show ?thesis
  proof (cases t)
    case (Pair p n)
    show ?thesis
    proof (cases p)
      case None
      with Pair found have "\<forall>v. (chat_name t, v) \<notin> set (namespaces_of req)" by auto
      then have "map_of (namespaces_of req) (chat_name t) = None"
        by (cases "map_of (namespaces_of req) (chat_name t)") (auto dest: map_of_SomeD)
      then show ?thesis by (simp add: Pair None)
    next
      case (Some ns)
      have "(chat_name t, ns, n) \<in> set (namespaces_of req)" using assms(2) by (simp add: namespaces_iff Pair Some)
      then obtain v where v: "map_of (namespaces_of req) (chat_name t) = Some v" by (metis weak_map_of_SomeI)
      with found [of "fst v" "snd v"] map_of_SomeD [OF v] show ?thesis by (simp add: Pair Some prod_eq_iff)
    qed
  qed
qed

lemma namespace_restored:
  fixes i phase call_id args :: string
  assumes "inj_on chat_name (tool_names req)" and "(p, n) \<in> tool_names req"
  defines "item \<equiv> call_output i phase call_id (JStr (chat_name (p, n))) args"
  shows "str_at (with_namespace (namespaces_of req) item) ''name'' = Some n
     \<and> str_at (with_namespace (namespaces_of req) item) ''namespace'' = p"
proof -
  have name: "str_at item ''name'' = Some (chat_name (p, n))" and obj: "is_object item" and none: "str_at item ''namespace'' = None"
    by (simp_all add: item_def call_output_def reading)
  show ?thesis
  proof (cases p)
    case None
    then show ?thesis using namespace_found [OF assms(1,2)] name none by (simp add: with_namespace_def)
  next
    case (Some ns)
    then show ?thesis
      using namespace_found [OF assms(1,2)] name obj by (simp add: with_namespace_def str_at_def jget_jset)
  qed
qed

end
