(* ===== verification/ResponsesStream.thy ===== *)
theory ResponsesStream
  imports ProxyRoutes BridgeSpec CodexStream
begin

text \<open>
  What a client of the Responses API reads: whatever the upstream sends, the events open and close
  every output item once, add to open items only, say at the end of an item what its parts said,
  and close with a response that holds exactly the items that were closed.
\<close>

section \<open>A client\<close>

datatype act =
    Opens nat
  | Adds nat string
  | Says nat string
  | Closes nat json
  | Ends "json list"
  | Frame

definition output_place :: "event \<Rightarrow> nat" where
  "output_place e = unwrap_or (Option.bind (jget (snd e) ''output_index'') as_u64) 0"

definition act_of :: "event \<Rightarrow> act" where
  "act_of e =
     (if fst e = ''response.output_item.added'' then Opens (output_place e)
      else if fst e = ''response.output_text.delta'' \<or> fst e = ''response.function_call_arguments.delta''
      then Adds (output_place e) (str_of (snd e) ''delta'')
      else if fst e = ''response.output_text.done'' then Says (output_place e) (str_of (snd e) ''text'')
      else if fst e = ''response.function_call_arguments.done'' then Says (output_place e) (str_of (snd e) ''arguments'')
      else if fst e = ''response.output_item.done'' then Closes (output_place e) (jidx (snd e) ''item'')
      else if fst e = ''response.completed'' \<or> fst e = ''response.incomplete''
      then Ends (elements_at (jidx (snd e) ''response'') ''output'')
      else Frame)"

text \<open>The open items with the text received for them, in the order they were opened.\<close>

record reader =
  rd_open :: "(nat \<times> string) list"
  rd_next :: nat
  rd_closed :: "json list"
  rd_ended :: bool

definition fresh_reader :: reader where
  "fresh_reader = \<lparr>rd_open = [], rd_next = 0, rd_closed = [], rd_ended = False\<rparr>"

definition append_at :: "nat \<Rightarrow> string \<Rightarrow> (nat \<times> string) list \<Rightarrow> (nat \<times> string) list" where
  "append_at i s m = map (\<lambda>(k, b). if k = i then (k, b @ s) else (k, b)) m"

fun read_act :: "reader \<Rightarrow> act \<Rightarrow> reader option" where
  "read_act r (Opens i) =
     (if i = rd_next r then Some (r\<lparr>rd_open := rd_open r @ [(i, [])], rd_next := Suc i\<rparr>) else None)"
| "read_act r (Adds i s) =
     (if i \<in> fst ` set (rd_open r) then Some (r\<lparr>rd_open := append_at i s (rd_open r)\<rparr>) else None)"
| "read_act r (Says i s) = (if (i, s) \<in> set (rd_open r) then Some r else None)"
| "read_act r (Closes i item) =
     (if i \<in> fst ` set (rd_open r)
      then Some (r\<lparr>rd_open := filter (\<lambda>e. fst e \<noteq> i) (rd_open r), rd_closed := rd_closed r @ [item]\<rparr>) else None)"
| "read_act r (Ends items) =
     (if rd_open r = [] \<and> items = rd_closed r then Some (r\<lparr>rd_ended := True\<rparr>) else None)"
| "read_act r Frame = Some r"

text \<open>Nothing may follow the end.\<close>

fun read_acts :: "reader \<Rightarrow> act list \<Rightarrow> reader option" where
  "read_acts r [] = Some r"
| "read_acts r (a # as) = (if rd_ended r then None else Option.bind (read_act r a) (\<lambda>r. read_acts r as))"

definition numbered :: "event list \<Rightarrow> bool" where
  "numbered es \<longleftrightarrow> map (\<lambda>e. jget (snd e) ''sequence_number'') es = map (\<lambda>n. Some (jnat n)) [0..<length es]"

lemma read_acts_append: "read_acts r (as @ bs) = Option.bind (read_acts r as) (\<lambda>r. read_acts r bs)"
  by (induction as arbitrary: r) (auto split: option.split bind_split)

section \<open>The state and its client\<close>

definition open_of :: "open_item \<Rightarrow> nat \<times> string" where
  "open_of c = (oi_index c, oi_buf c)"

definition opened :: "resp_stream \<Rightarrow> (nat \<times> string) list" where
  "opened st = map open_of (rs_calls st) @ (case rs_text st of Some t \<Rightarrow> [open_of t] | None \<Rightarrow> [])"

definition reader_of :: "resp_stream \<Rightarrow> reader" where
  "reader_of st = \<lparr>rd_open = opened st, rd_next = rs_next st, rd_closed = rs_items st, rd_ended = False\<rparr>"

definition stream_ok :: "resp_stream \<Rightarrow> bool" where
  "stream_ok st \<longleftrightarrow>
     read_acts fresh_reader (map act_of (rs_out st)) = Some (reader_of st)
   \<and> numbered (rs_out st) \<and> rs_seq st = length (rs_out st) \<and> \<not> rs_finished st
   \<and> distinct (map fst (opened st)) \<and> (\<forall>i \<in> fst ` set (opened st). i < rs_next st)"

definition stamped :: "string \<Rightarrow> (string \<times> json) list \<Rightarrow> nat \<Rightarrow> event" where
  "stamped ev data n = (ev, jobj (data @ [(''type'', JStr ev), (''sequence_number'', jnat n)]))"

lemma emit_out [simp]:
  "rs_out (emit ev data st) = rs_out st @ [stamped ev data (rs_seq st)]" "rs_seq (emit ev data st) = Suc (rs_seq st)"
  by (simp_all add: emit_def stamped_def)

lemma emit_fields [simp]:
  "rs_text (emit ev data st) = rs_text st" "rs_calls (emit ev data st) = rs_calls st" "rs_items (emit ev data st) = rs_items st"
  "rs_next (emit ev data st) = rs_next st" "rs_finished (emit ev data st) = rs_finished st" "rs_ns (emit ev data st) = rs_ns st"
  "rs_drawn (emit ev data st) = rs_drawn st" "rs_started (emit ev data st) = rs_started st"
  "rs_truncated (emit ev data st) = rs_truncated st" "rs_id (emit ev data st) = rs_id st"
  "rs_model (emit ev data st) = rs_model st" "rs_usage (emit ev data st) = rs_usage st"
  by (simp_all add: emit_def)

lemma numbered_append:
  "numbered (es @ fs) \<longleftrightarrow> numbered es
     \<and> map (\<lambda>e. jget (snd e) ''sequence_number'') fs = map (\<lambda>n. Some (jnat n)) [length es..<length es + length fs]"
  by (simp add: numbered_def upt_add_eq_append [of 0 "length es"])

lemma sequence_number [simp]: "jget (snd (stamped ev data n)) ''sequence_number'' = Some (jnat n)"
  by (simp add: stamped_def jget_jobj)

lemma jnat_reads [simp]: "as_u64 (jnat n) = Some n"
  by (simp add: jnat_def)

lemmas act_reads = act_of_def stamped_def output_place_def str_of_def jidx_def jget_jobj

lemma act_added [simp]: "act_of (stamped ''response.output_item.added'' [(''output_index'', jnat i), (''item'', x)] n) = Opens i"
  by (simp add: act_reads)

lemma act_adds [simp]:
  "act_of (stamped ''response.output_text.delta'' [(''item_id'', x), (''output_index'', jnat i), (''content_index'', y),
     (''delta'', JStr s)] n) = Adds i s"
  "act_of (stamped ''response.function_call_arguments.delta'' [(''item_id'', x), (''output_index'', jnat i), (''delta'', JStr s)] n)
     = Adds i s"
  by (simp_all add: act_reads)

lemma act_said [simp]:
  "act_of (stamped ''response.output_text.done'' [(''item_id'', x), (''output_index'', jnat i), (''content_index'', y),
     (''text'', JStr s)] n) = Says i s"
  "act_of (stamped ''response.function_call_arguments.done'' [(''item_id'', x), (''output_index'', jnat i), (''arguments'', JStr s)] n)
     = Says i s"
  by (simp_all add: act_reads)

lemma act_closed [simp]: "act_of (stamped ''response.output_item.done'' [(''output_index'', jnat i), (''item'', x)] n) = Closes i x"
  by (simp add: act_reads)

lemma act_frame [simp]:
  "act_of (stamped ''response.content_part.added'' d n) = Frame" "act_of (stamped ''response.content_part.done'' d n) = Frame"
  "act_of (stamped ''response.created'' d n) = Frame" "act_of (stamped ''response.in_progress'' d n) = Frame"
  by (simp_all add: act_reads)

lemma act_ends [simp]:
  "act_of (stamped ''response.completed'' [(''response'', response_obj st p items)] n) = Ends items"
  "act_of (stamped ''response.incomplete'' [(''response'', response_obj st p items)] n) = Ends items"
  by (simp_all add: act_reads elements_at_def response_obj_def)

lemmas stream_simps = stream_ok_def read_acts_append numbered_append reader_of_def opened_def open_of_def

text \<open>No operation but the last ends the stream.\<close>

lemma stream_ok_start: "stream_ok st \<Longrightarrow> stream_ok (start_response st)"
  by (simp add: start_response_def stream_simps Let_def)

lemma append_at_opened: "i \<notin> fst ` set m \<Longrightarrow> append_at i s m = m" "append_at i s (m @ n) = append_at i s m @ append_at i s n"
  by (induction m) (auto simp: append_at_def)

lemma stream_ok_open_text:
  assumes "stream_ok st" and "rs_text st = None"
  shows "stream_ok (open_text draw st)"
  using assms by (auto simp: open_text_def stream_simps Let_def)


lemma append_at_keys [simp]: "fst ` set (append_at i s m) = fst ` set m" "map fst (append_at i s m) = map fst m"
  by (induction m) (auto simp: append_at_def)

text \<open>Text for an item that is open.\<close>

lemma stream_ok_adds:
  assumes "stream_ok st" and "opened st' = append_at i s (opened st)" and "i \<in> fst ` set (opened st)"
    and "act_of (stamped ev data (rs_seq st')) = Adds i s" and "rs_out st' = rs_out st"
    and "rs_seq st' = rs_seq st" and "rs_next st' = rs_next st" and "rs_items st' = rs_items st"
    and "rs_finished st' = rs_finished st"
  shows "stream_ok (emit ev data st')"
  using assms by (simp add: stream_ok_def read_acts_append numbered_append reader_of_def opened_def)

lemma stream_ok_add_text:
  assumes ok: "stream_ok st" and t: "rs_text st = Some t"
  shows "stream_ok (emit ''response.output_text.delta'' [(''item_id'', JStr (oi_id t)), (''output_index'', jnat (oi_index t)),
      (''content_index'', jnat 0), (''delta'', JStr said)] (st\<lparr>rs_text := Some (t\<lparr>oi_buf := oi_buf t @ said\<rparr>)\<rparr>))"
proof -
  have open_: "opened st = map open_of (rs_calls st) @ [open_of t]" using t by (simp add: opened_def)
  then have "oi_index t \<notin> fst ` set (map open_of (rs_calls st))" using ok by (auto simp: stream_ok_def open_of_def)
  then have "append_at (oi_index t) said (opened st) = map open_of (rs_calls st) @ append_at (oi_index t) said [open_of t]"
    unfolding open_ append_at_opened(2) by (simp only: append_at_opened(1) simp_thms)
  then have "opened (st\<lparr>rs_text := Some (t\<lparr>oi_buf := oi_buf t @ said\<rparr>)\<rparr>) = append_at (oi_index t) said (opened st)"
    by (simp add: opened_def append_at_def open_of_def)
  moreover have "oi_index t \<in> fst ` set (opened st)" by (simp add: open_ open_of_def)
  ultimately show ?thesis
    by (intro stream_ok_adds [OF ok, where i = "oi_index t" and s = said]) simp_all
qed

lemma stream_ok_feed_text:
  assumes "stream_ok st" shows "stream_ok (feed_text draw said st)"
proof -
  define st' where "st' = (if rs_text st = None then open_text draw st else st)"
  have ok: "stream_ok st'" using assms by (simp add: st'_def stream_ok_open_text)
  obtain t where t: "rs_text st' = Some t" by (cases "rs_text st") (auto simp: st'_def open_text_def Let_def)
  then show ?thesis
    using stream_ok_add_text [OF ok t] by (simp add: feed_text_def st'_def [symmetric] Let_def)
qed

lemma stream_ok_open_call:
  assumes "stream_ok st" and "rs_text st = None"
  shows "stream_ok (open_call draw c st) \<and> rs_text (open_call draw c st) = None"
  using assms by (auto simp: open_call_def stream_simps Let_def split: option.split prod.split)

lemma find_call_opened: "find_call ti cs = None \<Longrightarrow> oi_tool c = Some ti \<Longrightarrow> find_call ti (cs @ [c]) = Some c"
  by (induction cs) (auto split: if_splits)

lemma find_call_in: "find_call ti cs = Some c \<Longrightarrow> c \<in> set cs \<and> oi_tool c = Some ti"
  by (induction cs) (auto split: if_splits)

lemma add_args_opened:
  assumes "find_call ti cs = Some c" and "distinct (map oi_index cs)"
  shows "map open_of (add_args ti a cs) = append_at (oi_index c) a (map open_of cs)"
  using assms
proof (induction cs)
  case (Cons d cs)
  show ?case
  proof (cases "oi_tool d = Some ti")
    case True
    then have "append_at (oi_index c) a (map open_of cs) = map open_of cs"
      using Cons.prems by (intro append_at_opened) (auto simp: open_of_def)
    then show ?thesis using True Cons.prems by (simp add: append_at_def open_of_def)
  next
    case False
    then have "oi_index d \<noteq> oi_index c" using Cons.prems find_call_in [of ti cs c] by auto
    then show ?thesis using False Cons by (simp add: append_at_def open_of_def)
  qed
qed simp

lemma stream_ok_add_call:
  assumes ok: "stream_ok st" and none: "rs_text st = None" and d: "find_call ti (rs_calls st) = Some d"
  shows "stream_ok (emit ''response.function_call_arguments.delta'' [(''item_id'', JStr (oi_id d)),
      (''output_index'', jnat (oi_index d)), (''delta'', JStr a)] (st\<lparr>rs_calls := add_args ti a (rs_calls st)\<rparr>))"
proof -
  have open_: "opened st = map open_of (rs_calls st)" using none by (simp add: opened_def)
  have "distinct (map oi_index (rs_calls st))" using ok by (simp add: stream_ok_def open_ open_of_def o_def)
  from add_args_opened [OF d this, of a]
  have "opened (st\<lparr>rs_calls := add_args ti a (rs_calls st)\<rparr>) = append_at (oi_index d) a (opened st)"
    using none by (simp add: opened_def)
  moreover have "oi_index d \<in> fst ` set (opened st)"
    unfolding open_ using find_call_in [OF d] by (force simp: open_of_def)
  ultimately show ?thesis
    using ok by (intro stream_ok_adds [OF ok, where i = "oi_index d" and s = a]) (simp_all add: stream_ok_def)
qed

lemma stream_ok_feed_call:
  assumes "stream_ok st" and "rs_text st = None"
  shows "stream_ok (feed_call draw st c) \<and> rs_text (feed_call draw st c) = None"
proof -
  let ?ti = "chat_call_index c"
  define st' where "st' = (if find_call ?ti (rs_calls st) = None then open_call draw c st else st)"
  have ok: "stream_ok st'" "rs_text st' = None" using assms stream_ok_open_call by (auto simp: st'_def)
  have "find_call ?ti (rs_calls st') \<noteq> None"
    by (auto simp: st'_def open_call_def Let_def find_call_opened split: prod.split)
  then obtain d where d: "find_call ?ti (rs_calls st') = Some d" by blast
  then show ?thesis
    using stream_ok_add_call [OF ok d] ok by (simp add: feed_call_def st'_def [symmetric] Let_def)
qed

lemma stream_ok_close_text:
  assumes "stream_ok st" shows "stream_ok (close_text st) \<and> rs_text (close_text st) = None"
proof (cases "rs_text st")
  case (Some t)
  then have "opened st = map open_of (rs_calls st) @ [(oi_index t, oi_buf t)]" by (simp add: opened_def open_of_def)
  moreover from this have "oi_index t \<notin> fst ` set (map open_of (rs_calls st))" using assms by (auto simp: stream_ok_def)
  then have "filter (\<lambda>e. fst e \<noteq> oi_index t) (map open_of (rs_calls st)) = map open_of (rs_calls st)"
    by (intro filter_True) (auto simp: image_iff)
  ultimately show ?thesis
    using Some assms by (auto simp: close_text_def stream_ok_def read_acts_append numbered_append reader_of_def Let_def opened_def)
qed (simp add: close_text_def assms)

lemma stream_ok_calls:
  assumes "stream_ok st" and "rs_text st = None"
  shows "stream_ok (foldl (feed_call draw) st cs)"
  using assms by (induction cs arbitrary: st) (simp_all add: stream_ok_feed_call)

text \<open>What a chunk may change besides.\<close>

lemma stream_ok_meta [simp]:
  "stream_ok (st\<lparr>rs_model := m\<rparr>) = stream_ok st" "stream_ok (st\<lparr>rs_usage := u\<rparr>) = stream_ok st"
  "stream_ok (st\<lparr>rs_truncated := b\<rparr>) = stream_ok st"
  by (simp_all add: stream_ok_def reader_of_def opened_def)

lemma stream_ok_feed:
  assumes "stream_ok st" shows "stream_ok (feed draw st chunk)"
  using assms
  by (auto simp: feed_def Let_def feed_calls_def stream_ok_start stream_ok_feed_text stream_ok_close_text stream_ok_calls
      split: option.split)


text \<open>The calls are closed in the order they were opened, once the text is.\<close>

lemma close_call_frame [simp]:
  "close_call (st\<lparr>rs_calls := cs\<rparr>) c = (close_call st c)\<lparr>rs_calls := cs\<rparr>"
  "rs_text (close_call st c) = rs_text st" "rs_calls (close_call st c) = rs_calls st"
  "rs_finished (close_call st c) = rs_finished st" "rs_ns (close_call st c) = rs_ns st"
  "rs_truncated (close_call st c) = rs_truncated st"
  by (simp_all add: close_call_def emit_def Let_def)

lemma stream_ok_close_call:
  assumes "stream_ok (st\<lparr>rs_calls := c # cs\<rparr>)" and "rs_text st = None"
  shows "stream_ok ((close_call st c)\<lparr>rs_calls := cs\<rparr>)"
proof -
  have "filter (\<lambda>e. fst e \<noteq> oi_index c) (map open_of cs) = map open_of cs"
    using assms by (intro filter_True) (force simp: stream_ok_def opened_def open_of_def)
  then show ?thesis
    using assms by (auto simp: close_call_def stream_ok_def read_acts_append numbered_append reader_of_def Let_def opened_def open_of_def)
qed

lemma stream_ok_close_calls:
  "stream_ok (st\<lparr>rs_calls := cs\<rparr>) \<Longrightarrow> rs_text st = None \<Longrightarrow> stream_ok ((foldl close_call st cs)\<lparr>rs_calls := []\<rparr>)"
proof (induction cs arbitrary: st)
  case (Cons c cs)
  then show ?case using stream_ok_close_call [OF Cons.prems] by simp
qed simp

lemma close_calls_frame [simp]:
  "foldl close_call (st\<lparr>rs_calls := ds\<rparr>) cs = (foldl close_call st cs)\<lparr>rs_calls := ds\<rparr>"
  "rs_text (foldl close_call st cs) = rs_text st"
  by (induction cs arbitrary: st) simp_all

text \<open>A stream as a client wants it, with the items the response ends with.\<close>

definition conforming :: "event list \<Rightarrow> json list \<Rightarrow> bool" where
  "conforming es items \<longleftrightarrow>
     numbered es \<and> (case read_acts fresh_reader (map act_of es) of
        Some r \<Rightarrow> rd_ended r \<and> rd_open r = [] \<and> rd_closed r = items | None \<Rightarrow> False)"

definition closed_state :: "resp_stream \<Rightarrow> resp_stream" where
  "closed_state st =
     (let st = close_text (start_response st) in (foldl close_call st (rs_calls st))\<lparr>rs_calls := []\<rparr>)"

lemma finish_closed:
  assumes "\<not> rs_finished st"
  shows "rs_out (finish_response st) = rs_out (closed_state st)
     @ [(if rs_truncated (closed_state st)
         then stamped ''response.incomplete'' [(''response'', response_obj ((closed_state st)\<lparr>rs_finished := True, rs_items := []\<rparr>) ''incomplete'' (rs_items (closed_state st)))]
         else stamped ''response.completed'' [(''response'', response_obj ((closed_state st)\<lparr>rs_finished := True, rs_items := []\<rparr>) ''completed'' (rs_items (closed_state st)))])
        (rs_seq (closed_state st))]"
proof -
  have "foldl close_call (close_text (start_response st)\<lparr>rs_calls := []\<rparr>) (rs_calls (close_text (start_response st))) = closed_state st"
    by (simp add: closed_state_def Let_def)
  then show ?thesis
    using assms unfolding finish_response_def Let_def by (simp del: close_calls_frame split: prod.split)
qed

lemma finish_conforms:
  assumes "stream_ok st"
  shows "conforming (rs_out (finish_response st)) (rs_items (closed_state st))"
proof -
  let ?st = "close_text (start_response st)"
  have ok: "stream_ok ?st" "rs_text ?st = None" using stream_ok_close_text [OF stream_ok_start [OF assms]] by auto
  have "stream_ok (closed_state st)" using stream_ok_close_calls [where st = ?st and cs = "rs_calls ?st"] ok by (simp add: closed_state_def Let_def)
  moreover have "opened (closed_state st) = []" using ok(2) by (simp add: closed_state_def Let_def opened_def)
  moreover have "\<not> rs_finished st" using assms by (simp add: stream_ok_def)
  ultimately show ?thesis
    by (auto simp: conforming_def finish_closed stream_ok_def read_acts_append numbered_append reader_of_def)
qed

lemma stream_ok_new: "stream_ok (new_resp_stream draw now model ns)"
  by (simp add: stream_ok_def new_resp_stream_def numbered_def reader_of_def fresh_reader_def opened_def)

text \<open>The chunks of a block, and of a stream.\<close>

definition line_chunks :: "(string \<Rightarrow> json option) \<Rightarrow> string \<Rightarrow> json list" where
  "line_chunks parse line =
     (case map_option trim (strip_prefix ''data:'' line) of
        None \<Rightarrow> []
      | Some data \<Rightarrow> if data = [] \<or> data = ''[DONE]'' then [] else (case parse data of Some v \<Rightarrow> [v] | None \<Rightarrow> []))"

definition chunks_of :: "(string \<Rightarrow> json option) \<Rightarrow> string list \<Rightarrow> json list" where
  "chunks_of parse blocks = concat (map (line_chunks parse) (concat (map str_lines blocks)))"

lemma feed_line_chunks: "feed_line parse draw st line = foldl (feed draw) st (line_chunks parse line)"
  by (simp add: feed_line_def line_chunks_def split: option.split)

lemma foldl_chunks: "foldl (\<lambda>st x. foldl f st (g x)) st xs = foldl f st (concat (map g xs))"
  by (induction xs arbitrary: st) simp_all

lemma feed_block_chunks: "feed_block parse draw st b = foldl (feed draw) st (chunks_of parse [b])"
  by (simp add: feed_block_def chunks_of_def foldl_chunks [symmetric] feed_line_chunks [symmetric])


lemma chunks_of_append: "chunks_of parse (bs @ cs) = chunks_of parse bs @ chunks_of parse cs"
  by (simp add: chunks_of_def)

lemma feed_blocks_chunks: "foldl (feed_block parse draw) st bs = foldl (feed draw) st (chunks_of parse bs)"
proof (induction bs arbitrary: st)
  case (Cons b bs)
  then show ?case using chunks_of_append [of parse "[b]" bs] by (simp add: feed_block_chunks)
qed (simp add: chunks_of_def)

text \<open>What arrives before the stream ends or breaks off.\<close>

fun pieces_of :: "(string + string) list \<Rightarrow> string list" where
  "pieces_of (Inr s # items) = s # pieces_of items"
| "pieces_of _ = []"

text \<open>Bytes, errors and full buffers only decide which chunks are fed.\<close>

lemma run_stream_feeds: "\<exists>cs. run_stream parse draw f st items = finish_response (foldl (feed draw) st cs)"
proof (induction parse draw f st items rule: run_stream.induct)
  case (1 parse draw f st chunk items)
  obtain ok g where push: "framer_push f chunk = (ok, g)" by fastforce
  obtain bs h where drain: "framer_drain g = (bs, h)" by fastforce
  have fed: "foldl (feed_block parse draw) st bs = foldl (feed draw) st (chunks_of parse bs)" by (rule feed_blocks_chunks)
  show ?case
  proof (cases ok)
    case True
    then obtain cs where "run_stream parse draw h (foldl (feed_block parse draw) st bs) items
        = finish_response (foldl (feed draw) (foldl (feed_block parse draw) st bs) cs)"
      using 1 [OF push [symmetric] drain [symmetric] HOL.refl True] by blast
    then have "run_stream parse draw f st (Inr chunk # items) = finish_response (foldl (feed draw) st (chunks_of parse bs @ cs))"
      using True by (simp add: push drain fed Let_def del: framer_drain.simps)
    then show ?thesis by blast
  next
    case False
    then have "run_stream parse draw f st (Inr chunk # items) = finish_response (foldl (feed draw) st (chunks_of parse bs))"
      by (simp add: push drain fed Let_def del: framer_drain.simps)
    then show ?thesis by blast
  qed
qed (auto simp: feed_block_chunks intro: exI)

lemma run_stream_chunks:
  assumes "pushes_fit f (pieces_of items)" and "framer_feeds f (pieces_of items) = (bs, g)"
  shows "run_stream parse draw f st items = finish_response (foldl (feed draw) st (chunks_of parse (bs @ [framer_finish g])))"
  using assms
proof (induction items arbitrary: f st bs rule: pieces_of.induct)
  case (1 s items)
  obtain h where push: "framer_push f s = (True, h)" using 1 (2) by (cases "framer_push f s") auto
  obtain bs1 h' where drain: "framer_drain h = (bs1, h')" by fastforce
  obtain bs2 where rest: "framer_feeds h' (pieces_of items) = (bs2, g)" and bs: "bs = bs1 @ bs2"
    using 1 (3) by (auto simp: framer_feed_def push drain simp del: framer_drain.simps split: prod.splits)
  have "pushes_fit h' (pieces_of items)" using 1 (2) by (simp add: framer_feed_def push drain del: framer_drain.simps)
  from 1 (1) [OF this rest] show ?case
    by (simp add: push drain bs feed_blocks_chunks chunks_of_append Let_def del: framer_drain.simps)
qed (simp_all add: feed_block_chunks)

lemma stream_ok_feeds: "stream_ok st \<Longrightarrow> stream_ok (foldl (feed draw) st cs)"
  by (induction cs arbitrary: st) (simp_all add: stream_ok_feed)

text \<open>Whatever arrives, the client gets one conforming stream, and it ends.\<close>

lemma translated_conforms:
  "\<exists>es items. translate_stream parse print draw now model ns body = map (\<lambda>e. Inr (render_claude_event print e)) es
     \<and> conforming es items"
proof -
  obtain cs where "run_stream parse draw new_framer (new_resp_stream draw now model ns) body
      = finish_response (foldl (feed draw) (new_resp_stream draw now model ns) cs)"
    using run_stream_feeds by blast
  then have "conforming (rs_out (run_stream parse draw new_framer (new_resp_stream draw now model ns) body))
      (rs_items (closed_state (foldl (feed draw) (new_resp_stream draw now model ns) cs)))"
    using finish_conforms [OF stream_ok_feeds [OF stream_ok_new]] by simp
  then show ?thesis unfolding translate_stream_def by blast
qed

end
