(* ===== verification/ResponsesFaithful.thy ===== *)
theory ResponsesFaithful
  imports ResponsesStream BridgeStream
begin

text \<open>
  What the streamed response says: its messages hold the text of the chunks, and its function
  calls are the calls of the chunks, every call with all of its fragments.
\<close>

section \<open>The calls of a list of fragments\<close>

text \<open>The fragments of one call share an index; the first names the call.\<close>

definition first_keys :: "'a list \<Rightarrow> 'a list" where
  "first_keys ks = rev (remdups (rev ks))"

definition fragments :: "json list \<Rightarrow> int \<Rightarrow> json list" where
  "fragments js k = filter (\<lambda>c. chat_call_index c = k) js"

definition call_name :: "json \<Rightarrow> string" where
  "call_name c = unwrap_or (as_str (jidx (jidx c ''function'') ''name'')) []"

record spoken_call =
  sc_id :: "string option"
  sc_name :: string
  sc_args :: string

definition spoken_call_of :: "json list \<Rightarrow> int \<Rightarrow> spoken_call" where
  "spoken_call_of js k =
     \<lparr>sc_id = str_at (hd (fragments js k)) ''id'', sc_name = call_name (hd (fragments js k)),
      sc_args = concat (map call_args (fragments js k))\<rparr>"

definition spoken_calls :: "json list \<Rightarrow> spoken_call list" where
  "spoken_calls js = map (spoken_call_of js) (first_keys (map chat_call_index js))"

lemma first_keys_simps [simp]:
  "first_keys [] = []" "set (first_keys ks) = set ks" "distinct (first_keys ks)"
  "first_keys (ks @ [k]) = (if k \<in> set ks then first_keys ks else first_keys ks @ [k])"
  by (auto simp: first_keys_def)

lemma fragments_snoc: "fragments (js @ [c]) k = fragments js k @ (if chat_call_index c = k then [c] else [])"
  by (simp add: fragments_def)

lemma fragments_empty: "fragments js k = [] \<longleftrightarrow> k \<notin> chat_call_index ` set js"
  by (auto simp: fragments_def filter_empty_conv)

section \<open>The calls of the state\<close>

text \<open>A call without an id gets one.\<close>

definition opens_call :: "json list \<Rightarrow> int \<Rightarrow> open_item \<Rightarrow> bool" where
  "opens_call js k c \<longleftrightarrow>
     oi_tool c = Some k \<and> oi_name c = sc_name (spoken_call_of js k) \<and> oi_buf c = sc_args (spoken_call_of js k)
   \<and> (sc_id (spoken_call_of js k) \<noteq> None \<longrightarrow> sc_id (spoken_call_of js k) = Some (oi_call_id c))"

definition calls_match :: "json list \<Rightarrow> open_item list \<Rightarrow> bool" where
  "calls_match js cs \<longleftrightarrow> list_all2 (opens_call js) (first_keys (map chat_call_index js)) cs"

lemma opens_call_other:
  assumes "chat_call_index c \<noteq> k" shows "opens_call (js @ [c]) k = opens_call js k"
  using assms by (auto simp: opens_call_def spoken_call_of_def fragments_snoc fun_eq_iff)

lemma opens_call_more:
  assumes "opens_call js (chat_call_index c) x" and "chat_call_index c \<in> chat_call_index ` set js"
  shows "opens_call (js @ [c]) (chat_call_index c) (x\<lparr>oi_buf := oi_buf x @ call_args c\<rparr>)"
  using assms fragments_empty [of js "chat_call_index c"]
  by (auto simp: opens_call_def spoken_call_of_def fragments_snoc)

lemma opens_call_tool: "opens_call js k x \<Longrightarrow> oi_tool x = Some k"
  by (simp add: opens_call_def)

lemma find_call_none:
  assumes "list_all2 (opens_call js) ks cs" shows "find_call k cs = None \<longleftrightarrow> k \<notin> set ks"
  using assms by (induction ks cs rule: list_all2_induct) (auto simp: opens_call_def)

lemma add_args_none: "find_call k cs = None \<Longrightarrow> add_args k a (cs @ [c]) = cs @ add_args k a [c]"
  by (induction cs) (auto split: if_splits)

lemma add_args_more:
  assumes "list_all2 (opens_call js) ks cs" and "distinct ks" and "set ks \<subseteq> chat_call_index ` set js"
  shows "chat_call_index c \<in> set ks \<Longrightarrow> list_all2 (opens_call (js @ [c])) ks (add_args (chat_call_index c) (call_args c) cs)"
    and "chat_call_index c \<notin> set ks \<Longrightarrow> list_all2 (opens_call (js @ [c])) ks cs"
  using assms
proof (induction ks cs rule: list_all2_induct)
  case (Cons k ks x xs)
  {
    case 1
    then show ?case
      using Cons opens_call_other [of c k js] opens_call_more [of js c x] opens_call_tool [of js k x]
      by (cases "chat_call_index c = k") auto
  next
    case 2
    then show ?case using Cons opens_call_other [of c k js] by auto
  }
qed simp_all


text \<open>One more fragment.\<close>

definition opened_call :: "(nat \<Rightarrow> string) \<Rightarrow> json \<Rightarrow> resp_stream \<Rightarrow> open_item" where
  "opened_call draw c st = last (rs_calls (open_call draw c st))"

lemma open_call_reads:
  "rs_calls (open_call draw c st) = rs_calls st @ [opened_call draw c st]" "rs_items (open_call draw c st) = rs_items st"
  "rs_text (open_call draw c st) = rs_text st"
  by (simp_all add: opened_call_def open_call_def Let_def split: prod.split)

lemma opened_call_matches:
  "oi_tool (opened_call draw c st) = Some (chat_call_index c)" "oi_name (opened_call draw c st) = call_name c"
  "oi_buf (opened_call draw c st) = []" "str_at c ''id'' = Some i \<Longrightarrow> oi_call_id (opened_call draw c st) = i"
  by (simp_all add: opened_call_def open_call_def call_name_def Let_def split: prod.split)

lemma feed_call_reads:
  "rs_calls (feed_call draw st c) = add_args (chat_call_index c) (call_args c)
     (if find_call (chat_call_index c) (rs_calls st) = None then rs_calls st @ [opened_call draw c st] else rs_calls st)"
  "rs_items (feed_call draw st c) = rs_items st" "rs_text (feed_call draw st c) = rs_text st"
proof -
  have empty: "add_args k [] cs = cs" for k cs by (induction cs) auto
  show "rs_calls (feed_call draw st c) = add_args (chat_call_index c) (call_args c)
     (if find_call (chat_call_index c) (rs_calls st) = None then rs_calls st @ [opened_call draw c st] else rs_calls st)"
    "rs_items (feed_call draw st c) = rs_items st" "rs_text (feed_call draw st c) = rs_text st"
    by (auto simp: feed_call_def Let_def open_call_reads empty call_args_def opened_call_matches find_call_opened split: option.split)
qed

lemma calls_match_feed:
  assumes "calls_match js (rs_calls st)" shows "calls_match (js @ [c]) (rs_calls (feed_call draw st c))"
proof -
  let ?k = "chat_call_index c" and ?ks = "first_keys (map chat_call_index js)"
  have ks: "distinct ?ks" "set ?ks \<subseteq> chat_call_index ` set js" by auto
  have match: "list_all2 (opens_call js) ?ks (rs_calls st)" using assms by (simp add: calls_match_def)
  note none = find_call_none [OF match, of ?k]
  show ?thesis
  proof (cases "?k \<in> set ?ks")
    case True
    then show ?thesis using add_args_more(1) [OF match ks True] none by (auto simp: calls_match_def feed_call_reads)
  next
    case False
    then have "fragments js ?k = []" by (simp add: fragments_empty)
    then have "opens_call (js @ [c]) ?k ((opened_call draw c st)\<lparr>oi_buf := call_args c\<rparr>)"
      using opened_call_matches(4) [of c _ draw st]
      by (auto simp: opens_call_def spoken_call_of_def fragments_snoc opened_call_matches)
    moreover have "find_call ?k (rs_calls st) = None" using False none by simp
    ultimately show ?thesis
      using add_args_more(2) [OF match ks False] False
      by (simp add: calls_match_def feed_call_reads add_args_none opened_call_matches list_all2_appendI)
  qed
qed

lemma calls_match_feeds:
  assumes "calls_match js (rs_calls st)"
  shows "calls_match (js @ cs) (rs_calls (foldl (feed_call draw) st cs))"
    and "rs_items (foldl (feed_call draw) st cs) = rs_items st" and "rs_text (foldl (feed_call draw) st cs) = rs_text st"
  using assms
proof (induction cs arbitrary: js st)
  case (Cons c cs)
  {
    case 1
    then show ?case using Cons.IH(1) [of "js @ [c]" "feed_call draw st c"] calls_match_feed [OF 1, of c draw] by simp
  next
    case 2
    then show ?case
      using Cons.IH(2) [of "js @ [c]" "feed_call draw st c"] calls_match_feed [OF 2, of c draw] by (simp add: feed_call_reads)
  next
    case 3
    then show ?case
      using Cons.IH(3) [of "js @ [c]" "feed_call draw st c"] calls_match_feed [OF 3, of c draw] by (simp add: feed_call_reads)
  }
qed simp_all

section \<open>The whole state\<close>

definition open_text_of :: "resp_stream \<Rightarrow> string" where
  "open_text_of st = (case rs_text st of Some t \<Rightarrow> oi_buf t | None \<Rightarrow> [])"

definition says_messages :: "json list \<Rightarrow> string \<Rightarrow> bool" where
  "says_messages items t \<longleftrightarrow> (\<exists>ms. items = map (\<lambda>(i, m). message_output i m) ms \<and> concat (map snd ms) = t)"

definition tells :: "resp_stream \<Rightarrow> json list \<Rightarrow> bool" where
  "tells st cs \<longleftrightarrow>
     (\<exists>t. says_messages (rs_items st) t \<and> t @ open_text_of st = concat (map chunk_text cs))
   \<and> calls_match (concat (map chunk_calls cs)) (rs_calls st)"

lemma says_messages_snoc:
  "says_messages items t \<Longrightarrow> says_messages (items @ [message_output i m]) (t @ m)"
  unfolding says_messages_def by (elim exE conjE, rule_tac x = "ms @ [(i, m)]" in exI) simp

lemma says_messages_Nil [simp]: "says_messages [] []"
  by (simp add: says_messages_def)


lemma tells_start: "tells st cs \<Longrightarrow> tells (start_response st) cs"
  by (simp add: tells_def start_response_def open_text_of_def Let_def)

lemma tells_meta [simp]:
  "tells (st\<lparr>rs_model := m\<rparr>) = tells st" "tells (st\<lparr>rs_usage := u\<rparr>) = tells st" "tells (st\<lparr>rs_truncated := b\<rparr>) = tells st"
  by (simp_all add: tells_def open_text_of_def fun_eq_iff)

lemma close_text_reads:
  "rs_calls (close_text st) = rs_calls st" "rs_text (close_text st) = None"
  "says_messages (rs_items st) t \<Longrightarrow> says_messages (rs_items (close_text st)) (t @ open_text_of st)"
  by (simp_all add: close_text_def open_text_of_def Let_def says_messages_snoc split: option.split)

lemma feed_text_reads:
  "rs_calls (feed_text draw said st) = rs_calls st" "rs_items (feed_text draw said st) = rs_items st"
  "open_text_of (feed_text draw said st) = open_text_of st @ said"
  by (auto simp: feed_text_def open_text_def open_text_of_def Let_def split: option.split)

lemma choice_delta_first: "choice_delta chunk = jidx (first_choice chunk) ''delta''"
  by (cases "first_elem (jidx chunk ''choices'')") (simp_all add: choice_delta_def first_choice_def)

text \<open>The text of a chunk comes before its calls.\<close>

definition tells_text :: "resp_stream \<Rightarrow> string \<Rightarrow> json list \<Rightarrow> bool" where
  "tells_text st s js \<longleftrightarrow>
     (\<exists>t. says_messages (rs_items st) t \<and> t @ open_text_of st = s) \<and> calls_match js (rs_calls st)"

lemma tells_said: "tells_text st s js \<Longrightarrow> tells_text (if said = [] then st else feed_text draw said st) (s @ said) js"
  by (auto simp: tells_text_def feed_text_reads)

lemma tells_calls:
  assumes "tells_text st s js"
  shows "tells_text (feed_calls draw delta st) s (js @ elements_at delta ''tool_calls'')"
proof (cases "Option.bind (jget delta ''tool_calls'') as_array")
  case None
  then have "elements_at delta ''tool_calls'' = []" by (simp add: elements_at_def jidx_def split: option.splits)
  then show ?thesis using None assms by (simp add: feed_calls_def)
next
  case (Some cs)
  then have cs: "elements_at delta ''tool_calls'' = cs" by (auto simp: elements_at_def jidx_def split: option.splits bind_splits)
  obtain t where t: "says_messages (rs_items st) t" "t @ open_text_of st = s" and match: "calls_match js (rs_calls (close_text st))"
    using assms by (auto simp: tells_text_def close_text_reads)
  have "says_messages (rs_items (close_text st)) s" using close_text_reads(3) [OF t(1)] t(2) by simp
  then show ?thesis
    using calls_match_feeds [OF match, where draw = draw and cs = cs] Some
    by (simp add: tells_text_def feed_calls_def cs open_text_of_def close_text_reads)
qed

lemma tells_feed:
  assumes "tells st cs" and "\<not> rs_finished st" shows "tells (feed draw st c) (cs @ [c])"
proof -
  let ?said = "chunk_text c" and ?js = "concat (map chunk_calls cs)"
  have said: "unwrap_or (str_at (jidx (first_choice c) ''delta'') ''content'') [] = ?said"
    by (simp add: chunk_text_def choice_delta_first)
  define st1 where "st1 = (let st = start_response st; st = (case str_at c ''model'' of Some m \<Rightarrow> st\<lparr>rs_model := m\<rparr> | None \<Rightarrow> st)
     in (if is_object (jidx c ''usage'') then st\<lparr>rs_usage := responses_usage c\<rparr> else st))"
  define st2 where "st2 = feed_calls draw (jidx (first_choice c) ''delta'') (if ?said = [] then st1 else feed_text draw ?said st1)"
  have "feed draw st c = (if cut_short (first_choice c) then st2\<lparr>rs_truncated := True\<rparr> else st2)"
    using assms(2) by (simp add: feed_def said st1_def st2_def Let_def)
  moreover have "tells st1 cs" using tells_start [OF assms(1)] by (auto simp: st1_def Let_def split: option.split)
  then have "tells_text st1 (concat (map chunk_text cs)) ?js" by (simp add: tells_def tells_text_def)
  then have "tells_text st2 (concat (map chunk_text cs) @ ?said) (?js @ chunk_calls c)"
    unfolding st2_def chunk_calls_def choice_delta_first by (intro tells_calls tells_said)
  then have "tells st2 (cs @ [c])" by (simp add: tells_def tells_text_def)
  ultimately show ?thesis by simp
qed

lemma tells_feeds:
  assumes "tells st cs" and "stream_ok st" shows "tells (foldl (feed draw) st ds) (cs @ ds)"
  using assms
proof (induction ds arbitrary: st cs)
  case (Cons d ds)
  then have "\<not> rs_finished st" by (simp add: stream_ok_def)
  then show ?case using Cons.IH [of "feed draw st d" "cs @ [d]"] Cons.prems by (simp add: tells_feed stream_ok_feed)
qed simp

lemma tells_new: "tells (new_resp_stream draw now model ns) []"
  by (simp add: tells_def new_resp_stream_def open_text_of_def calls_match_def)


text \<open>The tools' namespaces stay what they were.\<close>

lemma feed_call_ns: "rs_ns (feed_call draw st c) = rs_ns st"
  by (auto simp: feed_call_def open_call_def Let_def split: option.split prod.split)

lemma feed_calls_ns: "rs_ns (foldl (feed_call draw) st cs) = rs_ns st"
  by (induction cs arbitrary: st) (simp_all add: feed_call_ns)

lemma close_ns: "rs_ns (start_response st) = rs_ns st" "rs_ns (close_text st) = rs_ns st" "rs_ns (feed_text draw said st) = rs_ns st"
  by (auto simp: start_response_def close_text_def feed_text_def open_text_def Let_def split: option.split)

lemma feed_ns: "rs_ns (feed draw st c) = rs_ns st"
  by (auto simp: feed_def feed_calls_def Let_def close_ns feed_calls_ns split: option.split)

lemma feeds_ns: "rs_ns (foldl (feed draw) st cs) = rs_ns st"
  by (induction cs arbitrary: st) (simp_all add: feed_ns)

section \<open>The response\<close>

definition closed_call :: "namespace_map \<Rightarrow> open_item \<Rightarrow> json" where
  "closed_call ns c = with_namespace ns (call_output (oi_id c) ''completed'' (oi_call_id c) (JStr (oi_name c)) (oi_buf c))"

text \<open>The item of a call; a call without an id of its own has one that was drawn.\<close>

definition answers_call :: "namespace_map \<Rightarrow> spoken_call \<Rightarrow> json \<Rightarrow> bool" where
  "answers_call ns sc item \<longleftrightarrow>
     (\<exists>i d. item = with_namespace ns (call_output i ''completed'' (unwrap_or (sc_id sc) d) (JStr (sc_name sc)) (sc_args sc)))"

lemma close_call_items: "rs_items (foldl close_call st cs) = rs_items st @ map (closed_call (rs_ns st)) cs"
proof (induction cs arbitrary: st)
  case (Cons c cs)
  have "rs_items (close_call st c) = rs_items st @ [closed_call (rs_ns st) c]"
    by (simp add: close_call_def closed_call_def Let_def)
  then show ?case by (simp add: Cons.IH)
qed simp

lemma answers_calls:
  assumes "calls_match js cs" shows "list_all2 (answers_call ns) (spoken_calls js) (map (closed_call ns) cs)"
proof -
  have one: "answers_call ns (spoken_call_of js k) (closed_call ns c)" if "opens_call js k c" for k c
    using that unfolding answers_call_def closed_call_def opens_call_def
    by (intro exI [of _ "oi_id c"] exI [of _ "oi_call_id c"]) (cases "sc_id (spoken_call_of js k)"; simp)
  from assms show ?thesis
    unfolding calls_match_def spoken_calls_def list_all2_map1 list_all2_map2 by (rule list_all2_mono) (rule one)
qed

lemma closed_says:
  assumes "tells st cs"
  shows "\<exists>ms calls. rs_items (closed_state st) = map (\<lambda>(i, m). message_output i m) ms @ calls
     \<and> concat (map snd ms) = concat (map chunk_text cs)
     \<and> list_all2 (answers_call (rs_ns st)) (spoken_calls (concat (map chunk_calls cs))) calls"
proof -
  let ?st = "start_response st"
  obtain t where t: "says_messages (rs_items ?st) t" "t @ open_text_of ?st = concat (map chunk_text cs)"
    and match: "calls_match (concat (map chunk_calls cs)) (rs_calls ?st)"
    using tells_start [OF assms] by (auto simp: tells_def)
  obtain ms where ms: "rs_items (close_text ?st) = map (\<lambda>(i, m). message_output i m) ms" "concat (map snd ms) = concat (map chunk_text cs)"
    using close_text_reads(3) [OF t(1)] t(2) by (auto simp: says_messages_def)
  have "rs_items (closed_state st) = map (\<lambda>(i, m). message_output i m) ms @ map (closed_call (rs_ns st)) (rs_calls ?st)"
    by (simp add: closed_state_def Let_def close_call_items close_ns close_text_reads ms(1))
  then show ?thesis using ms(2) answers_calls [OF match] by blast
qed

lemma translated_says:
  fixes parse :: "string \<Rightarrow> json option"
  assumes "pushes_fit new_framer (pieces_of body)" and "framer_feeds new_framer (pieces_of body) = (bs, g)"
  defines "cs \<equiv> chunks_of parse (bs @ [framer_finish g])"
  shows "\<exists>es ms calls. translate_stream parse print draw now model ns body = map (\<lambda>e. Inr (render_claude_event print e)) es
     \<and> conforming es (map (\<lambda>(i, m). message_output i m) ms @ calls)
     \<and> concat (map snd ms) = concat (map chunk_text cs)
     \<and> list_all2 (answers_call ns) (spoken_calls (concat (map chunk_calls cs))) calls"
proof -
  let ?st = "foldl (feed draw) (new_resp_stream draw now model ns) cs"
  have run: "run_stream parse draw new_framer (new_resp_stream draw now model ns) body = finish_response ?st"
    unfolding cs_def by (rule run_stream_chunks [OF assms(1,2)])
  have ok: "stream_ok ?st" by (rule stream_ok_feeds [OF stream_ok_new])
  have "tells ?st cs" using tells_feeds [OF tells_new stream_ok_new] by simp
  moreover have "rs_ns ?st = ns" by (simp add: feeds_ns new_resp_stream_def)
  ultimately obtain ms calls where "rs_items (closed_state ?st) = map (\<lambda>(i, m). message_output i m) ms @ calls"
    "concat (map snd ms) = concat (map chunk_text cs)" "list_all2 (answers_call ns) (spoken_calls (concat (map chunk_calls cs))) calls"
    using closed_says [of ?st cs] by auto
  then show ?thesis using finish_conforms [OF ok] unfolding translate_stream_def run by metis
qed

end
