(* ===== verification/ExampleResponses.thy ===== *)
theory ExampleResponses
  imports ExampleAdapters ResponsesSpec ResponsesFaithful
begin

text \<open>
  A request of the Responses API with a conversation, a tool inside a namespace and one outside.
\<close>

definition weather_items :: conversation where
  "weather_items = weather_chat\<lparr>cv_turns := [UserSays ''weather?'', AssistantCalls ''looking''
       [\<lparr>cl_id = ''c1'', cl_name = ''weather'', cl_input = paris\<rparr>, \<lparr>cl_id = ''c2'', cl_name = ''weather'', cl_input = paris\<rparr>],
     ToolAnswers ''c1'' ''sunny'', UserShows [''and here?''] [(''image/png'', ''AAAA'')]]\<rparr>"

definition function_decl :: "string \<Rightarrow> json" where
  "function_decl n = jobj [(''type'', JStr ''function''), (''name'', JStr n)]"

definition spawn_tool :: json where
  "spawn_tool = function_decl ''spawn''"

definition items_request :: json where
  "items_request = jobj [(''model'', JStr ''m''), (''instructions'', JStr ''be brief''),
     (''tools'', JArr [function_decl ''weather'', jobj [(''type'', JStr ''namespace''), (''name'', JStr ''agents''), (''tools'', JArr [spawn_tool])]]),
     (''input'', JArr (concat (map (codex_turn example_print) (cv_turns weather_items))))]"

definition asked_chat :: json where
  "asked_chat = projr (request_to_chat example_print items_request)"

text \<open>The libraries of the other examples, and the texts of these two values.\<close>

definition responses_print :: "json \<Rightarrow> string" where
  "responses_print v = (if v = asked_chat then ''ASKED'' else example_print v)"

definition responses_parse :: "string \<Rightarrow> string + json" where
  "responses_parse s =
     (if s = ''ASKED'' then Inr asked_chat else if s = ''ASK'' then Inr items_request else example_parse s)"

definition responses_libs :: libs where
  "responses_libs = example_libs\<lparr>lb_parse := responses_parse, lb_print := responses_print\<rparr>"

definition responses_env :: env where
  "responses_env = (wired_env (Inr (said 503)))\<lparr>env_adapter := adapter_for_wire responses_libs,
     env_parse_json := (\<lambda>s. if s = ''ASK'' then Inr items_request else Inl ''no json''), env_print_json := responses_print\<rparr>"

lemma responses_adapter: "env_adapter responses_env = adapter_for_wire responses_libs"
  by (simp add: responses_env_def)

lemma responses_sane: "sane_resets responses_env"
proof -
  have "usage_limit_field items_request ''resets_in_seconds'' = None" "usage_limit_field items_request ''resets_at'' = None"
    by code_simp+
  then have "usage_limit_cooldown now items_request \<noteq> Panicked" for now by (simp add: usage_limit_cooldown_def opt_or_def Let_def)
  then show ?thesis by (simp add: sane_resets_def responses_env_def wired_env_def example_env_def)
qed

lemma asked:
  assumes "parsed responses_env ''ASK'' = Some req" and "request_to_chat (env_print_json responses_env) req = Inr chat"
  shows "lb_parse responses_libs (env_print_json responses_env chat) = Inr chat"
proof -
  have "request_to_chat responses_print items_request = Inr asked_chat" by code_simp
  with assms have "chat = asked_chat" by (simp add: parsed_def responses_env_def)
  then show ?thesis by (simp add: responses_libs_def responses_env_def responses_print_def responses_parse_def)
qed

lemma items_names: "tool_names items_request = {(None, ''weather''), (Some ''agents'', ''spawn'')}"
proof -
  have tools: "flat_tools (elements_at items_request ''tools'') = [(None, function_decl ''weather''), (Some ''agents'', spawn_tool)]"
    by code_simp
  have "str_at (function_decl n) ''name'' = Some n" for n by (simp add: function_decl_def reading)
  then show ?thesis unfolding tool_names_def tools by (auto simp: spawn_tool_def)
qed

end
