(* ===== verification/Usage.thy ===== *)
theory Usage
  imports BridgeSpec Sse
begin

text \<open>
  \<open>src/telemetry/usage.rs\<close>, the reader of token counts: a copy of every answer is scanned while it
  passes through, in whatever pieces it comes.  \<open>parse\<close> is \<open>serde_json\<close>'s parser.
\<close>

section \<open>Counts\<close>

record usage =
  us_input :: int
  us_output :: int
  us_cached :: int

definition no_usage :: usage where
  "no_usage = \<lparr>us_input = 0, us_output = 0, us_cached = 0\<rparr>"

definition usage_is_empty :: "usage \<Rightarrow> bool" where
  "usage_is_empty u \<longleftrightarrow> us_input u = 0 \<and> us_output u = 0"

definition merge_usage :: "usage \<Rightarrow> usage \<Rightarrow> usage" where
  "merge_usage a b =
     \<lparr>us_input = max (us_input a) (us_input b), us_output = max (us_output a) (us_output b),
      us_cached = max (us_cached a) (us_cached b)\<rparr>"

definition usage_object :: "json \<Rightarrow> json option" where
  "usage_object v =
     find is_object [jidx v ''usage'', jidx (jidx v ''response'') ''usage'', jidx (jidx v ''message'') ''usage'']"

definition cached_tokens :: "json \<Rightarrow> int" where
  "cached_tokens u =
     unwrap_or (opt_or (as_i64 (jidx (jidx u ''prompt_tokens_details'') ''cached_tokens''))
       (as_i64 (jidx (jidx u ''input_tokens_details'') ''cached_tokens''))) 0"

text \<open>Sums of \<open>i64\<close> wrap, as a release build has it.\<close>

definition usage_of :: "json \<Rightarrow> usage option" where
  "usage_of v =
     (case usage_object v of
        None \<Rightarrow> None
      | Some u \<Rightarrow>
          (let n = (\<lambda>k. as_i64 (jidx u k));
               input = opt_or (n ''prompt_tokens'') (n ''input_tokens'');
               output = opt_or (n ''completion_tokens'') (n ''output_tokens'')
           in if input = None \<and> output = None then None
              else if jget u ''cache_read_input_tokens'' \<noteq> None \<or> jget u ''cache_creation_input_tokens'' \<noteq> None
              then (let read = unwrap_or (n ''cache_read_input_tokens'') 0
                in Some \<lparr>us_input = wrap_i64 (unwrap_or input 0
                          + wrap_i64 (read + unwrap_or (n ''cache_creation_input_tokens'') 0)),
                        us_output = unwrap_or output 0, us_cached = read\<rparr>)
              else Some \<lparr>us_input = unwrap_or input 0, us_output = unwrap_or output 0, us_cached = cached_tokens u\<rparr>))"

section \<open>The scanner\<close>

record scanner =
  sn_line :: string
  sn_line_overflow :: bool
  sn_body :: string
  sn_body_overflow :: bool
  sn_saw_line_usage :: bool
  sn_best :: usage

definition new_scanner :: scanner where
  "new_scanner = \<lparr>sn_line = [], sn_line_overflow = False, sn_body = [], sn_body_overflow = False,
     sn_saw_line_usage = False, sn_best = no_usage\<rparr>"

definition MAX_LINE :: nat where
  "MAX_LINE = 2 ^ 20"

definition MAX_BODY :: nat where
  "MAX_BODY = 4 * 2 ^ 20"

text \<open>The counts of one line: it may be an event's data or a JSON value of its own.\<close>

definition line_usage :: "(string \<Rightarrow> json option) \<Rightarrow> string \<Rightarrow> usage option" where
  "line_usage parse raw =
     (if \<not> valid_utf8 raw then None
      else (let s = trim raw;
                payload = (case strip_prefix ''data:'' s of Some p \<Rightarrow> trim p | None \<Rightarrow> s)
            in if \<not> starts_with payload ''{'' \<or> \<not> contains payload ''usage'' then None
               else Option.bind (parse payload) usage_of))"

definition on_line :: "(string \<Rightarrow> json option) \<Rightarrow> string \<Rightarrow> scanner \<Rightarrow> scanner" where
  "on_line parse raw s =
     (case line_usage parse raw of
        None \<Rightarrow> s
      | Some u \<Rightarrow> s\<lparr>sn_saw_line_usage := True, sn_best := merge_usage (sn_best s) u\<rparr>)"

fun split_inclusive :: "string \<Rightarrow> string list" where
  "split_inclusive [] = []"
| "split_inclusive (c # s) =
     (if c = LF then [c] # split_inclusive s
      else (case split_inclusive s of [] \<Rightarrow> [[c]] | p # ps \<Rightarrow> (c # p) # ps))"

definition keep_body :: "string \<Rightarrow> scanner \<Rightarrow> scanner" where
  "keep_body chunk s =
     (if sn_body_overflow s then s
      else if MAX_BODY < length (sn_body s) + length chunk then s\<lparr>sn_body_overflow := True, sn_body := []\<rparr>
      else s\<lparr>sn_body := sn_body s @ chunk\<rparr>)"

definition keep_line :: "string \<Rightarrow> scanner \<Rightarrow> scanner" where
  "keep_line part s =
     (if sn_line_overflow s then s
      else if MAX_LINE < length (sn_line s) + length part then s\<lparr>sn_line_overflow := True, sn_line := []\<rparr>
      else s\<lparr>sn_line := sn_line s @ part\<rparr>)"

definition end_line :: "(string \<Rightarrow> json option) \<Rightarrow> scanner \<Rightarrow> scanner" where
  "end_line parse s =
     (let s = (if sn_line_overflow s then s else on_line parse (sn_line s) s)
      in s\<lparr>sn_line_overflow := False, sn_line := []\<rparr>)"

definition feed_part :: "(string \<Rightarrow> json option) \<Rightarrow> scanner \<Rightarrow> string \<Rightarrow> scanner" where
  "feed_part parse s part =
     (let s = keep_line part s in if ends_with part [LF] then end_line parse s else s)"

definition scanner_feed :: "(string \<Rightarrow> json option) \<Rightarrow> scanner \<Rightarrow> string \<Rightarrow> scanner" where
  "scanner_feed parse s chunk = foldl (feed_part parse) (keep_body chunk s) (split_inclusive chunk)"

definition scanner_finish :: "(string \<Rightarrow> json option) \<Rightarrow> scanner \<Rightarrow> usage" where
  "scanner_finish parse s =
     (let s = (if sn_line s \<noteq> [] \<and> \<not> sn_line_overflow s then on_line parse (sn_line s) s else s)
      in if \<not> sn_saw_line_usage s \<and> \<not> sn_body_overflow s
         then (case Option.bind (parse (sn_body s)) usage_of of
                 Some u \<Rightarrow> merge_usage (sn_best s) u | None \<Rightarrow> sn_best s)
         else sn_best s)"

text \<open>
  \<open>tap\<close>: the body passes unchanged; the guard reports once, when the body is dropped, what was
  seen of the items until then.
\<close>

definition tap :: "(string \<Rightarrow> json option) \<Rightarrow> (string + string) list \<Rightarrow> (string + string) list \<times> usage" where
  "tap parse items =
     (items, scanner_finish parse (foldl (\<lambda>s item. case item of Inr chunk \<Rightarrow> scanner_feed parse s chunk | Inl _ \<Rightarrow> s)
        new_scanner items))"

section \<open>Cuts do not matter\<close>

text \<open>A scanner that is fed one byte at a time.\<close>

definition feed_byte :: "(string \<Rightarrow> json option) \<Rightarrow> scanner \<Rightarrow> char \<Rightarrow> scanner" where
  "feed_byte parse s c = (let s = keep_line [c] s in if c = LF then end_line parse s else s)"

lemma keep_line_append: "ps \<noteq> [] \<Longrightarrow> keep_line qs (keep_line ps s) = keep_line (ps @ qs) s"
  by (auto simp: keep_line_def)

lemma keep_body_append: "keep_body qs (keep_body ps s) = keep_body (ps @ qs) s"
  by (auto simp: keep_body_def)

lemma feed_bytes_line:
  assumes "LF \<notin> set q" and "q \<noteq> []" shows "foldl (feed_byte parse) s q = keep_line q s"
  using assms
proof (induction q arbitrary: s)
  case (Cons c q)
  then show ?case
    by (cases "q = []") (auto simp: feed_byte_def keep_line_append)
qed simp

fun line_part :: "string \<Rightarrow> bool" where
  "line_part p \<longleftrightarrow> p \<noteq> [] \<and> LF \<notin> set (butlast p)"

lemma split_inclusive_parts: "list_all line_part (split_inclusive t)" "concat (split_inclusive t) = t"
  by (induction t) (auto split: list.split)

lemma ends_with_char [simp]: "ends_with p [c] \<longleftrightarrow> p \<noteq> [] \<and> last p = c"
  by (cases p rule: rev_cases) (simp_all add: ends_with_def)

lemma in_butlast_or_last: "x \<in> set p \<Longrightarrow> x \<in> set (butlast p) \<or> x = last p"
  by (cases p rule: rev_cases) auto

lemma feed_part_bytes:
  assumes "line_part p" shows "feed_part parse s p = foldl (feed_byte parse) s p"
proof (cases "last p = LF")
  case True
  obtain q where p: "p = q @ [LF]" using assms True by (cases p rule: rev_cases) auto
  then have "LF \<notin> set q" using assms by simp
  then show ?thesis
    using feed_bytes_line [of q parse s] by (cases "q = []") (simp_all add: p feed_part_def feed_byte_def keep_line_append Let_def)
next
  case False
  have "p \<noteq> []" using assms by simp
  moreover have "LF \<notin> set p" using assms False in_butlast_or_last [of LF p] by auto
  ultimately show ?thesis using feed_bytes_line [of p parse s] False by (simp add: feed_part_def)
qed

lemma feed_parts_bytes: "list_all line_part ps \<Longrightarrow> foldl (feed_part parse) s ps = foldl (feed_byte parse) s (concat ps)"
  by (induction ps arbitrary: s) (simp_all add: feed_part_bytes del: line_part.simps)

lemma scanner_feed_bytes: "scanner_feed parse s t = foldl (feed_byte parse) (keep_body t s) t"
  unfolding scanner_feed_def feed_parts_bytes [OF split_inclusive_parts(1)] split_inclusive_parts(2) ..

lemma keep_body_commutes:
  "keep_body t (keep_line p s) = keep_line p (keep_body t s)" "keep_body t (on_line parse l s) = on_line parse l (keep_body t s)"
  "sn_line (keep_body t s) = sn_line s" "sn_line_overflow (keep_body t s) = sn_line_overflow s"
  by (simp_all add: keep_body_def keep_line_def on_line_def split: option.split)

lemma keep_body_end: "keep_body t (end_line parse s) = end_line parse (keep_body t s)"
  by (cases s) (auto simp: end_line_def on_line_def keep_body_def Let_def split: option.split)

lemma keep_body_bytes: "keep_body t (foldl (feed_byte parse) s u) = foldl (feed_byte parse) (keep_body t s) u"
  by (induction u arbitrary: s) (simp_all add: feed_byte_def Let_def keep_body_commutes(1) keep_body_end)

text \<open>Two feeds are one.\<close>

lemma scanner_feed_append: "scanner_feed parse (scanner_feed parse s t) u = scanner_feed parse s (t @ u)"
  by (simp add: scanner_feed_bytes keep_body_bytes keep_body_append)

lemma scanner_feed_Nil: "sn_body_overflow s \<or> length (sn_body s) \<le> MAX_BODY \<Longrightarrow> scanner_feed parse s [] = s"
  by (auto simp: scanner_feed_def keep_body_def)

lemma scanner_feeds_concat:
  "ts \<noteq> [] \<Longrightarrow> foldl (scanner_feed parse) s ts = scanner_feed parse s (concat ts)"
proof (induction ts arbitrary: s)
  case (Cons t ts)
  then show ?case by (cases "ts = []") (simp_all add: scanner_feed_append)
qed simp

section \<open>What is reported\<close>

text \<open>The lines of a text that are not too long and report counts, or else the text itself.\<close>

definition reported :: "(string \<Rightarrow> json option) \<Rightarrow> string \<Rightarrow> usage" where
  "reported parse text =
     (case List.map_filter (line_usage parse) (filter (\<lambda>l. length l \<le> MAX_LINE) (split_inclusive text)) of
        [] \<Rightarrow> (if MAX_BODY < length text then no_usage
               else (case Option.bind (parse text) usage_of of Some u \<Rightarrow> merge_usage no_usage u | None \<Rightarrow> no_usage))
      | us \<Rightarrow> foldl merge_usage no_usage us)"

definition whole_line :: "string \<Rightarrow> bool" where
  "whole_line p \<longleftrightarrow> p \<noteq> [] \<and> last p = LF"

definition line_reports :: "(string \<Rightarrow> json option) \<Rightarrow> string list \<Rightarrow> usage list" where
  "line_reports parse ps = List.map_filter (line_usage parse) (filter (\<lambda>l. length l \<le> MAX_LINE) ps)"

text \<open>At the end of a line nothing of it is kept.\<close>

definition rested :: "(string \<Rightarrow> json option) \<Rightarrow> scanner \<Rightarrow> string list \<Rightarrow> scanner" where
  "rested parse s ps =
     s\<lparr>sn_saw_line_usage := sn_saw_line_usage s \<or> line_reports parse ps \<noteq> [],
       sn_best := foldl merge_usage (sn_best s) (line_reports parse ps)\<rparr>"

lemma feed_whole_line:
  assumes "whole_line p" and "sn_line s = []" and "\<not> sn_line_overflow s"
  shows "feed_part parse s p = rested parse s [p]"
  using assms
  by (cases s) (auto simp: feed_part_def whole_line_def keep_line_def end_line_def on_line_def rested_def line_reports_def
      map_filter_simps Let_def split: option.split)

lemma rested_append: "rested parse (rested parse s ps) qs = rested parse s (ps @ qs)"
  by (simp add: rested_def line_reports_def map_filter_append)

lemma rested_line: "sn_line (rested parse s ps) = sn_line s" "sn_line_overflow (rested parse s ps) = sn_line_overflow s"
  by (simp_all add: rested_def)

lemma feed_whole_lines:
  assumes "list_all whole_line ps" and "sn_line s = []" and "\<not> sn_line_overflow s"
  shows "foldl (feed_part parse) s ps = rested parse s ps"
  using assms
proof (induction ps arbitrary: s)
  case Nil
  then show ?case by (simp add: rested_def line_reports_def map_filter_simps)
next
  case (Cons p ps)
  then show ?case
    using rested_append [of parse s "[p]" ps] by (simp add: feed_whole_line rested_line)
qed

lemma whole_line_simps: "whole_line [LF]" "whole_line p \<Longrightarrow> whole_line (c # p)"
  by (simp_all add: whole_line_def)

lemma split_inclusive_lines:
  "\<exists>ps q. split_inclusive t = ps @ q \<and> list_all whole_line ps \<and> (q = [] \<or> (\<exists>l. q = [l] \<and> l \<noteq> [] \<and> LF \<notin> set l))"
proof (induction t)
  case (Cons c t)
  then obtain ps q where t: "split_inclusive t = ps @ q" "list_all whole_line ps" "q = [] \<or> (\<exists>l. q = [l] \<and> l \<noteq> [] \<and> LF \<notin> set l)"
    by (elim exE conjE)
  show ?case
  proof (cases "c = LF")
    case True
    show ?thesis
      by (rule exI [of _ "[LF] # ps"], rule exI [of _ q]) (use t True whole_line_simps in auto)
  next
    case False
    show ?thesis
    proof (cases ps)
      case Nil
      show ?thesis
        by (rule exI [of _ "[]"], rule exI [of _ "case q of [] \<Rightarrow> [[c]] | l # _ \<Rightarrow> [c # l]"]) (use t False Nil in auto)
    next
      case (Cons p ps')
      show ?thesis
        by (rule exI [of _ "(c # p) # ps'"], rule exI [of _ q]) (use t False Cons whole_line_simps in auto)
    qed
  qed
qed simp

lemma line_reports_append: "line_reports parse (ps @ qs) = line_reports parse ps @ line_reports parse qs"
  by (simp add: line_reports_def map_filter_append)

text \<open>What a last line without its end adds when the scanner finishes.\<close>

lemma finish_rest:
  assumes "LF \<notin> set l" and "l \<noteq> []" and "sn_line s = []" and "\<not> sn_line_overflow s"
  shows "scanner_finish parse (feed_part parse s l) =
     (let s = rested parse s [l] in if \<not> sn_saw_line_usage s \<and> \<not> sn_body_overflow s
      then (case Option.bind (parse (sn_body s)) usage_of of Some u \<Rightarrow> merge_usage (sn_best s) u | None \<Rightarrow> sn_best s)
      else sn_best s)"
proof -
  have "last l \<noteq> LF" using assms(1,2) last_in_set by metis
  then show ?thesis
    using assms by (cases s) (auto simp: feed_part_def keep_line_def scanner_finish_def on_line_def rested_def line_reports_def
        map_filter_simps Let_def split: option.split)
qed

lemma scanner_reports: "scanner_finish parse (scanner_feed parse new_scanner t) = reported parse t"
proof -
  obtain ps q where parts: "split_inclusive t = ps @ q" "list_all whole_line ps" "q = [] \<or> (\<exists>l. q = [l] \<and> l \<noteq> [] \<and> LF \<notin> set l)"
    using split_inclusive_lines by blast
  let ?s = "keep_body t new_scanner"
  have s: "sn_line ?s = []" "\<not> sn_line_overflow ?s" "\<not> sn_saw_line_usage ?s" "sn_best ?s = no_usage"
    "sn_body_overflow ?s \<longleftrightarrow> MAX_BODY < length t" "\<not> sn_body_overflow ?s \<Longrightarrow> sn_body ?s = t"
    by (simp_all add: keep_body_def new_scanner_def split: if_splits)
  have fed: "scanner_feed parse new_scanner t = foldl (feed_part parse) (rested parse ?s ps) q"
    using feed_whole_lines [OF parts(2) s(1,2)] by (simp add: scanner_feed_def parts(1))
  have "scanner_finish parse (foldl (feed_part parse) (rested parse ?s ps) q) =
     (let s = rested parse ?s (ps @ q) in if \<not> sn_saw_line_usage s \<and> \<not> sn_body_overflow s
      then (case Option.bind (parse (sn_body s)) usage_of of Some u \<Rightarrow> merge_usage (sn_best s) u | None \<Rightarrow> sn_best s)
      else sn_best s)"
    using parts(3)
  proof (elim disjE exE conjE)
    assume "q = []"
    then show ?thesis using s(1,2) by (simp add: scanner_finish_def rested_line Let_def)
  next
    fix l assume "q = [l]" "l \<noteq> []" "LF \<notin> set l"
    then show ?thesis using finish_rest [of l "rested parse ?s ps" parse] s(1,2) by (simp add: rested_line rested_append)
  qed
  moreover have "reported parse t = (case line_reports parse (ps @ q) of
        [] \<Rightarrow> (if MAX_BODY < length t then no_usage
               else (case Option.bind (parse t) usage_of of Some u \<Rightarrow> merge_usage no_usage u | None \<Rightarrow> no_usage))
      | us \<Rightarrow> foldl merge_usage no_usage us)"
    by (simp only: reported_def line_reports_def parts(1))
  ultimately show ?thesis
    using s(3-6) by (cases "line_reports parse (ps @ q)") (auto simp: fed rested_def Let_def split: option.split)
qed

text \<open>The count of an answer depends on its bytes only, not on the pieces it came in.\<close>

lemma tap_reports:
  "fst (tap parse items) = items \<and> snd (tap parse items) = reported parse (concat (List.map_filter (\<lambda>i. case i of Inr c \<Rightarrow> Some c | Inl _ \<Rightarrow> None) items))"
proof -
  let ?chunks = "List.map_filter (\<lambda>i. case i of Inr c \<Rightarrow> Some c | Inl _ \<Rightarrow> None) items"
  have "foldl (\<lambda>s item. case item of Inr chunk \<Rightarrow> scanner_feed parse s chunk | Inl _ \<Rightarrow> s) s items
      = foldl (scanner_feed parse) s (List.map_filter (\<lambda>i. case i of Inr c \<Rightarrow> Some c | Inl _ \<Rightarrow> None) items)" for s
    by (induction items arbitrary: s) (simp_all add: map_filter_simps split: sum.split)
  moreover have "foldl (scanner_feed parse) new_scanner ?chunks = scanner_feed parse new_scanner (concat ?chunks)"
    by (cases "?chunks = []") (simp_all add: scanner_feeds_concat scanner_feed_Nil new_scanner_def)
  ultimately show ?thesis by (simp add: tap_def scanner_reports)
qed

end
