(* ===== verification/UsageReport.thy ===== *)
theory UsageReport
  imports Usage Store
begin

text \<open>
  \<open>src/telemetry/usage.rs\<close>, the tables: what is stored of an answer, the people and the prices,
  and the report over them.  The tables of the telemetry are a database state of their own; times
  are stored as text and compared as text.
\<close>

section \<open>Tables\<close>

record usage_row =
  ul_created_at :: string
  ul_user_id :: "string option"
  ul_pool_id :: "string option"
  ul_provider_id :: string
  ul_model :: string
  ul_usage :: usage

text \<open>Dollars for a million tokens.\<close>

record price =
  pr_input :: rat
  pr_output :: rat
  pr_cached :: "rat option"

record telemetry_db =
  tb_usage :: "usage_row list"
  tb_people :: "(string \<times> string) list"
  tb_prices :: "(string \<times> price) list"
  tb_requests :: "(log_entry \<times> string) list"
  tb_faults :: "string option list"

type_synonym 'a telemetry = "(telemetry_db, app_error + 'a) state"

definition telemetry_stmt :: "(telemetry_db \<Rightarrow> sql_error + 'a \<times> telemetry_db) \<Rightarrow> 'a telemetry" where
  "telemetry_stmt f = State (\<lambda>db.
     let db' = db\<lparr>tb_faults := tl (tb_faults db)\<rparr>
     in case tb_faults db of
          Some e # _ \<Rightarrow> (Inl (db_error (OtherError e)), db')
        | _ \<Rightarrow> (case f db' of Inl e \<Rightarrow> (Inl (db_error e), db') | Inr (a, db'') \<Rightarrow> (Inr a, db'')))"

definition telemetry_fetch :: "(telemetry_db \<Rightarrow> sql_error + 'a) \<Rightarrow> 'a telemetry" where
  "telemetry_fetch f = telemetry_stmt (\<lambda>db. map_sum id (\<lambda>a. (a, db)) (f db))"

definition telemetry_execute :: "(telemetry_db \<Rightarrow> telemetry_db) \<Rightarrow> unit telemetry" where
  "telemetry_execute f = telemetry_stmt (\<lambda>db. Inr ((), f db))"

text \<open>\<open>INSERT .. ON CONFLICT(key) DO UPDATE\<close>: the row keeps its place.\<close>

definition upsert_row :: "string \<Rightarrow> 'v \<Rightarrow> (string \<times> 'v) list \<Rightarrow> (string \<times> 'v) list" where
  "upsert_row k v rows =
     (if k \<in> fst ` set rows then map (\<lambda>(k', v'). if k' = k then (k, v) else (k', v')) rows else rows @ [(k, v)])"

definition delete_row :: "string \<Rightarrow> (string \<times> 'v) list \<Rightarrow> (string \<times> 'v) list" where
  "delete_row k rows = filter (\<lambda>e. fst e \<noteq> k) rows"

section \<open>Recording\<close>

text \<open>A failed insert is only logged.\<close>

definition record_usage ::
  "string \<Rightarrow> string option \<Rightarrow> string option \<Rightarrow> string \<Rightarrow> string \<Rightarrow> usage \<Rightarrow> (telemetry_db, unit) state" where
  "record_usage now user pool provider model u = do {
     _ \<leftarrow> telemetry_execute (\<lambda>db. db\<lparr>tb_usage := tb_usage db @
       [\<lparr>ul_created_at = now, ul_user_id = user, ul_pool_id = pool, ul_provider_id = provider, ul_model = model,
         ul_usage = u\<lparr>us_cached := min (us_cached u) (us_input u)\<rparr>\<rparr>]\<rparr>);
     ret () }"

text \<open>What the failover loop does with the counts of an answer.\<close>

definition account ::
  "(string \<Rightarrow> json option) \<Rightarrow> string \<Rightarrow> string option \<Rightarrow> string option \<Rightarrow> string \<Rightarrow> string \<Rightarrow>
     (string + string) list \<Rightarrow> (telemetry_db, (string + string) list) state" where
  "account parse now user pool provider model items =
     (case tap parse items of (items, u) \<Rightarrow>
        if usage_is_empty u then ret items
        else do { record_usage now user pool provider model u; ret items })"

section \<open>People and prices\<close>

definition person_of :: "string option \<Rightarrow> (string \<times> string) list \<Rightarrow> string" where
  "person_of user aliases =
     (case user of
        None \<Rightarrow> ''(anonymous)''
      | Some i \<Rightarrow>
          (case map_of aliases i of
             Some p \<Rightarrow> p
           | None \<Rightarrow>
               (case strip_prefix ''cf:'' i of
                  Some rest \<Rightarrow> if CHR 0x40 \<in> set rest then rest else i
                | None \<Rightarrow> i)))"

text \<open>\<open>max_by_key\<close> keeps the last of several longest ones.\<close>

definition price_for :: "string \<Rightarrow> (string \<times> price) list \<Rightarrow> price option" where
  "price_for model prices =
     map_option snd (foldl (\<lambda>best e.
         case best of
           None \<Rightarrow> Some e
         | Some b \<Rightarrow> if length (fst b) \<le> length (fst e) then Some e else best)
       None (filter (\<lambda>e. starts_with model (fst e)) prices))"

text \<open>Arithmetic of doubles; the values stay far from the ends of their range.\<close>

definition cost_usd :: "usage \<Rightarrow> price \<Rightarrow> rat" where
  "cost_usd u p =
     (let r = f64_round;
          fresh = r (of_int (max (wrap_i64 (us_input u - us_cached u)) 0));
          cached = r (r (of_int (us_cached u)) * unwrap_or (pr_cached p) (pr_input p))
      in r (r (r (r (fresh * pr_input p) + cached) + r (r (of_int (us_output u)) * pr_output p)) / 1000000))"

text \<open>\<open>f64::round\<close>: halves away from zero.\<close>

definition round_away :: "rat \<Rightarrow> rat" where
  "round_away x = (if 0 \<le> x then of_int \<lfloor>x + 1 / 2\<rfloor> else - of_int \<lfloor>1 / 2 - x\<rfloor>)"

definition cache_hit_pct :: "usage \<Rightarrow> json" where
  "cache_hit_pct u =
     (if us_input u \<le> 0 then JNull
      else (let r = f64_round
        in JNum (Flt (r (round_away (r (r (r (of_int (us_cached u)) / r (of_int (us_input u))) * 1000)) / 10)))))"

section \<open>The report\<close>

text \<open>\<open>sum\<close> of SQLite fails when the sum of the rows so far leaves \<open>i64\<close>.\<close>

definition in_i64 :: "int \<Rightarrow> bool" where
  "in_i64 i \<longleftrightarrow> - (2 ^ 63) \<le> i \<and> i < 2 ^ 63"

fun sql_sum :: "int \<Rightarrow> int list \<Rightarrow> int option" where
  "sql_sum acc [] = Some acc"
| "sql_sum acc (x # xs) = (if in_i64 (acc + x) then sql_sum (acc + x) xs else None)"

definition group_rows :: "('a \<Rightarrow> 'k) \<Rightarrow> 'a list \<Rightarrow> ('k \<times> 'a list) list" where
  "group_rows key rows = map (\<lambda>k. (k, filter (\<lambda>r. key r = k) rows)) (remdups (map key rows))"

definition in_period :: "string option \<Rightarrow> string option \<Rightarrow> usage_row \<Rightarrow> bool" where
  "in_period since til r \<longleftrightarrow>
     (case since of None \<Rightarrow> True | Some t \<Rightarrow> t \<le> ul_created_at r)
   \<and> (case til of None \<Rightarrow> True | Some t \<Rightarrow> ul_created_at r < t)"

definition usage_key :: "usage_row \<Rightarrow> string option \<times> string" where
  "usage_key r = (ul_user_id r, ul_model r)"

record usage_group =
  ug_user :: "string option"
  ug_model :: string
  ug_requests :: int
  ug_usage :: usage

definition sum_group :: "(string option \<times> string) \<times> usage_row list \<Rightarrow> usage_group option" where
  "sum_group g =
     (let total = (\<lambda>f. sql_sum 0 (map (f \<circ> ul_usage) (snd g)))
      in case (total us_input, total us_output, total us_cached) of
           (Some i, Some p, Some c) \<Rightarrow>
             Some \<lparr>ug_user = fst (fst g), ug_model = snd (fst g), ug_requests = int (length (snd g)),
                   ug_usage = \<lparr>us_input = i, us_output = p, us_cached = c\<rparr>\<rparr>
         | _ \<Rightarrow> None)"

definition usage_groups :: "string option \<Rightarrow> string option \<Rightarrow> telemetry_db \<Rightarrow> sql_error + usage_group list" where
  "usage_groups since til db =
     (let gs = map sum_group (group_rows usage_key (filter (in_period since til) (tb_usage db)))
      in if None \<in> set gs then Inl (OtherError ''integer overflow'') else Inr (map the gs))"

record tally =
  ac_requests :: int
  ac_usage :: usage
  ac_cost :: rat
  ac_unpriced :: bool

definition no_tally :: tally where
  "no_tally = \<lparr>ac_requests = 0, ac_usage = no_usage, ac_cost = 0, ac_unpriced = False\<rparr>"

definition add_usage :: "usage \<Rightarrow> usage \<Rightarrow> usage" where
  "add_usage a b =
     \<lparr>us_input = wrap_i64 (us_input a + us_input b), us_output = wrap_i64 (us_output a + us_output b),
      us_cached = wrap_i64 (us_cached a + us_cached b)\<rparr>"

text \<open>\<open>BTreeMap::entry(k).or_default()\<close>, changed in place.\<close>

fun bm_entry :: "'k::linorder \<Rightarrow> 'v \<Rightarrow> ('v \<Rightarrow> 'v) \<Rightarrow> ('k \<times> 'v) list \<Rightarrow> ('k \<times> 'v) list" where
  "bm_entry k d f [] = [(k, f d)]"
| "bm_entry k d f ((k', v) # m) =
     (if k = k' then (k, f v) # m else if k < k' then (k, f d) # (k', v) # m else (k', v) # bm_entry k d f m)"

definition add_group :: "(string \<times> price) list \<Rightarrow> usage_group \<Rightarrow> tally \<Rightarrow> tally" where
  "add_group prices g a =
     (let a = a\<lparr>ac_requests := wrap_i64 (ac_requests a + ug_requests g), ac_usage := add_usage (ac_usage a) (ug_usage g)\<rparr>
      in case price_for (ug_model g) prices of
           Some p \<Rightarrow> a\<lparr>ac_cost := f64_round (ac_cost a + cost_usd (ug_usage g) p)\<rparr>
         | None \<Rightarrow> a\<lparr>ac_unpriced := True\<rparr>)"

definition group_person :: "(string \<times> string) list \<Rightarrow> usage_group \<Rightarrow> string" where
  "group_person aliases g = person_of (ug_user g) aliases"

definition by_person_model ::
  "(string \<times> string) list \<Rightarrow> (string \<times> price) list \<Rightarrow> string option \<Rightarrow> usage_group list \<Rightarrow>
     ((string \<times> string) \<times> tally) list" where
  "by_person_model aliases prices only groups =
     foldl (\<lambda>m g. bm_entry (group_person aliases g, ug_model g) no_tally (add_group prices g) m) []
       (filter (\<lambda>g. only = None \<or> only = Some (group_person aliases g)) groups)"

definition add_tally :: "tally \<Rightarrow> tally \<Rightarrow> tally" where
  "add_tally a t =
     \<lparr>ac_requests = wrap_i64 (ac_requests t + ac_requests a), ac_usage = add_usage (ac_usage t) (ac_usage a),
      ac_cost = f64_round (ac_cost t + ac_cost a), ac_unpriced = (ac_unpriced t \<or> ac_unpriced a)\<rparr>"

definition by_person :: "((string \<times> string) \<times> tally) list \<Rightarrow> (string \<times> tally) list" where
  "by_person m = foldl (\<lambda>people ((person, model), a). bm_entry person no_tally (add_tally a) people) [] m"

definition usage_fields :: "tally \<Rightarrow> (string \<times> json) list" where
  "usage_fields a =
     [(''requests'', jint (ac_requests a)), (''input_tokens'', jint (us_input (ac_usage a))),
      (''output_tokens'', jint (us_output (ac_usage a))), (''cached_tokens'', jint (us_cached (ac_usage a))),
      (''cache_hit_pct'', cache_hit_pct (ac_usage a))]"

definition row_json :: "(string \<times> string) \<times> tally \<Rightarrow> json" where
  "row_json r =
     (case r of ((person, model), a) \<Rightarrow>
        jobj ([(''person'', JStr person), (''model'', JStr model)] @ usage_fields a
          @ [(''cost_usd'', if ac_unpriced a then JNull else JNum (Flt (ac_cost a)))]))"

definition person_json :: "string \<times> tally \<Rightarrow> json" where
  "person_json r =
     jobj ([(''person'', JStr (fst r))] @ usage_fields (snd r)
       @ [(''cost_usd'', JNum (Flt (ac_cost (snd r)))), (''partial'', JBool (ac_unpriced (snd r)))])"

text \<open>A \<open>BTreeSet\<close> of names; people are sorted by cost, the highest first, ties in the order of names.\<close>

definition unpriced_models :: "((string \<times> string) \<times> tally) list \<Rightarrow> string list" where
  "unpriced_models m = sort (remdups (map (snd \<circ> fst) (filter (ac_unpriced \<circ> snd) m)))"

definition opt_text :: "string option \<Rightarrow> json" where
  "opt_text s = (case s of Some t \<Rightarrow> JStr t | None \<Rightarrow> JNull)"

definition render_report ::
  "string option \<Rightarrow> string option \<Rightarrow> ((string \<times> string) \<times> tally) list \<Rightarrow> json" where
  "render_report since til m =
     jobj [(''from'', opt_text since), (''to'', opt_text til),
       (''people'', JArr (map person_json (sort_key (\<lambda>r. - ac_cost (snd r)) (by_person m)))),
       (''rows'', JArr (map row_json m)), (''unpriced_models'', JArr (map JStr (unpriced_models m)))]"

definition build_report :: "string option \<Rightarrow> string option \<Rightarrow> string option \<Rightarrow> json telemetry" where
  "build_report since til only =
     attempt (telemetry_fetch (\<lambda>db. Inr (tb_people db))) (\<lambda>aliases.
     attempt (telemetry_fetch (\<lambda>db. Inr (tb_prices db))) (\<lambda>prices.
     attempt (telemetry_fetch (usage_groups since til)) (\<lambda>groups.
       ok_ret (render_report since til (by_person_model aliases prices only groups)))))"

section \<open>The other routes\<close>

definition list_people :: "json telemetry" where
  "list_people = attempt (telemetry_fetch (\<lambda>db. Inr (sort_key (\<lambda>(u, p). (p, u)) (tb_people db)))) (\<lambda>rows.
     ok_ret (JArr (map (\<lambda>(u, p). jobj [(''user_id'', JStr u), (''person'', JStr p)]) rows)))"

definition put_person :: "string \<Rightarrow> string \<Rightarrow> json telemetry" where
  "put_person user person =
     (let i = trim user; p = trim person
      in if i = [] \<or> p = [] then fail_ret (BadRequest ''user_id and person are required'')
         else attempt (telemetry_execute (\<lambda>db. db\<lparr>tb_people := upsert_row i p (tb_people db)\<rparr>)) (\<lambda>_.
           ok_ret (jobj [(''user_id'', JStr i), (''person'', JStr p)])))"

definition delete_person :: "string option \<Rightarrow> json telemetry" where
  "delete_person user =
     (case user of
        None \<Rightarrow> fail_ret (BadRequest ''user_id is required'')
      | Some i \<Rightarrow> attempt (telemetry_execute (\<lambda>db. db\<lparr>tb_people := delete_row i (tb_people db)\<rparr>)) (\<lambda>_.
          ok_ret (jobj [(''deleted'', JStr i)])))"

definition price_json :: "string \<times> price \<Rightarrow> json" where
  "price_json r =
     jobj [(''model'', JStr (fst r)), (''input_per_mtok'', JNum (Flt (pr_input (snd r)))),
       (''output_per_mtok'', JNum (Flt (pr_output (snd r)))),
       (''cached_per_mtok'', (case pr_cached (snd r) of Some c \<Rightarrow> JNum (Flt c) | None \<Rightarrow> JNull))]"

definition list_prices :: "json telemetry" where
  "list_prices = attempt (telemetry_fetch (\<lambda>db. Inr (sort_key fst (tb_prices db)))) (\<lambda>rows.
     ok_ret (JArr (map price_json rows)))"

text \<open>A body is JSON, whose numbers are finite.\<close>

definition put_price :: "string \<Rightarrow> price \<Rightarrow> json telemetry" where
  "put_price model p =
     (let m = trim model
      in if m = [] \<or> pr_input p < 0 \<or> pr_output p < 0 \<or> (case pr_cached p of Some c \<Rightarrow> c < 0 | None \<Rightarrow> False)
         then fail_ret (BadRequest ''model and non-negative prices are required'')
         else attempt (telemetry_execute (\<lambda>db. db\<lparr>tb_prices := upsert_row m p (tb_prices db)\<rparr>)) (\<lambda>_.
           ok_ret (jobj [(''model'', JStr m)])))"

definition delete_price :: "string option \<Rightarrow> json telemetry" where
  "delete_price model =
     (case model of
        None \<Rightarrow> fail_ret (BadRequest ''model is required'')
      | Some m \<Rightarrow> attempt (telemetry_execute (\<lambda>db. db\<lparr>tb_prices := delete_row m (tb_prices db)\<rparr>)) (\<lambda>_.
          ok_ret (jobj [(''deleted'', JStr m)])))"

end
