(* ===== verification/UsageSpec.thy ===== *)
theory UsageSpec
  imports UsageReport
begin

text \<open>
  The report accounts for every stored answer: each row sums the entries of its person and model,
  each person the entries of their credentials.
\<close>

section \<open>Ordered maps\<close>

abbreviation ordered :: "('k::linorder \<times> 'v) list \<Rightarrow> bool" where
  "ordered m \<equiv> sorted_wrt (<) (map fst m)"

lemma bm_entry_keys: "fst ` set (bm_entry k d f m) = insert k (fst ` set m)"
  by (induction k d f m rule: bm_entry.induct) (simp_all add: insert_commute)

lemma ordered_bm_entry: "ordered m \<Longrightarrow> ordered (bm_entry k d f m)"
proof (induction m)
  case (Cons e m)
  obtain k' v where e: "e = (k', v)" by (cases e)
  have "\<forall>x \<in> fst ` set (bm_entry k d f m). k' < x" if "k' < k"
    using that Cons.prems unfolding bm_entry_keys by (auto simp: e)
  then show ?case using Cons by (auto simp: e)
qed simp

lemma map_of_bm_entry:
  "ordered m \<Longrightarrow> map_of (bm_entry k d f m) l = (if l = k then Some (f (unwrap_or (map_of m k) d)) else map_of m l)"
proof (induction m)
  case (Cons e m)
  obtain k' v where e: "e = (k', v)" by (cases e)
  have "map_of m k = None" if "k < k'"
    using that Cons.prems by (auto simp: e map_of_eq_None_iff)
  with Cons show ?case by (auto simp: e)
qed simp

text \<open>Each key collects its own elements.\<close>

lemma bm_collects:
  "ordered (foldl (\<lambda>m x. bm_entry (key x) d (add x) m) [] xs)
   \<and> map_of (foldl (\<lambda>m x. bm_entry (key x) d (add x) m) [] xs) k =
      (if filter (\<lambda>x. key x = k) xs = [] then None else Some (foldl (\<lambda>a x. add x a) d (filter (\<lambda>x. key x = k) xs)))"
proof (induction xs rule: rev_induct)
  case (snoc x xs)
  then show ?case by (auto simp: ordered_bm_entry map_of_bm_entry)
qed simp

section \<open>Sums\<close>

lemma wrap_i64_id: "in_i64 i \<Longrightarrow> wrap_i64 i = i"
  by (simp add: wrap_i64_def in_i64_def signed_of_int signed_take_bit_int_eq_self)

lemma wrapped_sum:
  assumes "\<And>a x. h (add x a) = wrap_i64 (h a + f x)" and "h z = 0"
    and "\<forall>x \<in> set xs. 0 \<le> f x" and "sum_list (map f xs) < 2 ^ 63"
  shows "h (foldl (\<lambda>a x. add x a) z xs) = sum_list (map f xs)"
  using assms(3,4)
proof (induction xs rule: rev_induct)
  case (snoc x xs)
  have "0 \<le> sum_list (map f xs)" using snoc.prems(1) by (intro sum_list_nonneg) auto
  with snoc have "h (foldl (\<lambda>a x. add x a) z xs) = sum_list (map f xs)" "in_i64 (sum_list (map f xs) + f x)"
    by (auto simp: in_i64_def)
  then show ?case by (simp add: assms(1) wrap_i64_id)
qed (simp add: assms(2))

lemma sql_sum_exact:
  assumes "\<forall>x \<in> set xs. 0 \<le> x" and "0 \<le> a" and "a + sum_list xs < 2 ^ 63"
  shows "sql_sum a xs = Some (a + sum_list xs)"
  using assms
proof (induction xs arbitrary: a)
  case (Cons x xs)
  have "0 \<le> sum_list xs" using Cons.prems(1) by (intro sum_list_nonneg) auto
  with Cons show ?case by (simp add: in_i64_def)
qed simp

lemma sum_list_filter_le:
  fixes f :: "'a \<Rightarrow> int" shows "\<forall>x \<in> set xs. 0 \<le> f x \<Longrightarrow> sum_list (map f (filter P xs)) \<le> sum_list (map f xs)"
  by (induction xs) auto

text \<open>Summing group by group is summing the rows.\<close>

lemma sum_by_key:
  fixes f :: "'a \<Rightarrow> int"
  assumes "finite K"
  shows "(\<Sum>k \<in> K. sum_list (map f (filter (\<lambda>x. key x = k) xs))) = sum_list (map f (filter (\<lambda>x. key x \<in> K) xs))"
proof (induction xs)
  case (Cons x xs)
  have "(\<Sum>k \<in> K. sum_list (map f (filter (\<lambda>y. key y = k) (x # xs))))
      = (\<Sum>k \<in> K. (if k = key x then f x else 0) + sum_list (map f (filter (\<lambda>y. key y = k) xs)))"
    by (intro sum.cong) auto
  also have "\<dots> = (if key x \<in> K then f x else 0) + sum_list (map f (filter (\<lambda>y. key y \<in> K) xs))"
    using assms Cons by (simp add: sum.distrib)
  finally show ?case by simp
qed simp

lemma sum_groups:
  fixes f :: "'a \<Rightarrow> int"
  shows "sum_list (map (\<lambda>g. sum_list (map f (snd g))) (filter (\<lambda>g. P (fst g)) (group_rows key xs)))
     = sum_list (map f (filter (\<lambda>x. P (key x)) xs))"
proof -
  let ?K = "{k \<in> key ` set xs. P k}"
  have "sum_list (map (\<lambda>g. sum_list (map f (snd g))) (filter (\<lambda>g. P (fst g)) (group_rows key xs)))
      = sum_list (map (\<lambda>k. sum_list (map f (filter (\<lambda>x. key x = k) xs))) (filter P (remdups (map key xs))))"
    by (simp add: group_rows_def filter_map o_def)
  also have "\<dots> = (\<Sum>k \<in> ?K. sum_list (map f (filter (\<lambda>x. key x = k) xs)))"
    by (subst sum_list_distinct_conv_sum_set) (auto intro: sum.cong)
  also have "\<dots> = sum_list (map f (filter (\<lambda>x. key x \<in> ?K) xs))" by (rule sum_by_key) simp
  also have "filter (\<lambda>x. key x \<in> ?K) xs = filter (\<lambda>x. P (key x)) xs" by (rule filter_cong) auto
  finally show ?thesis .
qed

section \<open>The report\<close>

text \<open>Token counts are not negative, and their sums are in range.\<close>

definition usage_bounded :: "usage_row list \<Rightarrow> bool" where
  "usage_bounded rows \<longleftrightarrow>
     list_all (\<lambda>r. 0 \<le> us_input (ul_usage r) \<and> 0 \<le> us_output (ul_usage r) \<and> 0 \<le> us_cached (ul_usage r)) rows
   \<and> sum_list (map (us_input \<circ> ul_usage) rows) < 2 ^ 63 \<and> sum_list (map (us_output \<circ> ul_usage) rows) < 2 ^ 63
   \<and> sum_list (map (us_cached \<circ> ul_usage) rows) < 2 ^ 63 \<and> int (length rows) < 2 ^ 63"

definition tallies :: "tally \<Rightarrow> usage_row list \<Rightarrow> bool" where
  "tallies a rows \<longleftrightarrow>
     ac_requests a = int (length rows)
   \<and> us_input (ac_usage a) = sum_list (map (us_input \<circ> ul_usage) rows)
   \<and> us_output (ac_usage a) = sum_list (map (us_output \<circ> ul_usage) rows)
   \<and> us_cached (ac_usage a) = sum_list (map (us_cached \<circ> ul_usage) rows)"

lemma usage_bounded_filter: "usage_bounded rows \<Longrightarrow> usage_bounded (filter P rows)"
  unfolding usage_bounded_def
  using sum_list_filter_le [of rows "us_input \<circ> ul_usage" P] sum_list_filter_le [of rows "us_output \<circ> ul_usage" P]
    sum_list_filter_le [of rows "us_cached \<circ> ul_usage" P]
  by (auto simp: list_all_iff intro: le_less_trans [OF length_filter_le])

text \<open>Whose an entry is, by the credentials that are mapped to a person.\<close>

definition entry_key :: "(string \<times> string) list \<Rightarrow> usage_row \<Rightarrow> string \<times> string" where
  "entry_key aliases r = (person_of (ul_user_id r) aliases, ul_model r)"

definition group_total :: "(string option \<times> string) \<times> usage_row list \<Rightarrow> usage_group" where
  "group_total g =
     \<lparr>ug_user = fst (fst g), ug_model = snd (fst g), ug_requests = sum_list (map (\<lambda>_. 1) (snd g)),
      ug_usage = \<lparr>us_input = sum_list (map (us_input \<circ> ul_usage) (snd g)),
        us_output = sum_list (map (us_output \<circ> ul_usage) (snd g)), us_cached = sum_list (map (us_cached \<circ> ul_usage) (snd g))\<rparr>\<rparr>"

lemma sum_group_exact:
  assumes "usage_bounded (snd g)" shows "sum_group g = Some (group_total g)"
proof -
  have "sql_sum 0 (map (f \<circ> ul_usage) (snd g)) = Some (0 + sum_list (map (f \<circ> ul_usage) (snd g)))"
    if "f = us_input \<or> f = us_output \<or> f = us_cached" for f
    using assms that by (intro sql_sum_exact) (auto simp: usage_bounded_def list_all_iff)
  then show ?thesis by (simp add: sum_group_def group_total_def Let_def sum_list_triv)
qed

lemma usage_groups_exact:
  assumes "usage_bounded (tb_usage db)"
  shows "usage_groups since til db = Inr (map group_total (group_rows usage_key (filter (in_period since til) (tb_usage db))))"
proof -
  let ?gs = "group_rows usage_key (filter (in_period since til) (tb_usage db))"
  have "sum_group g = Some (group_total g)" if "g \<in> set ?gs" for g
    using that by (intro sum_group_exact) (auto simp: group_rows_def intro!: usage_bounded_filter assms)
  then have "map sum_group ?gs = map (\<lambda>g. Some (group_total g)) ?gs" by simp
  then show ?thesis by (auto simp: usage_groups_def Let_def)
qed

lemma add_group_reads:
  "ac_requests (add_group prices g a) = wrap_i64 (ac_requests a + ug_requests g)"
  "ac_usage (add_group prices g a) = add_usage (ac_usage a) (ug_usage g)"
  by (simp_all add: add_group_def Let_def split: option.split)

lemma add_group_unpriced: "ac_unpriced (add_group prices g a) \<longleftrightarrow> ac_unpriced a \<or> price_for (ug_model g) prices = None"
  by (simp add: add_group_def Let_def split: option.split)

lemmas tally_sums = usage_bounded_def list_all_iff o_def

text \<open>The tally of the groups of a set of keys is the tally of the rows with these keys.\<close>

lemma tally_groups:
  fixes P rows
  assumes "usage_bounded rows"
  defines "gs \<equiv> map group_total (filter (\<lambda>g. P (fst g)) (group_rows usage_key rows))"
  shows "tallies (foldl (\<lambda>a g. add_group prices g a) no_tally gs) (filter (\<lambda>r. P (usage_key r)) rows)"
proof -
  have total: "sum_list (map (\<lambda>g. h (group_total g)) (filter (\<lambda>g. P (fst g)) (group_rows usage_key rows)))
      = sum_list (map f (filter (\<lambda>r. P (usage_key r)) rows))"
    if "\<And>g. h (group_total g) = sum_list (map f (snd g))" for h and f :: "usage_row \<Rightarrow> int"
    unfolding that by (rule sum_groups)
  have added: "h (foldl (\<lambda>a g. add_group prices g a) no_tally gs) = sum_list (map f (filter (\<lambda>r. P (usage_key r)) rows))"
    if "\<And>a g. h (add_group prices g a) = wrap_i64 (h a + k g)" and "h no_tally = 0"
      and k: "\<And>g. k (group_total g) = sum_list (map f (snd g))" and nonneg: "\<forall>r \<in> set rows. 0 \<le> f r"
      and "sum_list (map f rows) < 2 ^ 63" for h k and f :: "usage_row \<Rightarrow> int"
  proof -
    have sum: "sum_list (map k gs) = sum_list (map f (filter (\<lambda>r. P (usage_key r)) rows))"
      using total [of k f] k by (simp add: gs_def o_def)
    have "sum_list (map f (filter (\<lambda>r. P (usage_key r)) rows)) < 2 ^ 63"
      using sum_list_filter_le [OF nonneg] that(5) by (rule le_less_trans)
    moreover have "\<forall>g \<in> set gs. 0 \<le> k g"
      using nonneg by (auto simp: gs_def group_rows_def k intro!: sum_list_nonneg)
    ultimately show ?thesis using wrapped_sum [of h "add_group prices" k no_tally gs] that(1,2) by (simp add: sum)
  qed
  note b = assms(1) [unfolded usage_bounded_def list_all_iff]
  show ?thesis
    unfolding tallies_def
    using added [of ac_requests ug_requests "\<lambda>_. 1"] added [of "us_input \<circ> ac_usage" "us_input \<circ> ug_usage" "us_input \<circ> ul_usage"]
      added [of "us_output \<circ> ac_usage" "us_output \<circ> ug_usage" "us_output \<circ> ul_usage"]
      added [of "us_cached \<circ> ac_usage" "us_cached \<circ> ug_usage" "us_cached \<circ> ul_usage"] b
    by (simp add: add_group_reads add_usage_def group_total_def no_tally_def no_usage_def sum_list_triv)
qed

definition usage_report_rows ::
  "string option \<Rightarrow> string option \<Rightarrow> telemetry_db \<Rightarrow> ((string \<times> string) \<times> tally) list" where
  "usage_report_rows since til db =
     by_person_model (tb_people db) (tb_prices db) None
       (map group_total (group_rows usage_key (filter (in_period since til) (tb_usage db))))"

definition entries :: "string option \<Rightarrow> string option \<Rightarrow> telemetry_db \<Rightarrow> usage_row list" where
  "entries since til db = filter (in_period since til) (tb_usage db)"

lemma filter_groups_empty: "filter (\<lambda>g. P (fst g)) (group_rows key rows) = [] \<longleftrightarrow> filter (\<lambda>r. P (key r)) rows = []"
  by (auto simp: group_rows_def filter_empty_conv filter_map)

lemma report_row:
  fixes k :: "string \<times> string" and since til :: "string option"
  assumes "usage_bounded (tb_usage db)"
  defines "mine \<equiv> filter (\<lambda>r. entry_key (tb_people db) r = k) (entries since til db)"
  shows "ordered (usage_report_rows since til db)
     \<and> (case map_of (usage_report_rows since til db) k of None \<Rightarrow> mine = [] | Some a \<Rightarrow> mine \<noteq> [] \<and> tallies a mine)"
proof -
  let ?rows = "entries since til db" and ?P = "\<lambda>u. (person_of (fst u) (tb_people db), snd u) = k"
  let ?gs = "map group_total (group_rows usage_key ?rows)"
  have key: "(group_person (tb_people db) (group_total g), ug_model (group_total g)) = k \<longleftrightarrow> ?P (fst g)" for g
    by (simp add: group_person_def group_total_def)
  have gs: "filter (\<lambda>g. (group_person (tb_people db) g, ug_model g) = k) ?gs
      = map group_total (filter (\<lambda>g. ?P (fst g)) (group_rows usage_key ?rows))"
    by (simp only: filter_map o_def key)
  have mine: "mine = filter (\<lambda>r. ?P (usage_key r)) ?rows" by (simp add: mine_def entry_key_def usage_key_def)
  have "usage_bounded ?rows" using assms(1) by (simp add: entries_def usage_bounded_filter)
  from tally_groups [OF this, of "tb_prices db" ?P] filter_groups_empty [of ?P usage_key ?rows]
  show ?thesis
    using bm_collects [where key = "\<lambda>g. (group_person (tb_people db) g, ug_model g)" and d = no_tally
        and add = "add_group (tb_prices db)" and xs = ?gs and k = k]
    unfolding usage_report_rows_def by_person_model_def entries_def [symmetric] gs mine [symmetric]
    by auto
qed

lemma ordered_distinct: "ordered m \<Longrightarrow> distinct (map fst m)"
  by (simp add: strict_sorted_iff)

text \<open>A person's total is the sum of their rows.\<close>

lemma report_person:
  fixes p :: string and since til :: "string option"
  assumes "usage_bounded (tb_usage db)"
  defines "m \<equiv> usage_report_rows since til db"
    and "mine \<equiv> filter (\<lambda>r. person_of (ul_user_id r) (tb_people db) = p) (entries since til db)"
  shows "case map_of (by_person m) p of None \<Rightarrow> mine = [] | Some a \<Rightarrow> mine \<noteq> [] \<and> tallies a mine"
proof -
  let ?rows = "entries since til db" and ?own = "filter (\<lambda>r. fst (fst r) = p) m"
  let ?K = "fst ` set ?own" and ?key = "entry_key (tb_people db)"
  have m: "ordered m" "\<And>k. case map_of m k of None \<Rightarrow> filter (\<lambda>r. ?key r = k) ?rows = []
      | Some a \<Rightarrow> filter (\<lambda>r. ?key r = k) ?rows \<noteq> [] \<and> tallies a (filter (\<lambda>r. ?key r = k) ?rows)"
    using report_row [OF assms(1)] unfolding m_def by auto
  have row: "tallies a (filter (\<lambda>r. ?key r = k) ?rows)" "filter (\<lambda>r. ?key r = k) ?rows \<noteq> []" if "(k, a) \<in> set m" for k a
    using m(2) [of k] map_of_is_SomeI [OF ordered_distinct [OF m(1)] that] by simp_all
  have covered: "?key r \<in> ?K \<longleftrightarrow> person_of (ul_user_id r) (tb_people db) = p" if "r \<in> set ?rows" for r
  proof -
    have "filter (\<lambda>r'. ?key r' = ?key r) ?rows \<noteq> []" using that by (auto simp: filter_empty_conv)
    then obtain a where "map_of m (?key r) = Some a" using m(2) [of "?key r"] by (cases "map_of m (?key r)") auto
    then have "?key r \<in> fst ` set m" by (metis domI dom_map_of_conv_image_fst)
    then show ?thesis by (force simp: entry_key_def)
  qed
  have mine: "mine = filter (\<lambda>r. ?key r \<in> ?K) ?rows" unfolding mine_def using covered by (intro filter_cong) auto
  have bounded: "usage_bounded ?rows" using assms(1) by (simp add: entries_def usage_bounded_filter)
  note b = this [unfolded usage_bounded_def list_all_iff]
  have total: "sum_list (map (h \<circ> snd) ?own) = sum_list (map f mine)"
    if h: "\<And>k a. (k, a) \<in> set m \<Longrightarrow> h a = sum_list (map f (filter (\<lambda>r. ?key r = k) ?rows))" for h and f :: "usage_row \<Rightarrow> int"
  proof -
    have "sum_list (map (h \<circ> snd) ?own) = sum_list (map (\<lambda>k. sum_list (map f (filter (\<lambda>r. ?key r = k) ?rows))) (map fst ?own))"
      unfolding map_map by (intro arg_cong [where f = sum_list] map_cong) (auto simp: h)
    also have "\<dots> = (\<Sum>k \<in> ?K. sum_list (map f (filter (\<lambda>r. ?key r = k) ?rows)))"
      by (subst sum_list_distinct_conv_sum_set) (auto intro: distinct_map_filter ordered_distinct m(1))
    also have "\<dots> = sum_list (map f mine)" unfolding mine by (rule sum_by_key) simp
    finally show ?thesis .
  qed
  have added: "h (foldl (\<lambda>a r. add_tally (snd r) a) no_tally ?own) = sum_list (map f mine)"
    if "\<And>a t. h (add_tally a t) = wrap_i64 (h t + h a)" and "h no_tally = 0"
      and h: "\<And>k a. (k, a) \<in> set m \<Longrightarrow> h a = sum_list (map f (filter (\<lambda>r. ?key r = k) ?rows))"
      and nonneg: "\<forall>r \<in> set ?rows. 0 \<le> f r" and "sum_list (map f ?rows) < 2 ^ 63" for h and f :: "usage_row \<Rightarrow> int"
  proof -
    have "sum_list (map f mine) < 2 ^ 63"
      unfolding mine using sum_list_filter_le [OF nonneg] that(5) by (rule le_less_trans)
    moreover have "\<forall>r \<in> set ?own. 0 \<le> (h \<circ> snd) r" using nonneg by (auto simp: h intro!: sum_list_nonneg)
    ultimately show ?thesis
      using wrapped_sum [of h "\<lambda>r. add_tally (snd r)" "h \<circ> snd" no_tally ?own] that(1,2) total [OF h] by simp
  qed
  have "tallies (foldl (\<lambda>a r. add_tally (snd r) a) no_tally ?own) mine"
    unfolding tallies_def
    using added [of ac_requests "\<lambda>_. 1"] added [of "us_input \<circ> ac_usage" "us_input \<circ> ul_usage"]
      added [of "us_output \<circ> ac_usage" "us_output \<circ> ul_usage"] added [of "us_cached \<circ> ac_usage" "us_cached \<circ> ul_usage"] b row(1)
    by (simp add: add_tally_def add_usage_def no_tally_def no_usage_def sum_list_triv tallies_def)
  moreover have "?own = [] \<longleftrightarrow> mine = []"
    unfolding mine using row(2) by (force simp: filter_empty_conv)
  moreover have "map_of (by_person m) p = (if ?own = [] then None else Some (foldl (\<lambda>a r. add_tally (snd r) a) no_tally ?own))"
    using bm_collects [where key = "\<lambda>r. fst (fst r)" and d = no_tally and add = "\<lambda>r. add_tally (snd r)" and xs = m and k = p]
    by (simp add: by_person_def case_prod_unfold)
  ultimately show ?thesis by simp
qed

text \<open>What the route answers.\<close>

lemma run_telemetry_fetch: "tb_faults db = [] \<Longrightarrow> run_state (telemetry_fetch f) db = (map_sum db_error id (f db), db)"
proof -
  assume none: "tb_faults db = []"
  then have same: "db\<lparr>tb_faults := []\<rparr> = db" by (cases db) simp
  show ?thesis by (cases "f db") (simp_all add: telemetry_fetch_def telemetry_stmt_def Let_def none same)
qed

lemma run_build_report:
  assumes "usage_bounded (tb_usage db)" and "tb_faults db = []"
  shows "run_state (build_report since til None) db = (Inr (render_report since til (usage_report_rows since til db)), db)"
  using assms by (simp add: build_report_def run_attempt run_telemetry_fetch usage_groups_exact usage_report_rows_def)

end
