(* ===== verification/Telemetry.thy ===== *)
theory Telemetry
  imports UsageSpec Users "HOL-Library.Sublist"
begin

text \<open>
  \<open>src/telemetry/request_log.rs\<close>: the writer that stores log entries in batches; \<open>stats.rs\<close> and
  \<open>health.rs\<close>: what is counted of them; \<open>cache_trace.rs\<close>: when a cache key was used last.
\<close>

section \<open>The writer of the request log\<close>

text \<open>A row is an entry and the time of its batch.  A failed insert is skipped.\<close>

fun insert_entries :: "string \<Rightarrow> log_entry list \<Rightarrow> (telemetry_db, unit) state" where
  "insert_entries now [] = ret ()"
| "insert_entries now (e # es) = do {
     _ \<leftarrow> telemetry_execute (\<lambda>db. db\<lparr>tb_requests := tb_requests db @ [(e, now)]\<rparr>);
     insert_entries now es }"

text \<open>Without a transaction the batch is dropped; without a commit it is rolled back.\<close>

definition flush :: "string \<Rightarrow> log_entry list \<Rightarrow> (telemetry_db, unit) state" where
  "flush now pending =
     (if pending = [] then ret ()
      else do {
        begun \<leftarrow> telemetry_execute id;
        case begun of
          Inl _ \<Rightarrow> ret ()
        | Inr _ \<Rightarrow> do {
            before \<leftarrow> gets tb_requests;
            insert_entries now pending;
            committed \<leftarrow> telemetry_execute id;
            case committed of
              Inl _ \<Rightarrow> update_by (\<lambda>db. db\<lparr>tb_requests := before\<rparr>)
            | Inr _ \<Rightarrow> ret () } })"

text \<open>
  The task: it waits for an entry, takes more while the batch has room and the channel has some, and
  stores them.  \<open>queue\<close> is what the channel holds; the entries of \<open>arrivals\<close> are sent while it is
  empty or while a batch is stored; after them the channel is closed.
\<close>

function writer ::
  "nat \<Rightarrow> (nat \<Rightarrow> string) \<Rightarrow> nat \<Rightarrow> log_entry list \<Rightarrow> log_entry list list \<Rightarrow> (telemetry_db, unit) state" where
  "writer batch clock n [] [] = flush (clock n) []"
| "writer batch clock n [] (sent # arrivals) = writer batch clock n sent arrivals"
| "writer batch clock n (e # queue) [] = do {
     flush (clock n) (e # take (batch - 1) queue);
     writer batch clock (Suc n) (drop (batch - 1) queue) [] }"
| "writer batch clock n (e # queue) (sent # arrivals) = do {
     flush (clock n) (e # take (batch - 1) queue);
     writer batch clock (Suc n) (drop (batch - 1) queue @ sent) arrivals }"
  by pat_completeness auto
termination
  by (relation "measures [\<lambda>(batch, clock, n, queue, arrivals). length arrivals, \<lambda>(batch, clock, n, queue, arrivals). length queue]") auto

section \<open>Statistics\<close>

definition successes :: "log_entry list \<Rightarrow> nat" where
  "successes es = length (filter le_success es)"

definition overall :: "json telemetry" where
  "overall = attempt (telemetry_fetch (\<lambda>db. Inr (length (tb_requests db), successes (map fst (tb_requests db))))) (\<lambda>(n, ok).
     ok_ret (jobj [(''total'', jnat n), (''successes'', jnat ok), (''failures'', jint (int n - int ok))]))"

definition user_stats :: "string option \<times> (log_entry \<times> string) list \<Rightarrow> json" where
  "user_stats g =
     (case g of (user, rows) \<Rightarrow>
        jobj [(''user_id'', opt_text user), (''total'', jnat (length rows)), (''successes'', jnat (successes (map fst rows))),
          (''failures'', jint (int (length rows) - int (successes (map fst rows)))),
          (''last_request_at'', JStr (foldl max [] (map snd rows)))])"

definition per_user :: "json telemetry" where
  "per_user = attempt (telemetry_fetch (\<lambda>db. Inr (sort_key (\<lambda>g. - int (length (snd g)))
       (group_rows (\<lambda>r. le_user_id (fst r)) (tb_requests db))))) (\<lambda>gs.
     ok_ret (jobj [(''users'', JArr (map user_stats gs))]))"

definition success_rate :: "nat \<Rightarrow> nat \<Rightarrow> rat" where
  "success_rate n ok = (if 0 < n then f64_round (f64_round (of_nat ok) / f64_round (of_nat n)) else 0)"

definition provider_stats :: "string option \<times> (log_entry \<times> string) list \<Rightarrow> json" where
  "provider_stats g =
     (case g of (provider, rows) \<Rightarrow>
        let n = length rows; ok = successes (map fst rows)
        in jobj [(''provider_id'', opt_text provider), (''total'', jnat n), (''successes'', jnat ok),
          (''failures'', jint (int n - int ok)), (''success_rate'', JNum (Flt (success_rate n ok)))])"

definition per_pool :: "string \<Rightarrow> json telemetry" where
  "per_pool i = attempt (telemetry_fetch (\<lambda>db. Inr (group_rows (\<lambda>r. le_provider_id (fst r))
       (filter (\<lambda>r. le_pool_id (fst r) = Some i) (tb_requests db))))) (\<lambda>gs.
     ok_ret (jobj [(''pool_id'', JStr i), (''providers'', JArr (map provider_stats gs))]))"

section \<open>Health\<close>

definition health :: "config_snapshot \<Rightarrow> (telemetry_db, nat \<times> json) state" where
  "health snap = do {
     r \<leftarrow> telemetry_execute id;
     let db_ok = (case r of Inr _ \<Rightarrow> True | Inl _ \<Rightarrow> False);
     ret (if db_ok then 200 else 503,
       jobj [(''status'', JStr (if db_ok then ''ok'' else ''degraded'')), (''db'', JBool db_ok),
         (''live_pool'', JBool (list_ex (\<lambda>p. pwm_members p \<noteq> []) (snap_pools snap)))]) }"

section \<open>Cache keys\<close>

definition MAX_KEYS :: nat where
  "MAX_KEYS = 4096"

definition KEEP :: duration where
  "KEEP = from_secs 3600"

text \<open>\<open>sha\<close> is SHA-256; \<open>seen\<close> has when a short key was used last.  The gap is in whole seconds.\<close>

definition note_key ::
  "(string \<Rightarrow> u8 list) \<Rightarrow> instant \<Rightarrow> string \<Rightarrow> (string, instant) dmap \<Rightarrow> (string \<times> nat option) \<times> (string, instant) dmap" where
  "note_key sha now cache_key seen =
     (let key = concat (map hex_byte (take 4 (sha cache_key)));
          fresh = (if MAX_KEYS \<le> length seen then dm_retain (\<lambda>_ t. now - t < KEEP) seen else seen);
          seen = (if MAX_KEYS \<le> length seen \<and> MAX_KEYS \<le> length fresh then [] else fresh)
      in ((key, map_option (\<lambda>t. (now - t) div from_secs 1) (dm_get seen key)), dm_put key now seen))"

section \<open>What the writer stores\<close>

definition logged :: "telemetry_db \<Rightarrow> log_entry list" where
  "logged db = map fst (tb_requests db)"

lemma run_telemetry_execute:
  "run_state (telemetry_execute f) db =
     (case tb_faults db of
        Some e # fs \<Rightarrow> (Inl (db_error (OtherError e)), db\<lparr>tb_faults := fs\<rparr>)
      | _ \<Rightarrow> (Inr (), f (db\<lparr>tb_faults := tl (tb_faults db)\<rparr>)))"
  by (simp add: telemetry_execute_def telemetry_stmt_def Let_def split: list.split option.split)

text \<open>Nothing but rows of the batch is added, in their order; without faults all of them are.\<close>

definition appends :: "log_entry list \<Rightarrow> telemetry_db \<Rightarrow> telemetry_db \<Rightarrow> bool" where
  "appends es db db' \<longleftrightarrow>
     (\<exists>rows. tb_requests db' = tb_requests db @ rows \<and> subseq (map fst rows) es
        \<and> (tb_faults db = [] \<longrightarrow> map fst rows = es \<and> tb_faults db' = []))
   \<and> tb_usage db' = tb_usage db \<and> tb_people db' = tb_people db \<and> tb_prices db' = tb_prices db"

lemma appends_none: "tb_requests db' = tb_requests db \<Longrightarrow> tb_faults db \<noteq> [] \<or> es = [] \<and> tb_faults db' = [] \<Longrightarrow>
    tb_usage db' = tb_usage db \<Longrightarrow> tb_people db' = tb_people db \<Longrightarrow> tb_prices db' = tb_prices db \<Longrightarrow> appends es db db'"
  by (auto simp: appends_def)

lemma appends_trans:
  assumes "appends es db db'" and "appends fs db' db''" shows "appends (es @ fs) db db''"
proof -
  obtain r where r: "tb_requests db' = tb_requests db @ r" "subseq (map fst r) es"
      "tb_faults db = [] \<longrightarrow> map fst r = es \<and> tb_faults db' = []"
    using assms(1) by (auto simp: appends_def)
  obtain q where q: "tb_requests db'' = tb_requests db' @ q" "subseq (map fst q) fs"
      "tb_faults db' = [] \<longrightarrow> map fst q = fs \<and> tb_faults db'' = []"
    using assms(2) by (auto simp: appends_def)
  have "tb_requests db'' = tb_requests db @ (r @ q)" "subseq (map fst (r @ q)) (es @ fs)"
    "tb_faults db = [] \<longrightarrow> map fst (r @ q) = es @ fs \<and> tb_faults db'' = []"
    using r q by (simp_all add: list_emb_append_mono)
  then show ?thesis using assms unfolding appends_def by auto
qed

lemma insert_entry_appends:
  "appends [e] db (snd (run_state (telemetry_execute (\<lambda>db. db\<lparr>tb_requests := tb_requests db @ [(e, now)]\<rparr>)) db))"
  by (auto simp: run_telemetry_execute appends_def split: list.split option.split)

lemma insert_entries_append: "appends es db (snd (run_state (insert_entries now es) db))"
proof (induction es arbitrary: db)
  case (Cons e es)
  show ?case
    using appends_trans [OF insert_entry_appends [of e db now] Cons.IH] by (simp add: case_prod_unfold)
qed (simp add: appends_def)

lemma flush_appends: "appends es db (snd (run_state (flush now es) db))"
proof (cases "es = []")
  case False
  let ?begun = "snd (run_state (telemetry_execute id) db)"
  let ?filled = "snd (run_state (insert_entries now es) ?begun)"
  let ?ended = "snd (run_state (telemetry_execute id) ?filled)"
  have kept: "tb_requests (snd (run_state (telemetry_execute id) d)) = tb_requests d
     \<and> tb_usage (snd (run_state (telemetry_execute id) d)) = tb_usage d
     \<and> tb_people (snd (run_state (telemetry_execute id) d)) = tb_people d
     \<and> tb_prices (snd (run_state (telemetry_execute id) d)) = tb_prices d
     \<and> (tb_faults d = [] \<longrightarrow> run_state (telemetry_execute id) d = (Inr (), d))" for d
    by (cases d) (auto simp: run_telemetry_execute split: list.split option.split)
  have filled: "appends es ?begun ?filled" by (rule insert_entries_append)
  show ?thesis
  proof (cases "tb_faults db = []")
    case True
    then have begun: "run_state (telemetry_execute id) db = (Inr (), db)" using kept by blast
    then have "tb_faults ?filled = []" using filled True by (auto simp: appends_def)
    then have "run_state (telemetry_execute id) ?filled = (Inr (), ?filled)" using kept by blast
    then show ?thesis using filled begun False by (simp add: flush_def case_prod_unfold)
  next
    case faults: False
    have same: "appends es db d" if "tb_requests d = tb_requests db" "tb_usage d = tb_usage db" "tb_people d = tb_people db"
        "tb_prices d = tb_prices db" for d
      using that faults by (intro appends_none) auto
    have grown: "appends es db ?ended"
      using filled kept [of ?filled] kept [of db] faults by (auto simp: appends_def)
    have undone: "appends es db (?ended\<lparr>tb_requests := tb_requests db\<rparr>)"
      using filled kept [of ?filled] kept [of db] by (intro same) (auto simp: appends_def)
    show ?thesis
      using False same [of ?begun] grown undone kept [of db]
      by (auto simp: flush_def case_prod_unfold split: sum.split)
  qed
qed (simp add: flush_def appends_def)

lemma writer_appends: "appends (queue @ concat arrivals) db (snd (run_state (writer batch clock n queue arrivals) db))"
proof (induction batch clock n queue arrivals arbitrary: db rule: writer.induct)
  case (1 batch clock n)
  then show ?case using flush_appends [of "[]" db "clock n"] by simp
next
  case (3 batch clock n e queue)
  let ?db = "snd (run_state (flush (clock n) (e # take (batch - 1) queue)) db)"
  have "snd (run_state (writer batch clock n (e # queue) []) db)
      = snd (run_state (writer batch clock (Suc n) (drop (batch - 1) queue) []) ?db)"
    by (simp add: case_prod_unfold)
  then show ?case using appends_trans [OF flush_appends 3, of "e # take (batch - 1) queue" db "clock n"] by simp
next
  case (4 batch clock n e queue sent arrivals)
  let ?db = "snd (run_state (flush (clock n) (e # take (batch - 1) queue)) db)"
  have "snd (run_state (writer batch clock n (e # queue) (sent # arrivals)) db)
      = snd (run_state (writer batch clock (Suc n) (drop (batch - 1) queue @ sent) arrivals) ?db)"
    by (simp add: case_prod_unfold)
  then show ?case
    using appends_trans [OF flush_appends 4, of "e # take (batch - 1) queue" db "clock n"]
    by (simp add: append_assoc [symmetric] del: append_assoc)
qed simp

section \<open>Bounded memory\<close>

lemma note_key_bounded: "length seen \<le> MAX_KEYS \<Longrightarrow> length (snd (note_key sha now k seen)) \<le> MAX_KEYS"
proof -
  have put: "length (dm_put k v m) \<le> Suc (length m)" for k :: string and v :: instant and m
    by (induction m) (auto simp: dm_put_def)
  assume "length seen \<le> MAX_KEYS"
  moreover have "length (dm_retain P seen) \<le> length seen" for P by (simp add: dm_retain_def)
  ultimately show ?thesis
    unfolding note_key_def Let_def snd_conv by (intro order_trans [OF put]) (auto simp: MAX_KEYS_def)
qed

lemma scanner_bounded:
  assumes "length (sn_line s) \<le> MAX_LINE" and "length (sn_body s) \<le> MAX_BODY"
  shows "length (sn_line (scanner_feed parse s t)) \<le> MAX_LINE \<and> length (sn_body (scanner_feed parse s t)) \<le> MAX_BODY"
proof -
  have part: "length (sn_line (feed_part parse s p)) \<le> MAX_LINE \<and> sn_body (feed_part parse s p) = sn_body s"
    if "length (sn_line s) \<le> MAX_LINE" for s p
    using that by (auto simp: feed_part_def keep_line_def end_line_def on_line_def Let_def split: option.split)
  have "length (sn_line (foldl (feed_part parse) s ps)) \<le> MAX_LINE \<and> sn_body (foldl (feed_part parse) s ps) = sn_body s"
    if "length (sn_line s) \<le> MAX_LINE" for s ps
    using that by (induction ps arbitrary: s) (simp_all add: part)
  moreover have "length (sn_body (keep_body t s)) \<le> MAX_BODY" "sn_line (keep_body t s) = sn_line s"
    using assms(2) by (simp_all add: keep_body_def)
  ultimately show ?thesis using assms(1) by (simp add: scanner_feed_def)
qed

end
