(* ===== verification/ExampleTelemetry.thy ===== *)
theory ExampleTelemetry
  imports Telemetry
begin

text \<open>Three answers to two people, one of whom has two credentials.\<close>

definition usage_entry :: "string option \<Rightarrow> string \<Rightarrow> int \<Rightarrow> usage_row" where
  "usage_entry user model n =
     \<lparr>ul_created_at = ''2026-01-02'', ul_user_id = user, ul_pool_id = None, ul_provider_id = ''alpha'', ul_model = model,
      ul_usage = \<lparr>us_input = n, us_output = 1, us_cached = 0\<rparr>\<rparr>"

definition ann_rows :: "usage_row list" where
  "ann_rows = [usage_entry (Some ''cf:ann@acme.org'') ''m'' 11, usage_entry (Some ''robot'') ''n'' 22]"

definition usage_db :: telemetry_db where
  "usage_db =
     \<lparr>tb_usage = ann_rows @ [usage_entry None ''m'' 7], tb_people = [(''robot'', ''ann@acme.org'')],
      tb_prices = [(''m'', \<lparr>pr_input = 2, pr_output = 8, pr_cached = None\<rparr>)], tb_requests = [], tb_faults = []\<rparr>"

end
