(* ===== verification/Spec2Isabelle.thy ===== *)
theory Spec2Isabelle
  imports ExampleProviders ExampleGate ExampleAdapters ExampleResponses ExampleTelemetry
begin

text \<open>
  Verification development of 1router, a gateway that routes chat requests to pools of
  upstream providers.

  \<^bold>\<open>The program.\<close>  A client sends an OpenAI- or Anthropic-shaped request to \<open>/v1\<close>.  The
  model name selects a pool, whose members are tried in order until one answers; the
  health of every \<open>(provider, model)\<close> pair is kept in memory, tokens of OAuth providers are
  renewed on the way, and the configuration lives in SQLite, published to the request path
  as an immutable snapshot by the admin API.

  \<^bold>\<open>Theories.\<close>
  \<^item> \<open>Prelude\<close>, \<open>RustText\<close>, \<open>Utf8\<close>, \<open>Json\<close>: durations, results and options, the concurrent
    maps (\<open>DashMap\<close>), byte strings with Rust's text functions, decoding of UTF-8, JSON
    values and doubles.
  \<^item> \<open>Model\<close>: \<open>src/core/model.rs\<close> and \<open>src/core/error.rs\<close>; \<open>Effects\<close>: the state monad,
    Hoare triples and preorders on states.
  \<^item> \<open>Backoff\<close> (\<open>src/proxy/backoff.rs\<close>), \<open>Runtime\<close> (\<open>src/core/runtime.rs\<close>), \<open>Select\<close>
    (\<open>src/pools/select.rs\<close>), \<open>Reasoning\<close> (\<open>src/core/reasoning.rs\<close>), \<open>RateLimit\<close>
    (\<open>src/admin/auth/rate_limit.rs\<close>).
  \<^item> \<open>Store\<close>: the tables, their constraints, statements that may fail and transactions;
    \<open>ProviderStore\<close>, \<open>PoolStore\<close>, \<open>Users\<close>: the queries of \<open>src/providers\<close>, \<open>src/pools\<close> and
    \<open>src/users\<close>; \<open>ConfigStore\<close>: snapshot, direct pools, import, export and seeding
    (\<open>src/core/state.rs\<close>, \<open>src/admin/mod.rs\<close>, \<open>src/seed.rs\<close>).
  \<^item> \<open>CfAccess\<close> (\<open>src/auth/cf_access.rs\<close>): tokens of the edge and the cache of its keys;
    \<open>Sessions\<close> (\<open>src/admin/auth\<close>): the administrator's login, sessions and cookies; \<open>Access\<close>
    (\<open>src/auth/middleware.rs\<close>, \<open>src/admin/settings.rs\<close>): who is let through, and as whom.
  \<^item> \<open>World\<close>: what a request reads and writes; \<open>Quota\<close> (\<open>src/telemetry/limits.rs\<close>);
    \<open>Refresh\<close> (\<open>src/providers/refresh_lock.rs\<close>, \<open>refresh_task.rs\<close>, the Codex token
    endpoint); \<open>Messages\<close> and \<open>Flow\<close> (\<open>src/proxy/flow.rs\<close>, \<open>error_response.rs\<close>): one proxied
    request; \<open>Trace\<close> and \<open>Serve\<close>: the lemmas about it.
  \<^item> \<open>Sse\<close> (\<open>src/providers/adapter/sse.rs\<close>): from bytes to the blocks of an event stream;
    \<open>Bridge\<close> and \<open>BridgeStream\<close> (\<open>codex/claude_bridge.rs\<close>): requests, answers and streams
    between the two wire formats; \<open>BridgeSpec\<close>: an abstract conversation and its renderings.
  \<^item> \<open>HttpAdapter\<close> (\<open>src/providers/adapter/http.rs\<close>), \<open>CodexTransform\<close> and \<open>CodexAdapter\<close>
    (\<open>codex/transform.rs\<close>, \<open>codex/adapter.rs\<close>), \<open>CommandCode\<close> and \<open>CommandCodeAdapter\<close>
    (\<open>commandcode/transform.rs\<close>, \<open>commandcode/adapter.rs\<close>): the three adapters; \<open>Adapters\<close>
    (\<open>mod.rs\<close>): which provider gets which; \<open>CodexRequest\<close>, \<open>CodexStream\<close>, \<open>AdapterSpec\<close>,
    \<open>CommandCodeSpec\<close>, \<open>Relay\<close>: the lemmas about them, alone and inside the failover loop.
  \<^item> \<open>Responses\<close> (\<open>src/proxy/responses.rs\<close>, \<open>body.rs\<close>) and \<open>ProxyRoutes\<close>
    (\<open>src/proxy/routes.rs\<close>): the routes of \<open>/v1\<close>; \<open>ResponsesStream\<close> reads the streamed answer as
    a client does, \<open>ResponsesFaithful\<close> compares it with the upstream's chunks, \<open>ResponsesSpec\<close> has
    the way of a conversation through the translation.
  \<^item> \<open>Usage\<close> and \<open>UsageReport\<close> (\<open>src/telemetry/usage.rs\<close>): the token counts of answers and the
    report over them; \<open>UsageSpec\<close>: what the report promises; \<open>Telemetry\<close>
    (\<open>src/telemetry/request_log.rs\<close>, \<open>stats.rs\<close>, \<open>health.rs\<close>, \<open>cache_trace.rs\<close>).
  \<^item> \<open>ProviderRoutes\<close> and \<open>ProviderProbes\<close> (\<open>src/providers/routes.rs\<close>): what an administrator sees and
    does of providers, the probes and the discovery of models; \<open>ProviderRoutesSpec\<close>, \<open>ProbeSpec\<close> and
    \<open>KeyVeil\<close>: that edits take effect, that probes clear flags only with proof, and that keys do not
    show, by a relational judgement on pairs of runs.
  \<^item> \<open>Examples\<close>, \<open>ExampleWorld\<close>, \<open>ExampleGate\<close>, \<open>ExampleBridge\<close>, \<open>ExampleAdapters\<close>,
    \<open>ExampleResponses\<close>, \<open>ExampleTelemetry\<close>, \<open>ExampleProviders\<close>: the configurations the witnesses use.

  \<^bold>\<open>Correspondence.\<close>  Definitions carry the names of the functions they model.  A record is a
  struct, a datatype an enum, \<open>'e + 'a\<close> a \<open>Result\<close>; \<open>u8\<close> and \<open>u32\<close> are words, other
  integers stay in the range of their type.  An operation on shared state is a state monad
  over the database or over \<open>world\<close>.  Everything outside the repository is in \<open>env\<close>,
  indexed by a tick that every use advances, so that two reads of a clock or two calls of
  one upstream may differ: the clocks, the HTTP client, JSON parsing and printing, and the
  object behind \<open>dyn ProviderAdapter\<close>, so that the failover loop is proved for any adapter;
  \<open>env_adapter E = adapter_for_wire L\<close> says that it is one of the three, where \<open>libs\<close> has what
  they use from outside.  SHA-256, random bytes and the texts of database errors are parameters
  of the definitions that use them.

  \<^bold>\<open>What the lemmas show.\<close>  \<open>Trace\<close> gives the events of every step of a request (calls and
  log entries) by the judgement \<open>acts\<close> and its frame by the preorder \<open>touches\<close>; \<open>Serve\<close>
  computes the runs that matter.  The stores keep the invariant \<open>stored_ok\<close> and refine the
  abstract configuration; interleaved writers keep the maps well formed by rule induction
  over the step relations.  No fuel is used: recursion is on the candidates, the rows, the
  bytes and the number of retries left.

  \<^bold>\<open>Not modelled.\<close>  Concurrency of two requests inside one step (each map operation is
  atomic under its lock), timers, \<open>tracing\<close>, the terminal dialogue of \<open>src/onboarding.rs\<close>,
  static assets, the browser round trips of OAuth logins, dataset capture, and image generation.
\<close>

section \<open>A proxied request\<close>

text \<open>C1. The first candidate serves: when it is healthy, configured and its upstream answers with
  a success its adapter can translate, the caller gets that translation, exactly one call leaves
  the process, and the pair is healthy afterwards, whatever the other candidates are.\<close>

theorem healthy_candidate_serves:
  assumes "fst (select s i wire (w_rotation w)) = Some sel" and "sel_providers sel = m # ms"
    and "direct_refusal s discovered c sel = None"
    and "db_faults (w_db w) = []" and "ready_member (w_db w) m"
    and "dm_ok (w_runtime w)" and "\<And>t. callable (w_runtime w) (member_key m) (env_now E t)"
    and "\<And>t tr. ad_build_request (tg_adapter (target_of E (request_ctx E wire i c body sel) m)) t tr body
        (stored_credentials (w_db w) (rm_provider m)) = Done (Inr rq)"
    and "\<And>t. env_execute E t rq = Inr up" and "is_success (up_status up)"
    and "\<And>t. ad_transform_response (tg_adapter (target_of E (request_ctx E wire i c body sel) m)) t rq up
        (client_wanted_stream E body) = Inr resp"
  shows "\<exists>w'. run_state (handle_proxy E s discovered wire i c body) w = (shown_to c (Done resp), w')
     \<and> w_calls w' = w_calls w @ [member_call m] \<and> (\<forall>t. callable (w_runtime w') (member_key m) t)"
  using assms by (rule first_candidate_serves)

theorem healthy_candidate_serves_witness:
  "\<exists>w'. run_state (handle_proxy (example_env (Inr (said 200))) (snapshot_of example_db) [] OpenAi ''duo'' anonymous_caller ''{}'')
       example_world = (Done \<lparr>resp_status = 200, resp_headers = [(''content-type'', ''application/json'')],
         resp_body = RawBody ''hi''\<rparr>, w')
     \<and> w_calls w' = [ProviderCall ''alpha'' ''gpt-5'']"
proof -
  let ?E = "example_env (Inr (said 200))"
  have shown: "shown_to anonymous_caller (Done \<lparr>resp_status = 200, resp_headers = [(''content-type'', ''application/json'')],
      resp_body = RawBody ''hi''\<rparr>) = Done \<lparr>resp_status = 200, resp_headers = [(''content-type'', ''application/json'')],
      resp_body = RawBody ''hi''\<rparr>" by code_simp
  have "\<exists>w'. run_state (handle_proxy ?E (snapshot_of example_db) [] OpenAi ''duo'' anonymous_caller ''{}'') example_world
      = (shown_to anonymous_caller (Done \<lparr>resp_status = 200, resp_headers = [(''content-type'', ''application/json'')],
           resp_body = RawBody ''hi''\<rparr>), w')
    \<and> w_calls w' = w_calls example_world @ [member_call alpha_member]
    \<and> (\<forall>t. callable (w_runtime w') (member_key alpha_member) t)"
    by (rule healthy_candidate_serves [OF select_duo duo_members duo_allowed, where rq = "plain_request ''{}''" and up = "said 200"])
      (simp_all add: duo_ready duo_members said_def is_success_def dm_ok_def)
  then show ?thesis by (elim exE conjE) (rule exI, simp add: shown)
qed

text \<open>C2. Calls leave the process in the order of selection: each candidate is called at most twice,
  the second time only directly after the first or after one renewal of its own token, and no
  other call is made.\<close>

theorem calls_in_selection_order:
  assumes "run_state (handle_proxy E s discovered wire i c body) w = (r, w')"
  shows "\<exists>blocks. w_calls w' = w_calls w @ concat blocks
     \<and> list_all2 (\<lambda>m b. b = [] \<or> visit_calls m b) (candidates s i wire w) blocks"
proof -
  from handle_proxy_events [OF assms] obtain cs where w': "w_calls w' = w_calls w @ cs"
    and "cs = [] \<or> (\<exists>cx r' ls. run_events cx (candidates s i wire w) r' cs ls)" by auto
  then show ?thesis
  proof (elim disjE exE)
    assume "cs = []"
    with w' show ?thesis
      by (intro exI [of _ "replicate (length (candidates s i wire w)) []"]) (simp add: list_all2_replicate_right)
  next
    fix cx r' ls assume "run_events cx (candidates s i wire w) r' cs ls"
    from run_events_calls [OF this] w' show ?thesis by blast
  qed
qed

theorem calls_in_selection_order_witness:
  "\<exists>blocks. w_calls (snd (run_state (handle_proxy (example_env (Inr (said 503))) (snapshot_of example_db) [] OpenAi ''duo''
        anonymous_caller ''{}'') example_world)) = concat blocks
     \<and> list_all2 (\<lambda>m b. b = [] \<or> visit_calls m b) [alpha_member, beta_member] blocks"
proof -
  have "candidates (snapshot_of example_db) ''duo'' OpenAi example_world = [alpha_member, beta_member]" by code_simp
  then show ?thesis
    using calls_in_selection_order [OF surjective_pairing, of "example_env (Inr (said 503))" "snapshot_of example_db" "[]"
      OpenAi "''duo''" anonymous_caller "''{}''" example_world] by simp
qed

text \<open>C3. Every contact is accounted for: an answered request leaves exactly one log entry per
  candidate it contacted, in the order of selection and under the caller's and the candidate's
  names, and at most one of the entries is a success.\<close>

theorem one_entry_per_contact:
  assumes "run_state (handle_proxy E s discovered wire i c body) w = (Done resp, w')"
  shows "\<exists>cx blocks. cx_pool cx = i \<and> cx_caller cx = c \<and> list_all2 (visit cx True) (candidates s i wire w) blocks
     \<and> w_calls w' = w_calls w @ concat (map fst blocks) \<and> w_logs w' = w_logs w @ concat (map snd blocks)
     \<and> length (filter le_success (concat (map snd blocks))) \<le> 1"
proof -
  let ?none = "\<lparr>cx_wire = wire, cx_pool = i, cx_caller = c, cx_body = body, cx_stream = False, cx_selected = None\<rparr>"
  let ?blocks = "replicate (length (candidates s i wire w)) ([], [])"
  from handle_proxy_events [OF assms] consider
      cx cs ls r' where "cx_pool cx = i" "cx_caller cx = c" "run_events cx (candidates s i wire w) r' cs ls"
        "Done resp = shown_to c r'" "w_calls w' = w_calls w @ cs" "w_logs w' = w_logs w @ ls"
    | "w_calls w' = w_calls w" "w_logs w' = w_logs w" by blast
  then show ?thesis
  proof cases
    case 1
    then obtain resp' where "r' = Done resp'" by (cases r') (auto simp: shown_to_def)
    with run_events_blocks [of cx "candidates s i wire w" resp' cs ls] 1 show ?thesis by blast
  next
    case 2
    then show ?thesis
      by (intro exI [of _ ?none] exI [of _ ?blocks]) (simp add: list_all2_replicate_right visit_def map_replicate_const)
  qed
qed

theorem one_entry_per_contact_witness:
  "\<exists>cx blocks. cx_pool cx = ''duo'' \<and> list_all2 (visit cx True) [alpha_member, beta_member] blocks
     \<and> length (filter le_success (concat (map snd blocks))) \<le> 1
     \<and> w_logs (snd (run_state (handle_proxy (example_env (Inl no_route)) (snapshot_of example_db) [] OpenAi ''duo''
          anonymous_caller ''{}'') example_world)) = concat (map snd blocks)"
proof -
  let ?run = "run_state (handle_proxy (example_env (Inl no_route)) (snapshot_of example_db) [] OpenAi ''duo''
      anonymous_caller ''{}'') example_world"
  obtain resp where "fst ?run = Done resp"
    using handle_proxy_answers [OF example_sane, of "Inl no_route" "snapshot_of example_db" "[]" OpenAi "''duo''"
      anonymous_caller "''{}''" example_world] by auto
  then have run: "?run = (Done resp, snd ?run)" by (simp add: prod_eq_iff)
  have "candidates (snapshot_of example_db) ''duo'' OpenAi example_world = [alpha_member, beta_member]" by code_simp
  moreover have "w_logs example_world = []" by code_simp
  ultimately show ?thesis using one_entry_per_contact [OF run] by simp blast
qed

text \<open>C4. A request changes the health of its own candidates only, keeps every health entry well
  formed, and leaves the configuration, the users and the sessions as they are.\<close>

theorem request_is_confined:
  "touches (member_key ` set (candidates s i wire w)) w
     (snd (run_state (handle_proxy E s discovered wire i c body) w))"
  by (rule handle_proxy_touches)

text \<open>C5. When every candidate is cooling, none is contacted and nothing is recorded: the only changes
  are the rotation cursor and the clock; the answer is a 503 whose \<open>Retry-After\<close> is long
  enough for some candidate to be callable again.\<close>

theorem cooling_candidates_rest:
  assumes "fst (select s i wire (w_rotation w)) = Some sel" and "sel_providers sel \<noteq> []"
    and "direct_refusal s discovered c sel = None"
    and "\<And>m t. m \<in> set (sel_providers sel) \<Longrightarrow> \<not> callable (w_runtime w) (member_key m) (env_now E t)"
  shows "\<exists>resp n m t r k. run_state (handle_proxy E s discovered wire i c body) w
       = (Done resp, w\<lparr>w_rotation := r, w_tick := k\<rparr>)
     \<and> resp_status resp = 503 \<and> hdr_get (resp_headers resp) ''retry-after'' = Some (show_nat n)
     \<and> m \<in> set (sel_providers sel) \<and> w_tick w < t
     \<and> callable (w_runtime w) (member_key m) (env_now E t + from_secs n)"
  using assms by (rule all_candidates_cooling)

theorem cooling_candidates_rest_witness:
  "\<exists>resp n r k. run_state (handle_proxy frozen_env (snapshot_of example_db) [] OpenAi ''duo'' anonymous_caller ''{}'')
       cooling_world = (Done resp, cooling_world\<lparr>w_rotation := r, w_tick := k\<rparr>)
     \<and> resp_status resp = 503 \<and> hdr_get (resp_headers resp) ''retry-after'' = Some (show_nat n)"
proof -
  have sel: "fst (select (snapshot_of example_db) ''duo'' OpenAi (w_rotation cooling_world)) = Some duo_selection"
    by code_simp
  have some: "sel_providers duo_selection \<noteq> []" by (simp add: duo_members)
  from cooling_candidates_rest [OF sel some duo_allowed duo_cooling, of "[]" anonymous_caller "''{}''"]
  show ?thesis by blast
qed





text \<open>C8. A caller who is not the administrator cannot tell the members of a pool apart: the answer to a
  request nobody could serve is the same whichever providers and models were tried or passed
  over, given the waits, the reasons and the last failure text.\<close>

theorem topology_hidden:
  assumes "\<not> is_admin c" and "(tried = []) = (tried' = [])"
    and "map (\<lambda>m. (sk_retry_in m, sk_reason m)) sks = map (\<lambda>m. (sk_retry_in m, sk_reason m)) sks'"
  shows "shown_to c (Done (unavailable wire i tried sks lp le (is_admin c)))
       = shown_to c (Done (unavailable wire i tried' sks' lp' le (is_admin c)))"
  using assms by (rule unavailable_blind)

theorem topology_hidden_witness:
  "shown_to anonymous_caller (Done (unavailable OpenAi ''duo'' []
       [\<lparr>sk_provider = ''alpha'', sk_model = ''gpt-5'', sk_status = Cooling, sk_retry_in = 7, sk_reason = Some ''busy''\<rparr>]
       [] ''busy'' (is_admin anonymous_caller)))
   = shown_to anonymous_caller (Done (unavailable OpenAi ''duo'' []
       [\<lparr>sk_provider = ''beta'', sk_model = ''m'', sk_status = Misconfigured, sk_retry_in = 7, sk_reason = Some ''busy''\<rparr>]
       ''beta'' ''busy'' (is_admin anonymous_caller)))"
  by (rule topology_hidden) (simp_all add: is_admin_def anonymous_caller_def)

text \<open>C9. Headers of an upstream are relayed by an allow list: whatever the upstreams and the adapters did, an answer
  carries only listed names (content type, retry and request ids, rate limits), and the gateway's own
  debug headers, which name providers, only when the administrator asked.\<close>

theorem relayed_headers_listed:
  assumes "env_adapter E = adapter_for_wire L"
    and "run_state (handle_proxy E s discovered wire i c body) w = (Done resp, w')"
  shows "headers_within (\<lambda>k. relay_upstream_header k \<or> is_admin c \<and> debug_header k) resp"
  using assms by (rule answer_headers)

theorem relayed_headers_listed_witness:
  "\<exists>resp. fst (run_state (handle_proxy (wired_env (Inr ((said 200)\<lparr>up_headers := [(''set-cookie'', ''a''), (''x-request-id'', ''r'')]\<rparr>)))
        (snapshot_of example_db) [] OpenAi ''duo'' anonymous_caller ''CHAT'') example_world) = Done resp
     \<and> headers_within (\<lambda>k. relay_upstream_header k \<or> is_admin anonymous_caller \<and> debug_header k) resp"
proof -
  let ?A = "Inr ((said 200)\<lparr>up_headers := [(''set-cookie'', ''a''), (''x-request-id'', ''r'')]\<rparr>)"
  let ?E = "wired_env ?A"
  let ?run = "run_state (handle_proxy ?E (snapshot_of example_db) [] OpenAi ''duo'' anonymous_caller ''CHAT'') example_world"
  have "body_safe example_libs ''CHAT''" by code_simp
  from handle_proxy_answers [OF wired_sane [of ?A] adapters_sane [OF wired_adapter [of ?A] this], of "snapshot_of example_db" "[]" OpenAi
      "''duo''" anonymous_caller example_world] obtain resp w' where run: "?run = (Done resp, w')" by auto
  from relayed_headers_listed [OF wired_adapter run] run show ?thesis by (intro exI [of _ resp]) simp
qed

section \<open>Token refresh\<close>

text \<open>C10. What a refresh hands on is what the database holds: credentials are returned only after they
  were stored (by this caller or by the one it waited for), and at most one renewal is sent,
  with the caller's own refresh token.\<close>

theorem refreshed_credentials_stored:
  assumes "run_state (refresh_and_persist E p creds) w = (Done (Inr c), w')"
  shows "stored_as (prov_id p) c (w_db w') \<and> (\<exists>cs. w_calls w' = w_calls w @ cs \<and> one_refresh p creds cs)"
  using refresh_and_persist_result(1) [OF assms] refresh_and_persist_result(2) [OF assms HOL.refl] by (rule conjI [rotated])

theorem refreshed_credentials_stored_witness:
  "stored_as ''gamma'' new_credentials
     (w_db (snd (run_state (refresh_and_persist token_env gamma old_credentials) (world_with (gamma_db []) []))))"
proof -
  let ?run = "run_state (refresh_and_persist token_env gamma old_credentials) (world_with (gamma_db []) [])"
  have "fst ?run = Done (Inr new_credentials)" by code_simp
  then have "?run = (Done (Inr new_credentials), snd ?run)" by (simp add: prod_eq_iff)
  from refreshed_credentials_stored [OF this] show ?thesis by (simp add: gamma_def)
qed

text \<open>C11. A rotated token is not lost to a busy database: whatever the first three writes run into, the
  new credentials are stored, because the loop tries four times.\<close>

theorem rotated_token_survives:
  assumes "i \<in> prov_id ` set (t_providers (w_db w))" and "leading_faults (w_db w) \<le> PERSIST_RETRIES"
  shows "\<exists>w'. run_state (persist E PERSIST_RETRIES i c) w = (Inr c, w') \<and> stored_as i c (w_db w')"
proof -
  from persist_survives [OF assms] obtain w' where run: "run_state (persist E PERSIST_RETRIES i c) w = (Inr c, w')" ..
  from persist_stores [OF this] run show ?thesis by blast
qed

theorem rotated_token_survives_witness:
  "\<exists>w'. run_state (persist token_env PERSIST_RETRIES ''gamma'' new_credentials)
       (world_with (gamma_db [Some ''busy'', Some ''busy'', Some ''busy'']) []) = (Inr new_credentials, w')
     \<and> stored_as ''gamma'' new_credentials (w_db w')"
  by (rule rotated_token_survives) (simp_all add: gamma_db_def gamma_def empty_db_def leading_faults_def PERSIST_RETRIES_def)

section \<open>Translating streams\<close>

text \<open>C12. However the network cuts a stream of bytes, the same events come out of it: two ways of cutting
  the same bytes yield the same blocks and leave the framer in the same state, and the blocks with the
  remainder are the decoded text with unix line ends (unless a carriage return and a cut-off character
  both wait at the end).\<close>

theorem sse_pieces_invisible:
  assumes "concat xs = concat ys" and "framer_feeds new_framer xs = (bs, f)"
  shows "framer_feeds new_framer ys = (bs, f)
     \<and> (fr_held_cr f \<and> fr_pending f \<noteq> []
        \<or> concat bs @ framer_finish f = replace_str [CR, LF] [LF] (from_utf8_lossy (concat xs)))"
  using assms framer_feeds_concat [OF new_framer_settled, of xs] framer_feeds_concat [OF new_framer_settled, of ys]
    framer_content [of "concat xs" bs f] by auto

theorem sse_pieces_invisible_witness:
  "framer_feeds new_framer [''data: a'' @ [CR], [LF, CR], [LF] @ ''data: b''] = ([''data: a'' @ [LF, LF]],
     \<lparr>fr_pending = [], fr_buf = ''data: b'', fr_held_cr = False\<rparr>)"
proof -
  have "framer_feeds new_framer [''data: a'' @ [CR, LF, CR, LF] @ ''data: b''] = ([''data: a'' @ [LF, LF]],
     \<lparr>fr_pending = [], fr_buf = ''data: b'', fr_held_cr = False\<rparr>)"
    by code_simp
  from sse_pieces_invisible [OF _ this, of "[''data: a'' @ [CR], [LF, CR], [LF] @ ''data: b'']"] show ?thesis
    by simp
qed

text \<open>C13. Nothing of an OpenAI stream is lost or mixed up: the text of the events is the text of the chunks,
  every tool has a block of its own, and the input of that block is exactly the concatenation of the
  tool's argument fragments, however the fragments of different tools are interleaved, as long as
  every tool is named before it is continued.\<close>

theorem stream_translation_faithful:
  assumes "named_first {} (concat (map chunk_calls cs))"
  defines "es \<equiv> fst (claude_events cs new_claude_stream)"
    and "calls \<equiv> concat (map chunk_calls cs)"
  shows "texts es = concat (map chunk_text cs)
     \<and> (\<exists>block. inj_on block (tool_index ` set calls)
          \<and> (\<forall>k \<in> tool_index ` set calls. inputs (block k) es = args_of k calls))"
proof -
  obtain es' st' where run: "claude_events cs new_claude_stream = (es', st')" by fastforce
  then have es: "es = es'" by (simp add: es_def)
  note faithful = claude_events_faithful [OF run assms(1) HOL.refl, folded calls_def]
  let ?block = "\<lambda>k. the (map_of (cs_tool_calls st') k)"
  have "inputs (?block k) es = args_of k calls" if "k \<in> tool_index ` set calls" for k
    using faithful(3) [OF that] by (auto simp: es)
  moreover have "inj_on ?block (tool_index ` set calls)"
    using faithful(2,3) unfolding inj_on_def by (metis option.sel)
  ultimately show ?thesis using faithful(1) by (auto simp only: es)
qed

theorem stream_translation_faithful_witness:
  "\<exists>b. inputs b (fst (claude_events [call_chunk [(''id'', JStr ''c'')] ''PA'', hello_chunk, call_chunk [] ''RIS''] new_claude_stream))
     = ''PARIS''"
proof -
  let ?cs = "[call_chunk [(''id'', JStr ''c'')] ''PA'', hello_chunk, call_chunk [] ''RIS'']"
  have calls: "named_first {} (concat (map chunk_calls ?cs))" "1 \<in> tool_index ` set (concat (map chunk_calls ?cs))"
    "args_of 1 (concat (map chunk_calls ?cs)) = ''PARIS''"
    by code_simp+
  from stream_translation_faithful [OF calls(1)] obtain block where
    "\<forall>k \<in> tool_index ` set (concat (map chunk_calls ?cs)).
       inputs (block k) (fst (claude_events ?cs new_claude_stream)) = args_of k (concat (map chunk_calls ?cs))"
    by (elim exE conjE)
  note says = bspec [OF this calls(2), unfolded calls(3)]
  show ?thesis by (rule exI, rule says)
qed





section \<open>Translating conversations\<close>

text \<open>C16. A conversation survives the trip to the other wire format and back: both translations map the
  rendering of a conversation (system prompt, texts, images, tool calls and their answers, tool
  declarations, tool choice and parameters) in the one format to its rendering in the other.\<close>

theorem conversation_roundtrip:
  assumes "conversation_ok cv" and "\<forall>v \<in> set (conversation_inputs cv). parse (print v) = Some v"
  shows "claude_to_openai_request print (claude_request cv) = openai_request print cv
     \<and> openai_to_claude_request parse (openai_request print cv) = Done (claude_request cv)"
  using request_to_openai [OF assms(1)] request_to_claude [OF assms] by simp_all

theorem conversation_roundtrip_witness:
  "openai_to_claude_request parse_paris (claude_to_openai_request print_paris (claude_request weather_chat))
     = Done (claude_request weather_chat)"
proof -
  have "conversation_ok weather_chat" "\<forall>v \<in> set (conversation_inputs weather_chat). parse_paris (print_paris v) = Some v"
    by code_simp+
  note both = conversation_roundtrip [OF this]
  show ?thesis by (simp only: both [THEN conjunct1] both [THEN conjunct2])
qed

text \<open>C17. The Codex backend gets a conversation as it is, whichever wire format the client speaks: the input of the
  request is exactly the items of the conversation (instructions, texts, images, calls and results in
  their order).\<close>

theorem conversation_reaches_codex:
  assumes "ad_build_request (adapter_for_wire L p wire scope) t tr body creds = Done (Inr rq)" and "prov_kind p = OauthCodex"
    and "lb_parse L body = Inr (rendered wire (lb_print L) cv)" and "conversation_ok cv"
  shows "\<exists>j. rq_body rq = lb_print L j \<and> jget j ''input'' = Some (JArr (codex_input (lb_print L) cv))"
proof -
  from assms(1,2) have "codex_build_request L p wire scope body creds = Inr rq"
    by (simp add: adapter_for_wire_def codex_adapter_def)
  from codex_conversation [OF this assms(3,4)] show ?thesis .
qed

theorem conversation_reaches_codex_witness:
  "\<exists>j. jget j ''input'' = Some (JArr (codex_input example_print weather_chat))
     \<and> fst (projr (Inr (lb_print example_libs j, 0) :: unit + string \<times> nat)) = ''OTHER''"
proof -
  let ?build = "ad_build_request (adapter_for_wire example_libs gamma Anthropic ''u'') 0 [] ''MESSAGES'' codex_credentials"
  let ?rq = "case ?build of Done (Inr rq) \<Rightarrow> rq"
  have built: "?build = Done (Inr ?rq)" and sent: "rq_body ?rq = ''OTHER''" by code_simp+
  have "prov_kind gamma = OauthCodex" "lb_parse example_libs ''MESSAGES'' = Inr (rendered Anthropic (lb_print example_libs) weather_chat)"
    "conversation_ok weather_chat" by code_simp+
  from conversation_reaches_codex [OF built this] obtain j where "rq_body ?rq = lb_print example_libs j"
    "jget j ''input'' = Some (JArr (codex_input (lb_print example_libs) weather_chat))" by (elim exE conjE)
  with sent show ?thesis by (intro exI [of _ j]) (simp add: example_libs_def)
qed

section \<open>The Responses API\<close>



text \<open>C19. A conversation sent through the Responses API reaches a Codex provider as it was sent: although it is
  turned into Chat Completions messages on the way, with consecutive calls merged into one message,
  the items that leave the process are the client's own, in order, after its instructions.\<close>

theorem responses_reach_codex:
  assumes "request_to_chat print req = Inr chat" and "responses_conversation print req cv"
    and "ad_build_request (adapter_for_wire L p OpenAi scope) t tr body creds = Done (Inr rq)" and "prov_kind p = OauthCodex"
    and "lb_parse L body = Inr chat"
  shows "\<exists>j. rq_body rq = lb_print L j \<and> jget j ''input'' = Some (JArr (codex_input print cv))"
  using assms(3-5) responses_reach_codex_input [OF assms(1,2)]
  by (auto simp: adapter_for_wire_def codex_adapter_def as_openai_def json_post_def elim!: codex_built)

theorem responses_reach_codex_witness:
  "\<exists>j. jget j ''input'' = Some (JArr (codex_input example_print weather_items)) \<and> lb_print responses_libs j = ''OTHER''"
proof -
  let ?build = "ad_build_request (adapter_for_wire responses_libs gamma OpenAi ''u'') 0 [] ''ASKED'' codex_credentials"
  let ?rq = "case ?build of Done (Inr rq) \<Rightarrow> rq"
  have built: "?build = Done (Inr ?rq)" and sent: "rq_body ?rq = ''OTHER''" by code_simp+
  have "request_to_chat example_print items_request = Inr asked_chat" "responses_conversation example_print items_request weather_items"
    "prov_kind gamma = OauthCodex" "lb_parse responses_libs ''ASKED'' = Inr asked_chat"
    by code_simp+
  from responses_reach_codex [OF this(1,2) built this(3,4)] sent show ?thesis by metis
qed

text \<open>C20. Namespaces come back: a function inside a namespace is offered to the upstream under one flat name, and
  a call of that name is returned with the name and the namespace the client gave it, as long as
  no two functions of the request share a flat name.\<close>

theorem tool_names_survive:
  assumes "inj_on chat_name (tool_names req)" and "t \<in> set (flat_tools (elements_at req ''tools''))"
    and "str_at (snd t) ''name'' = Some n" and "str_at (jidx (chat_tool t) ''function'') ''name'' = Some offered"
  shows "str_at (with_namespace (namespaces_of req) (call_output i phase call_id (JStr offered) args)) ''name'' = Some n
     \<and> str_at (with_namespace (namespaces_of req) (call_output i phase call_id (JStr offered) args)) ''namespace'' = fst t"
proof -
  have "(fst t, n) \<in> tool_names req" 
    unfolding tool_names_def mem_Collect_eq using assms(2,3) by (intro exI [of _ t] exI [of _ n]) simp
  moreover have "offered = chat_name (fst t, n)" using chat_tool_named [OF assms(3)] assms(4) by simp
  ultimately show ?thesis using namespace_restored [OF assms(1)] by simp
qed

theorem tool_names_survive_witness:
  "str_at (with_namespace (namespaces_of items_request) (call_output ''fc'' ''completed'' ''c1'' (JStr ''agents__spawn'') [])) ''namespace''
     = Some ''agents''"
proof -
  have "inj_on chat_name (tool_names items_request)"
    by (rule inj_onI) (auto simp: items_names flat_name_def)
  moreover have "(Some ''agents'', spawn_tool) \<in> set (flat_tools (elements_at items_request ''tools''))"
    "str_at (snd (Some ''agents'', spawn_tool)) ''name'' = Some ''spawn''"
    "str_at (jidx (chat_tool (Some ''agents'', spawn_tool)) ''function'') ''name'' = Some ''agents__spawn''"
    by code_simp+
  ultimately show ?thesis using tool_names_survive [of items_request "(Some ''agents'', spawn_tool)"] by simp
qed


text \<open>C22. The streamed response says what the upstream said: its items are messages whose texts join to the text of the
  chunks, and then one function call for each index among the tool-call fragments, in the order the
  indices first appear, with the name and id of its first fragment and all of its arguments.\<close>

theorem responses_stream_faithful:
  fixes parse :: "string \<Rightarrow> json option"
  assumes "pushes_fit new_framer (pieces_of body)" and "framer_feeds new_framer (pieces_of body) = (bs, g)"
  defines "cs \<equiv> chunks_of parse (bs @ [framer_finish g])"
  shows "\<exists>es ms calls. translate_stream parse print draw now model ns body = map (\<lambda>e. Inr (render_claude_event print e)) es
     \<and> conforming es (map (\<lambda>(i, m). message_output i m) ms @ calls)
     \<and> concat (map snd ms) = concat (map chunk_text cs)
     \<and> list_all2 (answers_call ns) (spoken_calls (concat (map chunk_calls cs))) calls"
  unfolding cs_def by (rule translated_says [OF assms(1,2)])

theorem responses_stream_faithful_witness:
  "\<exists>es ms. (translate_stream parse_chunk example_print show_nat 7 ''m'' [] [Inr (''data: 1'' @ [LF]), Inr ([LF] @ ''data: 2''), Inl ''reset'']
       :: (string + string) list) = map (\<lambda>e. Inr (render_claude_event example_print e)) es
     \<and> conforming es (map (\<lambda>(i, m). message_output i m) ms) \<and> concat (map snd ms) = ''hello''"
proof -
  let ?body = "[Inr (''data: 1'' @ [LF]), Inr ([LF] @ ''data: 2''), Inl ''reset''] :: (string + string) list"
  have fits: "pushes_fit new_framer (pieces_of ?body)" by code_simp
  have fed: "framer_feeds new_framer (pieces_of ?body)
      = ([''data: 1'' @ [LF, LF]], \<lparr>fr_pending = [], fr_buf = ''data: 2'', fr_held_cr = False\<rparr>)" by code_simp
  have said: "concat (map chunk_text (chunks_of parse_chunk ([''data: 1'' @ [LF, LF]] @
      [framer_finish \<lparr>fr_pending = [], fr_buf = ''data: 2'', fr_held_cr = False\<rparr>]))) = ''hello''" by code_simp
  have quiet: "spoken_calls (concat (map chunk_calls (chunks_of parse_chunk ([''data: 1'' @ [LF, LF]] @
      [framer_finish \<lparr>fr_pending = [], fr_buf = ''data: 2'', fr_held_cr = False\<rparr>])))) = []" by code_simp
  show ?thesis
    using responses_stream_faithful [OF fits fed, of parse_chunk example_print show_nat 7 "''m''" "[]"] unfolding said quiet by auto
qed





section \<open>Access\<close>

text \<open>C25. Who gets into \<open>/admin\<close>: a live session or an administrator the edge vouches for, both only
  with the header a cross-site request cannot set (unless reading), or the shared secret as a bearer
  token from a client that is not locked out.\<close>

theorem admin_access_sound:
  assumes "run_state (require_admin_session digest E rq) g = (Inr s, g')"
  shows "(\<exists>t. s = Some t \<and> live_session (hex_sha digest) (ae_now E) g (hr_headers rq) t
            \<and> csrf_header_ok (hr_method rq) (hr_headers rq))
     \<or> (s = None \<and> vouched_admin (ae_cf E) g (hr_headers rq) \<and> csrf_header_ok (hr_method rq) (hr_headers rq))
     \<or> (s = None \<and> bearer_secret digest g (hr_headers rq) \<and> \<not> locked_client E g rq)"
  using assms by (rule require_admin_session_Inr) blast+

theorem admin_access_sound_witness:
  "vouched_admin example_cf_env (example_gate\<lparr>gt_cf := Some example_cf\<rparr>) (hr_headers from_root)"
proof -
  have "fst (run_state (require_admin_session example_digest example_access from_root)
      (example_gate\<lparr>gt_cf := Some example_cf\<rparr>)) = Inr None"
    by code_simp
  then obtain g' where "run_state (require_admin_session example_digest example_access from_root)
      (example_gate\<lparr>gt_cf := Some example_cf\<rparr>) = (Inr None, g')"
    by (metis prod.collapse)
  from admin_access_sound [OF this] have "vouched_admin (ae_cf example_access) (example_gate\<lparr>gt_cf := Some example_cf\<rparr>)
      (hr_headers from_root) \<or> bearer_secret example_digest (example_gate\<lparr>gt_cf := Some example_cf\<rparr>) (hr_headers from_root)"
    by blast
  moreover have "\<not> bearer_secret example_digest (example_gate\<lparr>gt_cf := Some example_cf\<rparr>) (hr_headers from_root)"
    by code_simp
  ultimately show ?thesis by (simp add: example_access_def)
qed

text \<open>C26. Who a caller of \<open>/v1\<close> is taken for: the administrator exactly when the shared secret was
  presented (no user being named so), a user only with a live key of that user, an identity of the
  edge only when vouched for, and nobody in particular only while open access is on.\<close>

theorem caller_is_recognised:
  assumes "run_state (require_bearer digest E rq) g = (Inr c, g')"
    and "ADMIN_USER_ID \<notin> usr_id ` set (t_users (gt_db g))"
  shows "(is_admin c \<longleftrightarrow> presents_secret digest g (hr_headers rq))
     \<and> (caller_user_id c = None \<longleftrightarrow> c = anonymous_caller) \<and> (caller_user_id c = None \<longrightarrow> \<not> gt_require g)
     \<and> (\<forall>i. caller_user_id c = Some i \<longrightarrow> i = ADMIN_USER_ID \<or> presents_key_of digest g (hr_headers rq) i
          \<or> (\<exists>e. vouched (ae_cf E) g (hr_headers rq) e \<and> caller_id e = Some i))"
  using assms(1)
proof (rule require_bearer_Inr)
  assume "c = admin_caller" and "presents_secret digest g (hr_headers rq)"
  then show ?thesis by (simp add: is_admin_def admin_caller_def anonymous_caller_def)
next
  fix i assume c: "c = \<lparr>caller_user_id = Some i\<rparr>" and key: "presents_key_of digest g (hr_headers rq) i"
    and no: "\<not> presents_secret digest g (hr_headers rq)"
  have "i \<noteq> ADMIN_USER_ID"
    using key assms(2) by (auto simp: presents_key_of_def key_of_iff image_iff split: option.splits)
  with c key no show ?thesis by (simp add: is_admin_def anonymous_caller_def)
next
  fix i n assume c: "c = cf_caller n" and v: "vouched (ae_cf E) g (hr_headers rq) i" and n: "caller_id i = Some n"
    and no: "\<not> presents_secret digest g (hr_headers rq)"
  have "n \<noteq> ADMIN_USER_ID" using caller_id_prefix [OF n] by (auto simp: ADMIN_USER_ID_def)
  with c v n no show ?thesis by (auto simp: is_admin_def cf_caller_def anonymous_caller_def)
next
  assume "c = anonymous_caller" and "\<not> gt_require g" and "\<not> presents_secret digest g (hr_headers rq)"
  then show ?thesis by (simp add: is_admin_def anonymous_caller_def)
qed

theorem caller_is_recognised_witness:
  "\<not> is_admin \<lparr>caller_user_id = Some ''cf:root@acme.org''\<rparr>
   \<and> (\<exists>e. vouched example_cf_env (example_gate\<lparr>gt_cf := Some example_cf\<rparr>) (hr_headers from_root) e
       \<and> caller_id e = Some ''cf:root@acme.org'')"
proof -
  have "fst (run_state (require_bearer example_digest example_access from_root) (example_gate\<lparr>gt_cf := Some example_cf\<rparr>))
      = Inr \<lparr>caller_user_id = Some ''cf:root@acme.org''\<rparr>"
    by code_simp
  then obtain g' where "run_state (require_bearer example_digest example_access from_root)
      (example_gate\<lparr>gt_cf := Some example_cf\<rparr>) = (Inr \<lparr>caller_user_id = Some ''cf:root@acme.org''\<rparr>, g')"
    by (metis prod.collapse)
  from caller_is_recognised [OF this] have *: "(is_admin \<lparr>caller_user_id = Some ''cf:root@acme.org''\<rparr>
        \<longleftrightarrow> presents_secret example_digest (example_gate\<lparr>gt_cf := Some example_cf\<rparr>) (hr_headers from_root))
     \<and> (presents_key_of example_digest (example_gate\<lparr>gt_cf := Some example_cf\<rparr>) (hr_headers from_root) ''cf:root@acme.org''
          \<or> (\<exists>e. vouched (ae_cf example_access) (example_gate\<lparr>gt_cf := Some example_cf\<rparr>) (hr_headers from_root) e
             \<and> caller_id e = Some ''cf:root@acme.org''))"
    by (simp add: example_gate_def empty_db_def ADMIN_USER_ID_def)
  have "presented_key (hr_headers from_root) = None" by code_simp
  with * show ?thesis by (simp add: presents_secret_def presents_key_of_def example_access_def)
qed

text \<open>C27. What an identity of the edge rests on: the token has three parts, its header names
  \<open>RS256\<close> and a key, the key is an RSA key the gateway knew or just fetched, the signature over the
  first two parts verifies under it, and the claims name the team, the audience and a current time.\<close>

theorem cf_identity_sound:
  assumes "run_state (identity E h) cf = (Some i, cf')"
  shows "\<exists>ps hdr c key. presented_token h = Some (header_b64 ps @ ''.'' @ payload_b64 ps @ ''.'' @ sig_b64 ps)
     \<and> parts_header E ps = Some hdr \<and> jh_alg hdr = ''RS256'' \<and> jh_kid hdr = Some (jwk_kid key)
     \<and> parts_claims E ps = Some c \<and> claims_current (cfa_cfg cf) c (sint (ce_unix_now E))
     \<and> key \<in> set (cfa_keys cf') \<and> jwk_kty key = ''RSA''
     \<and> (cfa_keys cf' = cfa_keys cf \<or> ce_published E = Some (cfa_keys cf'))
     \<and> signature_ok E ps key \<and> signing_input ps = header_b64 ps @ ''.'' @ payload_b64 ps
     \<and> identity_of c = Some i"
proof -
  from assms obtain ps c kid k where un: "unverified E (cfa_cfg cf) h = Some (ps, c, kid)"
    and key: "run_state (key_for E kid) cf = (Some k, cf')" and sig: "signature_ok E ps k" "identity_of c = Some i"
    by (rule identity_Some)
  from identity_state [of E h cf] have keys: "cfa_keys cf' = cfa_keys cf \<or> ce_published E = Some (cfa_keys cf')"
    by (cases "ce_published E") (auto simp: assms)
  from un obtain hdr where "presented_token h = Some (header_b64 ps @ ''.'' @ payload_b64 ps @ ''.'' @ sig_b64 ps)"
    and "parts_header E ps = Some hdr" and "jh_alg hdr = ''RS256''" and "jh_kid hdr = Some kid"
    and "parts_claims E ps = Some c" and "claims_current (cfa_cfg cf) c (sint (ce_unix_now E))"
    and "signing_input ps = header_b64 ps @ ''.'' @ payload_b64 ps"
    by (rule unverified_Some)
  with sig keys key_for_Some [OF key] show ?thesis by (intro exI [of _ ps] exI [of _ hdr] exI [of _ c] exI [of _ k]) simp
qed

theorem cf_identity_sound_witness:
  "\<exists>ps hdr c key. presented_token [(''cf-access-jwt-assertion'', ''h.p.sig'')]
       = Some (header_b64 ps @ ''.'' @ payload_b64 ps @ ''.'' @ sig_b64 ps)
     \<and> parts_header example_cf_env ps = Some hdr \<and> jh_alg hdr = ''RS256'' \<and> jh_kid hdr = Some (jwk_kid key)
     \<and> parts_claims example_cf_env ps = Some c \<and> claims_current (cfa_cfg example_cf) c (sint (90 :: 64 word))
     \<and> key \<in> set (cfa_keys (fetched example_cf_env example_cf)) \<and> jwk_kty key = ''RSA''
     \<and> (cfa_keys (fetched example_cf_env example_cf) = cfa_keys example_cf
        \<or> ce_published example_cf_env = Some (cfa_keys (fetched example_cf_env example_cf)))
     \<and> signature_ok example_cf_env ps key \<and> signing_input ps = header_b64 ps @ ''.'' @ payload_b64 ps
     \<and> identity_of c = Some \<lparr>cid_email = Some ''root@acme.org'', cid_common_name = None\<rparr>"
proof -
  have "run_state (identity example_cf_env [(''cf-access-jwt-assertion'', ''h.p.sig'')]) example_cf
      = (Some \<lparr>cid_email = Some ''root@acme.org'', cid_common_name = None\<rparr>, fetched example_cf_env example_cf)"
    by code_simp
  from cf_identity_sound [OF this] show ?thesis by (simp add: example_cf_env_def)
qed

text \<open>C28. Sessions end: whatever happened to the stored sessions before, a token is accepted only
  if it was issued less than seven days ago, however often the session was renewed.\<close>

theorem session_lifetime:
  assumes "session_reachable sha (db, iss)"
    and "run_state (validate_session sha now raw) (db\<lparr>db_faults := fs\<rparr>) = (Inr (Some r), db')"
  shows "(sha raw, ses_created_at r) \<in> iss \<and> now < ses_created_at r + ABSOLUTE_LIFETIME"
proof -
  note r = run_validate_Some [OF assms(2)]
  have "session_ok iss r"
    using session_reachable_inv [OF assms(1)] r(1) by (simp add: sessions_inv_def list_all_iff)
  with r(2,3) show ?thesis by (simp add: session_ok_def)
qed

theorem session_lifetime_witness:
  "(''ab'', 5) \<in> {(''ab'', 5 :: int)} \<and> 6 < 5 + ABSOLUTE_LIFETIME"
proof -
  let ?row = "\<lparr>ses_token_hash = ''ab'', ses_created_at = 5, ses_expires_at = 5 + SESSION_TTL\<rparr>"
  let ?db = "empty_db\<lparr>t_sessions := [?row]\<rparr>"
  have new: "run_state (create_session id [0xab] 5) (empty_db\<lparr>db_faults := []\<rparr>) = (Inr (''ab'', 5 + SESSION_TTL), ?db)"
    by (simp add: create_session_def Let_def run_attempt run_query_stmt_ok insert_session_row_def empty_db_def
        hex_byte_def hex_digit_def)
  have "session_step id (empty_db, {}) (?db, {(''ab'', 5)})"
    using session_step.opened [OF _ new, of "{}"] by (simp add: hex_byte_def hex_digit_def)
  then have "session_reachable id (?db, {(''ab'', 5)})"
    by (rule session_reachable.step [OF session_reachable.start])
  moreover have "run_state (validate_session id 6 ''ab'') (?db\<lparr>db_faults := []\<rparr>)
      = (Inr (Some ?row), ?db)"
    by (simp add: validate_session_def run_attempt row_with_def empty_db_def SESSION_TTL_def)
  ultimately show ?thesis using session_lifetime [of id ?db "{(''ab'', 5)}" 6 "''ab''" "[]"] by simp
qed

section \<open>Selection\<close>



text \<open>C30. Round robin is fair: with sticky limit \<open>L\<close> the \<open>i\<close>-th selection of a fresh pool of \<open>n\<close>
  members tries first the member number \<open>(i div L) mod n\<close> of the priority order.\<close>

theorem round_robin_fair:
  assumes "pool_strategy p = RoundRobin" and "1 < length ms" and "0 < sticky_of p"
  shows "heads p ms [] k =
     map (\<lambda>i. sort_key mem_priority ms ! ((i div sticky_of p) mod length ms)) [0..<k]"
  using heads_eq [OF assms, of "[]" 0 k] by (simp add: store_simps represents_default dm_ok_def)

theorem round_robin_fair_witness:
  "map mem_provider_id (heads ring [member_of ''ring'' ''beta'' 2, member_of ''ring'' ''alpha'' 1] [] 5)
     = [''alpha'', ''alpha'', ''beta'', ''beta'', ''alpha'']"
proof -
  let ?ms = "[member_of ''ring'' ''beta'' 2, member_of ''ring'' ''alpha'' 1]"
  have 1: "pool_strategy ring = RoundRobin" and 2: "1 < length ?ms" by (simp_all add: ring_def)
  have L: "sticky_of ring = 2" by code_simp
  then have 3: "0 < sticky_of ring" by simp
  have "map mem_provider_id (map (\<lambda>i. sort_key mem_priority ?ms ! ((i div 2) mod length ?ms)) [0..<5])
      = [''alpha'', ''alpha'', ''beta'', ''beta'', ''alpha'']" by code_simp
  then show ?thesis by (simp only: round_robin_fair [OF 1 2 3, of 5] L)
qed

section \<open>Reasoning effort\<close>

section \<open>The configuration\<close>





section \<open>Providers and their probes\<close>

text \<open>C33. An edit of a provider takes effect at once: when creating, editing, disconnecting or deleting a provider is
  answered with success, the proxy routes by the tables as they are now, the provider is known or
  gone accordingly, each of its pairs may be called again, and no other pair's health is touched.\<close>

theorem provider_edits_take_effect:
  assumes "dm_ok (app_runtime a)"
    and "run_state (provider_create X b) a = (Inr j, a') \<and> i = trim (cb_id b) \<or> run_state (provider_edit X i patch) a = (Inr j, a')
       \<or> run_state (disconnect_oauth i) a = (Inr (), a') \<or> run_state (provider_remove i) a = (Inr (), a')"
  shows "ap_snapshot a' = snapshot_of (app_db a')
     \<and> (find_provider (ap_snapshot a') i = None \<longleftrightarrow> run_state (provider_remove i) a = (Inr (), a'))
     \<and> (\<forall>model now. callable (app_runtime a') (runtime_key i model) now)
     \<and> (\<forall>k. \<not> starts_with k (runtime_key_prefix i) \<longrightarrow> dm_get (app_runtime a') k = dm_get (app_runtime a) k)"
proof -
  let ?removed = "run_state (provider_remove i) a = (Inr (), a')"
  consider (kept) "ap_snapshot a' = snapshot_of (app_db a')" "has_provider i (app_db a')"
      "app_runtime a' = reset_provider_to_healthy (app_runtime a) i"
    | (removed) ?removed
    using assms(2) create_takes_effect edit_takes_effect disconnect_takes_effect by metis
  then show ?thesis
  proof cases
    case kept
    then have "\<not> ?removed" using remove_takes_effect by blast
    with kept fresh_start_reset [of i "app_runtime a"] show ?thesis by (simp add: fresh_start_def find_provider_snapshot)
  next
    case removed
    with remove_takes_effect [OF removed] fresh_start_retain [OF assms(1), of i] show ?thesis
      by (simp add: fresh_start_def find_provider_snapshot)
  qed
qed

theorem provider_edits_take_effect_witness:
  "find_provider (ap_snapshot (snd (run_state (provider_remove ''alpha'') example_app))) ''alpha'' = None"
proof -
  let ?a' = "snd (run_state (provider_remove ''alpha'') example_app)"
  have ok: "dm_ok (app_runtime example_app)" by code_simp
  have "fst (run_state (provider_remove ''alpha'') example_app) = Inr ()" by code_simp
  then have run: "run_state (provider_remove ''alpha'') example_app = (Inr (), ?a')" by (metis prod.collapse)
  from provider_edits_take_effect [where a = example_app and a' = ?a' and i = "''alpha''", OF ok] run
  show ?thesis by blast
qed

text \<open>C34. A probe clears health flags only with proof: whatever the test of an endpoint or of a model meets, it sends at most
  two requests, changes neither tables nor snapshot, and leaves the health of every pair as it was
  unless it tells the administrator of a success, and then the last request it sent was answered with
  a 2xx.\<close>

theorem recovery_is_proven:
  assumes "run_state (test_stub X i) a = (r, a') \<and> healed = told_reached r
       \<or> run_state (validate_model X i model) a = (r, a') \<and> healed = told_ok r"
  shows "\<exists>new. ap_sent a' = ap_sent a @ new \<and> length new \<le> 2
     \<and> app_runtime a' = (if healed then reset_provider_to_healthy (app_runtime a) i else app_runtime a)
     \<and> (healed \<longrightarrow> proven X new)
     \<and> ap_snapshot a' = ap_snapshot a \<and> (\<exists>fs. app_db a' = (app_db a)\<lparr>db_faults := fs\<rparr>)"
proof -
  have "\<exists>new. heals X i healed new a a'"
    using assms test_heals [of X i a r a'] validate_heals [of X i model a r a'] by blast
  then obtain new where "heals X i healed new a a'" ..
  then show ?thesis unfolding heals_def by blast
qed

theorem recovery_is_proven_witness:
  "\<exists>new. ap_sent (snd (run_state (test_stub example_outside ''alpha'') example_app)) = new
     \<and> proven example_outside new
     \<and> dm_get (app_runtime (snd (run_state (test_stub example_outside ''alpha'') example_app))) (runtime_key ''alpha'' ''gpt-5'')
         = Some default_runtime"
proof -
  let ?run = "run_state (test_stub example_outside ''alpha'') example_app"
  have told: "told_reached (fst ?run)" by code_simp
  from recovery_is_proven [where X = example_outside and i = "''alpha''" and a = example_app and r = "fst ?run" and a' = "snd ?run"
      and healed = True] told obtain new where
    "ap_sent (snd ?run) = ap_sent example_app @ new" "proven example_outside new"
    "app_runtime (snd ?run) = reset_provider_to_healthy (app_runtime example_app) ''alpha''" by auto
  moreover have "ap_sent example_app = []" by (simp add: example_app_def app_with_def)
  moreover have "dm_get (reset_provider_to_healthy (app_runtime example_app) ''alpha'') (runtime_key ''alpha'' ''gpt-5'') = Some default_runtime"
    by code_simp
  ultimately show ?thesis by simp
qed

text \<open>C35. Stored keys stay inside: two states that differ only in tokens and in what API keys hold beyond their masks answer
  every sequence of requests for providers alike; a mask shows at most the last four characters, of a
  key that has more than eight; and a provider that is only a form is tried without looking at the
  tables, so it cannot carry a stored key anywhere.\<close>

theorem stored_keys_stay_inside:
  assumes "same_app a b"
  shows "fst (run_state (serve_providers X rs) a) = fst (run_state (serve_providers X rs) b)
     \<and> (mask_key k = ''***'' \<or> (\<exists>rest shown. k = rest @ shown \<and> mask_key k = ''***'' @ shown
          \<and> length (chars shown) = 4 \<and> 4 < length (chars rest)))
     \<and> needs_no_tables (test_draft X d) \<and> needs_no_tables (validate_model_preview X wire base key model)
     \<and> needs_no_tables (list_models_preview X wire base key)"
  using relatedD [OF related_serves assms] mask_key_shows [of k] forms_need_no_tables by blast

theorem stored_keys_stay_inside_witness:
  "fst (run_state (serve_providers example_outside [ListProviders, GetProvider ''alpha'', Disconnect ''alpha'']) (app_with (keyed_db ''sk-11-secret-7890'')))
   = fst (run_state (serve_providers example_outside [ListProviders, GetProvider ''alpha'', Disconnect ''alpha'']) (app_with (keyed_db ''other-key-7890'')))"
proof -
  have "mask_key ''sk-11-secret-7890'' = mask_key ''other-key-7890''" by code_simp
  from stored_keys_stay_inside [OF keyed_same [OF this]] show ?thesis by blast
qed

section \<open>User keys\<close>

text \<open>C36. Revocation is for good: after it, no sequence of creations, rotations, revocations, logins and imports,
  under any database failures, makes any key work for that user again.\<close>

theorem revocation_is_final:
  assumes "users_ok (t_users db)" and "run_state (revoke_user now i) db = (Inr u, db1)"
    and "users_later sha db1 db'"
  shows "\<not> key_of db' h i"
proof -
  have "revoked i db1" by (rule revoke_user_revoked [OF assms(1,2)])
  from revoked_no_key [OF revoked_forever [OF assms(3) this]] show ?thesis .
qed

theorem revocation_is_final_witness:
  "\<not> key_of (user_db id (Authenticate 9 ''h'') (snd (run_state (revoke_user 7 ''u'')
      (empty_db\<lparr>t_users := [revoked_row\<lparr>usr_revoked_at := None\<rparr>]\<rparr>)))) ''h'' ''u''"
proof -
  let ?db = "empty_db\<lparr>t_users := [revoked_row\<lparr>usr_revoked_at := None\<rparr>]\<rparr>"
  let ?run = "run_state (revoke_user 7 ''u'') ?db"
  have ok: "users_ok (t_users ?db)" by (simp add: users_ok_def)
  have run: "?run = (Inr (projr (fst ?run)), snd ?run)" by code_simp
  have "db_faults (snd ?run) = []" by code_simp
  then have "(snd ?run)\<lparr>db_faults := []\<rparr> = snd ?run" by simp
  then have "users_later id (snd ?run) (user_db id (Authenticate 9 ''h'') (snd ?run))"
    using users_later.step [OF users_later.here, of id "snd ?run" "Authenticate 9 ''h''" "[]"] by (simp only:)
  from revocation_is_final [OF ok run this] show ?thesis .
qed

section \<open>Telemetry\<close>


text \<open>C38. What is kept in memory for the counts is bounded: however long an answer and its lines are, the scanner never holds
  more than a mebibyte of a line and four of the body, and the map of cache keys never more than 4096 keys.\<close>

theorem telemetry_bounded:
  "length (sn_line (foldl (scanner_feed parse) new_scanner chunks)) \<le> 2 ^ 20
   \<and> length (sn_body (foldl (scanner_feed parse) new_scanner chunks)) \<le> 4 * 2 ^ 20
   \<and> length (snd (foldl (\<lambda>(trace, seen) (now, k). note_key sha now k seen) (z, []) uses)) \<le> 4096"
proof -
  have "length (sn_line (foldl (scanner_feed parse) s chunks)) \<le> MAX_LINE \<and> length (sn_body (foldl (scanner_feed parse) s chunks)) \<le> MAX_BODY"
    if "length (sn_line s) \<le> MAX_LINE" "length (sn_body s) \<le> MAX_BODY" for s
    using that by (induction chunks arbitrary: s) (simp_all add: scanner_bounded)
  from this [of new_scanner] have "length (sn_line (foldl (scanner_feed parse) new_scanner chunks)) \<le> MAX_LINE
      \<and> length (sn_body (foldl (scanner_feed parse) new_scanner chunks)) \<le> MAX_BODY"
    by (simp add: new_scanner_def)
  moreover have "length (snd (foldl (\<lambda>(trace, seen) (now, k). note_key sha now k seen) a uses)) \<le> MAX_KEYS"
    if "length (snd a) \<le> MAX_KEYS" for a
    using that by (induction uses arbitrary: a) (simp_all add: note_key_bounded case_prod_unfold)
  then have "length (snd (foldl (\<lambda>(trace, seen) (now, k). note_key sha now k seen) (z, []) uses)) \<le> MAX_KEYS" by simp
  ultimately show ?thesis by (simp add: MAX_LINE_def MAX_BODY_def MAX_KEYS_def)
qed



text \<open>C40. The request log keeps what it is sent: whatever the batch size and whenever entries arrive, the writer
  adds entries it was sent in their order, never one twice, and all of them when the database accepts
  every statement; no other table is touched.\<close>

theorem request_log_complete:
  "appends (queue @ concat arrivals) db (snd (run_state (writer batch clock n queue arrivals) db))"
  by (rule writer_appends)

end
